(* ===== verification/Prelude.thy ===== *)
theory Prelude
  imports Main "HOL-Library.AList" "HOL-Library.Sublist" "HOL-Library.Char_ord" "HOL-Library.List_Lexorder"
begin

text \<open>
  Shared vocabulary of the development: Go strings as byte lists (\<open>string\<close>, one
  \<open>char\<close> per byte), the pieces of package \<open>strings\<close> and \<open>strconv\<close> the program
  calls, Go maps as association lists whose order is one iteration order, optional
  errors (\<open>None\<close> is Go's nil error) and the loops that stop at the first error, the
  dynamically typed values of \<open>map[string]any\<close>, and instants of \<open>time.Time\<close> as
  nanoseconds.
\<close>

named_theorems string_lib \<open>rewriting rules for the string library\<close>
named_theorems err_lib \<open>rules for first-error loops\<close>

section \<open>Errors and loops\<close>

type_synonym time = int  \<comment> \<open>nanoseconds since the Unix epoch\<close>
type_synonym 'v gomap = "(string \<times> 'v) list"

text \<open>Go's zero \<open>time.Time\<close>: year 1, the value \<open>IsZero\<close> recognises.\<close>

definition tempo_zero :: time where
  "tempo_zero = - 62135596800 * 1000000000"

text \<open>\<open>int64\<close> arithmetic: the result wrapped to a signed 64-bit value.\<close>

definition int64 :: "int \<Rightarrow> int" where
  "int64 x = (x + 2 ^ 63) mod 2 ^ 64 - 2 ^ 63"

text \<open>Sequencing of two checks that return an error or nil.\<close>

definition entao :: "'e option \<Rightarrow> 'e option \<Rightarrow> 'e option" where
  "entao a b = (case a of Some e \<Rightarrow> Some e | None \<Rightarrow> b)"

text \<open>\<open>for _, x := range xs { if err := f(x); err != nil { return err } }\<close>\<close>

fun para_cada :: "('a \<Rightarrow> 'e option) \<Rightarrow> 'a list \<Rightarrow> 'e option" where
  "para_cada f [] = None"
| "para_cada f (x # xs) = (case f x of Some e \<Rightarrow> Some e | None \<Rightarrow> para_cada f xs)"

lemma entao_None [simp, err_lib]: "entao a b = None \<longleftrightarrow> a = None \<and> b = None"
  by (cases a) (auto simp: entao_def)

lemma entao_Some_left [simp]: "entao (Some e) b = Some e"
  by (simp add: entao_def)

lemma entao_None_left [simp]: "entao None b = b"
  by (simp add: entao_def)

lemma para_cada_None [simp, err_lib]:
  "para_cada f xs = None \<longleftrightarrow> (\<forall>x \<in> set xs. f x = None)"
  by (induction xs) (auto split: option.splits)

lemma para_cada_Some:
  "para_cada f xs = Some e \<Longrightarrow> \<exists>x \<in> set xs. f x = Some e"
  by (induction xs) (auto split: option.splits)

section \<open>Bytes and strings\<close>

definition byte :: "char \<Rightarrow> nat" where
  "byte c = of_char c"

definition digito :: "char \<Rightarrow> bool" where
  "digito c \<longleftrightarrow> 48 \<le> byte c \<and> byte c \<le> 57"

definition minuscula :: "char \<Rightarrow> bool" where
  "minuscula c \<longleftrightarrow> 97 \<le> byte c \<and> byte c \<le> 122"

definition maiuscula :: "char \<Rightarrow> bool" where
  "maiuscula c \<longleftrightarrow> 65 \<le> byte c \<and> byte c \<le> 90"

lemmas byte_classes = digito_def minuscula_def maiuscula_def byte_def

text \<open>
  \<open>strings.TrimSpace\<close>. The white space of package \<open>unicode\<close> is six ASCII bytes and
  the UTF-8 encodings of U+0085, U+00A0, U+1680, U+2000 to U+200A, U+2028, U+2029,
  U+202F, U+205F and U+3000.
\<close>

definition espaco_ascii :: "char \<Rightarrow> bool" where
  "espaco_ascii c \<longleftrightarrow> (9 \<le> byte c \<and> byte c \<le> 13) \<or> byte c = 32"

definition espacos_utf8 :: "nat list list" where
  "espacos_utf8 =
     [[0xC2, 0x85], [0xC2, 0xA0], [0xE1, 0x9A, 0x80], [0xE2, 0x80, 0xA8], [0xE2, 0x80, 0xA9],
      [0xE2, 0x80, 0xAF], [0xE2, 0x81, 0x9F], [0xE3, 0x80, 0x80]]
     @ map (\<lambda>b. [0xE2, 0x80, b]) [0x80 ..< 0x8B]"

text \<open>How many bytes of white space a byte list starts with, given the encodings.\<close>

definition comeca_branco :: "nat list list \<Rightarrow> string \<Rightarrow> nat" where
  "comeca_branco ws s =
     (case s of [] \<Rightarrow> 0
      | c # _ \<Rightarrow> if espaco_ascii c then 1
                else (case find (\<lambda>w. take (length w) (map byte s) = w) ws of
                        Some w \<Rightarrow> length w | None \<Rightarrow> 0))"

function apara :: "nat list list \<Rightarrow> string \<Rightarrow> string" where
  "apara ws s = (if comeca_branco ws s = 0 \<or> s = [] then s
                 else apara ws (drop (comeca_branco ws s) s))"
  by pat_completeness auto
termination
  by (relation "measure (\<lambda>(ws, s). length s)") auto

declare apara.simps [simp del]

definition trim_space :: "string \<Rightarrow> string" where
  "trim_space s = rev (apara (map rev espacos_utf8) (rev (apara espacos_utf8 s)))"

text \<open>\<open>strings.Join\<close>\<close>

fun join :: "string \<Rightarrow> string list \<Rightarrow> string" where
  "join sep [] = []"
| "join sep [x] = x"
| "join sep (x # y # ys) = x @ sep @ join sep (y # ys)"

text \<open>\<open>strings.Split\<close> on a one-byte separator.\<close>

fun split_on :: "char \<Rightarrow> string \<Rightarrow> string list" where
  "split_on c [] = [[]]"
| "split_on c (x # xs) =
     (if x = c then [] # split_on c xs
      else (case split_on c xs of [] \<Rightarrow> [[x]] | p # ps \<Rightarrow> (x # p) # ps))"

text \<open>\<open>strings.Cut\<close> on a one-byte separator: \<open>None\<close> is \<open>found = false\<close>.\<close>

fun cut :: "char \<Rightarrow> string \<Rightarrow> (string \<times> string) option" where
  "cut c [] = None"
| "cut c (x # xs) =
     (if x = c then Some ([], xs)
      else (case cut c xs of None \<Rightarrow> None | Some (a, b) \<Rightarrow> Some (x # a, b)))"

text \<open>\<open>strings.LastIndex\<close> used to cut at the last separator.\<close>

fun cut_last :: "char \<Rightarrow> string \<Rightarrow> (string \<times> string) option" where
  "cut_last c [] = None"
| "cut_last c (x # xs) =
     (case cut_last c xs of
        Some (a, b) \<Rightarrow> Some (x # a, b)
      | None \<Rightarrow> if x = c then Some ([], xs) else None)"

definition trim_left_of :: "char \<Rightarrow> string \<Rightarrow> string" where
  "trim_left_of c s = dropWhile (\<lambda>x. x = c) s"

definition trim_right_of :: "char \<Rightarrow> string \<Rightarrow> string" where
  "trim_right_of c s = rev (dropWhile (\<lambda>x. x = c) (rev s))"

definition to_lower :: "char \<Rightarrow> char" where
  "to_lower c = (if maiuscula c then char_of (byte c + 32) else c)"

text \<open>\<open>sort.Strings\<close>: the bytewise order.\<close>

definition sort_strings :: "string list \<Rightarrow> string list" where
  "sort_strings xs = sort xs"

definition contem_sub :: "string \<Rightarrow> string \<Rightarrow> bool" where
  "contem_sub p s \<longleftrightarrow> sublist p s"

lemma split_on_not_Nil [simp]: "split_on c s \<noteq> []"
  by (induction s) (auto split: list.splits)

lemma join_split_on [string_lib]: "join [c] (split_on c s) = s"
proof (induction s)
  case Nil
  then show ?case by simp
next
  case (Cons x xs)
  obtain p ps where e: "split_on c xs = p # ps"
    by (cases "split_on c xs") auto
  with Cons.IH show ?case
    by (cases ps) auto
qed

lemma split_on_sem_sep: "p \<in> set (split_on c s) \<Longrightarrow> c \<notin> set p"
  by (induction s arbitrary: p) (auto split: list.splits if_splits)

lemma split_on_inteiro: "c \<notin> set p \<Longrightarrow> split_on c p = [p]"
  by (induction p) auto

lemma split_on_prefixo: "c \<notin> set p \<Longrightarrow> split_on c (p @ c # r) = p # split_on c r"
  by (induction p) auto

lemma join_snoc: "join sep (xs @ [x]) = (if xs = [] then x else join sep xs @ sep @ x)"
  by (induction sep xs rule: join.induct) auto

lemma split_on_join [string_lib]:
  "ps \<noteq> [] \<Longrightarrow> \<forall>p \<in> set ps. c \<notin> set p \<Longrightarrow> split_on c (join [c] ps) = ps"
proof (induction "[c]" ps rule: join.induct)
  case (2 x)
  have "c \<notin> set x \<Longrightarrow> split_on c x = [x]" for x
    by (induction x) auto
  with 2 show ?case by simp
next
  case (3 x y ys)
  have "c \<notin> set x \<Longrightarrow> split_on c (x @ c # r) = x # split_on c r" for x r
    by (induction x) auto
  with 3 show ?case by simp
qed simp

lemma cut_SomeD: "cut c s = Some (a, b) \<Longrightarrow> s = a @ c # b \<and> c \<notin> set a"
  by (induction s arbitrary: a) (auto split: if_splits option.splits)

lemma cut_append: "c \<notin> set a \<Longrightarrow> cut c (a @ c # b) = Some (a, b)"
  by (induction a) auto

lemma cut_Some_iff [string_lib]:
  "cut c s = Some (a, b) \<longleftrightarrow> s = a @ c # b \<and> c \<notin> set a"
  using cut_SomeD [of c s a b] cut_append [of c a b] by blast

lemma cut_None_iff [string_lib]: "cut c s = None \<longleftrightarrow> c \<notin> set s"
  by (induction s) (auto split: option.splits)

lemma cut_last_None_iff [string_lib]: "cut_last c s = None \<longleftrightarrow> c \<notin> set s"
  by (induction s) (auto split: option.splits)

lemma cut_last_SomeD: "cut_last c s = Some (a, b) \<Longrightarrow> s = a @ c # b \<and> c \<notin> set b"
  by (induction s arbitrary: a) (auto split: if_splits option.splits simp: cut_last_None_iff)

lemma cut_last_append: "c \<notin> set b \<Longrightarrow> cut_last c (a @ c # b) = Some (a, b)"
proof (induction a)
  case Nil
  then have "cut_last c b = None" by (simp add: cut_last_None_iff)
  then show ?case by simp
qed simp

lemma cut_last_Some_iff [string_lib]:
  "cut_last c s = Some (a, b) \<longleftrightarrow> s = a @ c # b \<and> c \<notin> set b"
  using cut_last_SomeD [of c s a b] cut_last_append [of c b a] by blast

section \<open>Decimal integers\<close>

definition digito_de :: "nat \<Rightarrow> char" where
  "digito_de d = char_of (48 + d)"

fun show_nat :: "nat \<Rightarrow> string" where
  "show_nat n = (if n < 10 then [digito_de n] else show_nat (n div 10) @ [digito_de (n mod 10)])"

declare show_nat.simps [simp del]

definition show_int :: "int \<Rightarrow> string" where
  "show_int i = (if i < 0 then CHR ''-'' # show_nat (nat (- i)) else show_nat (nat i))"

text \<open>
  \<open>strconv.Atoi\<close> on a 64-bit platform: an optional sign, at least one digit, and the
  value in range; \<open>None\<close> is the error.
\<close>

definition valor_digitos :: "string \<Rightarrow> nat" where
  "valor_digitos = foldl (\<lambda>n c. 10 * n + (byte c - 48)) 0"

definition atoi :: "string \<Rightarrow> int option" where
  "atoi s =
     (let neg = (s \<noteq> [] \<and> hd s = CHR ''-'');
          ds = (if s \<noteq> [] \<and> (hd s = CHR ''-'' \<or> hd s = CHR ''+'') then tl s else s);
          v = (if neg then - int (valor_digitos ds) else int (valor_digitos ds))
      in if ds \<noteq> [] \<and> list_all digito ds \<and> - (2 ^ 63) \<le> v \<and> v < 2 ^ 63 then Some v else None)"

lemma byte_digito_de [simp]: "d < 10 \<Longrightarrow> byte (digito_de d) = 48 + d"
  by (simp add: byte_def digito_de_def)

lemma digito_digito_de [simp]: "d < 10 \<Longrightarrow> digito (digito_de d)"
  by (simp add: digito_def)

lemma show_nat_not_Nil [simp]: "show_nat n \<noteq> []"
  by (subst show_nat.simps) simp

lemma show_nat_digitos: "list_all digito (show_nat n)"
proof (induction n rule: show_nat.induct)
  case (1 n)
  then show ?case
    by (cases "n < 10") (simp_all add: show_nat.simps [of n])
qed

lemma valor_show_nat [simp]: "valor_digitos (show_nat n) = n"
proof (induction n rule: show_nat.induct)
  case (1 n)
  then show ?case
    by (cases "n < 10") (simp_all add: show_nat.simps [of n] valor_digitos_def)
qed

lemma show_nat_inj: "show_nat m = show_nat n \<Longrightarrow> m = n"
  by (metis valor_show_nat)

lemma digito_nao_sinal: "digito c \<Longrightarrow> c \<noteq> CHR ''-'' \<and> c \<noteq> CHR ''+'' \<and> c \<noteq> CHR ''|''"
  by (auto simp: digito_def byte_def)

lemma atoi_show_int:
  assumes "- (2 ^ 63) \<le> i" and "i < 2 ^ 63"
  shows "atoi (show_int i) = Some i"
proof -
  have d: "list_all digito (show_nat n)" for n by (rule show_nat_digitos)
  have h: "hd (show_nat n) \<noteq> CHR ''-'' \<and> hd (show_nat n) \<noteq> CHR ''+''" for n
  proof -
    have "digito (hd (show_nat n))"
      using d [of n] show_nat_not_Nil [of n] by (cases "show_nat n") auto
    then show ?thesis using digito_nao_sinal by blast
  qed
  show ?thesis
  proof (cases "i < 0")
    case True
    with assms d show ?thesis
      by (simp add: atoi_def show_int_def Let_def)
  next
    case False
    with assms d h [of "nat i"] show ?thesis
      by (simp add: atoi_def show_int_def Let_def)
  qed
qed

section \<open>Maps in iteration order\<close>

text \<open>
  A Go map is an association list; its order stands for one iteration order, and the
  facts that matter are stated of \<open>map_of\<close>. \<open>poe\<close> is \<open>m[k] = v\<close>.
\<close>

definition poe :: "string \<Rightarrow> 'v \<Rightarrow> 'v gomap \<Rightarrow> 'v gomap" where
  "poe k v m = AList.update k v m"

definition poe_todos :: "'v gomap \<Rightarrow> 'v gomap \<Rightarrow> 'v gomap" where
  "poe_todos novos m = fold (\<lambda>(k, v). poe k v) novos m"

definition mapa_ok :: "'v gomap \<Rightarrow> bool" where
  "mapa_ok m \<longleftrightarrow> distinct (map fst m)"

lemma map_of_poe [simp]: "map_of (poe k v m) = (map_of m)(k \<mapsto> v)"
  by (simp add: poe_def update_conv')

lemma dom_map_of_poe: "dom (map_of (poe k v m)) = insert k (dom (map_of m))"
  by simp

lemma mapa_ok_poe [simp]: "mapa_ok m \<Longrightarrow> mapa_ok (poe k v m)"
  by (simp add: mapa_ok_def poe_def distinct_update)

lemma poe_todos_Nil [simp]: "poe_todos [] m = m"
  by (simp add: poe_todos_def)

lemma poe_todos_Cons [simp]: "poe_todos ((k, v) # xs) m = poe_todos xs (poe k v m)"
  by (simp add: poe_todos_def)

lemma mapa_ok_poe_todos [simp]: "mapa_ok m \<Longrightarrow> mapa_ok (poe_todos n m)"
  by (induction n arbitrary: m) auto

lemma map_of_poe_todos:
  "mapa_ok n \<Longrightarrow> map_of (poe_todos n m) = map_of m ++ map_of n"
proof (induction n arbitrary: m)
  case (Cons p n)
  obtain k v where p: "p = (k, v)" by (cases p)
  from Cons.prems p have ok: "mapa_ok n" and fresh: "map_of n k = None"
    by (auto simp: mapa_ok_def map_of_eq_None_iff)
  show ?case
    using fresh by (auto simp: p Cons.IH [OF ok] map_add_def fun_eq_iff split: option.splits)
qed simp

section \<open>Values of type any\<close>

datatype valor =
    VNil
  | VBool bool
  | VText string
  | VNum string  \<comment> \<open>a number, by its literal\<close>
  | VList "valor list"
  | VObj "(string \<times> valor) list"

end
