(* ===== verification/Valores.thy ===== *)
theory Valores
  imports Prelude Complex_Main
begin

text \<open>
  The values the development kit moves: \<open>any\<close> as the decoders fill it, \<open>float64\<close> by its value, and the
  runes of UTF-8. Formatting and parsing floating point numbers (\<open>strconv.FormatFloat\<close> with the shortest
  decimal, \<open>strconv.ParseFloat\<close>) and printing with \<open>fmt.Sprint\<close> are the functions of a record \<open>strconv\<close>.
\<close>

section \<open>Numbers\<close>

datatype go_float = FNaN | FInf bool | FNegZero | FFin rat

definition numerico :: "char \<Rightarrow> bool" where
  "numerico c \<longleftrightarrow> digito c \<or> c \<in> {CHR ''+'', CHR ''-'', CHR ''.'', CHR ''e'', CHR ''E''}"

section \<open>any\<close>

datatype qualquer =
    QNil
  | QBool bool
  | QText string
  | QNum string                             \<comment> \<open>\<open>json.Number\<close>\<close>
  | QInt int                                \<comment> \<open>the integer types\<close>
  | QFloat32 go_float                       \<comment> \<open>converted to 64 bits\<close>
  | QFloat go_float
  | QList "qualquer list"
  | QMap "(string \<times> qualquer) list"
  | QMapTexto "(string \<times> string) list"     \<comment> \<open>\<open>map[string]string\<close>, which is another type\<close>
  | QOutro string                           \<comment> \<open>a value of another type, by its \<open>fmt.Sprint\<close>\<close>

record strconv =
  sc_formata :: "go_float \<Rightarrow> string"           \<comment> \<open>\<open>FormatFloat(f, 'f', -1, 64)\<close>\<close>
  sc_le :: "string \<Rightarrow> go_float option"         \<comment> \<open>\<open>ParseFloat(s, 64)\<close>, \<open>None\<close> for its error\<close>
  sc_sprint :: "qualquer \<Rightarrow> string"            \<comment> \<open>\<open>fmt.Sprint\<close>\<close>

text \<open>What is documented of them: finite numbers are written with digits, signs and a point, and a text of digits, signs, points and exponents is never read as an infinity or NaN.\<close>

definition strconv_ok :: "strconv \<Rightarrow> bool" where
  "strconv_ok sc \<longleftrightarrow>
     (\<forall>f. f = FNegZero \<or> (\<exists>q. f = FFin q) \<longrightarrow> sc_formata sc f \<noteq> [] \<and> list_all numerico (sc_formata sc f)) \<and>
     (\<forall>s f. list_all numerico s \<and> sc_le sc s = Some f \<longrightarrow> f = FNegZero \<or> (\<exists>q. f = FFin q))"

section \<open>Runes\<close>

definition continua :: "nat \<Rightarrow> bool" where
  "continua b \<longleftrightarrow> 0x80 \<le> b \<and> b \<le> 0xBF"

text \<open>\<open>utf8.DecodeRuneInString\<close>: the size of the rune a byte list starts with, \<open>None\<close> for an invalid byte.\<close>

definition runa :: "nat list \<Rightarrow> nat option" where
  "runa s =
     (case s of [] \<Rightarrow> None
      | a # r \<Rightarrow>
          if a < 0x80 then Some 1
          else if 0xC2 \<le> a \<and> a \<le> 0xDF then
            (case r of b # _ \<Rightarrow> if continua b then Some 2 else None | [] \<Rightarrow> None)
          else if 0xE0 \<le> a \<and> a \<le> 0xEF then
            (case r of b # c # _ \<Rightarrow>
               if (if a = 0xE0 then 0xA0 else 0x80) \<le> b \<and> b \<le> (if a = 0xED then 0x9F else 0xBF) \<and> continua c
               then Some 3 else None
             | _ \<Rightarrow> None)
          else if 0xF0 \<le> a \<and> a \<le> 0xF4 then
            (case r of b # c # d # _ \<Rightarrow>
               if (if a = 0xF0 then 0x90 else 0x80) \<le> b \<and> b \<le> (if a = 0xF4 then 0x8F else 0xBF) \<and> continua c \<and> continua d
               then Some 4 else None
             | _ \<Rightarrow> None)
          else None)"

lemma runa_Some:
  assumes "runa (a # r) = Some n" and "128 \<le> a"
  shows "2 \<le> n \<and> n \<le> Suc (length r) \<and> list_all (\<lambda>b. 128 \<le> b) (take n (a # r))"
  using assms unfolding runa_def
  by (auto simp: continua_def split: if_splits list.splits)

text \<open>Reading a text as UTF-8 and writing it again: every invalid byte becomes U+FFFD.\<close>

function repara :: "string \<Rightarrow> string" where
  "repara s =
     (case s of [] \<Rightarrow> []
      | c # r \<Rightarrow>
          (case runa (map byte s) of
             None \<Rightarrow> [CHR 0xEF, CHR 0xBF, CHR 0xBD] @ repara r
           | Some n \<Rightarrow> take (max 1 n) s @ repara (drop (max 1 n) s)))"
  by pat_completeness auto
termination by (relation "measure length") auto

declare repara.simps [simp del]

definition utf8 :: "string \<Rightarrow> bool" where
  "utf8 s \<longleftrightarrow> repara s = s"

lemma repara_ascii: "list_all (\<lambda>c. byte c < 128) s \<Longrightarrow> repara s = s"
  by (induction s) (simp_all add: repara.simps runa_def)

end
