(* ===== verification/Pycompat.thy ===== *)
theory Pycompat
  imports Valores "HOL-Library.Multiset"
begin

text \<open>
  \<open>sdk/internal/jsontext\<close> and \<open>sdk/pycompat\<close>: JSON strings without HTML escapes, the text of a value as
  Python's \<open>str\<close> writes it, and the canonical JSON of a record, from which keys are derived. The second
  half reads the canonical text back, which shows that two records with the same text are the same.
\<close>

section \<open>jsontext.go\<close>

definition hex_de :: "nat \<Rightarrow> char" where
  "hex_de d = ''0123456789abcdef'' ! d"

definition escapa :: "char \<Rightarrow> string" where
  "escapa c =
     (if 0x20 \<le> byte c \<and> c \<noteq> CHR 0x22 \<and> c \<noteq> CHR 0x5C then [c]
      else if c = CHR 0x22 then [CHR 0x5C, CHR 0x22]
      else if c = CHR 0x5C then [CHR 0x5C, CHR 0x5C]
      else if c = CHR 0x0A then [CHR 0x5C, CHR ''n'']
      else if c = CHR 0x0D then [CHR 0x5C, CHR ''r'']
      else if c = CHR 0x09 then [CHR 0x5C, CHR ''t'']
      else [CHR 0x5C, CHR ''u'', CHR ''0'', CHR ''0'', hex_de (byte c div 16), hex_de (byte c mod 16)])"

function json_corpo :: "string \<Rightarrow> string" where
  "json_corpo s =
     (case s of [] \<Rightarrow> []
      | c # r \<Rightarrow>
          if byte c < 0x80 then escapa c @ json_corpo r
          else (case runa (map byte s) of
                  None \<Rightarrow> [CHR 0xEF, CHR 0xBF, CHR 0xBD] @ json_corpo r
                | Some n \<Rightarrow> take (max 1 n) s @ json_corpo (drop (max 1 n) s)))"
  by pat_completeness auto
termination by (relation "measure length") auto

declare json_corpo.simps [simp del]

definition jsonSimples :: "string \<Rightarrow> bool" where
  "jsonSimples s \<longleftrightarrow> list_all (\<lambda>c. \<not> (byte c < 0x20 \<or> c = CHR 0x22 \<or> c = CHR 0x5C \<or> 0x80 \<le> byte c)) s"

definition AppendJSONString :: "string \<Rightarrow> string \<Rightarrow> string" where
  "AppendJSONString dst s =
     (if jsonSimples s then dst @ [CHR 0x22] @ s @ [CHR 0x22]
      else dst @ [CHR 0x22] @ json_corpo s @ [CHR 0x22])"

lemma json_corpo_simples: "jsonSimples s \<Longrightarrow> json_corpo s = s"
  by (induction s) (auto simp: json_corpo.simps jsonSimples_def escapa_def)

lemma AppendJSONString_corpo: "AppendJSONString dst s = dst @ [CHR 0x22] @ json_corpo s @ [CHR 0x22]"
  by (simp add: AppendJSONString_def json_corpo_simples)

section \<open>texto.go\<close>

datatype erro_py = NaoENumero string | Expoente go_float | FloatCru go_float | TipoSemRegra | NoCampo string erro_py | NoIndice nat erro_py

definition forcaExpoente :: "go_float \<Rightarrow> bool" where
  "forcaExpoente f = (case f of FFin q \<Rightarrow> q \<noteq> 0 \<and> (\<bar>q\<bar> < 1 / 10000 \<or> 10 ^ 16 \<le> \<bar>q\<bar>) | FInf _ \<Rightarrow> True | _ \<Rightarrow> False)"

definition floatPython :: "strconv \<Rightarrow> go_float \<Rightarrow> erro_py + string" where
  "floatPython sc f =
     (case f of
        FNaN \<Rightarrow> Inr ''nan''
      | FInf p \<Rightarrow> Inr (if p then ''inf'' else ''-inf'')
      | _ \<Rightarrow>
          if forcaExpoente f then Inl (Expoente f)
          else (let texto = sc_formata sc f in Inr (if CHR ''.'' \<in> set texto then texto else texto @ ''.0'')))"

fun Texto :: "strconv \<Rightarrow> qualquer \<Rightarrow> erro_py + string" where
  "Texto sc QNil = Inr ''None''"
| "Texto sc (QBool b) = Inr (if b then ''True'' else ''False'')"
| "Texto sc (QText s) = Inr s"
| "Texto sc (QNum l) =
     (if list_all (\<lambda>c. c \<notin> {CHR ''.'', CHR ''e'', CHR ''E''}) l then Inr l
      else (case sc_le sc l of None \<Rightarrow> Inl (NaoENumero l) | Some f \<Rightarrow> floatPython sc f))"
| "Texto sc (QInt i) = Inr (show_int i)"
| "Texto sc (QFloat32 f) = floatPython sc f"
| "Texto sc (QFloat f) = (case f of FNaN \<Rightarrow> floatPython sc f | FInf _ \<Rightarrow> floatPython sc f | _ \<Rightarrow> Inl (FloatCru f))"
| "Texto sc (QList _) = Inl TipoSemRegra"
| "Texto sc (QMap _) = Inl TipoSemRegra"
| "Texto sc (QMapTexto _) = Inl TipoSemRegra"
| "Texto sc (QOutro _) = Inl TipoSemRegra"

definition zero :: "go_float \<Rightarrow> bool" where
  "zero f \<longleftrightarrow> f = FNegZero \<or> f = FFin 0"

fun falsoNoPython :: "strconv \<Rightarrow> qualquer \<Rightarrow> bool" where
  "falsoNoPython sc QNil = True"
| "falsoNoPython sc (QBool b) = (\<not> b)"
| "falsoNoPython sc (QText s) = (s = [])"
| "falsoNoPython sc (QNum l) = (case sc_le sc l of None \<Rightarrow> False | Some f \<Rightarrow> zero f)"
| "falsoNoPython sc (QInt i) = (i = 0)"
| "falsoNoPython sc (QFloat32 f) = zero f"
| "falsoNoPython sc (QFloat f) = zero f"
| "falsoNoPython sc (QList vs) = (vs = [])"
| "falsoNoPython sc (QMap m) = (m = [])"
| "falsoNoPython sc (QMapTexto _) = False"
| "falsoNoPython sc (QOutro _) = False"

definition TextoOuVazio :: "strconv \<Rightarrow> qualquer \<Rightarrow> erro_py + string" where
  "TextoOuVazio sc v = (if falsoNoPython sc v then Inr [] else Texto sc v)"

definition TextoAceitandoFloat64 :: "strconv \<Rightarrow> qualquer \<Rightarrow> erro_py + string" where
  "TextoAceitandoFloat64 sc v = (case v of QFloat f \<Rightarrow> floatPython sc f | _ \<Rightarrow> Texto sc v)"

section \<open>canonico.go\<close>

definition ehNumero :: "strconv \<Rightarrow> string \<Rightarrow> bool" where
  "ehNumero sc s \<longleftrightarrow> s \<noteq> [] \<and> sc_le sc s \<noteq> None \<and> list_all (\<lambda>c. c \<notin> {CHR 0x22, CHR 0x27, CHR '' ''}) s"

fun em_ordem :: "(nat \<Rightarrow> 'e \<Rightarrow> 'e) \<Rightarrow> nat \<Rightarrow> ('e + 'a) list \<Rightarrow> 'e + 'a list" where
  "em_ordem f i [] = Inr []"
| "em_ordem f i (Inl e # xs) = Inl (f i e)"
| "em_ordem f i (Inr x # xs) = (case em_ordem f (Suc i) xs of Inl e \<Rightarrow> Inl e | Inr ys \<Rightarrow> Inr (x # ys))"

text \<open>
  \<open>escrever\<close>, without the prefix it appends to. The fields of an object are written in the order of
  their keys; each is rendered first and the sequence stops at the first that fails.
\<close>

fun escrever :: "strconv \<Rightarrow> qualquer \<Rightarrow> erro_py + string" where
  "escrever sc QNil = Inr ''null''"
| "escrever sc (QBool b) = Inr (if b then ''true'' else ''false'')"
| "escrever sc (QText s) = Inr (AppendJSONString [] s)"
| "escrever sc (QMap m) =
     (let campos = sort_key fst (map (\<lambda>(k, v). (k, escrever sc v)) m) in
      case em_ordem (\<lambda>i e. NoCampo (fst (campos ! i)) e) 0
             (map (\<lambda>(k, r). map_sum id (\<lambda>t. AppendJSONString [] k @ '':'' @ t) r) campos) of
        Inl e \<Rightarrow> Inl e | Inr ts \<Rightarrow> Inr (''{'' @ join '','' ts @ ''}''))"
| "escrever sc (QList vs) =
     (case em_ordem NoIndice 0 (map (escrever sc) vs) of
        Inl e \<Rightarrow> Inl e | Inr ts \<Rightarrow> Inr (''['' @ join '','' ts @ '']''))"
| "escrever sc v =
     (case Texto sc v of Inl e \<Rightarrow> Inl e | Inr t \<Rightarrow> if ehNumero sc t then Inr t else Inl TipoSemRegra)"

definition JSONCanonico :: "strconv \<Rightarrow> qualquer \<Rightarrow> erro_py + string" where
  "JSONCanonico sc v = escrever sc v"

section \<open>Reading the canonical text\<close>

definition valor_hex :: "char \<Rightarrow> nat" where
  "valor_hex c = (if digito c then byte c - 48 else byte c - 87)"

text \<open>Reads a string after its opening quote: the text and what follows the closing quote.\<close>

fun ler_texto :: "string \<Rightarrow> (string \<times> string) option" where
  "ler_texto [] = None"
| "ler_texto (c # s) =
     (if c = CHR 0x22 then Some ([], s)
      else if c = CHR 0x5C then
        (case s of
           x # r \<Rightarrow>
             if x = CHR ''u'' then
               (case r of _ # _ # h # l # r' \<Rightarrow>
                  map_option (apfst (Cons (char_of (16 * valor_hex h + valor_hex l)))) (ler_texto r')
                | _ \<Rightarrow> None)
             else map_option (apfst (Cons (if x = CHR ''n'' then CHR 0x0A else if x = CHR ''r'' then CHR 0x0D
                                           else if x = CHR ''t'' then CHR 0x09 else x))) (ler_texto r)
         | [] \<Rightarrow> None)
      else map_option (apfst (Cons c)) (ler_texto s))"

fun ler_valor :: "nat \<Rightarrow> string \<Rightarrow> (qualquer \<times> string) option"
  and ler_itens :: "nat \<Rightarrow> string \<Rightarrow> (qualquer list \<times> string) option"
  and ler_campos :: "nat \<Rightarrow> string \<Rightarrow> ((string \<times> qualquer) list \<times> string) option" where
  "ler_valor 0 s = None"
| "ler_valor (Suc n) s =
     (case s of
        [] \<Rightarrow> None
      | c # r \<Rightarrow>
          if c = CHR ''n'' then Some (QNil, drop 3 r)
          else if c = CHR ''t'' then Some (QBool True, drop 3 r)
          else if c = CHR ''f'' then Some (QBool False, drop 4 r)
          else if c = CHR 0x22 then map_option (apfst QText) (ler_texto r)
          else if c = CHR ''['' then
            (if hd r = CHR '']'' then Some (QList [], tl r) else map_option (apfst QList) (ler_itens n r))
          else if c = CHR ''{'' then
            (if hd r = CHR ''}'' then Some (QMap [], tl r) else map_option (apfst QMap) (ler_campos n r))
          else Some (QNum (takeWhile numerico s), dropWhile numerico s))"
| "ler_itens 0 s = None"
| "ler_itens (Suc n) s =
     (case ler_valor n s of
        None \<Rightarrow> None
      | Some (v, r) \<Rightarrow> if hd r = CHR '','' then map_option (apfst (Cons v)) (ler_itens n (tl r)) else Some ([v], tl r))"
| "ler_campos 0 s = None"
| "ler_campos (Suc n) s =
     (case ler_texto (tl s) of
        None \<Rightarrow> None
      | Some (k, r) \<Rightarrow>
          (case ler_valor n (tl r) of
             None \<Rightarrow> None
           | Some (v, r) \<Rightarrow> if hd r = CHR '','' then map_option (apfst (Cons (k, v))) (ler_campos n (tl r))
                            else Some ([(k, v)], tl r)))"

text \<open>What the canonical text keeps of a value: invalid bytes are replaced, numbers are their text, fields are sorted.\<close>

fun canon :: "strconv \<Rightarrow> qualquer \<Rightarrow> qualquer" where
  "canon sc QNil = QNil"
| "canon sc (QBool b) = QBool b"
| "canon sc (QText s) = QText (repara s)"
| "canon sc (QList vs) = QList (map (canon sc) vs)"
| "canon sc (QMap m) = QMap (map (\<lambda>(k, v). (repara k, v)) (sort_key fst (map (\<lambda>(k, v). (k, canon sc v)) m)))"
| "canon sc v = QNum (case Texto sc v of Inl _ \<Rightarrow> [] | Inr t \<Rightarrow> t)"

text \<open>The values a JSON document gives: literals of numbers, and no raw infinity.\<close>

fun de_json :: "qualquer \<Rightarrow> bool" where
  "de_json (QNum l) = (l \<noteq> [] \<and> list_all numerico l)"
| "de_json (QFloat32 f) = (f = FNegZero \<or> (\<exists>q. f = FFin q))"
| "de_json (QFloat f) = (f = FNegZero \<or> (\<exists>q. f = FFin q))"
| "de_json (QList vs) = list_all de_json vs"
| "de_json (QMap m) = list_all (\<lambda>(_, v). de_json v) m"
| "de_json _ = True"

lemma hex_de_ok:
  assumes "d < 16" shows "valor_hex (hex_de d) = d"
proof -
  have "list_all (\<lambda>d. valor_hex (hex_de d) = d) [0..<16]" by code_simp
  with assms show ?thesis by (simp add: list_all_iff)
qed

lemma ler_escapa: "byte c < 128 \<Longrightarrow> ler_texto (escapa c @ r) = map_option (apfst (Cons c)) (ler_texto r)"
proof -
  assume c: "byte c < 128"
  have "char_of (16 * (byte c div 16) + byte c mod 16) = c" by (simp add: byte_def)
  moreover have "byte c div 16 < 16" "byte c mod 16 < 16" using c by auto
  ultimately show ?thesis by (simp add: escapa_def hex_de_ok)
qed

lemma ler_alto: "list_all (\<lambda>c. 128 \<le> byte c) s \<Longrightarrow> ler_texto (s @ r) = map_option (apfst ((@) s)) (ler_texto r)"
proof (induction s)
  case (Cons c s)
  then have "c \<noteq> CHR 0x22" "c \<noteq> CHR 0x5C" by (auto simp: byte_def)
  with Cons show ?case by (simp add: option.map_comp comp_def apfst_def map_prod_def case_prod_beta)
qed (simp add: option.map_id apfst_def map_prod_def)

lemma ler_corpo: "ler_texto (json_corpo s @ CHR 0x22 # r) = Some (repara s, r)"
proof (induction s rule: length_induct)
  case (1 s)
  show ?case
  proof (cases s)
    case Nil
    then show ?thesis by (simp add: json_corpo.simps repara.simps)
  next
    case (Cons c t)
    have IH: "ler_texto (json_corpo (drop n t) @ CHR 0x22 # r) = Some (repara (drop n t), r)" for n
      using 1 Cons by simp
    note IH0 = IH [of 0, simplified]
    show ?thesis
    proof (cases "byte c < 128")
      case True
      then have "repara s = c # repara t" by (simp add: Cons repara.simps [of "c # t"] runa_def)
      with True show ?thesis by (simp add: Cons json_corpo.simps [of "c # t"] ler_escapa IH0)
    next
      case False
      show ?thesis
      proof (cases "runa (map byte s)")
        case None
        with False have "json_corpo s = [CHR 0xEF, CHR 0xBF, CHR 0xBD] @ json_corpo t"
          "repara s = [CHR 0xEF, CHR 0xBF, CHR 0xBD] @ repara t"
          by (simp_all add: Cons json_corpo.simps [of "c # t"] repara.simps [of "c # t"])
        then show ?thesis by (simp add: IH0)
      next
        case (Some n)
        with False Cons have n: "2 \<le> n" "n \<le> length s" "list_all (\<lambda>b. 128 \<le> b) (take n (map byte s))"
          using runa_Some [of "byte c" "map byte t" n] by simp_all
        from Some False have j: "json_corpo s = take n s @ json_corpo (drop n s)" "repara s = take n s @ repara (drop n s)"
          using n(1) by (simp_all add: Cons json_corpo.simps [of "c # t"] repara.simps [of "c # t"] max_def)
        have a: "list_all (\<lambda>c. 128 \<le> byte c) (take n s)" using n(3) by (simp add: take_map list.pred_map comp_def)
        obtain m where m: "n = Suc m" using n(1) by (cases n) auto
        have "ler_texto (json_corpo (drop n s) @ CHR 0x22 # r) = Some (repara (drop n s), r)" using IH [of m] by (simp add: Cons m)
        moreover have "ler_texto (json_corpo s @ CHR 0x22 # r) =
          map_option (apfst ((@) (take n s))) (ler_texto (json_corpo (drop n s) @ CHR 0x22 # r))"
          using ler_alto [OF a] by (simp only: j(1) append_assoc)
        ultimately show ?thesis by (simp add: j(2))
      qed
    qed
  qed
qed

section \<open>Round trip\<close>

lemma em_ordem_Inr: "em_ordem f i xs = Inr ys \<longleftrightarrow> xs = map Inr ys"
proof (induction f i xs arbitrary: ys rule: em_ordem.induct)
  case (1 f i)
  then show ?case by auto
next
  case (2 f i e xs)
  then show ?case by (cases ys) auto
next
  case (3 f i x xs)
  show ?case
  proof (cases "em_ordem f (Suc i) xs")
    case (Inl e)
    then have "xs \<noteq> map Inr zs" for zs using 3 [of zs] by simp
    then show ?thesis using Inl by (cases ys) auto
  next
    case (Inr zs)
    then have "xs = map Inr zs" using 3 [of zs] by simp
    then show ?thesis using Inr by (cases ys) (auto simp: inj_map_eq_map inj_def)
  qed
qed

lemma insort_apsnd: "insort_key fst (apsnd g p) (map (apsnd g) xs) = map (apsnd g) (insort_key fst p xs)"
  by (induction xs) auto

lemma sort_apsnd: "sort_key fst (map (apsnd g) xs) = map (apsnd g) (sort_key fst xs)"
  by (induction xs) (simp_all add: insort_apsnd)

lemma campos_ordenados: "sort_key fst (map (\<lambda>(k, v). (k, g v)) m) = map (\<lambda>(k, v). (k, g v)) (sort_key fst m)"
  using sort_apsnd [of g m] by (simp add: apsnd_def map_prod_def id_def case_prod_beta)

fun peso :: "qualquer \<Rightarrow> nat" where
  "peso (QList vs) = Suc (sum_list (map (\<lambda>v. Suc (peso v)) vs))"
| "peso (QMap m) = Suc (sum_list (map (\<lambda>(_, v). Suc (peso v)) m))"
| "peso _ = 1"

definition fim :: "string \<Rightarrow> bool" where
  "fim r \<longleftrightarrow> r = [] \<or> \<not> numerico (hd r)"

lemma fim_sep [simp]: "fim (CHR '','' # r)" "fim (CHR '']'' # r)" "fim (CHR ''}'' # r)" "fim []"
  by (simp_all add: fim_def numerico_def digito_def byte_def)

lemma show_int_numerico: "show_int i \<noteq> [] \<and> list_all numerico (show_int i)"
proof -
  have "list_all numerico (show_nat n)" for n using show_nat_digitos [of n] by (auto simp: list_all_iff numerico_def)
  then show ?thesis by (simp add: show_int_def numerico_def)
qed

lemma floatPython_numerico:
  assumes "strconv_ok sc" and "f = FNegZero \<or> (\<exists>q. f = FFin q)" and "floatPython sc f = Inr t"
  shows "t \<noteq> [] \<and> list_all numerico t"
proof -
  have "sc_formata sc f \<noteq> [] \<and> list_all numerico (sc_formata sc f)" using assms(1,2) unfolding strconv_ok_def by blast
  moreover have "numerico (CHR ''.'')" "numerico (CHR ''0'')" by (simp_all add: numerico_def digito_def byte_def)
  ultimately show ?thesis using assms(2,3) by (auto simp: floatPython_def Let_def split: if_splits)
qed

text \<open>The scalars that are written as numbers.\<close>

definition numero :: "qualquer \<Rightarrow> bool" where
  "numero v \<longleftrightarrow> (case v of QNum _ \<Rightarrow> True | QInt _ \<Rightarrow> True | QFloat32 _ \<Rightarrow> True | QFloat _ \<Rightarrow> True | QMapTexto _ \<Rightarrow> True | QOutro _ \<Rightarrow> True | _ \<Rightarrow> False)"

lemma escrever_numero:
  assumes "strconv_ok sc" and "numero v" and "de_json v" and "escrever sc v = Inr t"
  shows "t \<noteq> [] \<and> list_all numerico t \<and> canon sc v = QNum t"
proof -
  have T: "Texto sc v = Inr t" and c: "canon sc v = QNum (case Texto sc v of Inl _ \<Rightarrow> [] | Inr t \<Rightarrow> t)"
    using assms(2,4) by (cases v; auto simp: numero_def split: sum.splits if_splits)+
  have "t \<noteq> [] \<and> list_all numerico t"
  proof (cases v)
    case (QNum l)
    then have l: "l \<noteq> []" "list_all numerico l" using assms(3) by simp_all
    show ?thesis
    proof (cases "list_all (\<lambda>c. c \<notin> {CHR ''.'', CHR ''e'', CHR ''E''}) l")
      case True
      then show ?thesis using T QNum l by (simp split: if_splits)
    next
      case False
      then obtain f where f: "sc_le sc l = Some f" "floatPython sc f = Inr t"
        using T QNum by (cases "sc_le sc l") (auto split: if_splits)
      then have "f = FNegZero \<or> (\<exists>q. f = FFin q)" using assms(1) l unfolding strconv_ok_def by blast
      then show ?thesis using floatPython_numerico [OF assms(1) _ f(2)] by simp
    qed
  qed (use T assms floatPython_numerico [OF assms(1)] show_int_numerico in \<open>auto simp: numero_def split: go_float.splits\<close>)
  with T c show ?thesis by simp
qed

lemma numerico_fora:
  "numerico c \<Longrightarrow> c \<notin> {CHR ''n'', CHR ''t'', CHR ''f'', CHR 0x22, CHR ''['', CHR ''{'', CHR '']'', CHR ''}'', CHR '',''}"
  by (auto simp: numerico_def digito_def byte_def)

lemma ler_numero:
  assumes "t \<noteq> []" and "list_all numerico t" and "fim r" and "0 < n"
  shows "ler_valor n (t @ r) = Some (QNum t, r)"
proof -
  obtain c t' where t: "t = c # t'" using assms(1) by (cases t) auto
  obtain m where m: "n = Suc m" using assms(4) by (cases n) auto
  have "takeWhile numerico r = []" "dropWhile numerico r = r" using assms(3) by (cases r; simp add: fim_def)+
  then have "takeWhile numerico (t @ r) = t" "dropWhile numerico (t @ r) = r" using assms(2) by (simp_all add: list_all_iff)
  moreover have "c \<notin> {CHR ''n'', CHR ''t'', CHR ''f'', CHR 0x22, CHR ''['', CHR ''{''}"
    using numerico_fora [of c] assms(2) t by auto
  ultimately show ?thesis by (simp add: m t)
qed

lemma primeiro:
  assumes "strconv_ok sc" and "de_json v" and "escrever sc v = Inr t"
  shows "t \<noteq> [] \<and> hd t \<notin> {CHR '']'', CHR ''}'', CHR '',''}"
proof (cases "numero v")
  case True
  with escrever_numero [OF assms(1) True assms(2,3)] numerico_fora [of "hd t"] show ?thesis by (cases t) auto
next
  case False
  with assms(3) show ?thesis
    by (cases v) (auto simp: numero_def AppendJSONString_corpo Let_def split: sum.splits if_splits)
qed

lemma ler_itens_ok:
  assumes "strconv_ok sc" and "vs \<noteq> []" and "map (escrever sc) vs = map Inr ts" and "list_all de_json vs"
    and "\<And>v t r n. v \<in> set vs \<Longrightarrow> escrever sc v = Inr t \<Longrightarrow> fim r \<Longrightarrow> peso v \<le> n \<Longrightarrow> ler_valor n (t @ r) = Some (canon sc v, r)"
    and "sum_list (map (\<lambda>v. Suc (peso v)) vs) \<le> n"
  shows "ler_itens n (join '','' ts @ CHR '']'' # r) = Some (map (canon sc) vs, r)"
  using assms(2-)
proof (induction vs arbitrary: ts n)
  case (Cons v vs)
  obtain t ts' where ts: "ts = t # ts'" and t: "escrever sc v = Inr t" and ts': "map (escrever sc) vs = map Inr ts'"
    using Cons.prems(2) by auto
  obtain m where n: "n = Suc m" using Cons.prems(5) by (cases n) auto
  have w: "peso v \<le> m" "sum_list (map (\<lambda>v. Suc (peso v)) vs) \<le> m" using Cons.prems(5) n by auto
  have lv: "fim q \<Longrightarrow> ler_valor m (t @ q) = Some (canon sc v, q)" for q
    using Cons.prems(4) [OF _ t _ w(1)] by simp
  show ?case
  proof (cases vs)
    case Nil
    with ts' have "ts' = []" by simp
    then show ?thesis using lv [of "CHR '']'' # r"] by (simp add: n ts Nil)
  next
    case C: (Cons v' vs')
    then obtain u us where us: "ts' = u # us" using ts' by (cases ts') auto
    have "ler_itens m (join '','' ts' @ CHR '']'' # r) = Some (map (canon sc) vs, r)"
      by (rule Cons.IH) (use C ts' Cons.prems w in auto)
    moreover have "join '','' ts @ CHR '']'' # r = t @ CHR '','' # (join '','' ts' @ CHR '']'' # r)" by (simp add: ts us)
    ultimately show ?thesis using lv [of "CHR '','' # (join '','' ts' @ CHR '']'' # r)"] by (simp add: n)
  qed
qed simp

definition campo :: "strconv \<Rightarrow> string \<times> qualquer \<Rightarrow> erro_py + string" where
  "campo sc = (\<lambda>(k, v). map_sum id (\<lambda>t. AppendJSONString [] k @ '':'' @ t) (escrever sc v))"

lemma ler_campos_ok:
  assumes "strconv_ok sc" and "m \<noteq> []" and "map (campo sc) m = map Inr ts" and "list_all (\<lambda>(_, v). de_json v) m"
    and "\<And>k v t r n. (k, v) \<in> set m \<Longrightarrow> escrever sc v = Inr t \<Longrightarrow> fim r \<Longrightarrow> peso v \<le> n \<Longrightarrow> ler_valor n (t @ r) = Some (canon sc v, r)"
    and "sum_list (map (\<lambda>(_, v). Suc (peso v)) m) \<le> n"
  shows "ler_campos n (join '','' ts @ CHR ''}'' # r) = Some (map (\<lambda>(k, v). (repara k, canon sc v)) m, r)"
  using assms(2-)
proof (induction m arbitrary: ts n)
  case (Cons p m)
  obtain k v where p: "p = (k, v)" by (cases p)
  obtain u ts' where ts: "ts = u # ts'" and u: "campo sc p = Inr u" and ts': "map (campo sc) m = map Inr ts'"
    using Cons.prems(2) by auto
  obtain t where t: "escrever sc v = Inr t" and ut: "u = CHR 0x22 # json_corpo k @ CHR 0x22 # CHR '':'' # t"
    using u by (cases "escrever sc v") (auto simp: campo_def p AppendJSONString_corpo)
  obtain j where n: "n = Suc j" using Cons.prems(5) p by (cases n) auto
  have w: "peso v \<le> j" "sum_list (map (\<lambda>(_, v). Suc (peso v)) m) \<le> j" using Cons.prems(5) n p by auto
  have lv: "fim q \<Longrightarrow> ler_valor j (t @ q) = Some (canon sc v, q)" for q
    using Cons.prems(4) [of k v, OF _ t _ w(1)] p by simp
  have lk: "ler_texto (tl (u @ q)) = Some (repara k, CHR '':'' # t @ q)" for q
    using ler_corpo [of k "CHR '':'' # t @ q"] by (simp add: ut)
  show ?case
  proof (cases m)
    case Nil
    with ts' have "ts' = []" by simp
    then show ?thesis using lv [of "CHR ''}'' # r"] lk [of "CHR ''}'' # r"] by (simp add: n ts Nil p)
  next
    case C: (Cons v' vs')
    then obtain x us where us: "ts' = x # us" using ts' by (cases ts') auto
    have I: "ler_campos j (join '','' ts' @ CHR ''}'' # r) = Some (map (\<lambda>(k, v). (repara k, canon sc v)) m, r)"
    proof (rule Cons.IH)
      show "ler_valor n (t @ r) = Some (canon sc v, r)"
        if "(k, v) \<in> set m" "escrever sc v = Inr t" "fim r" "peso v \<le> n" for k v t r n
        using Cons.prems(4) [of k v t r n] that by simp
    qed (use C ts' Cons.prems(3) w in auto)
    let ?q = "CHR '','' # (join '','' ts' @ CHR ''}'' # r)"
    have "join '','' ts @ CHR ''}'' # r = u @ ?q" by (simp add: ts us)
    then show ?thesis using lv [of ?q] lk [of ?q] I by (simp add: n p)
  qed
qed simp

lemma drop_3_4 [simp]: "drop 3 (a # b # c # r) = r" "drop 4 (a # b # c # d # r) = r"
  by (simp_all add: numeral_3_eq_3 numeral_eq_Suc)

lemma ler_escrever_numero:
  assumes "strconv_ok sc" and "numero v" and "de_json v" and "escrever sc v = Inr t" and "fim r" and "peso v \<le> n"
  shows "ler_valor n (t @ r) = Some (canon sc v, r)"
proof -
  have "0 < peso v" by (cases v) simp_all
  then have "0 < n" using assms(6) by simp
  then show ?thesis using escrever_numero [OF assms(1-4)] ler_numero assms(5) by simp
qed

lemma ler_escrever:
  assumes "strconv_ok sc"
  shows "de_json v \<Longrightarrow> escrever sc v = Inr t \<Longrightarrow> fim r \<Longrightarrow> peso v \<le> n \<Longrightarrow> ler_valor n (t @ r) = Some (canon sc v, r)"
proof (induction v arbitrary: t r n)
  case (QList vs)
  obtain ts where ts: "map (escrever sc) vs = map Inr ts" and t: "t = CHR ''['' # join '','' ts @ '']''"
    using QList.prems(2) by (auto simp: em_ordem_Inr split: sum.splits)
  obtain m where n: "n = Suc m" using QList.prems(4) by (cases n) auto
  show ?case
  proof (cases vs)
    case Nil
    then show ?thesis using ts by (simp add: t n)
  next
    case (Cons v vs')
    obtain u us where us: "ts = u # us" "escrever sc v = Inr u" using ts Cons by (cases ts) auto
    have "de_json v" using QList.prems(1) Cons by simp
    from primeiro [OF assms this us(2)] obtain c u' where c: "u = c # u'" "c \<noteq> CHR '']''" by (cases u) auto
    have h: "hd (join '','' ts @ q) = c" for q by (cases us) (simp_all add: us c)
    have "ler_itens m (join '','' ts @ CHR '']'' # r) = Some (map (canon sc) vs, r)"
    proof (rule ler_itens_ok [OF assms _ ts])
      show "ler_valor n (t @ r) = Some (canon sc v, r)"
        if "v \<in> set vs" "escrever sc v = Inr t" "fim r" "peso v \<le> n" for v t r n
        using QList.IH [OF that(1)] QList.prems(1) that by (simp add: list_all_iff)
    qed (use QList.prems Cons n in simp_all)
    then show ?thesis using h [of "CHR '']'' # r"] c(2) by (simp add: t n)
  qed
next
  case (QMap m)
  let ?s = "sort_key fst m"
  have campos: "sort_key fst (map (\<lambda>(k, v). (k, escrever sc v)) m) = map (\<lambda>(k, v). (k, escrever sc v)) ?s"
    by (rule campos_ordenados)
  have cs: "map (\<lambda>(k, r). map_sum id (\<lambda>t. AppendJSONString [] k @ '':'' @ t) r) (map (\<lambda>(k, v). (k, escrever sc v)) ?s) = map (campo sc) ?s"
    by (simp add: campo_def case_prod_beta)
  obtain ts where ts: "map (campo sc) ?s = map Inr ts" and t: "t = CHR ''{'' # join '','' ts @ ''}''"
    using QMap.prems(2) unfolding escrever.simps Let_def campos cs em_ordem_Inr by (auto simp: em_ordem_Inr split: sum.splits)
  have c: "canon sc (QMap m) = QMap (map (\<lambda>(k, v). (repara k, canon sc v)) ?s)"
    using campos_ordenados [of "canon sc" m] by (simp add: case_prod_beta comp_def)
  obtain j where n: "n = Suc j" using QMap.prems(4) by (cases n) auto
  have "mset (map (\<lambda>(_, v). Suc (peso v)) ?s) = mset (map (\<lambda>(_, v). Suc (peso v)) m)" by (simp only: mset_map mset_sort)
  from arg_cong [of _ _ sum_mset, OF this]
  have w: "sum_list (map (\<lambda>(_, v). Suc (peso v)) ?s) = sum_list (map (\<lambda>(_, v). Suc (peso v)) m)"
    by (simp only: sum_mset_sum_list)
  show ?case
  proof (cases "?s")
    case Nil
    then show ?thesis using ts c by (simp add: t n)
  next
    case (Cons p ms)
    obtain u us where us: "ts = u # us" "campo sc p = Inr u" using ts Cons by (cases ts) auto
    then obtain u' where u': "u = CHR 0x22 # u'"
      by (cases "escrever sc (snd p)") (auto simp: campo_def case_prod_beta AppendJSONString_corpo)
    have h: "hd (join '','' ts @ q) = CHR 0x22" for q by (cases us) (simp_all add: us u')
    have "ler_campos j (join '','' ts @ CHR ''}'' # r) = Some (map (\<lambda>(k, v). (repara k, canon sc v)) ?s, r)"
    proof (rule ler_campos_ok [OF assms _ ts])
      show "ler_valor n (t @ r) = Some (canon sc v, r)"
        if "(k, v) \<in> set ?s" "escrever sc v = Inr t" "fim r" "peso v \<le> n" for k v t r n
        using QMap.IH [of "(k, v)" v] QMap.prems(1) that by (auto simp: list_all_iff)
      show "?s \<noteq> []" by (simp add: Cons)
      show "list_all (\<lambda>(_, v). de_json v) ?s" using QMap.prems(1) by (simp add: list_all_iff)
      show "sum_list (map (\<lambda>(_, v). Suc (peso v)) ?s) \<le> j" using w QMap.prems(4) n by simp
    qed
    then show ?thesis using h [of "CHR ''}'' # r"] c by (simp add: t n del: canon.simps)
  qed
next
  case (QText s)
  then obtain m where "n = Suc m" by (cases n) auto
  moreover have "t = CHR 0x22 # json_corpo s @ [CHR 0x22]" using QText.prems(2) by (simp add: AppendJSONString_corpo)
  ultimately show ?case using ler_corpo [of s r] by simp
next
  case QNil
  then obtain m where "n = Suc m" by (cases n) auto
  with QNil show ?case by auto
next
  case (QBool b)
  then obtain m where "n = Suc m" by (cases n) auto
  with QBool show ?case by (auto split: if_splits)
qed (rule ler_escrever_numero [OF assms]; simp add: numero_def)+

lemma mapa_unico:
  assumes "mapa_ok m" and "mset m = mset m'"
  shows "sort_key fst m = sort_key fst m'"
proof (rule map_sorted_distinct_set_unique [of fst])
  have "distinct (map fst m')" using assms by (metis mapa_ok_def mset_map mset_eq_imp_distinct_iff)
  then show "distinct (map fst (sort_key fst m'))" "distinct (map fst (sort_key fst m))"
    using assms(1) by (metis mapa_ok_def mset_map mset_sort mset_eq_imp_distinct_iff)+
  show "set (sort_key fst m) = set (sort_key fst m')" using assms(2) by (metis set_mset_mset set_sort)
  show "inj_on fst (set (sort_key fst m) \<union> set (sort_key fst m'))"
    using assms by (metis mapa_ok_def distinct_map set_mset_mset set_sort sup.idem)
qed simp_all

lemma JSONCanonico_ida_e_volta_partes:
  assumes "strconv_ok sc" and "de_json v" and "JSONCanonico sc v = Inr t"
  shows "ler_valor (peso v) t = Some (canon sc v, [])"
    and "de_json w \<Longrightarrow> JSONCanonico sc w = Inr t \<Longrightarrow> canon sc v = canon sc w"
    and "mapa_ok m \<Longrightarrow> mset m = mset m' \<Longrightarrow> JSONCanonico sc (QMap m) = JSONCanonico sc (QMap m')"
proof -
  have ler: "ler_valor n t = Some (canon sc x, [])" if "de_json x" "JSONCanonico sc x = Inr t" "peso x \<le> n" for x n
    using ler_escrever [OF assms(1) that(1), of t "[]" n] that(2,3) by (simp add: JSONCanonico_def)
  show "ler_valor (peso v) t = Some (canon sc v, [])" using ler assms(2,3) by simp
  show "canon sc v = canon sc w" if w: "de_json w" "JSONCanonico sc w = Inr t"
    using ler [OF assms(2,3), of "peso v + peso w"] ler [OF w, of "peso v + peso w"] by simp
  show "JSONCanonico sc (QMap m) = JSONCanonico sc (QMap m')" if m: "mapa_ok m" "mset m = mset m'"
  proof -
    have "sort_key fst (map (\<lambda>(k, v). (k, escrever sc v)) m) = sort_key fst (map (\<lambda>(k, v). (k, escrever sc v)) m')"
      unfolding campos_ordenados mapa_unico [OF m] ..
    then show ?thesis by (simp add: JSONCanonico_def)
  qed
qed


definition strconv_de_exemplo :: strconv where
  "strconv_de_exemplo =
     \<lparr>sc_formata = (\<lambda>f. case f of FFin q \<Rightarrow> show_int \<lfloor>q\<rfloor> | _ \<Rightarrow> ''0''), sc_le = (\<lambda>s. map_option (\<lambda>i. FFin (of_int i)) (atoi s)),
      sc_sprint = (\<lambda>_. [])\<rparr>"

lemma strconv_de_exemplo_ok: "strconv_ok strconv_de_exemplo"
  using show_int_numerico by (auto simp: strconv_ok_def strconv_de_exemplo_def numerico_def digito_def byte_def)


section \<open>Where the text is not Python's\<close>

text \<open>The escapes of Python's \<open>json.encoder\<close> (\<open>ESCAPE_DCT\<close>) on the ASCII characters.\<close>

definition py_escapa :: "char \<Rightarrow> string" where
  "py_escapa c =
     (if c = CHR 0x22 \<or> c = CHR 0x5C then [CHR 0x5C, c]
      else if c = CHR 0x08 then [CHR 0x5C, CHR ''b'']
      else if c = CHR 0x0C then [CHR 0x5C, CHR ''f'']
      else if c = CHR 0x0A then [CHR 0x5C, CHR ''n'']
      else if c = CHR 0x0D then [CHR 0x5C, CHR ''r'']
      else if c = CHR 0x09 then [CHR 0x5C, CHR ''t'']
      else if byte c < 0x20 then [CHR 0x5C, CHR ''u'', CHR ''0'', CHR ''0'', hex_de (byte c div 16), hex_de (byte c mod 16)]
      else [c])"

text \<open>
  The escape of a string is Python's on every character but backspace and form feed, which
  Python writes \<open>\b\<close> and \<open>\f\<close>; and an integer literal is kept as it was written, so the key of \<open>-0\<close> is not
  the \<open>0\<close> Python's \<open>str\<close> gives.
\<close>

theorem json_nao_e_python:
  "escapa c = py_escapa c \<longleftrightarrow> c \<noteq> CHR 0x08 \<and> c \<noteq> CHR 0x0C" and "Texto sc (QNum ''-0'') = Inr ''-0''"
  by (auto simp: escapa_def py_escapa_def byte_def)

end
