(* ===== verification/Registro.thy ===== *)
theory Registro
  imports Pycompat
begin

text \<open>
  The chain a record goes through between extract and load: \<open>sdk/transform.go\<close> (the chain and its
  transformers), \<open>sdk/mapping.go\<close> (keys), \<open>sdk/ingestion.go\<close> and the identifier of
  \<open>sdk/internal/core/types.go\<close>. A record is an object, a map in some iteration order; SHA-1 is the argument
  \<open>sha1\<close>.
\<close>

type_synonym registro = "qualquer gomap"

section \<open>transform.go\<close>

datatype 'e erro_reg =
    AcceptFaltam "string list" string
  | RenameSobrepoe "string list"
  | ComputeSobrepoe string
  | Computando string 'e
  | NaoEObjeto qualquer
  | SemCampos
  | CampoAusente string string
  | CampoRecusado string 'e
  | IdToma nat
  | JaTem string
  | IdLe "string list" string
  | SemChave string
  | NoTransformador nat "'e erro_reg"
  | Externo 'e

text \<open>What a transformer returns: the record, \<open>SkipRecord\<close>, or an error.\<close>

datatype 'e passo = Segue qualquer | Pula | Falha "'e erro_reg"

type_synonym 'e transformador = "qualquer \<Rightarrow> 'e passo"

text \<open>The copy \<open>applyAll\<close> makes of an object is the value itself here; \<open>None\<close> is a nil function.\<close>

fun aplicar :: "nat \<Rightarrow> 'e transformador option list \<Rightarrow> qualquer \<Rightarrow> 'e passo" where
  "aplicar n [] v = Segue v"
| "aplicar n (None # fs) v = aplicar (Suc n) fs v"
| "aplicar n (Some f # fs) v =
     (case f v of Segue w \<Rightarrow> aplicar (Suc n) fs w | Pula \<Rightarrow> Pula | Falha e \<Rightarrow> Falha (NoTransformador n e))"

definition applyAll :: "'e transformador option list \<Rightarrow> qualquer \<Rightarrow> 'e passo" where
  "applyAll fns v = aplicar 0 fns v"

text \<open>
  The stream \<open>Transform\<close> yields to a consumer that takes everything: errors of the source go through,
  the first error of a transformer ends it, with the number of the record.
\<close>

datatype 'e item = Item qualquer | ErroDaFonte 'e | ErroDeFormato nat "'e erro_reg"

fun transformar :: "'e transformador option list \<Rightarrow> nat \<Rightarrow> ('e + qualquer) list \<Rightarrow> 'e item list" where
  "transformar fns i [] = []"
| "transformar fns i (Inl e # xs) = ErroDaFonte e # transformar fns i xs"
| "transformar fns i (Inr v # xs) =
     (case applyAll fns v of
        Falha e \<Rightarrow> [ErroDeFormato i e]
      | Pula \<Rightarrow> transformar fns (Suc i) xs
      | Segue w \<Rightarrow> Item w # transformar fns (Suc i) xs)"

definition Transform :: "'e transformador option list \<Rightarrow> ('e + qualquer) list \<Rightarrow> 'e item list" where
  "Transform fns xs = (if fns = [] then map (\<lambda>x. case x of Inl e \<Rightarrow> ErroDaFonte e | Inr v \<Rightarrow> Item v) xs
                       else transformar fns 0 xs)"

definition availableKeys :: "registro \<Rightarrow> string" where
  "availableKeys obj = (if obj = [] then ''(empty payload)'' else join '', '' (sort_strings (map fst obj)))"

definition sem :: "string \<Rightarrow> registro \<Rightarrow> registro" where
  "sem k obj = filter (\<lambda>(k', _). k' \<noteq> k) obj"

definition Accept :: "string list \<Rightarrow> 'e transformador" where
  "Accept campos v =
     (case v of
        QMap obj \<Rightarrow>
          (let missing = filter (\<lambda>f. map_of obj f = None) campos in
           if missing \<noteq> [] then Falha (AcceptFaltam missing (availableKeys obj))
           else Segue (QMap (filter (\<lambda>(k, _). k \<in> set campos) obj)))
      | _ \<Rightarrow> Segue v)"

definition Without :: "string list \<Rightarrow> 'e transformador" where
  "Without campos v = (case v of QMap obj \<Rightarrow> Segue (QMap (fold sem (remdups campos) obj)) | _ \<Rightarrow> Segue v)"

definition choques :: "string gomap \<Rightarrow> registro \<Rightarrow> string list" where
  "choques names obj =
     List.map_filter (\<lambda>(de, para). if map_of obj de = None then None
                                   else if map_of obj para \<noteq> None \<and> de \<noteq> para then Some (de @ '' -> '' @ para) else None) names"

text \<open>First every field that is renamed is read and deleted, in the order in which the map of names is walked, then they are written.\<close>

definition tirar_trocas :: "string gomap \<Rightarrow> registro \<Rightarrow> (string \<times> qualquer) list \<times> registro" where
  "tirar_trocas names obj =
     fold (\<lambda>(de, para) (ts, obj). case map_of obj de of None \<Rightarrow> (ts, obj) | Some v \<Rightarrow> (ts @ [(para, v)], sem de obj)) names ([], obj)"

definition Rename :: "string gomap \<Rightarrow> 'e transformador" where
  "Rename names v =
     (case v of
        QMap obj \<Rightarrow>
          (if choques names obj \<noteq> [] then Falha (RenameSobrepoe (sort_strings (choques names obj)))
           else (case tirar_trocas names obj of (ts, obj') \<Rightarrow> Segue (QMap (fold (\<lambda>(p, w). poe p w) ts obj'))))
      | _ \<Rightarrow> Segue v)"

definition Compute :: "string \<Rightarrow> (registro \<Rightarrow> 'e + qualquer) \<Rightarrow> 'e transformador" where
  "Compute name fn v =
     (case v of
        QMap obj \<Rightarrow>
          (if map_of obj name \<noteq> None then Falha (ComputeSobrepoe name)
           else (case fn obj of Inl e \<Rightarrow> Falha (Computando name e) | Inr w \<Rightarrow> Segue (QMap (poe name w obj))))
      | _ \<Rightarrow> Falha (NaoEObjeto v))"

definition SkipWithout :: "string list \<Rightarrow> 'e transformador" where
  "SkipWithout campos v =
     (if campos = [] then Falha SemCampos
      else (case v of
              QMap obj \<Rightarrow> if list_ex (\<lambda>f. map_of obj f = None \<or> map_of obj f = Some QNil) campos then Pula else Segue v
            | _ \<Rightarrow> Segue v))"

section \<open>mapping.go\<close>

definition inteiro64 :: "go_float \<Rightarrow> int option" where
  "inteiro64 f = (case f of FFin q \<Rightarrow> if q = of_int \<lfloor>q\<rfloor> \<and> - (2 ^ 63) \<le> \<lfloor>q\<rfloor> \<and> \<lfloor>q\<rfloor> < 2 ^ 63 then Some \<lfloor>q\<rfloor> else None
                 | FNegZero \<Rightarrow> Some 0 | _ \<Rightarrow> None)"

definition asText :: "strconv \<Rightarrow> qualquer \<Rightarrow> string" where
  "asText sc v =
     (case v of
        QText s \<Rightarrow> s
      | QFloat f \<Rightarrow> (case inteiro64 f of Some i \<Rightarrow> show_int i | None \<Rightarrow> sc_formata sc f)
      | QBool b \<Rightarrow> if b then ''true'' else ''false''
      | QNil \<Rightarrow> []
      | QNum l \<Rightarrow> l
      | QInt i \<Rightarrow> show_int i
      | _ \<Rightarrow> sc_sprint sc v)"

fun juntar :: "(string \<Rightarrow> 'e erro_reg + string) \<Rightarrow> string list \<Rightarrow> 'e erro_reg + string list" where
  "juntar f [] = Inr []"
| "juntar f (c # cs) =
     (case f c of Inl e \<Rightarrow> Inl e
      | Inr t \<Rightarrow> (case juntar f cs of Inl e \<Rightarrow> Inl e | Inr ts \<Rightarrow> Inr (t # ts)))"

type_synonym 'e seletor = "qualquer \<Rightarrow> 'e erro_reg + string"

definition Key :: "strconv \<Rightarrow> string list \<Rightarrow> 'e seletor" where
  "Key sc campos v =
     (if campos = [] then Inl SemCampos
      else (case v of
              QMap obj \<Rightarrow>
                (case juntar (\<lambda>campo. case map_of obj campo of None \<Rightarrow> Inl (CampoAusente campo (availableKeys obj))
                                       | Some w \<Rightarrow> Inr (asText sc w)) campos of
                   Inl e \<Rightarrow> Inl e | Inr parts \<Rightarrow> Inr (join ''|'' parts))
            | _ \<Rightarrow> Inl (NaoEObjeto v)))"

definition KeyWith :: "(qualquer \<Rightarrow> 'e + string) \<Rightarrow> string list \<Rightarrow> 'e seletor" where
  "KeyWith render campos v =
     (if campos = [] then Inl SemCampos
      else (case v of
              QMap obj \<Rightarrow>
                (case juntar (\<lambda>campo. case map_of obj campo of None \<Rightarrow> Inl (CampoAusente campo (availableKeys obj))
                                       | Some w \<Rightarrow> (case render w of Inl e \<Rightarrow> Inl (CampoRecusado campo e) | Inr t \<Rightarrow> Inr t)) campos of
                   Inl e \<Rightarrow> Inl e | Inr parts \<Rightarrow> Inr (join ''|'' parts))
            | _ \<Rightarrow> Inl (NaoEObjeto v)))"

definition FixedKey :: "string \<Rightarrow> 'e seletor" where
  "FixedKey s v = Inr s"

definition Field :: "strconv \<Rightarrow> string \<Rightarrow> 'e seletor" where
  "Field sc name v =
     (case v of
        QMap obj \<Rightarrow> (case map_of obj name of None \<Rightarrow> Inl (CampoAusente name (availableKeys obj)) | Some w \<Rightarrow> Inr (asText sc w))
      | _ \<Rightarrow> Inl (NaoEObjeto v))"

section \<open>The identifier\<close>

text \<open>\<open>uuidV5\<close>: SHA-1 of the namespace and the data, sixteen bytes of it, with the version and the variant.\<close>

definition uuidV5 :: "(nat list \<Rightarrow> nat list) \<Rightarrow> nat list \<Rightarrow> nat list \<Rightarrow> nat list" where
  "uuidV5 sha1 espaco dados =
     (let u = take 16 (sha1 (espaco @ dados)) in
      u[6 := u ! 6 mod 16 + 0x50, 8 := u ! 8 mod 64 + 0x80])"

definition formatarUUID :: "nat list \<Rightarrow> string" where
  "formatarUUID u =
     concat (map (\<lambda>(i, c). (if i = 4 \<or> i = 6 \<or> i = 8 \<or> i = 10 then ''-'' else []) @ [hex_de (c div 16), hex_de (c mod 16)])
               (enumerate 0 u))"

definition chave_do_id :: "string \<Rightarrow> string \<Rightarrow> string \<Rightarrow> string \<Rightarrow> string" where
  "chave_do_id provider entity source_key record_ts = provider @ ''|'' @ entity @ ''|'' @ source_key @ ''|'' @ record_ts"

definition ComputeIngestionIDNo :: "(nat list \<Rightarrow> nat list) \<Rightarrow> nat list \<Rightarrow> string \<Rightarrow> string \<Rightarrow> string \<Rightarrow> string \<Rightarrow> string" where
  "ComputeIngestionIDNo sha1 ns provider entity source_key record_ts =
     formatarUUID (uuidV5 sha1 ns (map byte (chave_do_id provider entity source_key record_ts)))"

definition NamespacePadrao :: "nat list" where
  "NamespacePadrao = [0xe3, 0xa4, 0xf8, 0xc0, 0x1b, 0x9d, 0x4e, 0xa0, 0x9c, 0x2e, 0x77, 0xf6, 0xa6, 0xc4, 0xa4, 0xd7]"

record envelope =
  ev_provider :: string
  ev_entity :: string
  ev_source_key :: string
  ev_record_ts :: string
  ev_payload :: qualquer

text \<open>\<open>Envelope.IngestionID\<close>; \<open>None\<close> is its error.\<close>

definition envelope_IngestionID :: "(nat list \<Rightarrow> nat list) \<Rightarrow> envelope \<Rightarrow> string option" where
  "envelope_IngestionID sha1 e =
     (if ev_source_key e = [] then None
      else Some (ComputeIngestionIDNo sha1 NamespacePadrao (ev_provider e) (ev_entity e) (ev_source_key e) (ev_record_ts e)))"

section \<open>ingestion.go\<close>

definition defaultIDFields :: "string list" where
  "defaultIDFields = [''provider'', ''entity'', ''source_key'', ''record_ts'']"

definition ColumnIngestionID :: string where "ColumnIngestionID = ''ingestion_id''"

definition ColumnIngestionLoadedAt :: string where "ColumnIngestionLoadedAt = ''ingestion_loaded_at''"

text \<open>The text of each named field, \<open>None\<close> where the record does not have it; the first refusal stops.\<close>

fun partes :: "(qualquer \<Rightarrow> 'e + string) \<Rightarrow> registro \<Rightarrow> string list \<Rightarrow> 'e erro_reg + string option list" where
  "partes render obj [] = Inr []"
| "partes render obj (name # ns) =
     (case map_of obj name of
        None \<Rightarrow> (case partes render obj ns of Inl e \<Rightarrow> Inl e | Inr ps \<Rightarrow> Inr (None # ps))
      | Some v \<Rightarrow>
          (case render v of
             Inl e \<Rightarrow> Inl (CampoRecusado name e)
           | Inr t \<Rightarrow> (case partes render obj ns of Inl e \<Rightarrow> Inl e | Inr ps \<Rightarrow> Inr (Some t # ps))))"

definition ingestionIDCom ::
    "(nat list \<Rightarrow> nat list) \<Rightarrow> nat list \<Rightarrow> (qualquer \<Rightarrow> 'e + string) \<Rightarrow> string list \<Rightarrow> 'e transformador" where
  "ingestionIDCom sha1 ns render campos v =
     (let names = (if campos \<noteq> [] then campos else defaultIDFields) in
      if length names \<noteq> 4 then Falha (IdToma (length names))
      else (case v of
              QMap obj \<Rightarrow>
                if map_of obj ColumnIngestionID \<noteq> None then Falha (JaTem ColumnIngestionID)
                else (case partes render obj names of
                        Inl e \<Rightarrow> Falha e
                      | Inr ps \<Rightarrow>
                          (let missing = map fst (filter (\<lambda>(_, p). p = None) (zip names ps)) in
                           if missing \<noteq> [] then Falha (IdLe missing (availableKeys obj))
                           else if the (ps ! 2) = [] then Falha (SemChave (names ! 2))
                           else Segue (QMap (poe ColumnIngestionID
                                  (QText (ComputeIngestionIDNo sha1 ns (the (ps ! 0)) (the (ps ! 1)) (the (ps ! 2)) (the (ps ! 3)))) obj))))
            | _ \<Rightarrow> Falha (NaoEObjeto v)))"

definition IngestionID :: "strconv \<Rightarrow> (nat list \<Rightarrow> nat list) \<Rightarrow> string list \<Rightarrow> 'e transformador" where
  "IngestionID sc sha1 = ingestionIDCom sha1 NamespacePadrao (\<lambda>v. Inr (asText sc v))"

definition IngestionIDWith :: "(nat list \<Rightarrow> nat list) \<Rightarrow> (qualquer \<Rightarrow> 'e + string) \<Rightarrow> string list \<Rightarrow> 'e transformador" where
  "IngestionIDWith sha1 render = ingestionIDCom sha1 NamespacePadrao render"

text \<open>\<open>agora\<close> is the current time in RFC 3339.\<close>

definition IngestionLoadedAt :: "string \<Rightarrow> 'e transformador" where
  "IngestionLoadedAt agora v =
     (case v of
        QMap obj \<Rightarrow> if map_of obj ColumnIngestionLoadedAt \<noteq> None then Falha (JaTem ColumnIngestionLoadedAt)
                    else Segue (QMap (poe ColumnIngestionLoadedAt (QText agora) obj))
      | _ \<Rightarrow> Falha (NaoEObjeto v))"

section \<open>Identifiers are UUIDs, and separate\<close>

text \<open>What is documented of SHA-1: twenty bytes.\<close>

definition sha1_ok :: "(nat list \<Rightarrow> nat list) \<Rightarrow> bool" where
  "sha1_ok sha1 \<longleftrightarrow> (\<forall>d. length (sha1 d) = 20 \<and> list_all (\<lambda>b. b < 256) (sha1 d))"

definition hexadecimal :: "char \<Rightarrow> bool" where
  "hexadecimal c \<longleftrightarrow> c \<in> set ''0123456789abcdef''"

definition uuid_v5 :: "string \<Rightarrow> bool" where
  "uuid_v5 s \<longleftrightarrow> length s = 36 \<and>
     list_all (\<lambda>i. if i = 8 \<or> i = 13 \<or> i = 18 \<or> i = 23 then s ! i = CHR ''-'' else hexadecimal (s ! i)) [0..<36] \<and>
     s ! 14 = CHR ''5'' \<and> s ! 19 \<in> {CHR ''8'', CHR ''9'', CHR ''a'', CHR ''b''}"

lemma hex_de_hexadecimal [simp]: "d < 16 \<Longrightarrow> hexadecimal (hex_de d)"
  unfolding hexadecimal_def hex_de_def by (rule nth_mem) simp

lemma hex_de_inj: "a < 16 \<Longrightarrow> b < 16 \<Longrightarrow> hex_de a = hex_de b \<Longrightarrow> a = b"
  by (metis hex_de_ok)

lemma uuidV5_bytes:
  assumes "sha1_ok sha1"
  shows "length (uuidV5 sha1 ns d) = 16" and "list_all (\<lambda>b. b < 256) (uuidV5 sha1 ns d)"
    and "uuidV5 sha1 ns d ! 6 div 16 = 5" and "uuidV5 sha1 ns d ! 8 div 64 = 2"
proof -
  let ?u = "take 16 (sha1 (ns @ d))"
  have l: "length ?u = 16" and b: "list_all (\<lambda>b. b < 256) ?u"
    using assms by (auto simp: sha1_ok_def list_all_iff dest: in_set_takeD)
  show "length (uuidV5 sha1 ns d) = 16" using l by (simp add: uuidV5_def Let_def)
  show "list_all (\<lambda>b. b < 256) (uuidV5 sha1 ns d)"
  proof -
    have "?u ! 6 mod 16 + 80 < 256" "?u ! 8 mod 64 + 128 < 256"
      using mod_less_divisor [of 16 "?u ! 6"] mod_less_divisor [of 64 "?u ! 8"] by linarith+
    then show ?thesis using b unfolding uuidV5_def Let_def list_all_iff by (auto dest!: set_update_subset_insert [THEN subsetD])
  qed
  have m: "x mod 16 < 16" "x mod 64 < 64" for x :: nat by simp_all
  show "uuidV5 sha1 ns d ! 6 div 16 = 5" using l m(1) by (simp add: uuidV5_def Let_def)
  show "uuidV5 sha1 ns d ! 8 div 64 = 2" using l m(2) by (simp add: uuidV5_def Let_def)
qed

lemma formatarUUID_v5:
  assumes "length u = 16" and "list_all (\<lambda>b. b < 256) u" and "u ! 6 div 16 = 5" and "u ! 8 div 64 = 2"
  shows "uuid_v5 (formatarUUID u)"
proof -
  obtain a0 a1 a2 a3 a4 a5 a6 a7 a8 a9 a10 a11 a12 a13 a14 a15 where
    u: "u = [a0, a1, a2, a3, a4, a5, a6, a7, a8, a9, a10, a11, a12, a13, a14, a15]"
    using assms(1) by (auto simp: eval_nat_numeral length_Suc_conv)
  have a8: "8 \<le> a8 div 16 \<and> a8 div 16 < 12" using assms(4) u by auto
  then have "a8 div 16 = 8 \<or> a8 div 16 = 9 \<or> a8 div 16 = 10 \<or> a8 div 16 = 11" by linarith
  then have v: "hex_de (a8 div 16) \<in> {CHR ''8'', CHR ''9'', CHR ''a'', CHR ''b''}" by (elim disjE) (simp_all add: hex_de_def)
  have five: "hex_de 5 = CHR ''5''" "hexadecimal (CHR ''5'')" by (simp_all add: hex_de_def hexadecimal_def)
  have f: "formatarUUID u = [hex_de (a0 div 16), hex_de (a0 mod 16), hex_de (a1 div 16), hex_de (a1 mod 16),
     hex_de (a2 div 16), hex_de (a2 mod 16), hex_de (a3 div 16), hex_de (a3 mod 16), CHR ''-'',
     hex_de (a4 div 16), hex_de (a4 mod 16), hex_de (a5 div 16), hex_de (a5 mod 16), CHR ''-'',
     hex_de (a6 div 16), hex_de (a6 mod 16), hex_de (a7 div 16), hex_de (a7 mod 16), CHR ''-'',
     hex_de (a8 div 16), hex_de (a8 mod 16), hex_de (a9 div 16), hex_de (a9 mod 16), CHR ''-'',
     hex_de (a10 div 16), hex_de (a10 mod 16), hex_de (a11 div 16), hex_de (a11 mod 16), hex_de (a12 div 16), hex_de (a12 mod 16),
     hex_de (a13 div 16), hex_de (a13 mod 16), hex_de (a14 div 16), hex_de (a14 mod 16), hex_de (a15 div 16), hex_de (a15 mod 16)]"
    by (simp add: formatarUUID_def u)
  have h: "x < 256 \<Longrightarrow> hexadecimal (hex_de (x div 16))" "hexadecimal (hex_de (x mod 16))" for x
    by (rule hex_de_hexadecimal, simp)+
  show ?thesis
    unfolding uuid_v5_def f using assms(2,3) v five
    by (simp add: u h upt_conv_Cons)
qed

lemma formatar_inj:
  assumes "list_all (\<lambda>b. b < 256) u" and "list_all (\<lambda>b. b < 256) u'" and "length u = length u'"
    and "concat (map (\<lambda>(i, c). (if i = (4::nat) \<or> i = 6 \<or> i = 8 \<or> i = 10 then ''-'' else []) @ [hex_de (c div 16), hex_de (c mod 16)])
               (enumerate k u)) =
      concat (map (\<lambda>(i, c). (if i = 4 \<or> i = 6 \<or> i = 8 \<or> i = 10 then ''-'' else []) @ [hex_de (c div 16), hex_de (c mod 16)])
               (enumerate k u'))"
  shows "u = u'"
  using assms(3,1,2,4)
proof (induction u u' arbitrary: k rule: list_induct2)
  case (Cons a u b u')
  then have e: "hex_de (a div 16) = hex_de (b div 16)" "hex_de (a mod 16) = hex_de (b mod 16)" "a < 256" "b < 256"
    by (auto split: if_splits)
  then have "a div 16 = b div 16" "a mod 16 = b mod 16" by (auto intro!: hex_de_inj)
  then have "a = b" by (metis div_mult_mod_eq)
  moreover have "u = u'" by (rule Cons.IH [of "Suc k"]) (use Cons.prems in \<open>auto split: if_splits\<close>)
  ultimately show ?case by simp
qed simp

text \<open>
  The identifier of a record is always a version 5 UUID in canonical form, whatever the fields hold.
\<close>

theorem id_bem_formado:
  assumes "sha1_ok sha1"
  shows "uuid_v5 (ComputeIngestionIDNo sha1 ns provider entity source_key record_ts)"
  unfolding ComputeIngestionIDNo_def by (rule formatarUUID_v5) (rule uuidV5_bytes [OF assms])+

lemma id_bem_formado_witness:
  "uuid_v5 (ComputeIngestionIDNo (\<lambda>_. replicate 20 171) NamespacePadrao ''anp'' ''precos'' ''1'' ''2026-01-01'')"
proof -
  have "sha1_ok (\<lambda>_. replicate 20 171)" by (simp add: sha1_ok_def list_all_iff)
  then show ?thesis by (rule id_bem_formado)
qed

section \<open>The contract of a renderer\<close>

text \<open>
  \<open>KeyWith\<close> and \<open>IngestionIDWith\<close> take the function that renders a field. What the identity needs of it is
  that the values of the key fields are rendered, and without the separator.
\<close>

lemma juntar_ok:
  "(\<And>c. c \<in> set cs \<Longrightarrow> f c = Inr (g c)) \<Longrightarrow> juntar f cs = Inr (map g cs)"
  by (induction cs) simp_all

lemma partes_ok:
  "(\<And>c. c \<in> set cs \<Longrightarrow> \<exists>v. map_of obj c = Some v \<and> render v = Inr (g c)) \<Longrightarrow> partes render obj cs = Inr (map (\<lambda>c. Some (g c)) cs)"
proof (induction cs)
  case (Cons c cs)
  then have "partes render obj cs = Inr (map (\<lambda>c. Some (g c)) cs)" by simp
  moreover have "\<exists>v. map_of obj c = Some v \<and> render v = Inr (g c)" by (rule Cons.prems) simp
  then obtain v where "map_of obj c = Some v" "render v = Inr (g c)" by blast
  ultimately show ?case by simp
qed simp

lemma join_barra_inj:
  assumes "length xs = length ys" and "\<forall>x \<in> set xs. CHR ''|'' \<notin> set x" and "\<forall>y \<in> set ys. CHR ''|'' \<notin> set y"
    and "join ''|'' xs = join ''|'' ys"
  shows "xs = ys"
proof (cases "xs = []")
  case False
  then have "ys \<noteq> []" using assms(1) by auto
  have "xs = split_on (CHR ''|'') (join ''|'' xs)" by (rule split_on_join [OF False assms(2), symmetric])
  also have "\<dots> = split_on (CHR ''|'') (join ''|'' ys)" by (simp only: assms(4))
  also have "\<dots> = ys" by (rule split_on_join [OF \<open>ys \<noteq> []\<close> assms(3)])
  finally show ?thesis .
qed (use assms(1) in simp)

lemma chave_do_id_join: "chave_do_id p e k t = join ''|'' [p, e, k, t]"
  by (simp add: chave_do_id_def)

locale renderizador =
  fixes render :: "qualquer \<Rightarrow> 'e + string" and ok :: "qualquer \<Rightarrow> bool"
  assumes total: "ok v \<Longrightarrow> \<exists>t. render v = Inr t \<and> CHR ''|'' \<notin> set t"
begin

lemma texto_do_campo:
  assumes "map_of obj c = Some v" and "ok v"
  shows "render v = Inr (projr (render (the (map_of obj c)))) \<and> CHR ''|'' \<notin> set (projr (render (the (map_of obj c))))"
  using total [OF assms(2)] assms(1) by auto

lemma chave:
  assumes "cs \<noteq> []" and "\<forall>c \<in> set cs. \<exists>v. map_of obj c = Some v \<and> ok v"
  shows "KeyWith render cs (QMap obj) = Inr (join ''|'' (map (\<lambda>c. projr (render (the (map_of obj c)))) cs))"
proof -
  have j: "juntar (\<lambda>campo. case map_of obj campo of None \<Rightarrow> Inl (CampoAusente campo (availableKeys obj))
         | Some w \<Rightarrow> (case render w of Inl e \<Rightarrow> Inl (CampoRecusado campo e) | Inr t \<Rightarrow> Inr t)) cs =
       Inr (map (\<lambda>c. projr (render (the (map_of obj c)))) cs)"
  proof (rule juntar_ok)
    fix c assume "c \<in> set cs"
    then obtain v where v: "map_of obj c = Some v" "ok v" using assms(2) by blast
    obtain t where "render v = Inr t" using total [OF v(2)] by blast
    then show "(case map_of obj c of None \<Rightarrow> Inl (CampoAusente c (availableKeys obj))
         | Some w \<Rightarrow> (case render w of Inl e \<Rightarrow> Inl (CampoRecusado c e) | Inr t \<Rightarrow> Inr t)) =
      Inr (projr (render (the (map_of obj c))))" by (simp add: v(1))
  qed
  show ?thesis using assms(1) by (simp add: KeyWith_def j)
qed

lemma chave_separa:
  assumes "cs \<noteq> []" and "\<forall>c \<in> set cs. \<exists>v. map_of obj c = Some v \<and> ok v"
    and "\<forall>c \<in> set cs. \<exists>v. map_of obj' c = Some v \<and> ok v"
  shows "KeyWith render cs (QMap obj) = KeyWith render cs (QMap obj') \<longleftrightarrow>
    (\<forall>c \<in> set cs. render (the (map_of obj c)) = render (the (map_of obj' c)))"
proof -
  have sem: "\<forall>x \<in> set (map (\<lambda>c. projr (render (the (map_of o' c)))) cs). CHR ''|'' \<notin> set x"
    if h: "\<forall>c \<in> set cs. \<exists>v. map_of o' c = Some v \<and> ok v" for o'
  proof
    fix x assume "x \<in> set (map (\<lambda>c. projr (render (the (map_of o' c)))) cs)"
    then obtain c where c: "c \<in> set cs" "x = projr (render (the (map_of o' c)))" by auto
    with h obtain v where "map_of o' c = Some v" "ok v" by blast
    then show "CHR ''|'' \<notin> set x" using texto_do_campo [of o' c v] by (simp add: c(2))
  qed
  have iff: "projr (render (the (map_of obj c))) = projr (render (the (map_of obj' c))) \<longleftrightarrow>
      render (the (map_of obj c)) = render (the (map_of obj' c))" if "c \<in> set cs" for c
  proof -
    obtain v w where vw: "map_of obj c = Some v" "ok v" "map_of obj' c = Some w" "ok w" using assms(2,3) \<open>c \<in> set cs\<close> by blast
    obtain t t' where "render v = Inr t" "render w = Inr t'" using total vw by blast
    then show ?thesis by (simp add: vw)
  qed
  have "KeyWith render cs (QMap obj) = KeyWith render cs (QMap obj') \<longleftrightarrow>
      map (\<lambda>c. projr (render (the (map_of obj c)))) cs = map (\<lambda>c. projr (render (the (map_of obj' c)))) cs"
    unfolding chave [OF assms(1,2)] chave [OF assms(1,3)]
    using join_barra_inj [OF _ sem [OF assms(2)] sem [OF assms(3)]] by (metis Inr_inject length_map)
  also have "\<dots> \<longleftrightarrow> (\<forall>c \<in> set cs. render (the (map_of obj c)) = render (the (map_of obj' c)))"
    using iff by (auto simp: map_eq_conv)
  finally show ?thesis .
qed

lemma id_do_registro:
  assumes "length cs = 4" and "map_of obj ColumnIngestionID = None"
    and "\<forall>c \<in> set cs. \<exists>v. map_of obj c = Some v \<and> ok v" and "render (the (map_of obj (cs ! 2))) \<noteq> Inr []"
  shows "ingestionIDCom sha1 ns render cs (QMap obj) = Segue (QMap (poe ColumnIngestionID (QText (formatarUUID (uuidV5 sha1 ns
     (map byte (join ''|'' (map (\<lambda>c. projr (render (the (map_of obj c)))) cs)))))) obj))"
proof -
  obtain a b c d where cs: "cs = [a, b, c, d]" using assms(1) by (auto simp: eval_nat_numeral length_Suc_conv)
  let ?g = "\<lambda>c. projr (render (the (map_of obj c)))"
  have "partes render obj cs = Inr (map (\<lambda>c. Some (?g c)) cs)"
  proof (rule partes_ok)
    fix c assume "c \<in> set cs"
    then obtain v where v: "map_of obj c = Some v" "ok v" using assms(3) by blast
    with texto_do_campo [OF v] show "\<exists>v. map_of obj c = Some v \<and> render v = Inr (?g c)" by blast
  qed
  moreover obtain v where "map_of obj c = Some v" "ok v" using assms(3) cs by auto
  then have "?g c \<noteq> []" using assms(4) total by (fastforce simp: cs)
  ultimately show ?thesis using assms(2)
    by (simp add: ingestionIDCom_def cs ComputeIngestionIDNo_def chave_do_id_join del: join.simps)
qed

end

definition ok_go :: "qualquer \<Rightarrow> bool" where
  "ok_go v = (case v of QText s \<Rightarrow> CHR ''|'' \<notin> set s | QBool _ \<Rightarrow> True | QNil \<Rightarrow> True | QInt _ \<Rightarrow> True
     | QNum l \<Rightarrow> CHR ''|'' \<notin> set l | QFloat f \<Rightarrow> inteiro64 f \<noteq> None | _ \<Rightarrow> False)"

definition ok_py :: "qualquer \<Rightarrow> bool" where
  "ok_py v = (case v of QText s \<Rightarrow> CHR ''|'' \<notin> set s | QBool _ \<Rightarrow> True | QNil \<Rightarrow> True | QInt _ \<Rightarrow> True
     | QNum l \<Rightarrow> list_all (\<lambda>c. c \<notin> {CHR ''|'', CHR ''.'', CHR ''e'', CHR ''E''}) l | _ \<Rightarrow> False)"

lemma show_int_sem_barra [simp]: "CHR ''|'' \<notin> set (show_int i)"
  using show_int_numerico [of i] by (auto simp: list_all_iff numerico_def digito_def byte_def)

interpretation texto_go: renderizador "\<lambda>v. Inr (asText sc v)" ok_go for sc :: strconv
  by unfold_locales (auto simp: ok_go_def asText_def split: qualquer.splits option.splits)

interpretation texto_py: renderizador "Texto sc" ok_py for sc :: strconv
  by unfold_locales (auto simp: ok_py_def list_all_iff split: qualquer.splits)

section \<open>Identity\<close>

definition textos :: "strconv \<Rightarrow> string list \<Rightarrow> registro \<Rightarrow> string list" where
  "textos sc cs obj = map (\<lambda>c. asText sc (the (map_of obj c))) cs"



text \<open>
  A separator inside a field makes different records share an identifier, and the merge then keeps one
  of them.
\<close>

theorem id_confunde:
  "ComputeIngestionIDNo sha1 ns provider (entity @ ''|'' @ x) source_key record_ts =
   ComputeIngestionIDNo sha1 ns (provider @ ''|'' @ entity) x source_key record_ts"
  by (simp add: ComputeIngestionIDNo_def chave_do_id_def)

section \<open>The stream\<close>

definition segue_bem :: "'e transformador option list \<Rightarrow> 'e + qualquer \<Rightarrow> bool" where
  "segue_bem fns x = (case x of Inl _ \<Rightarrow> True | Inr v \<Rightarrow> (case applyAll fns v of Falha _ \<Rightarrow> False | _ \<Rightarrow> True))"

definition sai_de :: "'e transformador option list \<Rightarrow> 'e + qualquer \<Rightarrow> 'e item list" where
  "sai_de fns x =
     (case x of Inl e \<Rightarrow> [ErroDaFonte e]
      | Inr v \<Rightarrow> (case applyAll fns v of Segue w \<Rightarrow> [Item w] | Pula \<Rightarrow> [] | Falha e \<Rightarrow> []))"

definition erro_final :: "'e transformador option list \<Rightarrow> nat \<Rightarrow> ('e + qualquer) list \<Rightarrow> 'e item list" where
  "erro_final fns n xs =
     (case dropWhile (segue_bem fns) xs of
        Inr v # _ \<Rightarrow> (case applyAll fns v of Falha e \<Rightarrow> [ErroDeFormato n e] | _ \<Rightarrow> []) | _ \<Rightarrow> [])"

lemma erro_final_simps:
  "erro_final fns n [] = []" "segue_bem fns x \<Longrightarrow> erro_final fns n (x # xs) = erro_final fns n xs"
  "applyAll fns v = Falha e \<Longrightarrow> erro_final fns n (Inr v # xs) = [ErroDeFormato n e]"
  by (simp_all add: erro_final_def segue_bem_def)

lemma transformar_forma:
  "transformar fns i xs = concat (map (sai_de fns) (takeWhile (segue_bem fns) xs)) @
     erro_final fns (i + length (filter (\<lambda>x. \<not> isl x) (takeWhile (segue_bem fns) xs))) xs"
proof (induction fns i xs rule: transformar.induct)
  case (1 fns i)
  then show ?case by (simp add: erro_final_simps)
next
  case (2 fns i e xs)
  have "segue_bem fns (Inl e)" by (simp add: segue_bem_def)
  then show ?case using 2 by (simp add: erro_final_simps sai_de_def)
next
  case (3 fns i v xs)
  then show ?case
  proof (cases "applyAll fns v")
    case (Falha e)
    then have "\<not> segue_bem fns (Inr v)" by (simp add: segue_bem_def)
    with Falha show ?thesis by (simp add: erro_final_simps)
  next
    case (Segue w)
    then have "segue_bem fns (Inr v)" by (simp add: segue_bem_def)
    with Segue 3 show ?thesis by (simp add: erro_final_simps sai_de_def)
  next
    case Pula
    then have "segue_bem fns (Inr v)" by (simp add: segue_bem_def)
    with Pula 3 show ?thesis by (simp add: erro_final_simps sai_de_def)
  qed
qed

text \<open>
  The stream of \<open>Transform\<close> is each record through its own chain, in the order of the source, without
  the skipped ones and with the errors of the source in their places, up to the first record a
  transformer refuses; that one ends the stream with its number, and nothing after it is read.
\<close>

theorem Transform_forma:
  "Transform fns xs =
     (if fns = [] then map (\<lambda>x. case x of Inl e \<Rightarrow> ErroDaFonte e | Inr v \<Rightarrow> Item v) xs
      else concat (map (sai_de fns) (takeWhile (segue_bem fns) xs)) @
        erro_final fns (length (filter (\<lambda>x. \<not> isl x) (takeWhile (segue_bem fns) xs))) xs)"
  by (simp add: Transform_def transformar_forma)

section \<open>Rename\<close>

lemma map_of_sem [simp]: "map_of (sem k obj) k' = (if k' = k then None else map_of obj k')"
  by (induction obj) (auto simp: sem_def)

lemma mapa_ok_sem [simp]: "mapa_ok obj \<Longrightarrow> mapa_ok (sem k obj)"
  unfolding sem_def mapa_ok_def by (induction obj) auto

lemma sem_valores:
  assumes "mapa_ok obj" and "map_of obj k = Some v"
  shows "mset (map snd obj) = add_mset v (mset (map snd (sem k obj)))"
  using assms
proof (induction obj)
  case (Cons p obj)
  obtain a w where p: "p = (a, w)" by (cases p)
  show ?case
  proof (cases "a = k")
    case True
    then have "sem k obj = obj" using Cons.prems(1) by (force simp: sem_def mapa_ok_def p filter_id_conv)
    then show ?thesis using Cons.prems(2) True by (simp add: sem_def p)
  next
    case False
    then show ?thesis using Cons by (simp add: sem_def p mapa_ok_def)
  qed
qed simp

definition trocas :: "string gomap \<Rightarrow> registro \<Rightarrow> (string \<times> qualquer) list" where
  "trocas names obj = List.map_filter (\<lambda>(de, para). map_option (Pair para) (map_of obj de)) names"

lemma tirar_trocas_fold:
  assumes "mapa_ok names" and "mapa_ok obj"
  shows "\<exists>o'. fold (\<lambda>(de, para) (ts, obj). case map_of obj de of None \<Rightarrow> (ts, obj) | Some v \<Rightarrow> (ts @ [(para, v)], sem de obj)) names (ts0, obj)
      = (ts0 @ trocas names obj, o') \<and> mapa_ok o' \<and>
    (\<forall>k. map_of o' k = (if k \<in> fst ` set names then None else map_of obj k)) \<and>
    mset (map snd obj) = mset (map snd (trocas names obj)) + mset (map snd o')"
  using assms
proof (induction names arbitrary: ts0 obj)
  case Nil
  then show ?case by (simp add: trocas_def map_filter_simps)
next
  case (Cons n names)
  obtain de para where n: "n = (de, para)" by (cases n)
  from Cons.prems have ok: "mapa_ok names" and novo: "de \<notin> fst ` set names" by (simp_all add: mapa_ok_def n)
  show ?case
  proof (cases "map_of obj de")
    case None
    have t: "trocas (n # names) obj = trocas names obj" by (simp add: trocas_def map_filter_simps n None)
    show ?thesis using Cons.IH [OF ok Cons.prems(2), of ts0] None unfolding t by (auto simp: n)
  next
    case (Some v)
    have "trocas names (sem de obj) = trocas names obj"
      using novo unfolding trocas_def by (induction names) (auto simp: map_filter_simps split: option.splits)
    then have t: "trocas (n # names) obj = (para, v) # trocas names (sem de obj)" by (simp add: trocas_def map_filter_simps n Some)
    show ?thesis
      using Cons.IH [OF ok mapa_ok_sem [OF Cons.prems(2), of de], of "ts0 @ [(para, v)]"] sem_valores [OF Cons.prems(2) Some] Some
      unfolding t by (auto simp: n)
  qed
qed

lemma poe_novo: "map_of m k = None \<Longrightarrow> poe k v m = m @ [(k, v)]"
  by (induction m) (auto simp: poe_def split: if_splits)

lemma poe_todos_novos:
  assumes "mapa_ok ts" and "\<forall>k \<in> fst ` set ts. map_of m k = None"
  shows "poe_todos ts m = m @ ts"
  using assms
proof (induction ts arbitrary: m)
  case (Cons p ts)
  obtain k v where p: "p = (k, v)" by (cases p)
  have "poe k v m = m @ [(k, v)]" using Cons.prems(2) p by (intro poe_novo) simp
  moreover have "\<forall>k' \<in> fst ` set ts. map_of (m @ [(k, v)]) k' = None" using Cons.prems p by (force simp: mapa_ok_def map_add_def)
  ultimately show ?case using Cons.IH [of "m @ [(k, v)]"] Cons.prems(1) by (simp add: p mapa_ok_def)
qed simp

text \<open>
  A \<open>Rename\<close> whose present fields have different new names, none of them taken, moves every value to its
  new name, keeps the fields it does not name and loses no value.
\<close>

theorem Rename_move:
  assumes "mapa_ok names" and "mapa_ok obj" and "choques names obj = []" and "mapa_ok (trocas names obj)"
  shows "\<exists>o'. Rename names (QMap obj) = Segue (QMap o') \<and> mset (map snd o') = mset (map snd obj) \<and>
     (\<forall>(de, para) \<in> set names. map_of obj de \<noteq> None \<longrightarrow> map_of o' para = map_of obj de) \<and>
     (\<forall>k. k \<notin> fst ` set names \<and> k \<notin> snd ` set names \<longrightarrow> map_of o' k = map_of obj k)"
proof -
  obtain o1 where o1: "tirar_trocas names obj = (trocas names obj, o1)" "mapa_ok o1"
    "\<forall>k. map_of o1 k = (if k \<in> fst ` set names then None else map_of obj k)"
    "mset (map snd obj) = mset (map snd (trocas names obj)) + mset (map snd o1)"
    using tirar_trocas_fold [OF assms(1,2), of "[]"] by (auto simp: tirar_trocas_def)
  have novo: "map_of o1 k = None" if kt: "k \<in> fst ` set (trocas names obj)" for k
  proof -
    obtain de v where d: "(de, k) \<in> set names" "map_of obj de = Some v"
      using kt by (auto simp: trocas_def map_filter_def split: prod.splits)
    have disj: "de = k \<or> map_of obj k = None"
    proof (rule ccontr)
      assume "\<not> ?thesis"
      then have "de @ '' -> '' @ k \<in> set (choques names obj)" using d by (force simp: choques_def map_filter_def)
      then show False using assms(3) by simp
    qed
    have de: "de \<in> fst ` set names" using imageI [OF d(1), of fst] by simp
    have m: "map_of o1 k = (if k \<in> fst ` set names then None else map_of obj k)" using o1(3) by blast
    show ?thesis
    proof (cases "k \<in> fst ` set names")
      case True
      then show ?thesis using m by (simp only: if_True)
    next
      case False
      then have "de \<noteq> k" using de by blast
      then have "map_of obj k = None" using disj by blast
      then show ?thesis using m False by (simp only: if_False)
    qed
  qed
  have p: "poe_todos (trocas names obj) o1 = o1 @ trocas names obj"
    by (rule poe_todos_novos [OF assms(4)], rule ballI) (rule novo)
  let ?o = "o1 @ trocas names obj"
  have "Rename names (QMap obj) = Segue (QMap ?o)"
    using assms(3) o1(1) p by (simp add: Rename_def poe_todos_def)
  moreover have "mset (map snd ?o) = mset (map snd obj)" using o1(4) by simp
  moreover have "map_of ?o para = map_of obj de" if "(de, para) \<in> set names" "map_of obj de \<noteq> None" for de para
  proof -
    from that(2) obtain v where v: "map_of obj de = Some v" by blast
    then have "(para, v) \<in> set (trocas names obj)" using that(1) by (force simp: trocas_def map_filter_def)
    then have "map_of (trocas names obj) para = Some v" "para \<in> fst ` set (trocas names obj)"
      using assms(4) by (simp_all add: mapa_ok_def) (force)
    then show ?thesis using novo [of para] by (simp add: v map_add_def)
  qed
  moreover have "map_of ?o k = map_of obj k" if "k \<notin> fst ` set names" "k \<notin> snd ` set names" for k
  proof -
    have "k \<notin> fst ` set (trocas names obj)" using that(2) by (force simp: trocas_def map_filter_def)
    then have "map_of (trocas names obj) k = None" by (simp add: map_of_eq_None_iff)
    then show ?thesis using o1(3) that(1) by (cases "map_of obj k") (simp_all add: map_add_def)
  qed
  ultimately show ?thesis by (intro exI [of _ ?o]) fastforce
qed

lemma Rename_move_witness:
  "\<exists>o'. Rename [(''temperature_2m'', ''temperatura'')] (QMap [(''temperature_2m'', QInt 21), (''x'', QNil)]) = (Segue (QMap o') :: unit passo) \<and>
     map_of o' ''temperatura'' = Some (QInt 21) \<and> map_of o' ''x'' = Some QNil"
proof -
  let ?n = "[(''temperature_2m'', ''temperatura'')]" and ?o = "[(''temperature_2m'', QInt 21), (''x'', QNil)]"
  have h: "mapa_ok ?n" "mapa_ok ?o" "choques ?n ?o = []" "mapa_ok (trocas ?n ?o)"
    by (simp_all add: mapa_ok_def choques_def trocas_def map_filter_simps)
  from Rename_move [OF this] obtain o' where o': "Rename ?n (QMap ?o) = (Segue (QMap o') :: unit passo)"
    "\<forall>(de, para) \<in> set ?n. map_of ?o de \<noteq> None \<longrightarrow> map_of o' para = map_of ?o de"
    "\<forall>k. k \<notin> fst ` set ?n \<and> k \<notin> snd ` set ?n \<longrightarrow> map_of o' k = map_of ?o k" by blast
  have "map_of o' ''temperatura'' = Some (QInt 21)" using o'(2) by simp
  moreover have "map_of o' ''x'' = Some QNil" using o'(3) by simp
  ultimately show ?thesis using o'(1) by blast
qed

text \<open>
  Two fields renamed to one name are not refused: one of the values is lost, and which one depends on
  the order in which the map of names is walked.
\<close>

theorem Rename_perde:
  assumes "a \<noteq> b" and "c \<noteq> a" and "c \<noteq> b"
  shows "Rename [(a, c), (b, c)] (QMap [(a, v), (b, w)]) = Segue (QMap [(c, w)])"
    and "Rename [(b, c), (a, c)] (QMap [(a, v), (b, w)]) = Segue (QMap [(c, v)])"
  using assms by (auto simp: Rename_def choques_def tirar_trocas_def map_filter_simps sem_def poe_def)

lemma Rename_perde_witness:
  "Rename [(''a'', ''c''), (''b'', ''c'')] (QMap [(''a'', QInt 1), (''b'', QInt 2)]) = Segue (QMap [(''c'', QInt 2)])"
  by (rule Rename_perde) simp_all

end
