(* ===== verification/Extracao.thy ===== *)
theory Extracao
  imports Registro
begin

text \<open>
  \<open>sdk/extract/extract.go\<close>: what a source may ask for, one page with its attempts, where the next page is,
  and the walk over the pages. Building and reading URLs, decoding bodies, the clock and the network are
  arguments; the sleeps are returned. Durations are nanoseconds.
\<close>

section \<open>What a source asks for\<close>

record retry_config =
  rc_max_attempts :: int
  rc_initial :: int
  rc_max :: int
  rc_jitter :: rat

record fonte =
  fo_url :: string
  fo_format :: string
  fo_follow_links :: bool
  fo_cursor_key :: string
  fo_page_key :: string
  fo_offset_key :: string
  fo_data_key :: string
  fo_more_key :: string
  fo_first_page :: int
  fo_page_size :: int
  fo_max_pages :: int
  fo_retry :: "retry_config option"

datatype erro_ext =
    SemURL
  | LeituraEDataKey
  | DuasPaginacoes "string list"
  | PageSizeSemOffset
  | FirstPageSemPage
  | URLRuim string
  | LimiteDeTaxa string
  | FalhouDepoisDe int string
  | StatusHTTP int string
  | Recusado string
  | MoreKeyRuim string
  | ChavesPedemObjeto
  | DataKeyAusente string
  | FormatoSemSuporte string
  | Decodificando string
  | NaPagina int erro_ext

definition checkPagination :: "fonte \<Rightarrow> erro_ext option" where
  "checkPagination s =
     (let set = (if fo_follow_links s then [''FollowLinks''] else []) @ (if fo_cursor_key s \<noteq> [] then [''CursorKey''] else []) @
                (if fo_page_key s \<noteq> [] then [''PageKey''] else []) @ (if fo_offset_key s \<noteq> [] then [''OffsetKey''] else []) in
      if 1 < length set then Some (DuasPaginacoes set)
      else if fo_page_size s \<noteq> 0 \<and> fo_offset_key s = [] then Some PageSizeSemOffset
      else if fo_first_page s \<noteq> 0 \<and> fo_page_key s = [] then Some FirstPageSemPage
      else None)"

section \<open>Waiting\<close>

text \<open>The conversion of \<open>2^n\<close> to a duration; outside 64 bits it is the least one, as on amd64.\<close>

definition potencia :: "nat \<Rightarrow> int" where
  "potencia n = (if n < 63 then 2 ^ n else - (2 ^ 63))"

text \<open>\<open>sorteio\<close> is \<open>rand.Int63n\<close>; the product of the jitter is exact here.\<close>

definition calculateBackoff :: "(int \<Rightarrow> int) \<Rightarrow> nat \<Rightarrow> retry_config \<Rightarrow> int" where
  "calculateBackoff sorteio attempt cfg =
     (let backoff = int64 (potencia attempt * rc_initial cfg);
          backoff = (if 0 < rc_max cfg \<and> rc_max cfg < backoff then rc_max cfg else backoff);
          span = \<lfloor>of_int backoff * rc_jitter cfg\<rfloor> in
      if span \<le> 0 then backoff else int64 (backoff + sorteio span))"

record resposta_http =
  rh_url :: string                          \<comment> \<open>of the request that was answered\<close>
  rh_status :: int
  rh_link :: string
  rh_retry_after :: string
  rh_body :: string

text \<open>\<open>data\<close> is \<open>http.ParseTime\<close>, as the time that is left until the instant.\<close>

definition retryAfter :: "(string \<Rightarrow> int option) \<Rightarrow> (int \<Rightarrow> int) \<Rightarrow> resposta_http \<Rightarrow> nat \<Rightarrow> retry_config \<Rightarrow> int" where
  "retryAfter data sorteio resp attempt cfg =
     (let v = rh_retry_after resp in
      if v = [] then calculateBackoff sorteio attempt cfg
      else (case atoi (trim_space v) of
              Some secs \<Rightarrow> if 0 \<le> secs then int64 (secs * 1000000000)
                           else (case data v of Some d \<Rightarrow> if 0 < d then d else calculateBackoff sorteio attempt cfg
                                  | None \<Rightarrow> calculateBackoff sorteio attempt cfg)
            | None \<Rightarrow> (case data v of Some d \<Rightarrow> if 0 < d then d else calculateBackoff sorteio attempt cfg
                       | None \<Rightarrow> calculateBackoff sorteio attempt cfg)))"

definition shouldRetry :: "string \<Rightarrow> bool" where
  "shouldRetry err \<longleftrightarrow> contem_sub ''connection'' err \<or> contem_sub ''timeout'' err \<or> contem_sub ''temporary'' err"

definition shouldRetryStatus :: "int \<Rightarrow> bool" where
  "shouldRetryStatus status \<longleftrightarrow> status = 429 \<or> 500 \<le> status"

section \<open>One page\<close>

text \<open>What one attempt meets: the limiter refused, no response, or a response.\<close>

datatype tentativa = SemVez string | SemResposta string | Respondeu resposta_http

record 's rede =
  re_pede :: "string \<Rightarrow> 's \<Rightarrow> tentativa \<times> 's"        \<comment> \<open>limiter and request\<close>
  re_data :: "string \<Rightarrow> int option"
  re_sorteio :: "int \<Rightarrow> int"

text \<open>The loop of attempts; \<open>n\<close> attempts are left, \<open>attempt\<close> were made. It also gives the sleeps.\<close>

fun tentar_pedir :: "'s rede \<Rightarrow> retry_config \<Rightarrow> string \<Rightarrow> nat \<Rightarrow> nat \<Rightarrow> 's \<Rightarrow> (erro_ext + resposta_http) \<times> int list \<times> 's" where
  "tentar_pedir r cfg url 0 attempt w = (Inl (FalhouDepoisDe (int attempt) []), [], w)"
| "tentar_pedir r cfg url (Suc n) attempt w =
     (case re_pede r url w of
        (SemVez e, w) \<Rightarrow> (Inl (LimiteDeTaxa e), [], w)
      | (SemResposta e, w) \<Rightarrow>
          if shouldRetry e \<and> n \<noteq> 0 then
            (case tentar_pedir r cfg url n (Suc attempt) w of
               (x, es, w) \<Rightarrow> (x, calculateBackoff (re_sorteio r) attempt cfg # es, w))
          else (Inl (FalhouDepoisDe (int attempt + 1) e), [], w)
      | (Respondeu p, w) \<Rightarrow>
          if 200 \<le> rh_status p \<and> rh_status p < 300 then (Inr p, [], w)
          else if shouldRetryStatus (rh_status p) \<and> n \<noteq> 0 then
            (case tentar_pedir r cfg url n (Suc attempt) w of
               (x, es, w) \<Rightarrow> (x, retryAfter (re_data r) (re_sorteio r) p attempt cfg # es, w))
          else (Inl (StatusHTTP (rh_status p) (rh_body p)), [], w))"

record pagina =
  pg_body :: string
  pg_link_next :: string
  pg_cursor :: string
  pg_offset :: int
  pg_number :: int
  pg_tem_mais :: "bool option"
  pg_records :: "qualquer list option"

text \<open>
  The libraries the page needs: setting and reading a query parameter, and the JSON decoder on a whole
  body, on its raw fields and on one raw text; \<open>li_linhas\<close> decodes a body in a format into its rows, with
  the error that ends them, and is \<open>None\<close> for an unknown format.
\<close>

record libs =
  li_com :: "string \<Rightarrow> string \<Rightarrow> string \<Rightarrow> string + string"
  li_consulta :: "string \<Rightarrow> string \<Rightarrow> string option"
  li_json :: "string \<Rightarrow> string + qualquer"
  li_brutos :: "string \<Rightarrow> string gomap option"
  li_texto :: "string \<Rightarrow> string option"
  li_linhas :: "string \<Rightarrow> string \<Rightarrow> (qualquer list \<times> string option) option"

definition withQuery :: "libs \<Rightarrow> string \<Rightarrow> string \<Rightarrow> string \<Rightarrow> erro_ext + string" where
  "withQuery l url k v = (case li_com l url k v of Inl e \<Rightarrow> Inl (URLRuim e) | Inr u \<Rightarrow> Inr u)"

text \<open>\<open>currentOffset\<close>: \<open>Query().Get\<close> is empty for a missing parameter.\<close>

definition currentOffset :: "libs \<Rightarrow> string \<Rightarrow> string \<Rightarrow> int" where
  "currentOffset l url k = (case atoi (case li_consulta l url k of None \<Rightarrow> [] | Some v \<Rightarrow> v) of Some n \<Rightarrow> n | None \<Rightarrow> 0)"

definition firstPageURL :: "libs \<Rightarrow> fonte \<Rightarrow> erro_ext + string" where
  "firstPageURL l s =
     (if li_consulta l (fo_url s) (fo_page_key s) \<noteq> None then Inr (fo_url s)
      else withQuery l (fo_url s) (fo_page_key s) (show_int (if fo_first_page s = 0 then 1 else fo_first_page s)))"

section \<open>Reading a page\<close>

fun descer :: "string list \<Rightarrow> qualquer \<Rightarrow> erro_ext + qualquer" where
  "descer [] v = Inr v"
| "descer (p # ps) v =
     (case v of
        QMap obj \<Rightarrow> (case map_of obj p of None \<Rightarrow> Inl (MoreKeyRuim p) | Some w \<Rightarrow> descer ps w)
      | _ \<Rightarrow> Inl (MoreKeyRuim p))"

definition lerTemMais :: "libs \<Rightarrow> string \<Rightarrow> string \<Rightarrow> erro_ext + bool" where
  "lerTemMais l body caminho =
     (case li_json l body of
        Inl e \<Rightarrow> Inl (MoreKeyRuim e)
      | Inr v \<Rightarrow>
          (case descer (split_on (CHR ''.'') caminho) v of
             Inl e \<Rightarrow> Inl e
           | Inr (QBool b) \<Rightarrow> Inr b
           | Inr QNil \<Rightarrow> Inr False
           | Inr _ \<Rightarrow> Inl (MoreKeyRuim caminho)))"

definition cursor_de :: "libs \<Rightarrow> string \<Rightarrow> string" where
  "cursor_de l raw =
     (case li_texto l raw of
        Some t \<Rightarrow> t
      | None \<Rightarrow> (let c = trim_right_of (CHR 0x22) (trim_left_of (CHR 0x22) raw) in if c = ''null'' then [] else c))"

definition unwrapPage :: "libs \<Rightarrow> string \<Rightarrow> string \<Rightarrow> string \<Rightarrow> erro_ext + string \<times> string" where
  "unwrapPage l body cursorKey dataKey =
     (case li_brutos l body of
        None \<Rightarrow> Inl ChavesPedemObjeto
      | Some obj \<Rightarrow>
          (let cursor = (if cursorKey = [] then [] else case map_of obj cursorKey of None \<Rightarrow> [] | Some raw \<Rightarrow> cursor_de l raw) in
           if dataKey = [] then Inr (cursor, body)
           else (case map_of obj dataKey of None \<Rightarrow> Inl (DataKeyAusente dataKey) | Some raw \<Rightarrow> Inr (cursor, raw))))"

definition rel_next :: "string \<Rightarrow> bool" where
  "rel_next p \<longleftrightarrow> p = ''rel='' @ [CHR 0x22] @ ''next'' @ [CHR 0x22] \<or> p = ''rel=next'' \<or> p = ''rel='' @ [CHR 0x27] @ ''next'' @ [CHR 0x27]"

definition link_next :: "string \<Rightarrow> string option" where
  "link_next link =
     (let parts = split_on (CHR '';'') link; target = trim_space (hd parts) in
      if length parts < 2 \<or> \<not> prefix ''<'' target \<or> \<not> suffix ''>'' target then None
      else if list_ex (\<lambda>p. rel_next (trim_space p)) (tl parts) then Some (take (length target - 2) (drop 1 target))
      else None)"

definition parseLinkNext :: "string \<Rightarrow> string" where
  "parseLinkNext header =
     (case List.map_filter link_next (split_on (CHR '','') header) of [] \<Rightarrow> [] | t # _ \<Rightarrow> t)"

text \<open>\<open>ler\<close> is the Reading of the fetcher, or nil. Errors reading the body are left out.\<close>

definition preparar :: "libs \<Rightarrow> fonte \<Rightarrow> (resposta_http \<Rightarrow> string + qualquer list) option \<Rightarrow> resposta_http \<Rightarrow> erro_ext + pagina" where
  "preparar l s ler p =
     (let pg = \<lparr>pg_body = rh_body p, pg_link_next = (if fo_follow_links s then parseLinkNext (rh_link p) else []), pg_cursor = [],
                pg_offset = (if fo_offset_key s \<noteq> [] then currentOffset l (rh_url p) (fo_offset_key s) else 0),
                pg_number = (if fo_page_key s \<noteq> [] then currentOffset l (rh_url p) (fo_page_key s) else 0),
                pg_tem_mais = None, pg_records = None\<rparr> in
      case (case ler of None \<Rightarrow> Inr pg
              | Some f \<Rightarrow> (case f p of Inl e \<Rightarrow> Inl (Recusado e) | Inr rs \<Rightarrow> Inr (pg\<lparr>pg_records := Some rs\<rparr>))) of
        Inl e \<Rightarrow> Inl e
      | Inr pg \<Rightarrow>
          (case (if fo_more_key s = [] then Inr pg
                 else case lerTemMais l (rh_body p) (fo_more_key s) of Inl e \<Rightarrow> Inl e | Inr b \<Rightarrow> Inr (pg\<lparr>pg_tem_mais := Some b\<rparr>)) of
             Inl e \<Rightarrow> Inl e
           | Inr pg \<Rightarrow>
               if fo_cursor_key s = [] \<and> fo_data_key s = [] then Inr pg
               else (case unwrapPage l (rh_body p) (fo_cursor_key s) (fo_data_key s) of
                       Inl e \<Rightarrow> Inl e | Inr (c, rows) \<Rightarrow> Inr (pg\<lparr>pg_cursor := c, pg_body := rows\<rparr>))))"

definition retry_de :: "fonte \<Rightarrow> retry_config" where
  "retry_de s =
     (let cfg = (case fo_retry s of None \<Rightarrow> \<lparr>rc_max_attempts = 3, rc_initial = 1000000000, rc_max = 60 * 1000000000, rc_jitter = 1 / 10\<rparr>
                 | Some c \<Rightarrow> c) in
      if rc_max_attempts cfg < 1 then cfg\<lparr>rc_max_attempts := 1\<rparr> else cfg)"

definition fetchPage ::
    "libs \<Rightarrow> 's rede \<Rightarrow> fonte \<Rightarrow> (resposta_http \<Rightarrow> string + qualquer list) option \<Rightarrow> string \<Rightarrow> 's \<Rightarrow> (erro_ext + pagina) \<times> int list \<times> 's" where
  "fetchPage l r s ler url w =
     (case tentar_pedir r (retry_de s) url (nat (rc_max_attempts (retry_de s))) 0 w of
        (Inl e, es, w) \<Rightarrow> (Inl e, es, w)
      | (Inr p, es, w) \<Rightarrow> (preparar l s ler p, es, w))"

definition nextPageURL :: "libs \<Rightarrow> fonte \<Rightarrow> pagina \<Rightarrow> nat \<Rightarrow> erro_ext + string" where
  "nextPageURL l s p emitted =
     (if pg_tem_mais p = Some False then Inr []
      else if fo_follow_links s then Inr (pg_link_next p)
      else if fo_cursor_key s \<noteq> [] then
        (if pg_cursor p = [] then Inr [] else withQuery l (fo_url s) (fo_cursor_key s) (pg_cursor p))
      else if fo_page_key s \<noteq> [] then
        (if emitted = 0 then Inr [] else withQuery l (fo_url s) (fo_page_key s) (show_int (int64 (pg_number p + 1))))
      else if fo_offset_key s \<noteq> [] then
        (if emitted = 0 then Inr []
         else withQuery l (fo_url s) (fo_offset_key s)
           (show_int (int64 (pg_offset p + (if fo_page_size s \<le> 0 then int emitted else fo_page_size s)))))
      else Inr [])"

text \<open>The rows of a page, with the error that ends them or the address of the next page.\<close>

definition drainPage :: "libs \<Rightarrow> fonte \<Rightarrow> pagina \<Rightarrow> qualquer list \<times> (erro_ext + string)" where
  "drainPage l s p =
     (case pg_records p of
        Some rs \<Rightarrow> (rs, nextPageURL l s p (length rs))
      | None \<Rightarrow>
          (case li_linhas l (fo_format s) (pg_body p) of
             None \<Rightarrow> ([], Inl (FormatoSemSuporte (fo_format s)))
           | Some (rs, Some e) \<Rightarrow> (rs, Inl (Decodificando e))
           | Some (rs, None) \<Rightarrow> (rs, nextPageURL l s p (length rs))))"

section \<open>The walk\<close>

text \<open>
  The loop of the sequence, for a consumer that takes everything: \<open>n\<close> pages may still be drained, the
  current one included, and \<open>pages\<close> is the number of the current one. It gives the items and the
  addresses asked for after the first.
\<close>

fun andar ::
    "libs \<Rightarrow> 's rede \<Rightarrow> fonte \<Rightarrow> (resposta_http \<Rightarrow> string + qualquer list) option \<Rightarrow> nat \<Rightarrow> string list \<Rightarrow> int \<Rightarrow> pagina \<Rightarrow> 's
     \<Rightarrow> (erro_ext + qualquer) list \<times> string list \<times> 's" where
  "andar l r s ler 0 seen pages p w = ([], [], w)"
| "andar l r s ler (Suc n) seen pages p w =
     (case drainPage l s p of
        (rows, Inl e) \<Rightarrow> (map Inr rows @ [Inl e], [], w)
      | (rows, Inr nxt) \<Rightarrow>
          if nxt = [] \<or> n = 0 \<or> nxt \<in> set seen then (map Inr rows, [], w)
          else (case fetchPage l r s ler nxt w of
                  (Inl e, _, w) \<Rightarrow> (map Inr rows @ [Inl (NaPagina (pages + 1) e)], [nxt], w)
                | (Inr p', _, w) \<Rightarrow>
                    (case andar l r s ler n (nxt # seen) (pages + 1) p' w of
                       (xs, us, w) \<Rightarrow> (map Inr rows @ xs, nxt # us, w))))"

definition defaultMaxPages :: int where "defaultMaxPages = 1000"

definition max_pages_de :: "fonte \<Rightarrow> nat" where
  "max_pages_de s = nat (if fo_max_pages s \<le> 0 then defaultMaxPages else fo_max_pages s)"

text \<open>\<open>fetch\<close>, without the authentication, the timeouts, the preview and the log.\<close>

definition fetch ::
    "libs \<Rightarrow> 's rede \<Rightarrow> fonte \<Rightarrow> (resposta_http \<Rightarrow> string + qualquer list) option \<Rightarrow> 's
     \<Rightarrow> erro_ext + (erro_ext + qualquer) list \<times> string list \<times> 's" where
  "fetch l r s ler w =
     (if fo_url s = [] then Inl SemURL
      else if ler \<noteq> None \<and> fo_data_key s \<noteq> [] then Inl LeituraEDataKey
      else (case checkPagination s of
              Some e \<Rightarrow> Inl e
            | None \<Rightarrow>
                (case (if fo_page_key s \<noteq> [] then firstPageURL l s else Inr (fo_url s)) of
                   Inl e \<Rightarrow> Inl e
                 | Inr url \<Rightarrow>
                     (case fetchPage l r s ler url w of
                        (Inl e, _, w) \<Rightarrow> Inl e
                      | (Inr p, _, w) \<Rightarrow> Inr (andar l r s ler (max_pages_de s) [] 1 p w)))))"

section \<open>Decoders\<close>

text \<open>One CSV row: the columns of the header, or \<open>field_n\<close>; the payload is a \<open>map[string]string\<close>.\<close>

definition csv_linha :: "string list option \<Rightarrow> string list \<Rightarrow> qualquer" where
  "csv_linha headers rec =
     QMapTexto (fold (\<lambda>(i, v) m. case headers of
         None \<Rightarrow> poe (''field_'' @ show_int (int i)) v m
       | Some hs \<Rightarrow> if i < length hs then poe (hs ! i) v m else m) (enumerate 0 rec) [])"

definition json_linhas :: "qualquer \<Rightarrow> qualquer list" where
  "json_linhas v = (case v of QList vs \<Rightarrow> vs | _ \<Rightarrow> [v])"

datatype xml_no = XmlNo (xml_nome: string) (xml_attrs: "(string \<times> string) list") (xml_texto: string) (xml_filhos: "xml_no list")

definition poe_filho :: "string \<times> qualquer \<Rightarrow> registro \<Rightarrow> registro" where
  "poe_filho = (\<lambda>(nome, v) out.
     (case map_of out nome of
        None \<Rightarrow> poe nome v out
      | Some (QList vs) \<Rightarrow> poe nome (QList (vs @ [v])) out
      | Some w \<Rightarrow> poe nome (QList [w, v]) out))"

fun xml_value :: "xml_no \<Rightarrow> qualquer" where
  "xml_value (XmlNo nome attrs texto filhos) =
     (if filhos = [] \<and> attrs = [] then QText (trim_space texto)
      else (let out = fold (\<lambda>(a, v). poe (''@'' @ a) (QText v)) attrs [];
                out = fold poe_filho (map (\<lambda>c. (xml_nome c, xml_value c)) filhos) out in
            QMap (if trim_space texto \<noteq> [] \<and> filhos = [] then poe ''#text'' (QText (trim_space texto)) out else out)))"

section \<open>Bounds of the walk and of the attempts\<close>

lemma andar_limitado:
  "andar l r s ler n seen pages p w = (xs, us, w') \<Longrightarrow> distinct us \<and> set us \<inter> set seen = {} \<and> length us \<le> n - 1 \<and> [] \<notin> set us"
proof (induction n arbitrary: seen pages p w xs us w')
  case (Suc n)
  obtain rows e where d: "drainPage l s p = (rows, e)" by (cases "drainPage l s p")
  show ?case
  proof (cases e)
    case (Inl a)
    then show ?thesis using Suc.prems d by auto
  next
    case (Inr nxt)
    show ?thesis
    proof (cases "nxt = [] \<or> n = 0 \<or> nxt \<in> set seen")
      case True
      then show ?thesis using Suc.prems d Inr by auto
    next
      case False
      obtain y es w1 where f: "fetchPage l r s ler nxt w = (y, es, w1)" by (cases "fetchPage l r s ler nxt w") auto
      show ?thesis
      proof (cases y)
        case (Inl a)
        then have "us = [nxt]" using Suc.prems d Inr False f by simp
        then show ?thesis using False by auto
      next
        case y: (Inr p')
        obtain xs' us' w2 where a: "andar l r s ler n (nxt # seen) (pages + 1) p' w1 = (xs', us', w2)"
          by (cases "andar l r s ler n (nxt # seen) (pages + 1) p' w1") auto
        have "us = nxt # us'" using Suc.prems d Inr False f y a by simp
        then show ?thesis using Suc.IH [OF a] False by auto
      qed
    qed
  qed
qed simp

lemma tentar_pedir_limitado:
  assumes "tentar_pedir r cfg url n a w = (x, es, w')" and "0 < n"
  shows "length es < n" and "x = Inr p \<Longrightarrow> 200 \<le> rh_status p \<and> rh_status p < 300"
proof -
  have "length es < n \<and> (\<forall>p. x = Inr p \<longrightarrow> 200 \<le> rh_status p \<and> rh_status p < 300)"
    using assms
  proof (induction n arbitrary: a w x es w')
    case (Suc n)
    obtain t w1 where t: "re_pede r url w = (t, w1)" by (cases "re_pede r url w")
    obtain y fs w2 where y: "tentar_pedir r cfg url n (Suc a) w1 = (y, fs, w2)" by (cases "tentar_pedir r cfg url n (Suc a) w1") auto
    show ?case
    proof (cases t)
      case (SemVez e)
      then show ?thesis using Suc.prems t by auto
    next
      case (SemResposta e)
      then show ?thesis using Suc.prems t y Suc.IH [OF y] by (auto split: if_splits)
    next
      case (Respondeu p)
      then show ?thesis using Suc.prems t y Suc.IH [OF y] by (auto split: if_splits)
    qed
  qed simp
  then show "length es < n" and "x = Inr p \<Longrightarrow> 200 \<le> rh_status p \<and> rh_status p < 300" by blast+
qed

lemma fetch_limitada_partes:
  assumes "fetch l r s ler w = Inr (xs, us, w')"
  shows "distinct us \<and> length us < max_pages_de s"
    and "tentar_pedir r (retry_de s) url (nat (rc_max_attempts (retry_de s))) 0 v = (y, es, v') \<Longrightarrow>
      int (length es) < max 1 (case fo_retry s of None \<Rightarrow> 3 | Some c \<Rightarrow> rc_max_attempts c) \<and>
      (case y of Inl e \<Rightarrow> True | Inr p \<Rightarrow> 200 \<le> rh_status p \<and> rh_status p < 300)"
proof -
  from assms obtain p w1 where "andar l r s ler (max_pages_de s) [] 1 p w1 = (xs, us, w')"
    by (auto simp: fetch_def split: if_splits option.splits sum.splits prod.splits)
  from andar_limitado [OF this] have "distinct us" "length us \<le> max_pages_de s - 1" by auto
  moreover have "0 < max_pages_de s" by (simp add: max_pages_de_def defaultMaxPages_def)
  ultimately show "distinct us \<and> length us < max_pages_de s" by linarith
  assume t: "tentar_pedir r (retry_de s) url (nat (rc_max_attempts (retry_de s))) 0 v = (y, es, v')"
  have m: "rc_max_attempts (retry_de s) = max 1 (case fo_retry s of None \<Rightarrow> 3 | Some c \<Rightarrow> rc_max_attempts c)"
    by (simp add: retry_de_def Let_def split: option.splits)
  then have n: "0 < nat (rc_max_attempts (retry_de s))" by simp
  from tentar_pedir_limitado(1) [OF t n] have "int (length es) < rc_max_attempts (retry_de s)" by linarith
  then show "int (length es) < max 1 (case fo_retry s of None \<Rightarrow> 3 | Some c \<Rightarrow> rc_max_attempts c) \<and>
      (case y of Inl e \<Rightarrow> True | Inr p \<Rightarrow> 200 \<le> rh_status p \<and> rh_status p < 300)"
    using tentar_pedir_limitado(2) [OF t n] by (auto simp: m split: sum.splits)
qed


section \<open>Page numbers\<close>

text \<open>What the walk by page number relies on of the URL library: a parameter that is set is read back.\<close>

definition urls_ok :: "libs \<Rightarrow> bool" where
  "urls_ok l \<longleftrightarrow> (\<forall>u k v. \<exists>u'. u' \<noteq> [] \<and> li_com l u k v = Inr u' \<and> li_consulta l u' k = Some v)"

definition url_da_pagina :: "libs \<Rightarrow> fonte \<Rightarrow> int \<Rightarrow> string" where
  "url_da_pagina l s k = projr (li_com l (fo_url s) (fo_page_key s) (show_int k))"

text \<open>A source that answers page \<open>k\<close> with the rows \<open>R k\<close>, at the first attempt.\<close>

definition serve_paginas :: "libs \<Rightarrow> 's rede \<Rightarrow> fonte \<Rightarrow> (int \<Rightarrow> qualquer list) \<Rightarrow> bool" where
  "serve_paginas l r s R \<longleftrightarrow> (\<forall>k w. \<exists>p w'. re_pede r (url_da_pagina l s k) w = (Respondeu p, w') \<and> rh_status p = 200 \<and>
     rh_url p = url_da_pagina l s k \<and> li_linhas l (fo_format s) (rh_body p) = Some (R k, None))"

definition so_paginas :: "fonte \<Rightarrow> bool" where
  "so_paginas s \<longleftrightarrow> fo_url s \<noteq> [] \<and> fo_page_key s \<noteq> [] \<and> \<not> fo_follow_links s \<and> fo_cursor_key s = [] \<and> fo_offset_key s = [] \<and>
     fo_data_key s = [] \<and> fo_more_key s = [] \<and> fo_page_size s = 0"

lemma url_da_pagina:
  assumes "urls_ok l" and "- (2 ^ 63) \<le> k" and "k < 2 ^ 63"
  shows "withQuery l (fo_url s) (fo_page_key s) (show_int k) = Inr (url_da_pagina l s k)" and "url_da_pagina l s k \<noteq> []"
    and "currentOffset l (url_da_pagina l s k) (fo_page_key s) = k"
proof -
  obtain u where u: "u \<noteq> []" "li_com l (fo_url s) (fo_page_key s) (show_int k) = Inr u" "li_consulta l u (fo_page_key s) = Some (show_int k)"
    using assms(1) unfolding urls_ok_def by blast
  then show "withQuery l (fo_url s) (fo_page_key s) (show_int k) = Inr (url_da_pagina l s k)" "url_da_pagina l s k \<noteq> []"
    by (simp_all add: withQuery_def url_da_pagina_def)
  show "currentOffset l (url_da_pagina l s k) (fo_page_key s) = k"
    using u atoi_show_int [OF assms(2,3)] by (simp add: currentOffset_def url_da_pagina_def)
qed

lemma fetchPage_numero:
  assumes "urls_ok l" and "serve_paginas l r s R" and "so_paginas s" and "- (2 ^ 63) \<le> k" and "k < 2 ^ 63 - 1"
  shows "\<exists>pg es w'. fetchPage l r s None (url_da_pagina l s k) w = (Inr pg, es, w') \<and>
     drainPage l s pg = (R k, if R k = [] then Inr [] else Inr (url_da_pagina l s (k + 1)))"
proof -
  obtain p w' where p: "re_pede r (url_da_pagina l s k) w = (Respondeu p, w')" "rh_status p = 200"
     "rh_url p = url_da_pagina l s k" "li_linhas l (fo_format s) (rh_body p) = Some (R k, None)"
    using assms(2) unfolding serve_paginas_def by blast
  have "0 < nat (rc_max_attempts (retry_de s))" by (simp add: retry_de_def Let_def split: option.splits)
  then obtain m where m: "nat (rc_max_attempts (retry_de s)) = Suc m" using gr0_implies_Suc by blast
  have pn: "currentOffset l (rh_url p) (fo_page_key s) = k" using url_da_pagina(3) [OF assms(1)] assms(4,5) p(3) by simp
  define pg where "pg = \<lparr>pg_body = rh_body p, pg_link_next = [], pg_cursor = [], pg_offset = 0, pg_number = k,
      pg_tem_mais = None, pg_records = None\<rparr>"
  have prep: "preparar l s None p = Inr pg" using assms(3) pn by (simp add: preparar_def so_paginas_def pg_def)
  have f: "fetchPage l r s None (url_da_pagina l s k) w = (Inr pg, [], w')"
    using p(1,2) prep by (simp add: fetchPage_def m)
  have "int64 (k + 1) = k + 1" using assms(4,5) by (simp add: int64_def)
  then have "nextPageURL l s pg (length (R k)) = (if R k = [] then Inr [] else Inr (url_da_pagina l s (k + 1)))"
    using assms(3) url_da_pagina(1) [OF assms(1), of "k + 1" s] assms(4,5) by (simp add: nextPageURL_def pg_def so_paginas_def)
  then have "drainPage l s pg = (R k, if R k = [] then Inr [] else Inr (url_da_pagina l s (k + 1)))"
    using p(4) by (simp add: drainPage_def pg_def)
  with f show ?thesis by blast
qed

lemma url_da_pagina_inj:
  assumes "urls_ok l" and "url_da_pagina l s j = url_da_pagina l s k" and "- (2 ^ 63) \<le> j" and "j < 2 ^ 63" and "- (2 ^ 63) \<le> k" and "k < 2 ^ 63"
  shows "j = k"
  using url_da_pagina(3) [OF assms(1,3,4)] url_da_pagina(3) [OF assms(1,5,6)] assms(2) by metis

lemma andar_numeros:
  assumes "urls_ok l" and "serve_paginas l r s R" and "so_paginas s" and "\<forall>i < N. R (k + int i) \<noteq> []" and "R (k + int N) = []"
    and "- (2 ^ 63) \<le> k" and "k + int N < 2 ^ 63 - 1" and "N < n"
    and "drainPage l s p = (R k, if R k = [] then Inr [] else Inr (url_da_pagina l s (k + 1)))"
    and "\<forall>u \<in> set seen. \<exists>j. u = url_da_pagina l s j \<and> - (2 ^ 63) \<le> j \<and> j \<le> k"
  shows "\<exists>us w'. andar l r s None n seen pages p w = (map Inr (concat (map (\<lambda>i. R (k + int i)) [0..<N])), us, w')"
  using assms(4-)
proof (induction N arbitrary: k n seen pages p w)
  case 0
  then obtain m where "n = Suc m" using gr0_implies_Suc by blast
  then show ?case using 0 by auto
next
  case (Suc N)
  obtain m where m: "n = Suc m" "N < m" using Suc.prems(5) by (cases n) auto
  have r0: "R k \<noteq> []" using Suc.prems(1) [rule_format, of 0] by simp
  have b: "- (2 ^ 63) \<le> k + 1" "k + 1 < 2 ^ 63 - 1" "k + 1 + int N < 2 ^ 63 - 1" using Suc.prems(3,4) by simp_all
  obtain pg es w1 where f: "fetchPage l r s None (url_da_pagina l s (k + 1)) w = (Inr pg, es, w1)"
    and d: "drainPage l s pg = (R (k + 1), if R (k + 1) = [] then Inr [] else Inr (url_da_pagina l s (k + 1 + 1)))"
    using fetchPage_numero [OF assms(1-3) b(1,2)] by blast
  have ne: "url_da_pagina l s (k + 1) \<noteq> []" using url_da_pagina(2) [OF assms(1), of "k + 1" s] b by simp
  have fora: "url_da_pagina l s (k + 1) \<notin> set seen"
  proof
    assume "url_da_pagina l s (k + 1) \<in> set seen"
    then obtain j where j: "url_da_pagina l s (k + 1) = url_da_pagina l s j" "- (2 ^ 63) \<le> j" "j \<le> k" using Suc.prems(7) by blast
    have "k + 1 = j" by (rule url_da_pagina_inj [OF assms(1) j(1)]) (use b j in simp_all)
    with j(3) show False by simp
  qed
  have "\<exists>us w'. andar l r s None m (url_da_pagina l s (k + 1) # seen) (pages + 1) pg w1 =
      (map Inr (concat (map (\<lambda>i. R (k + 1 + int i)) [0..<N])), us, w')"
  proof (rule Suc.IH [OF _ _ b(1,3) m(2) d])
    show "\<forall>i < N. R (k + 1 + int i) \<noteq> []" using Suc.prems(1) by (metis Suc_less_eq add.assoc int_Suc add.commute)
    show "R (k + 1 + int N) = []" using Suc.prems(2) by (simp add: algebra_simps)
    show "\<forall>u \<in> set (url_da_pagina l s (k + 1) # seen). \<exists>j. u = url_da_pagina l s j \<and> - (2 ^ 63) \<le> j \<and> j \<le> k + 1"
      using Suc.prems(7) b(1) by force
  qed
  then obtain us w' where a: "andar l r s None m (url_da_pagina l s (k + 1) # seen) (pages + 1) pg w1 =
      (map Inr (concat (map (\<lambda>i. R (k + 1 + int i)) [0..<N])), us, w')" by blast
  have "concat (map (\<lambda>i. R (k + int i)) [0..<Suc N]) = R k @ concat (map (\<lambda>i. R (k + 1 + int i)) [0..<N])"
  proof -
    have "map (\<lambda>i. R (k + int i)) [0..<Suc N] = R k # map (\<lambda>i. R (k + 1 + int i)) [0..<N]"
      by (simp add: upt_conv_Cons map_Suc_upt [symmetric] comp_def add.assoc del: upt_Suc)
    then show ?thesis by simp
  qed
  moreover have "andar l r s None n seen pages p w =
     (map Inr (R k) @ map Inr (concat (map (\<lambda>i. R (k + 1 + int i)) [0..<N])), url_da_pagina l s (k + 1) # us, w')"
    using Suc.prems(6) r0 ne fora f a m by simp
  ultimately show ?case by simp
qed

lemma fetch_paginas:
  assumes "urls_ok l" and "serve_paginas l r s R" and "so_paginas s" and "li_consulta l (fo_url s) (fo_page_key s) = None"
    and "k = (if fo_first_page s = 0 then 1 else fo_first_page s)"
    and "\<forall>i < N. R (k + int i) \<noteq> []" and "R (k + int N) = []" and "N < max_pages_de s"
    and "- (2 ^ 63) \<le> k" and "k + int N < 2 ^ 63 - 1"
  shows "\<exists>us w'. fetch l r s None w = Inr (map Inr (concat (map (\<lambda>i. R (k + int i)) [0..<N])), us, w')"
proof -
  have k: "k < 2 ^ 63 - 1" using assms(10) by linarith
  have u: "firstPageURL l s = Inr (url_da_pagina l s k)"
    using url_da_pagina(1) [OF assms(1,9), of s] k assms(4,5) by (simp add: firstPageURL_def)
  obtain pg es w1 where f: "fetchPage l r s None (url_da_pagina l s k) w = (Inr pg, es, w1)"
    and d: "drainPage l s pg = (R k, if R k = [] then Inr [] else Inr (url_da_pagina l s (k + 1)))"
    using fetchPage_numero [OF assms(1-3,9) k] by blast
  obtain us w' where a: "andar l r s None (max_pages_de s) [] 1 pg w1 = (map Inr (concat (map (\<lambda>i. R (k + int i)) [0..<N])), us, w')"
    using andar_numeros [OF assms(1-3,6,7,9,10,8) d, of "[]" 1 w1] by auto
  have "checkPagination s = None" using assms(3,5) by (auto simp: checkPagination_def so_paginas_def)
  moreover have "fo_url s \<noteq> []" "fo_page_key s \<noteq> []" using assms(3) by (simp_all add: so_paginas_def)
  ultimately have "fetch l r s None w = Inr (map Inr (concat (map (\<lambda>i. R (k + int i)) [0..<N])), us, w')"
    using u f a by (simp add: fetch_def)
  then show ?thesis by blast
qed

text \<open>
  C21: over a source that numbers its pages, whose first empty page comes before the limit, the extract
  yields every row of every page before it, each once, in the order of the pages, and no error.
\<close>

theorem fetch_todas_as_paginas:
  assumes "urls_ok l" and "serve_paginas l r s R" and "so_paginas s" and "li_consulta l (fo_url s) (fo_page_key s) = None"
    and "k = (if fo_first_page s = 0 then 1 else fo_first_page s)"
    and "\<forall>i < N. R (k + int i) \<noteq> []" and "R (k + int N) = []" and "N < max_pages_de s"
    and "- (2 ^ 63) \<le> k" and "k + int N < 2 ^ 63 - 1"
  shows "\<exists>us w'. fetch l r s None w = Inr (map Inr (concat (map (\<lambda>i. R (k + int i)) [0..<N])), us, w')"
  by (rule fetch_paginas [OF assms])

definition libs_de_exemplo :: libs where
  "libs_de_exemplo =
     \<lparr>li_com = (\<lambda>u k v. Inr (''/'' @ k @ ''='' @ v)),
      li_consulta = (\<lambda>u k. if prefix (''/'' @ k @ ''='') u then Some (drop (length k + 2) u) else None),
      li_json = (\<lambda>_. Inl []), li_brutos = (\<lambda>_. None), li_texto = (\<lambda>_. None),
      li_linhas = (\<lambda>_ b. Some (if b = ''/page=1'' then [QInt 10, QInt 11] else if b = ''/page=2'' then [QInt 20] else [], None))\<rparr>"

definition rede_de_exemplo :: "unit rede" where
  "rede_de_exemplo =
     \<lparr>re_pede = (\<lambda>u w. (Respondeu \<lparr>rh_url = u, rh_status = 200, rh_link = [], rh_retry_after = [], rh_body = u\<rparr>, w)),
      re_data = (\<lambda>_. None), re_sorteio = (\<lambda>_. 0)\<rparr>"

definition fonte_de_exemplo :: fonte where
  "fonte_de_exemplo =
     \<lparr>fo_url = ''http://x'', fo_format = ''json'', fo_follow_links = False, fo_cursor_key = [], fo_page_key = ''page'',
      fo_offset_key = [], fo_data_key = [], fo_more_key = [], fo_first_page = 0, fo_page_size = 0, fo_max_pages = 0, fo_retry = None\<rparr>"

definition linhas_de_exemplo :: "int \<Rightarrow> qualquer list" where
  "linhas_de_exemplo k = (if show_int k = ''1'' then [QInt 10, QInt 11] else if show_int k = ''2'' then [QInt 20] else [])"

lemma exemplo_paginado:
  "urls_ok libs_de_exemplo" "serve_paginas libs_de_exemplo rede_de_exemplo fonte_de_exemplo linhas_de_exemplo" "so_paginas fonte_de_exemplo"
  by (auto simp: urls_ok_def serve_paginas_def so_paginas_def libs_de_exemplo_def rede_de_exemplo_def fonte_de_exemplo_def
      url_da_pagina_def linhas_de_exemplo_def)

lemma mostra_123: "show_int 1 = ''1''" "show_int 2 = ''2''" "show_int 3 = ''3''"
  by code_simp+

lemma exemplo_numerado:
  "li_consulta libs_de_exemplo (fo_url fonte_de_exemplo) (fo_page_key fonte_de_exemplo) = None"
  "(1::int) = (if fo_first_page fonte_de_exemplo = 0 then 1 else fo_first_page fonte_de_exemplo)"
  "\<forall>i < 2. linhas_de_exemplo (1 + int i) \<noteq> []" "linhas_de_exemplo (1 + int 2) = []" "2 < max_pages_de fonte_de_exemplo"
  "- (2 ^ 63) \<le> (1::int)" "(1::int) + int 2 < 2 ^ 63 - 1"
  "concat (map (\<lambda>i. linhas_de_exemplo (1 + int i)) [0..<2]) = [QInt 10, QInt 11, QInt 20]"
  by (simp_all add: libs_de_exemplo_def fonte_de_exemplo_def max_pages_de_def defaultMaxPages_def linhas_de_exemplo_def mostra_123
      less_Suc_eq numeral_2_eq_2 upt_conv_Cons)

lemma fetch_todas_as_paginas_witness:
  "\<exists>us w'. fetch libs_de_exemplo rede_de_exemplo fonte_de_exemplo None () = Inr ([Inr (QInt 10), Inr (QInt 11), Inr (QInt 20)], us, w')"
  using fetch_todas_as_paginas [OF exemplo_paginado exemplo_numerado(1-7), of "()"] exemplo_numerado(8) by simp


section \<open>Backoff\<close>

lemma int64_cabe: "- (2 ^ 63) \<le> x \<Longrightarrow> x < 2 ^ 63 \<Longrightarrow> int64 x = x"
  by (simp add: int64_def)

lemma soma_cabe:
  assumes "0 < b" and "b < 2 ^ 62" and "0 \<le> x" and "x < b"
  shows "- (2 ^ 63) \<le> b + x" and "b + x < (2::int) ^ 63"
  using assms by simp_all

text \<open>
  While the doubling fits in 64 bits the wait is the doubled one capped by the limit, plus a jitter
  below its fraction, so waits never decrease below the first; a shift beyond that gives a negative wait,
  which is no wait at all.
\<close>

theorem calculateBackoff_faixa:
  assumes "0 < rc_initial cfg" and "rc_initial cfg \<le> rc_max cfg" and "2 ^ n * rc_initial cfg < 2 ^ 63" and "n < 63"
    and "0 \<le> rc_jitter cfg" and "rc_jitter cfg \<le> 1" and "rc_max cfg < 2 ^ 62"
    and "\<forall>s > 0. 0 \<le> sorteio s \<and> sorteio s < s"
  shows "min (2 ^ n * rc_initial cfg) (rc_max cfg) \<le> calculateBackoff sorteio n cfg \<and>
      of_int (calculateBackoff sorteio n cfg) \<le> of_int (min (2 ^ n * rc_initial cfg) (rc_max cfg)) * (1 + rc_jitter cfg)"
proof -
  let ?b = "min (2 ^ n * rc_initial cfg) (rc_max cfg)" and ?j = "rc_jitter cfg"
  have "int64 (2 ^ n * rc_initial cfg) = 2 ^ n * rc_initial cfg" using assms(1,3) by (simp add: int64_def)
  then have b: "(let b = int64 (potencia n * rc_initial cfg) in if 0 < rc_max cfg \<and> rc_max cfg < b then rc_max cfg else b) = ?b"
    using assms(1,2,4) by (auto simp: potencia_def Let_def min_def)
  have b0: "0 < ?b" "?b < 2 ^ 62" using assms(1,2,7) by (auto simp: min_def)
  let ?s = "\<lfloor>of_int ?b * ?j\<rfloor>"
  have le: "of_int ?s \<le> of_int ?b * ?j" by linarith
  have pj: "0 \<le> of_int ?b * ?j" using b0 assms(5) by simp
  have c: "calculateBackoff sorteio n cfg = (if ?s \<le> 0 then ?b else int64 (?b + sorteio ?s))"
    using b by (simp add: calculateBackoff_def Let_def)
  show ?thesis
  proof (cases "?s \<le> 0")
    case True
    then show ?thesis using c pj by (simp add: algebra_simps)
  next
    case False
    then have so: "0 \<le> sorteio ?s" "sorteio ?s < ?s" using assms(8) by auto
    have "of_int ?b * ?j \<le> of_int ?b * 1" using b0 assms(6) by (intro mult_left_mono) auto
    then have "?s \<le> ?b" by linarith
    then have "int64 (?b + sorteio ?s) = ?b + sorteio ?s" using soma_cabe [OF b0 so(1)] so(2) by (intro int64_cabe) simp_all
    moreover have "of_int (?b + sorteio ?s) \<le> of_int ?b * (1 + ?j)"
    proof -
      have "of_int (sorteio ?s) \<le> (of_int ?s :: rat)" using so(2) by (simp only: of_int_le_iff less_imp_le)
      then show ?thesis using le unfolding of_int_add distrib_left by linarith
    qed
    ultimately show ?thesis using c False so by simp
  qed
qed

definition retry_de_exemplo :: retry_config where
  "retry_de_exemplo = \<lparr>rc_max_attempts = 40, rc_initial = 1000000000, rc_max = 60 * 1000000000, rc_jitter = 1 / 10\<rparr>"

lemma calculateBackoff_faixa_witness:
  "min (2 ^ 3 * 1000000000) (60 * 1000000000) \<le> calculateBackoff (\<lambda>_. 0) 3 retry_de_exemplo"
proof -
  have "rc_jitter retry_de_exemplo \<le> 1" by (simp add: retry_de_exemplo_def)
  then show ?thesis
    using calculateBackoff_faixa [of retry_de_exemplo 3 "\<lambda>_. 0"] by (simp add: retry_de_exemplo_def)
qed

text \<open>
  With the default waits, the thirty-fifth retry waits a negative time: the cap is a comparison that a
  negative wait passes.
\<close>

theorem calculateBackoff_estoura: "calculateBackoff sorteio 34 retry_de_exemplo < 0"
  by (simp add: calculateBackoff_def retry_de_exemplo_def potencia_def int64_def Let_def)

section \<open>Links\<close>

definition aspas_link :: "string \<Rightarrow> string \<Rightarrow> string" where
  "aspas_link u rel = ''<'' @ u @ ''>; rel='' @ [CHR 0x22] @ rel @ [CHR 0x22]"

text \<open>
  The next page of a \<open>Link\<close> header is found, also after another link, but not when its address
  holds a comma, which RFC 8288 allows: the walk then stops after the page, as if it were the last.
\<close>

theorem parseLinkNext_virgula:
  "parseLinkNext (aspas_link ''/a'' ''prev'' @ '', '' @ aspas_link ''/b'' ''next'') = ''/b''"
  "parseLinkNext (aspas_link ''/b?id=1,2'' ''next'') = []"
  by code_simp+

section \<open>CSV\<close>

text \<open>
  The rows of a CSV source are not objects to the transformers: \<open>Accept\<close> and \<open>Rename\<close> let them through
  untouched, without checking a field, and \<open>IngestionID\<close> refuses them all.
\<close>

theorem csv_nao_e_objeto:
  "Accept cs (csv_linha hs rec) = Segue (csv_linha hs rec)" "Rename ns (csv_linha hs rec) = Segue (csv_linha hs rec)"
  "IngestionID sc sha1 [] (csv_linha hs rec) = Falha (NaoEObjeto (csv_linha hs rec))"
  by (simp_all add: csv_linha_def Accept_def Rename_def IngestionID_def ingestionIDCom_def defaultIDFields_def)

end
