(* ===== verification/Auth.thy ===== *)
theory Auth
  imports Prelude
begin

text \<open>
  \<open>internal/auth/auth.go\<close>: the credential of the operator, the signed session and the gate in
  front of the interface. Bytes are characters. PBKDF2 and HMAC with SHA-256 are the arguments
  \<open>pbkdf2\<close> (password, salt, iterations, length) and \<open>mac\<close> (key, message). The transport of the cookie by the browser
  and by \<open>net/http\<close> is left out: the request carries some value or none.
\<close>

section \<open>Base64 without padding\<close>

definition alfabeto_std :: string where
  "alfabeto_std = ''ABCDEFGHIJKLMNOPQRSTUVWXYZabcdefghijklmnopqrstuvwxyz0123456789+/''"

definition alfabeto_url :: string where
  "alfabeto_url = ''ABCDEFGHIJKLMNOPQRSTUVWXYZabcdefghijklmnopqrstuvwxyz0123456789-_''"

fun sextetos :: "nat list \<Rightarrow> nat list" where
  "sextetos (a # b # c # r) = a div 4 # (a mod 4 * 16 + b div 16) # (b mod 16 * 4 + c div 64) # c mod 64 # sextetos r"
| "sextetos [a, b] = [a div 4, a mod 4 * 16 + b div 16, b mod 16 * 4]"
| "sextetos [a] = [a div 4, a mod 4 * 16]"
| "sextetos [] = []"

text \<open>The decoder is not strict: the bits of the last character beyond the last byte are ignored.\<close>

fun octetos :: "nat list \<Rightarrow> nat list option" where
  "octetos (w # x # y # z # r) =
     map_option (\<lambda>o'. (w * 4 + x div 16) # (x mod 16 * 16 + y div 4) # (y mod 4 * 64 + z) # o') (octetos r)"
| "octetos [w, x, y] = Some [w * 4 + x div 16, x mod 16 * 16 + y div 4]"
| "octetos [w, x] = Some [w * 4 + x div 16]"
| "octetos [w] = None"
| "octetos [] = Some []"

definition b64_encode :: "string \<Rightarrow> string \<Rightarrow> string" where
  "b64_encode al s = map (\<lambda>i. al ! i) (sextetos (map byte s))"

definition indice :: "string \<Rightarrow> char \<Rightarrow> nat option" where
  "indice al c = map_of (zip al [0..<length al]) c"

text \<open>\<open>DecodeString\<close> skips line breaks.\<close>

definition b64_decode :: "string \<Rightarrow> string \<Rightarrow> string option" where
  "b64_decode al s =
     (let cs = filter (\<lambda>c. c \<noteq> CHR 0x0A \<and> c \<noteq> CHR 0x0D) s in
      if list_all (\<lambda>c. indice al c \<noteq> None) cs
      then map_option (map char_of) (octetos (map (\<lambda>c. the (indice al c)) cs)) else None)"

section \<open>Password\<close>

definition iteracoes :: nat where "iteracoes = 600000"

definition tamanhoChave :: nat where "tamanhoChave = 32"

type_synonym kdf = "string \<Rightarrow> string \<Rightarrow> int \<Rightarrow> nat \<Rightarrow> string option"

text \<open>\<open>sal\<close> is what \<open>rand.Read\<close> gave.\<close>

definition GerarHash :: "kdf \<Rightarrow> string \<Rightarrow> string \<Rightarrow> string option" where
  "GerarHash pbkdf2 sal senha =
     map_option (\<lambda>chave. ''pbkdf2-sha256$'' @ show_int (int iteracoes) @ ''$'' @ b64_encode alfabeto_std sal @ ''$'' @
        b64_encode alfabeto_std chave) (pbkdf2 senha sal (int iteracoes) tamanhoChave)"

definition ConferirSenha :: "kdf \<Rightarrow> string \<Rightarrow> string \<Rightarrow> bool" where
  "ConferirSenha pbkdf2 hash senha =
     (case split_on (CHR ''$'') hash of
        [alg, n, s, c] \<Rightarrow>
          if alg \<noteq> ''pbkdf2-sha256'' then False
          else (case atoi n of None \<Rightarrow> False
                | Some iter \<Rightarrow> if iter \<le> 0 then False
                  else (case b64_decode alfabeto_std s of None \<Rightarrow> False
                        | Some sal \<Rightarrow>
                            (case b64_decode alfabeto_std c of None \<Rightarrow> False
                             | Some esperado \<Rightarrow>
                                 (case pbkdf2 senha sal iter (length esperado) of None \<Rightarrow> False
                                  | Some obtido \<Rightarrow> obtido = esperado))))
      | _ \<Rightarrow> False)"

section \<open>Credential\<close>

record credencial =
  cr_usuario :: string
  cr_hash :: string
  cr_segredo :: string

definition Ativa :: "credencial \<Rightarrow> bool" where
  "Ativa c \<longleftrightarrow> cr_usuario c \<noteq> [] \<and> cr_hash c \<noteq> []"

datatype erro_credencial = PelaMetade | HashInesperado | SegredoCurto

definition Validar_credencial :: "credencial \<Rightarrow> erro_credencial option" where
  "Validar_credencial c =
     (if \<not> Ativa c then (if cr_usuario c \<noteq> [] \<or> cr_hash c \<noteq> [] then Some PelaMetade else None)
      else if \<not> prefix ''pbkdf2-sha256$'' (cr_hash c) then Some HashInesperado
      else if length (cr_segredo c) < 32 then Some SegredoCurto
      else None)"

section \<open>Session\<close>

definition ValidadeDaSessao :: time where
  "ValidadeDaSessao = 12 * 3600 * 1000000000"

definition unix :: "time \<Rightarrow> int" where
  "unix t = t div 1000000000"

definition corpo_da_sessao :: "credencial \<Rightarrow> time \<Rightarrow> string" where
  "corpo_da_sessao c agora = cr_usuario c @ ''|'' @ show_int (unix (agora + ValidadeDaSessao))"

type_synonym hmac = "string \<Rightarrow> string \<Rightarrow> string"

definition assinar :: "hmac \<Rightarrow> credencial \<Rightarrow> string \<Rightarrow> string" where
  "assinar mac c corpo = mac (cr_segredo c) corpo"

definition emitir :: "hmac \<Rightarrow> credencial \<Rightarrow> time \<Rightarrow> string" where
  "emitir mac c agora =
     corpo_da_sessao c agora @ ''|'' @ b64_encode alfabeto_url (assinar mac c (corpo_da_sessao c agora))"

definition conferirSessao :: "hmac \<Rightarrow> credencial \<Rightarrow> string \<Rightarrow> time \<Rightarrow> bool" where
  "conferirSessao mac c valor agora =
     (case cut_last (CHR ''|'') valor of
        None \<Rightarrow> False
      | Some (corpo, assinatura) \<Rightarrow>
          (case b64_decode alfabeto_url assinatura of
             None \<Rightarrow> False
           | Some bruta \<Rightarrow>
               if bruta \<noteq> assinar mac c corpo then False
               else (case cut (CHR ''|'') corpo of
                       None \<Rightarrow> False
                     | Some (usuario, prazo) \<Rightarrow>
                         if usuario \<noteq> cr_usuario c then False
                         else (case atoi prazo of None \<Rightarrow> False | Some expira \<Rightarrow> unix agora < expira))))"

section \<open>The gate\<close>

definition livre :: "string \<Rightarrow> bool" where
  "livre caminho \<longleftrightarrow> caminho \<in> {''/health'', ''/ready'', ''/login'', ''/logout''} \<or> prefix ''/assets/'' caminho"

definition escaparDestino :: "string \<Rightarrow> string" where
  "escaparDestino alvo = (if \<not> prefix ''/'' alvo \<or> prefix ''//'' alvo then ''/'' else alvo)"

definition Destino :: "string \<Rightarrow> string" where
  "Destino bruto = (if bruto = [] then ''/'' else escaparDestino bruto)"

record pedido =
  pe_path :: string
  pe_uri :: string
  pe_method :: string
  pe_cookie :: "string option"

datatype resposta = Passa "string option" | NaoAutorizado | Redireciona string

definition ServeHTTP :: "hmac \<Rightarrow> credencial \<Rightarrow> pedido \<Rightarrow> time \<Rightarrow> resposta" where
  "ServeHTTP mac c p agora =
     (if \<not> Ativa c \<or> livre (pe_path p) then Passa None
      else if (case pe_cookie p of None \<Rightarrow> False | Some v \<Rightarrow> conferirSessao mac c v agora) then Passa (Some (cr_usuario c))
      else if pe_method p \<noteq> ''GET'' then NaoAutorizado
      else Redireciona (if pe_uri p \<noteq> ''/'' then ''/login?de='' @ escaparDestino (pe_uri p) else ''/login''))"

record cookie =
  ck_name :: string
  ck_value :: string
  ck_http_only :: bool
  ck_secure :: bool
  ck_expires :: "time option"
  ck_max_age :: int

definition NomeDoCookie :: string where
  "NomeDoCookie = ''brevis_sessao''"

text \<open>\<open>Entrar\<close>: the cookie that is set, or \<open>None\<close> and \<open>false\<close>; \<open>inseguro\<close> is the field of the gate.\<close>

definition Entrar :: "kdf \<Rightarrow> hmac \<Rightarrow> credencial \<Rightarrow> bool \<Rightarrow> string \<Rightarrow> string \<Rightarrow> time \<Rightarrow> cookie option" where
  "Entrar pbkdf2 mac c inseguro usuario senha agora =
     (let usuarioOK = (usuario = cr_usuario c); senhaOK = ConferirSenha pbkdf2 (cr_hash c) senha in
      if \<not> usuarioOK \<or> \<not> senhaOK then None
      else Some \<lparr>ck_name = NomeDoCookie, ck_value = emitir mac c agora, ck_http_only = True, ck_secure = \<not> inseguro,
                 ck_expires = Some (agora + ValidadeDaSessao), ck_max_age = 0\<rparr>)"

definition Sair :: "bool \<Rightarrow> cookie" where
  "Sair inseguro =
     \<lparr>ck_name = NomeDoCookie, ck_value = [], ck_http_only = True, ck_secure = \<not> inseguro, ck_expires = None, ck_max_age = - 1\<rparr>"

section \<open>Base64 goes back and forth\<close>

lemma octetos_sextetos: "\<forall>b \<in> set bs. b < 256 \<Longrightarrow> octetos (sextetos bs) = Some bs"
proof (induction bs rule: sextetos.induct)
  case (1 a b c r)
  have "a div 4 * 4 + (a mod 4 * 16 + b div 16) div 16 = a" using 1 by auto
  moreover have "(a mod 4 * 16 + b div 16) mod 16 * 16 + (b mod 16 * 4 + c div 64) div 4 = b" using 1 by auto
  moreover have "(b mod 16 * 4 + c div 64) mod 4 * 64 + c mod 64 = c" using 1 by auto
  ultimately show ?case using 1 by simp
next
  case (2 a b)
  have "a div 4 * 4 + (a mod 4 * 16 + b div 16) div 16 = a" "(a mod 4 * 16 + b div 16) mod 16 * 16 + b mod 16 * 4 div 4 = b"
    using 2 by auto
  then show ?case by simp
next
  case (3 a)
  then show ?case by simp
qed simp

lemma sextetos_64: "\<forall>b \<in> set bs. b < 256 \<Longrightarrow> \<forall>i \<in> set (sextetos bs). i < 64"
  by (induction bs rule: sextetos.induct) auto

definition alfabeto_ok :: "string \<Rightarrow> bool" where
  "alfabeto_ok al \<longleftrightarrow> distinct al \<and> length al = 64 \<and> CHR 0x0A \<notin> set al \<and> CHR 0x0D \<notin> set al \<and> CHR ''$'' \<notin> set al \<and> CHR ''|'' \<notin> set al"

lemma alfabetos_ok: "alfabeto_ok alfabeto_std" "alfabeto_ok alfabeto_url"
  by code_simp+

lemma indice_nth: "alfabeto_ok al \<Longrightarrow> i < 64 \<Longrightarrow> indice al (al ! i) = Some i"
  by (simp add: indice_def alfabeto_ok_def map_of_zip_nth)

lemma byte_less [simp]: "byte c < 256"
  by (simp add: byte_def)

lemma b64_encode_set: "alfabeto_ok al \<Longrightarrow> set (b64_encode al s) \<subseteq> set al"
  using sextetos_64 [of "map byte s"] by (auto simp: b64_encode_def alfabeto_ok_def)

lemma b64_volta [simp]: "alfabeto_ok al \<Longrightarrow> b64_decode al (b64_encode al s) = Some s"
proof -
  assume al: "alfabeto_ok al"
  have "\<forall>c \<in> set (b64_encode al s). c \<noteq> CHR 0x0A \<and> c \<noteq> CHR 0x0D"
    using b64_encode_set [OF al] al by (auto simp: alfabeto_ok_def)
  then have f: "filter (\<lambda>c. c \<noteq> CHR 0x0A \<and> c \<noteq> CHR 0x0D) (b64_encode al s) = b64_encode al s" by (simp add: filter_id_conv)
  have i: "\<forall>i \<in> set (sextetos (map byte s)). indice al (al ! i) = Some i"
    using sextetos_64 [of "map byte s"] indice_nth [OF al] by auto
  then have "map (\<lambda>c. the (indice al c)) (b64_encode al s) = sextetos (map byte s)"
    by (simp add: b64_encode_def map_idI)
  moreover have "list_all (\<lambda>c. indice al c \<noteq> None) (b64_encode al s)" using i by (simp add: b64_encode_def list_all_iff)
  ultimately show ?thesis
    by (simp add: b64_decode_def f octetos_sextetos comp_def byte_def)
qed

section \<open>What the credential guarantees\<close>

lemma sem_barra: "CHR ''|'' \<notin> set (show_int i)"
proof -
  have "CHR ''|'' \<notin> set (show_nat n)" for n
    using show_nat_digitos [of n] by (auto simp: list_all_iff digito_def byte_def)
  then show ?thesis by (simp add: show_int_def)
qed

lemma sem_cifrao: "CHR ''$'' \<notin> set (show_int i)"
proof -
  have "CHR ''$'' \<notin> set (show_nat n)" for n
    using show_nat_digitos [of n] by (auto simp: list_all_iff digito_def byte_def)
  then show ?thesis by (simp add: show_int_def)
qed

lemma b64_sem_sep: "alfabeto_ok al \<Longrightarrow> CHR ''$'' \<notin> set (b64_encode al s) \<and> CHR ''|'' \<notin> set (b64_encode al s)"
  using b64_encode_set [of al s] by (auto simp: alfabeto_ok_def)

lemma sessao_emitida:
  assumes "- (2 ^ 63) \<le> unix (t + ValidadeDaSessao)" and "unix (t + ValidadeDaSessao) < 2 ^ 63"
  shows "conferirSessao mac c (emitir mac c t) u \<longleftrightarrow>
    CHR ''|'' \<notin> set (cr_usuario c) \<and> unix u < unix (t + ValidadeDaSessao)"
proof -
  let ?corpo = "corpo_da_sessao c t" and ?sig = "b64_encode alfabeto_url (assinar mac c (corpo_da_sessao c t))"
  have "emitir mac c t = ?corpo @ CHR ''|'' # ?sig" by (simp add: emitir_def)
  then have 1: "cut_last (CHR ''|'') (emitir mac c t) = Some (?corpo, ?sig)"
    using b64_sem_sep [OF alfabetos_ok(2)] by (simp add: cut_last_append)
  have 2: "b64_decode alfabeto_url ?sig = Some (assinar mac c ?corpo)" by (simp add: alfabetos_ok)
  have 3: "?corpo = cr_usuario c @ CHR ''|'' # show_int (unix (t + ValidadeDaSessao))" by (simp add: corpo_da_sessao_def)
  show ?thesis
  proof (cases "CHR ''|'' \<in> set (cr_usuario c)")
    case False
    then have "cut (CHR ''|'') ?corpo = Some (cr_usuario c, show_int (unix (t + ValidadeDaSessao)))"
      by (simp add: 3 cut_append)
    with False show ?thesis using atoi_show_int [OF assms] by (simp add: conferirSessao_def 1 2)
  next
    case True
    obtain a b where ab: "cut (CHR ''|'') ?corpo = Some (a, b)"
      using cut_None_iff [of "CHR ''|''" ?corpo] True by (cases "cut (CHR ''|'') ?corpo") (auto simp: 3)
    then have "CHR ''|'' \<notin> set a" by (simp add: cut_Some_iff)
    then have "a \<noteq> cr_usuario c" using True by auto
    then show ?thesis using True by (simp add: conferirSessao_def 1 2 ab)
  qed
qed

lemma senha_gerada:
  assumes "pbkdf2 senha sal (int iteracoes) tamanhoChave = Some k" and "length k = tamanhoChave"
  shows "\<exists>h. GerarHash pbkdf2 sal senha = Some h \<and> prefix ''pbkdf2-sha256$'' h \<and>
    (\<forall>s. ConferirSenha pbkdf2 h s \<longleftrightarrow> pbkdf2 s sal (int iteracoes) tamanhoChave = Some k)"
proof -
  let ?ps = "[''pbkdf2-sha256'', show_int (int iteracoes), b64_encode alfabeto_std sal, b64_encode alfabeto_std k]"
  have h: "GerarHash pbkdf2 sal senha = Some (join ''$'' ?ps)" by (simp add: GerarHash_def assms)
  have s: "split_on (CHR ''$'') (join ''$'' ?ps) = ?ps"
    by (rule split_on_join) (auto simp: sem_cifrao dest: b64_sem_sep [OF alfabetos_ok(1), THEN conjunct1, THEN notE])
  have a: "atoi (show_int (int iteracoes)) = Some (int iteracoes)" by (rule atoi_show_int) (simp_all add: iteracoes_def)
  have "ConferirSenha pbkdf2 (join ''$'' ?ps) s \<longleftrightarrow> pbkdf2 s sal (int iteracoes) tamanhoChave = Some k" for s
    unfolding ConferirSenha_def \<open>split_on (CHR ''$'') (join ''$'' ?ps) = ?ps\<close>
    using a assms(2) by (simp add: alfabetos_ok iteracoes_def split: option.splits)
  moreover have "prefix ''pbkdf2-sha256$'' (join ''$'' ?ps)" by simp
  ultimately show ?thesis using h by blast
qed

lemma conferirSessao_iff:
  "conferirSessao mac c v t \<longleftrightarrow>
    (\<exists>prazo sig e. v = cr_usuario c @ ''|'' @ prazo @ ''|'' @ sig \<and> CHR ''|'' \<notin> set (cr_usuario c) \<and> CHR ''|'' \<notin> set sig \<and>
       b64_decode alfabeto_url sig = Some (mac (cr_segredo c) (cr_usuario c @ ''|'' @ prazo)) \<and>
       atoi prazo = Some e \<and> unix t < e)"  (is "?l \<longleftrightarrow> ?r")
proof
  assume ?l
  then obtain corpo sig where 1: "cut_last (CHR ''|'') v = Some (corpo, sig)"
    by (cases "cut_last (CHR ''|'') v") (auto simp: conferirSessao_def)
  have l: "(case b64_decode alfabeto_url sig of None \<Rightarrow> False
      | Some bruta \<Rightarrow> if bruta \<noteq> mac (cr_segredo c) corpo then False
          else (case cut (CHR ''|'') corpo of None \<Rightarrow> False
                 | Some (usuario, prazo) \<Rightarrow> if usuario \<noteq> cr_usuario c then False
                     else (case atoi prazo of None \<Rightarrow> False | Some expira \<Rightarrow> unix t < expira)))"
    using \<open>?l\<close> unfolding conferirSessao_def assinar_def by (simp only: 1 option.case prod.case)
  then have 2: "b64_decode alfabeto_url sig = Some (mac (cr_segredo c) corpo)"
    by (cases "b64_decode alfabeto_url sig") (auto split: if_splits)
  with l have 3: "case cut (CHR ''|'') corpo of None \<Rightarrow> False
                 | Some (usuario, prazo) \<Rightarrow> if usuario \<noteq> cr_usuario c then False
                     else (case atoi prazo of None \<Rightarrow> False | Some expira \<Rightarrow> unix t < expira)"
    by simp
  from 3 obtain prazo e where 4: "cut (CHR ''|'') corpo = Some (cr_usuario c, prazo)" "atoi prazo = Some e" "unix t < e"
    by (auto split: option.splits if_splits)
  from 1 4(1) have "v = corpo @ CHR ''|'' # sig" "CHR ''|'' \<notin> set sig" "corpo = cr_usuario c @ CHR ''|'' # prazo"
    "CHR ''|'' \<notin> set (cr_usuario c)"
    by (auto simp: cut_Some_iff cut_last_Some_iff)
  with 2 4 show ?r by (intro exI [of _ prazo] exI [of _ sig] exI [of _ e]) simp
next
  assume ?r
  then obtain prazo sig e where r: "v = (cr_usuario c @ CHR ''|'' # prazo) @ CHR ''|'' # sig" "CHR ''|'' \<notin> set (cr_usuario c)"
    "CHR ''|'' \<notin> set sig" "b64_decode alfabeto_url sig = Some (mac (cr_segredo c) (cr_usuario c @ CHR ''|'' # prazo))"
    "atoi prazo = Some e" "unix t < e" by auto
  then have "cut_last (CHR ''|'') v = Some (cr_usuario c @ CHR ''|'' # prazo, sig)"
    "cut (CHR ''|'') (cr_usuario c @ CHR ''|'' # prazo) = Some (cr_usuario c, prazo)"
    by (simp_all only: cut_last_append cut_append not_False_eq_True)
  with r show ?l by (simp add: conferirSessao_def assinar_def)
qed

text \<open>
  Logging in with the password whose hash was configured succeeds, and the cookie it sets opens
  every protected page for the operator during exactly twelve hours, provided the user name has no
  \<open>|\<close>; with a \<open>|\<close> in the name the login succeeds and the cookie never opens anything.
\<close>

theorem login_abre_o_portao:
  assumes "\<forall>p s i n k. pbkdf2 p s i n = Some k \<longrightarrow> length k = n"
    and "GerarHash pbkdf2 sal senha = Some h"
    and "c = \<lparr>cr_usuario = usuario, cr_hash = h, cr_segredo = segredo\<rparr>" and "usuario \<noteq> []"
    and "- (2 ^ 63) \<le> unix (t + ValidadeDaSessao)" and "unix (t + ValidadeDaSessao) < 2 ^ 63"
  shows "\<exists>ck. Entrar pbkdf2 mac c inseguro usuario senha t = Some ck \<and>
     (\<forall>p u. \<not> livre (pe_path p) \<and> pe_cookie p = Some (ck_value ck) \<longrightarrow>
        (ServeHTTP mac c p u = Passa (Some usuario) \<longleftrightarrow>
         CHR ''|'' \<notin> set usuario \<and> unix u < unix (t + ValidadeDaSessao)))"
proof -
  from assms(2) obtain k where k: "pbkdf2 senha sal (int iteracoes) tamanhoChave = Some k"
    by (auto simp: GerarHash_def)
  then have "length k = tamanhoChave" using assms(1) by blast
  from senha_gerada [of pbkdf2, OF k this] assms(2)
  have conf: "ConferirSenha pbkdf2 h senha" and pre: "prefix ''pbkdf2-sha256$'' h" using k by auto
  then have "Ativa c" using assms(3,4) by (auto simp: Ativa_def)
  then have "ServeHTTP mac c p u = Passa (Some usuario) \<longleftrightarrow>
        CHR ''|'' \<notin> set usuario \<and> unix u < unix (t + ValidadeDaSessao)"
    if "\<not> livre (pe_path p)" and "pe_cookie p = Some (emitir mac c t)" for p u
    using that sessao_emitida [OF assms(5,6), of mac c u] assms(3) by (simp add: ServeHTTP_def)
  moreover have "Entrar pbkdf2 mac c inseguro usuario senha t =
     Some \<lparr>ck_name = NomeDoCookie, ck_value = emitir mac c t, ck_http_only = True, ck_secure = \<not> inseguro,
           ck_expires = Some (t + ValidadeDaSessao), ck_max_age = 0\<rparr>"
    using conf assms(3) by (simp add: Entrar_def)
  ultimately show ?thesis by auto
qed

lemma login_abre_o_portao_witness:
  "\<exists>c ck. Entrar (\<lambda>p s i n. Some (replicate n (CHR ''k''))) (\<lambda>k m. k @ m) c False ''ana'' ''s3nha'' 0 = Some ck \<and>
     ServeHTTP (\<lambda>k m. k @ m) c \<lparr>pe_path = ''/runs'', pe_uri = ''/runs'', pe_method = ''POST'', pe_cookie = Some (ck_value ck)\<rparr>
       (3600 * 1000000000) = Passa (Some ''ana'')"
proof -
  define kdf where "kdf = (\<lambda>(p::string) (s::string) (i::int) n. Some (replicate n (CHR ''k'')))"
  obtain h where h: "GerarHash kdf ''sal'' ''s3nha'' = Some h" by (simp add: GerarHash_def kdf_def)
  have l: "\<forall>p s i n k. kdf p s i n = Some k \<longrightarrow> length k = n" by (simp add: kdf_def)
  have b: "- (2 ^ 63) \<le> unix (0 + ValidadeDaSessao)" "unix (0 + ValidadeDaSessao) < 2 ^ 63"
    by (simp_all add: unix_def ValidadeDaSessao_def)
  from login_abre_o_portao [of kdf "''sal''" "''s3nha''" h _ "''ana''" "''segredo''" 0 "\<lambda>k m. k @ m" False, OF l h refl _ b]
  obtain c ck where c: "Entrar kdf (\<lambda>k m. k @ m) c False ''ana'' ''s3nha'' 0 = Some ck"
    and p: "\<forall>p u. \<not> livre (pe_path p) \<and> pe_cookie p = Some (ck_value ck) \<longrightarrow>
        (ServeHTTP (\<lambda>k m. k @ m) c p u = Passa (Some ''ana'') \<longleftrightarrow> CHR ''|'' \<notin> set ''ana'' \<and> unix u < unix (0 + ValidadeDaSessao))"
    by blast
  have "ServeHTTP (\<lambda>k m. k @ m) c \<lparr>pe_path = ''/runs'', pe_uri = ''/runs'', pe_method = ''POST'', pe_cookie = Some (ck_value ck)\<rparr>
       (3600 * 1000000000) = Passa (Some ''ana'')"
    using p by (simp add: livre_def unix_def ValidadeDaSessao_def)
  with c show ?thesis unfolding kdf_def by blast
qed

lemma portao_passa:
  assumes "Ativa c"
  shows "ServeHTTP mac c p t = Passa op \<longleftrightarrow>
      livre (pe_path p) \<and> op = None \<or>
      \<not> livre (pe_path p) \<and> op = Some (cr_usuario c) \<and>
      (\<exists>prazo sig e. pe_cookie p = Some (cr_usuario c @ ''|'' @ prazo @ ''|'' @ sig) \<and>
         b64_decode alfabeto_url sig = Some (mac (cr_segredo c) (cr_usuario c @ ''|'' @ prazo)) \<and>
         CHR ''|'' \<notin> set (cr_usuario c) \<and> CHR ''|'' \<notin> set sig \<and> atoi prazo = Some e \<and> unix t < e)"
proof -
  have "(case pe_cookie p of None \<Rightarrow> False | Some v \<Rightarrow> conferirSessao mac c v t) \<longleftrightarrow>
     (\<exists>prazo sig e. pe_cookie p = Some (cr_usuario c @ ''|'' @ prazo @ ''|'' @ sig) \<and>
         b64_decode alfabeto_url sig = Some (mac (cr_segredo c) (cr_usuario c @ ''|'' @ prazo)) \<and>
         CHR ''|'' \<notin> set (cr_usuario c) \<and> CHR ''|'' \<notin> set sig \<and> atoi prazo = Some e \<and> unix t < e)"
    unfolding conferirSessao_iff by (cases "pe_cookie p") (simp, auto)
  then show ?thesis using assms unfolding ServeHTTP_def by auto
qed

lemma portao_fecha_partes:
  assumes "Ativa c"
  shows "ServeHTTP mac c p t = Passa op \<longleftrightarrow>
      livre (pe_path p) \<and> op = None \<or>
      \<not> livre (pe_path p) \<and> op = Some (cr_usuario c) \<and>
      (\<exists>prazo sig e. pe_cookie p = Some (cr_usuario c @ ''|'' @ prazo @ ''|'' @ sig) \<and>
         b64_decode alfabeto_url sig = Some (mac (cr_segredo c) (cr_usuario c @ ''|'' @ prazo)) \<and>
         CHR ''|'' \<notin> set (cr_usuario c) \<and> CHR ''|'' \<notin> set sig \<and> atoi prazo = Some e \<and> unix t < e)"
    and "ServeHTTP mac c p t = NaoAutorizado \<Longrightarrow> pe_method p \<noteq> ''GET''"
    and "ServeHTTP mac c p t = Redireciona d \<Longrightarrow>
      pe_method p = ''GET'' \<and> (d = ''/login'' \<or> (\<exists>de. d = ''/login?de=/'' @ de \<and> \<not> prefix ''/'' de))"
proof -
  show "ServeHTTP mac c p t = Passa op \<longleftrightarrow>
      livre (pe_path p) \<and> op = None \<or>
      \<not> livre (pe_path p) \<and> op = Some (cr_usuario c) \<and>
      (\<exists>prazo sig e. pe_cookie p = Some (cr_usuario c @ ''|'' @ prazo @ ''|'' @ sig) \<and>
         b64_decode alfabeto_url sig = Some (mac (cr_segredo c) (cr_usuario c @ ''|'' @ prazo)) \<and>
         CHR ''|'' \<notin> set (cr_usuario c) \<and> CHR ''|'' \<notin> set sig \<and> atoi prazo = Some e \<and> unix t < e)"
    using assms by (rule portao_passa)
  show "pe_method p \<noteq> ''GET''" if "ServeHTTP mac c p t = NaoAutorizado"
    using that unfolding ServeHTTP_def by (auto split: if_splits)
  have "\<exists>de. escaparDestino a = ''/'' @ de \<and> \<not> prefix ''/'' de" for a
  proof (cases "prefix ''/'' a \<and> \<not> prefix ''//'' a")
    case True
    then obtain de where "a = ''/'' @ de" by (auto simp: prefix_def)
    with True show ?thesis by (intro exI [of _ de]) (simp add: escaparDestino_def)
  qed (auto simp: escaparDestino_def)
  then show "pe_method p = ''GET'' \<and> (d = ''/login'' \<or> (\<exists>de. d = ''/login?de=/'' @ de \<and> \<not> prefix ''/'' de))"
    if "ServeHTTP mac c p t = Redireciona d"
    using that unfolding ServeHTTP_def by (fastforce split: if_splits)
qed

text \<open>
  C26: with a credential configured, a request reaches the interface only through one of the listed
  public paths or with a cookie signed with the secret of the installation over the operator's name and
  a deadline that has not passed; the other requests are refused, and a redirection always goes to the
  login page.
\<close>

theorem portao_fecha:
  assumes "Ativa c"
  shows "(ServeHTTP mac c p t = Passa op \<longleftrightarrow>
      livre (pe_path p) \<and> op = None \<or>
      \<not> livre (pe_path p) \<and> op = Some (cr_usuario c) \<and>
      (\<exists>prazo sig e. pe_cookie p = Some (cr_usuario c @ ''|'' @ prazo @ ''|'' @ sig) \<and>
         b64_decode alfabeto_url sig = Some (mac (cr_segredo c) (cr_usuario c @ ''|'' @ prazo)) \<and>
         CHR ''|'' \<notin> set (cr_usuario c) \<and> CHR ''|'' \<notin> set sig \<and> atoi prazo = Some e \<and> unix t < e)) \<and>
    (ServeHTTP mac c p t = NaoAutorizado \<longrightarrow> pe_method p \<noteq> ''GET'') \<and>
    (\<forall>d. ServeHTTP mac c p t = Redireciona d \<longrightarrow>
      pe_method p = ''GET'' \<and> (d = ''/login'' \<or> (\<exists>de. d = ''/login?de=/'' @ de \<and> \<not> prefix ''/'' de)))"
  using portao_fecha_partes(1) [OF assms, of mac p t op] portao_fecha_partes(2) [OF assms, of mac p t] portao_fecha_partes(3) [OF assms, of mac p t] by blast

lemma portao_fecha_witness:
  "ServeHTTP (\<lambda>k m. k @ m) \<lparr>cr_usuario = ''ana'', cr_hash = ''h'', cr_segredo = ''s''\<rparr>
     \<lparr>pe_path = ''/runs'', pe_uri = ''/runs'', pe_method = ''GET'', pe_cookie = Some ''ana|99|AAAA''\<rparr> 0 \<noteq> Passa (Some ''ana'')"
proof -
  have 1: "cut_last (CHR ''|'') ''ana|99|AAAA'' = Some (''ana|99'', ''AAAA'')" by simp
  have 2: "b64_decode alfabeto_url ''AAAA'' = Some [CHR 0x00, CHR 0x00, CHR 0x00]" by code_simp
  have a: "Ativa \<lparr>cr_usuario = ''ana'', cr_hash = ''h'', cr_segredo = ''s''\<rparr>" by (simp add: Ativa_def)
  show ?thesis
  proof
    assume "ServeHTTP (\<lambda>k m. k @ m) \<lparr>cr_usuario = ''ana'', cr_hash = ''h'', cr_segredo = ''s''\<rparr>
     \<lparr>pe_path = ''/runs'', pe_uri = ''/runs'', pe_method = ''GET'', pe_cookie = Some ''ana|99|AAAA''\<rparr> 0 = Passa (Some ''ana'')"
    from this [unfolded conjunct1 [OF portao_fecha [OF a]]] obtain prazo sig where
      v: "''ana|99|AAAA'' = (''ana|'' @ prazo) @ CHR ''|'' # sig" and s: "CHR ''|'' \<notin> set sig"
      and d: "b64_decode alfabeto_url sig = Some (''s'' @ ''ana'' @ ''|'' @ prazo)"
      by auto
    from v s have "cut_last (CHR ''|'') ''ana|99|AAAA'' = Some (''ana|'' @ prazo, sig)" using cut_last_append [OF s] by metis
    with 1 2 d show False by simp
  qed
qed

end
