(* ===== verification/Cofre.thy ===== *)
theory Cofre
  imports Auth
begin

text \<open>
  Where a rotated credential is kept between two executions: the envelope
  (\<open>sdk/internal/core/credenvelope.go\<close>), the file (\<open>sdk/internal/core/credstore.go\<close>) and the object in GCS
  (\<open>sdk/store/gcs/credential.go\<close>). AES-GCM, the file system and the object service are records of functions.
  Logging is left out.
\<close>

section \<open>The envelope\<close>

datatype erro_cofre =
    ChaveNaoBase64 | ChaveDeTamanho nat | SemNonce string
  | NomeVazio | NomeECaminho string
  | DirFalhou string string | NaoEDir string | DirFrouxo string nat
  | LendoArquivo string string | TempFalhou string | EscreveFalhou string | SyncFalhou string | FechaFalhou string | RenomeiaFalhou string
  | SemBucketOuObjeto | SemCliente string | LendoObjeto string | GravandoObjeto string

text \<open>Key, nonce, text and associated data; what does not authenticate does not open.\<close>

record cifra =
  ci_seal :: "string \<Rightarrow> string \<Rightarrow> string \<Rightarrow> string \<Rightarrow> string"
  ci_open :: "string \<Rightarrow> string \<Rightarrow> string \<Rightarrow> string \<Rightarrow> string option"

definition NonceSize :: nat where "NonceSize = 12"
definition Overhead :: nat where "Overhead = 16"

definition formatoCifrado :: string where "formatoCifrado = ''brevis-cred/1''"
definition formatoClaro :: string where "formatoClaro = ''brevis-cred/1p''"

text \<open>\<open>base64.StdEncoding\<close>, with its padding; line breaks are skipped.\<close>

definition b64_com_padding :: "string \<Rightarrow> string option" where
  "b64_com_padding s =
     (let cs = filter (\<lambda>c. c \<noteq> CHR 0x0A \<and> c \<noteq> CHR 0x0D) s; corpo = trim_right_of (CHR ''='') cs in
      if length cs mod 4 \<noteq> 0 \<or> length corpo + 2 < length cs then None else b64_decode alfabeto_std corpo)"

text \<open>A box is its key, or none.\<close>

type_synonym caixa = "string option"

definition NewCredentialBox :: "string \<Rightarrow> erro_cofre + caixa" where
  "NewCredentialBox chave =
     (if trim_space chave = [] then Inr None
      else (case b64_com_padding (trim_space chave) of
              None \<Rightarrow> Inl ChaveNaoBase64
            | Some bruta \<Rightarrow> if length bruta \<noteq> 32 then Inl (ChaveDeTamanho (length bruta)) else Inr (Some bruta)))"

definition quebra :: string where "quebra = [CHR 0x0A]"

text \<open>\<open>sorteio\<close> is what the random source gives for the nonce.\<close>

definition Seal :: "cifra \<Rightarrow> caixa \<Rightarrow> string + string \<Rightarrow> string \<Rightarrow> erro_cofre + string" where
  "Seal ci e sorteio valor =
     (case e of
        None \<Rightarrow> Inr (formatoClaro @ quebra @ valor)
      | Some k \<Rightarrow>
          (case sorteio of
             Inl x \<Rightarrow> Inl (SemNonce x)
           | Inr nonce \<Rightarrow> Inr (formatoCifrado @ quebra @ nonce @ ci_seal ci k nonce valor formatoCifrado)))"

definition primeiraLinha :: "string \<Rightarrow> (string \<times> string) option" where
  "primeiraLinha b = cut (CHR 0x0A) b"

definition Open :: "cifra \<Rightarrow> caixa \<Rightarrow> string \<Rightarrow> string" where
  "Open ci e bruto =
     (case primeiraLinha bruto of
        None \<Rightarrow> []
      | Some (cabecalho, corpo) \<Rightarrow>
          if cabecalho = formatoClaro then corpo
          else if cabecalho = formatoCifrado then
            (case e of
               None \<Rightarrow> []
             | Some k \<Rightarrow>
                 if length corpo < NonceSize + Overhead then []
                 else (case ci_open ci k (take NonceSize corpo) (drop NonceSize corpo) formatoCifrado of None \<Rightarrow> [] | Some claro \<Rightarrow> claro))
          else [])"

section \<open>A file\<close>

datatype info = NaoExiste | StatErro string | NaoDir | Dir nat
datatype leitura = SemArquivo | LeErro string | Le string

record 's disco =
  di_stat :: "string \<Rightarrow> 's \<Rightarrow> info"
  di_mkdir :: "string \<Rightarrow> 's \<Rightarrow> string option \<times> 's"
  di_le :: "string \<Rightarrow> 's \<Rightarrow> leitura"
  di_temp :: "string \<Rightarrow> 's \<Rightarrow> (string + string) \<times> 's"
  di_escreve :: "string \<Rightarrow> string \<Rightarrow> 's \<Rightarrow> string option \<times> 's"
  di_sync :: "string \<Rightarrow> 's \<Rightarrow> string option \<times> 's"
  di_fecha :: "string \<Rightarrow> 's \<Rightarrow> string option \<times> 's"
  di_renomeia :: "string \<Rightarrow> string \<Rightarrow> 's \<Rightarrow> string option \<times> 's"
  di_remove :: "string \<Rightarrow> 's \<Rightarrow> 's"
  di_sorteio :: "'s \<Rightarrow> string + string"
  di_join :: "string \<Rightarrow> string \<Rightarrow> string"       \<comment> \<open>\<open>filepath.Join\<close>\<close>
  di_dir :: "string \<Rightarrow> string"                  \<comment> \<open>\<open>filepath.Dir\<close>\<close>
  di_cifra :: cifra
  di_env :: "string gomap"

definition Getenv_de :: "string gomap \<Rightarrow> string \<Rightarrow> string" where
  "Getenv_de amb k = (case map_of amb k of None \<Rightarrow> [] | Some v \<Rightarrow> v)"

definition EnvCredentialDir :: string where "EnvCredentialDir = ''BREVIS_CREDENTIAL_DIR''"
definition EnvCredentialKey :: string where "EnvCredentialKey = ''BREVIS_CREDENTIAL_KEY''"

record file_store =
  st_name :: string
  st_dir :: string
  st_key :: string

definition prepararDiretorio :: "'s disco \<Rightarrow> string \<Rightarrow> 's \<Rightarrow> erro_cofre option \<times> 's" where
  "prepararDiretorio d dir s =
     (case di_stat d dir s of
        NaoExiste \<Rightarrow> (case di_mkdir d dir s of (e, s) \<Rightarrow> (map_option (DirFalhou dir) e, s))
      | StatErro e \<Rightarrow> (Some (DirFalhou dir e), s)
      | NaoDir \<Rightarrow> (Some (NaoEDir dir), s)
      | Dir modo \<Rightarrow> (if modo mod 64 \<noteq> 0 then Some (DirFrouxo dir modo) else None, s))"

definition dir_de :: "'s disco \<Rightarrow> file_store \<Rightarrow> string" where
  "dir_de d f = (if st_dir f = [] then Getenv_de (di_env d) EnvCredentialDir else st_dir f)"

definition chave_de :: "'s disco \<Rightarrow> file_store \<Rightarrow> string" where
  "chave_de d f = (if st_key f = [] then Getenv_de (di_env d) EnvCredentialKey else st_key f)"

definition caminho_de :: "'s disco \<Rightarrow> file_store \<Rightarrow> string" where
  "caminho_de d f = di_join d (dir_de d f) (st_name f @ ''.cred'')"

definition resolver :: "'s disco \<Rightarrow> file_store \<Rightarrow> 's \<Rightarrow> (erro_cofre + (string \<times> caixa) option) \<times> 's" where
  "resolver d f s =
     (if trim_space (st_name f) = [] then (Inl NomeVazio, s)
      else if CHR ''/'' \<in> set (st_name f) \<or> CHR 0x5C \<in> set (st_name f) \<or> st_name f = ''.'' \<or> st_name f = ''..'' then (Inl (NomeECaminho (st_name f)), s)
      else if dir_de d f = [] then (Inr None, s)
      else (case NewCredentialBox (chave_de d f) of
              Inl e \<Rightarrow> (Inl e, s)
            | Inr c \<Rightarrow>
                (case prepararDiretorio d (dir_de d f) s of
                   (Some e, s) \<Rightarrow> (Inl e, s)
                 | (None, s) \<Rightarrow> (Inr (Some (caminho_de d f, c)), s))))"

definition Describe :: "'s disco \<Rightarrow> file_store \<Rightarrow> string" where
  "Describe d f = (if dir_de d f = [] then ''file store (off)'' else caminho_de d f)"

definition CheckStore :: "'s disco \<Rightarrow> file_store \<Rightarrow> 's \<Rightarrow> erro_cofre option \<times> 's" where
  "CheckStore d f s = (case resolver d f s of (Inl e, s) \<Rightarrow> (Some e, s) | (Inr _, s) \<Rightarrow> (None, s))"

definition arquivo_Load :: "'s disco \<Rightarrow> string \<Rightarrow> caixa \<Rightarrow> 's \<Rightarrow> erro_cofre + string" where
  "arquivo_Load d caminho c s =
     (case di_le d caminho s of SemArquivo \<Rightarrow> Inr [] | LeErro e \<Rightarrow> Inl (LendoArquivo caminho e) | Le bruto \<Rightarrow> Inr (Open (di_cifra d) c bruto))"

definition gravar_temporario :: "'s disco \<Rightarrow> string \<Rightarrow> string \<Rightarrow> string \<Rightarrow> 's \<Rightarrow> erro_cofre option \<times> 's" where
  "gravar_temporario d tmp caminho conteudo s =
     (case di_escreve d tmp conteudo s of
        (Some e, s) \<Rightarrow> (Some (EscreveFalhou e), snd (di_fecha d tmp s))
      | (None, s) \<Rightarrow>
          (case di_sync d tmp s of
             (Some e, s) \<Rightarrow> (Some (SyncFalhou e), snd (di_fecha d tmp s))
           | (None, s) \<Rightarrow>
               (case di_fecha d tmp s of
                  (Some e, s) \<Rightarrow> (Some (FechaFalhou e), s)
                | (None, s) \<Rightarrow> (case di_renomeia d tmp caminho s of (e, s) \<Rightarrow> (map_option RenomeiaFalhou e, s)))))"

definition arquivo_Save :: "'s disco \<Rightarrow> string \<Rightarrow> caixa \<Rightarrow> string \<Rightarrow> 's \<Rightarrow> erro_cofre option \<times> 's" where
  "arquivo_Save d caminho c valor s =
     (case Seal (di_cifra d) c (di_sorteio d s) valor of
        Inl e \<Rightarrow> (Some e, s)
      | Inr conteudo \<Rightarrow>
          (case di_temp d (di_dir d caminho) s of
             (Inl e, s) \<Rightarrow> (Some (TempFalhou e), s)
           | (Inr tmp, s) \<Rightarrow> (case gravar_temporario d tmp caminho conteudo s of (e, s) \<Rightarrow> (e, di_remove d tmp s))))"

definition FileStore_Load :: "'s disco \<Rightarrow> file_store \<Rightarrow> 's \<Rightarrow> (erro_cofre + string) \<times> 's" where
  "FileStore_Load d f s =
     (case resolver d f s of
        (Inl e, s) \<Rightarrow> (Inl e, s)
      | (Inr None, s) \<Rightarrow> (Inr [], s)
      | (Inr (Some (caminho, c)), s) \<Rightarrow> (arquivo_Load d caminho c s, s))"

definition FileStore_Save :: "'s disco \<Rightarrow> file_store \<Rightarrow> string \<Rightarrow> 's \<Rightarrow> erro_cofre option \<times> 's" where
  "FileStore_Save d f valor s =
     (case resolver d f s of
        (Inl e, s) \<Rightarrow> (Some e, s)
      | (Inr None, s) \<Rightarrow> (None, s)
      | (Inr (Some (caminho, c)), s) \<Rightarrow> arquivo_Save d caminho c valor s)"

section \<open>An object\<close>

datatype condicao = DoesNotExist | GenerationMatch int
datatype gravacao = Gravou | Conflito | GravacaoFalhou string

record 'r servico =
  se_abre :: "'r \<Rightarrow> string option"                                       \<comment> \<open>no client: why\<close>
  se_le :: "'r \<Rightarrow> (string + (string \<times> int) option) \<times> 'r"                 \<comment> \<open>contents and generation\<close>
  se_grava :: "condicao \<Rightarrow> string \<Rightarrow> 'r \<Rightarrow> gravacao \<times> 'r"
  se_sorteio :: "'r \<Rightarrow> string + string"
  se_cifra :: cifra
  se_env :: "string gomap"

record gcs_credential =
  gc_bucket :: string
  gc_object :: string
  gc_key :: string

text \<open>The state: the generation this process remembers of the object, and the service.\<close>

type_synonym 'r processo = "int option \<times> 'r"

definition gcs_chave :: "'r servico \<Rightarrow> gcs_credential \<Rightarrow> string" where
  "gcs_chave g c = (if gc_key c \<noteq> [] then gc_key c else Getenv_de (se_env g) EnvCredentialKey)"

definition gcs_CheckStore :: "'r servico \<Rightarrow> gcs_credential \<Rightarrow> erro_cofre option" where
  "gcs_CheckStore g c =
     (if gc_bucket c = [] \<or> gc_object c = [] then Some SemBucketOuObjeto
      else (case NewCredentialBox (gcs_chave g c) of Inl e \<Rightarrow> Some e | Inr _ \<Rightarrow> None))"

definition limite_de_leitura :: nat where "limite_de_leitura = 2 ^ 20"

definition gcs_Load :: "'r servico \<Rightarrow> gcs_credential \<Rightarrow> 'r processo \<Rightarrow> (erro_cofre + string) \<times> 'r processo" where
  "gcs_Load g c p =
     (case p of (ger, r) \<Rightarrow>
        (case se_abre g r of
           Some e \<Rightarrow> (Inl (SemCliente e), p)
         | None \<Rightarrow>
             (case se_le g r of
                (Inl e, r) \<Rightarrow> (Inl (LendoObjeto e), (ger, r))
              | (Inr None, r) \<Rightarrow> (Inr [], (Some 0, r))
              | (Inr (Some (bruto, n)), r) \<Rightarrow>
                  (case NewCredentialBox (gcs_chave g c) of
                     Inl e \<Rightarrow> (Inl e, (Some n, r))
                   | Inr k \<Rightarrow> (Inr (Open (se_cifra g) k (take limite_de_leitura bruto)), (Some n, r))))))"

definition condicao_de :: "int option \<Rightarrow> condicao" where
  "condicao_de ger = (case ger of Some n \<Rightarrow> if n \<noteq> 0 then GenerationMatch n else DoesNotExist | None \<Rightarrow> DoesNotExist)"

definition erroDeEscrita :: "gravacao \<Rightarrow> erro_cofre option" where
  "erroDeEscrita x = (case x of GravacaoFalhou e \<Rightarrow> Some (GravandoObjeto e) | _ \<Rightarrow> None)"

definition gcs_Save :: "'r servico \<Rightarrow> gcs_credential \<Rightarrow> string \<Rightarrow> 'r processo \<Rightarrow> erro_cofre option \<times> 'r processo" where
  "gcs_Save g c valor p =
     (case p of (ger, r) \<Rightarrow>
        (case se_abre g r of
           Some e \<Rightarrow> (Some (SemCliente e), p)
         | None \<Rightarrow>
             (case NewCredentialBox (gcs_chave g c) of
                Inl e \<Rightarrow> (Some e, p)
              | Inr k \<Rightarrow>
                  (case Seal (se_cifra g) k (se_sorteio g r) valor of
                     Inl e \<Rightarrow> (Some e, p)
                   | Inr conteudo \<Rightarrow>
                       (case se_grava g (condicao_de ger) conteudo r of (x, r) \<Rightarrow> (erroDeEscrita x, (ger, r)))))))"

section \<open>What a store owes\<close>

text \<open>What is promised of AES-GCM: a sealed text is sixteen bytes longer and opens under the same key, nonce and data.\<close>

definition gcm_ok :: "cifra \<Rightarrow> bool" where
  "gcm_ok ci \<longleftrightarrow> (\<forall>k n v a. length (ci_seal ci k n v a) = length v + Overhead \<and> ci_open ci k n (ci_seal ci k n v a) a = Some v)"

definition sorteio_ok :: "string + string \<Rightarrow> bool" where
  "sorteio_ok x \<longleftrightarrow> (case x of Inl _ \<Rightarrow> True | Inr n \<Rightarrow> length n = NonceSize)"

lemma sem_quebra: "CHR 0x0A \<notin> set formatoClaro" "CHR 0x0A \<notin> set formatoCifrado" "formatoCifrado \<noteq> formatoClaro"
  by (simp_all add: formatoClaro_def formatoCifrado_def)

lemma primeiraLinha_de: "CHR 0x0A \<notin> set c \<Longrightarrow> primeiraLinha (c @ quebra @ b) = Some (c, b)"
  by (simp add: primeiraLinha_def quebra_def cut_append)

lemma Open_Seal:
  assumes "gcm_ok ci" and "sorteio_ok x" and "Seal ci e x v = Inr b"
  shows "Open ci e b = v" and "length b \<le> length v + 43"
proof -
  show "Open ci e b = v"
  proof (cases e)
    case None
    then show ?thesis using assms(3) by (auto simp: Seal_def Open_def primeiraLinha_de sem_quebra)
  next
    case (Some k)
    then obtain n where n: "x = Inr n" "b = formatoCifrado @ quebra @ n @ ci_seal ci k n v formatoCifrado" "length n = NonceSize"
      using assms by (auto simp: Seal_def sorteio_ok_def split: sum.splits)
    then show ?thesis using assms(1) Some sem_quebra(3)
      by (simp add: Open_def primeiraLinha_de sem_quebra gcm_ok_def)
  qed
  show "length b \<le> length v + 43"
    using assms by (auto simp: Seal_def sorteio_ok_def gcm_ok_def quebra_def formatoClaro_def formatoCifrado_def NonceSize_def Overhead_def
        split: option.splits sum.splits)
qed

text \<open>
  The contract of \<open>CredentialStore\<close>: \<open>visto\<close> is the value on the medium. A save, with or without an error,
  leaves the new value or the old one; a load changes nothing, and what it gives is the value.
\<close>

locale cofre_contrato =
  fixes guarda :: "string \<Rightarrow> 's \<Rightarrow> erro_cofre option \<times> 's" and carrega :: "'s \<Rightarrow> (erro_cofre + string) \<times> 's"
    and visto :: "'s \<Rightarrow> string" and bom :: "'s \<Rightarrow> bool" and cabe :: "string \<Rightarrow> bool"
  assumes guardar: "bom s \<Longrightarrow> cabe v \<Longrightarrow> guarda v s = (e, s') \<Longrightarrow> bom s' \<and> visto s' \<in> {v, visto s}"
    and carregar: "bom s \<Longrightarrow> carrega s = (x, s') \<Longrightarrow> bom s' \<and> visto s' = visto s \<and> (\<forall>y. x = Inr y \<longrightarrow> y = visto s)"

datatype uso = Grava string | Carrega

text \<open>A sequence of uses, with the values that were loaded.\<close>

fun usar :: "(string \<Rightarrow> 's \<Rightarrow> erro_cofre option \<times> 's) \<Rightarrow> ('s \<Rightarrow> (erro_cofre + string) \<times> 's) \<Rightarrow> uso list \<Rightarrow> 's \<Rightarrow> string list \<times> 's" where
  "usar g c [] s = ([], s)"
| "usar g c (Grava v # us) s = usar g c us (snd (g v s))"
| "usar g c (Carrega # us) s =
     (case c s of (x, s) \<Rightarrow> (case usar g c us s of (xs, s) \<Rightarrow> ((case x of Inl _ \<Rightarrow> xs | Inr y \<Rightarrow> y # xs), s)))"

definition gravados :: "uso list \<Rightarrow> string set" where
  "gravados us = {v. Grava v \<in> set us}"

lemma gravados_simps [simp]: "gravados [] = {}" "gravados (Grava v # us) = insert v (gravados us)" "gravados (Carrega # us) = gravados us"
  by (auto simp: gravados_def)

context cofre_contrato
begin

lemma nunca_inventa:
  assumes "bom s" and "\<forall>v \<in> gravados us. cabe v" and "usar guarda carrega us s = (xs, s')"
  shows "bom s' \<and> visto s' \<in> insert (visto s) (gravados us) \<and> set xs \<subseteq> insert (visto s) (gravados us)"
  using assms
proof (induction us arbitrary: s xs)
  case (Cons u us)
  show ?case
  proof (cases u)
    case (Grava v)
    obtain e t where t: "guarda v s = (e, t)" by (cases "guarda v s") auto
    have "bom t" "visto t \<in> {v, visto s}" using guardar [OF Cons.prems(1) _ t] Cons.prems(2) Grava by auto
    then show ?thesis using Cons.IH [of t xs] Cons.prems(2,3) t Grava by auto
  next
    case Carrega
    obtain x t where t: "carrega s = (x, t)" by (cases "carrega s") auto
    obtain ys where ys: "usar guarda carrega us t = (ys, s')" "xs = (case x of Inl _ \<Rightarrow> ys | Inr y \<Rightarrow> y # ys)"
      using Cons.prems(3) t Carrega by (auto split: prod.splits)
    have c: "bom t" "visto t = visto s" "\<forall>y. x = Inr y \<longrightarrow> y = visto s" using carregar [OF Cons.prems(1) t] by auto
    have "bom s' \<and> visto s' \<in> insert (visto s) (gravados us) \<and> set ys \<subseteq> insert (visto s) (gravados us)"
      using Cons.IH [OF c(1) _ ys(1)] Cons.prems(2) Carrega c(2) by simp
    then show ?thesis using ys(2) c(3) Carrega by (cases x) auto
  qed
qed simp

end

section \<open>The file keeps the contract\<close>

text \<open>What is promised of the file system. A temporary file is new, and \<open>os.CreateTemp\<close> ends its name with digits.\<close>

definition igual :: "'s disco \<Rightarrow> (string \<Rightarrow> bool) \<Rightarrow> 's \<Rightarrow> 's \<Rightarrow> bool" where
  "igual d fora s s' \<longleftrightarrow> (\<forall>p. \<not> fora p \<longrightarrow> di_le d p s' = di_le d p s)"

definition disco_ok :: "'s disco \<Rightarrow> bool" where
  "disco_ok d \<longleftrightarrow>
     gcm_ok (di_cifra d) \<and> (\<forall>s. sorteio_ok (di_sorteio d s)) \<and> (\<forall>dir n. suffix ''.cred'' (di_join d dir (n @ ''.cred''))) \<and>
     (\<forall>dir s. igual d (\<lambda>_. False) s (snd (di_mkdir d dir s))) \<and>
     (\<forall>dir s e s'. di_temp d dir s = (Inl e, s') \<longrightarrow> igual d (\<lambda>_. False) s s') \<and>
     (\<forall>dir s t s'. di_temp d dir s = (Inr t, s') \<longrightarrow> igual d (\<lambda>p. p = t) s s' \<and> di_le d t s' = Le [] \<and> \<not> suffix ''.cred'' t) \<and>
     (\<forall>t x s e s'. di_escreve d t x s = (e, s') \<longrightarrow> igual d (\<lambda>p. p = t) s s' \<and> (e = None \<longrightarrow> di_le d t s = Le [] \<longrightarrow> di_le d t s' = Le x)) \<and>
     (\<forall>t s. igual d (\<lambda>_. False) s (snd (di_sync d t s))) \<and> (\<forall>t s. igual d (\<lambda>_. False) s (snd (di_fecha d t s))) \<and>
     (\<forall>t s. igual d (\<lambda>p. p = t) s (di_remove d t s)) \<and>
     (\<forall>t p s e s'. di_renomeia d t p s = (e, s') \<longrightarrow>
        igual d (\<lambda>q. q = t \<or> q = p) s s' \<and> di_le d p s' = (if e = None then di_le d t s else di_le d p s))"

definition ligado :: "'s disco \<Rightarrow> file_store \<Rightarrow> bool" where
  "ligado d f \<longleftrightarrow> trim_space (st_name f) \<noteq> [] \<and> dir_de d f \<noteq> []"

text \<open>The value in the file, for a store that is on and whose key is one.\<close>

definition visto_no_arquivo :: "'s disco \<Rightarrow> file_store \<Rightarrow> 's \<Rightarrow> string" where
  "visto_no_arquivo d f s =
     (if \<not> ligado d f then []
      else (case NewCredentialBox (chave_de d f) of
              Inl _ \<Rightarrow> []
            | Inr c \<Rightarrow> (case di_le d (caminho_de d f) s of Le b \<Rightarrow> Open (di_cifra d) c b | _ \<Rightarrow> [])))"

lemma visto_igual: "igual d fora s s' \<Longrightarrow> \<not> fora (caminho_de d f) \<Longrightarrow> visto_no_arquivo d f s' = visto_no_arquivo d f s"
  by (simp add: igual_def visto_no_arquivo_def split: sum.split)

lemma igual_trans: "igual d P s t \<Longrightarrow> igual d P t u \<Longrightarrow> igual d P s u"
  by (simp add: igual_def)

lemma igual_mais: "igual d (\<lambda>_. False) s t \<Longrightarrow> igual d P s t"
  by (simp add: igual_def)

lemma resolver_casos:
  assumes "disco_ok d" and "resolver d f s = (x, s')"
  shows "igual d (\<lambda>_. False) s s'"
    and "x = Inr None \<Longrightarrow> \<not> ligado d f"
    and "x = Inr (Some (p, c)) \<Longrightarrow> ligado d f \<and> p = caminho_de d f \<and> NewCredentialBox (chave_de d f) = Inr c"
proof -
  have "igual d (\<lambda>_. False) s (snd (di_mkdir d dir s))" for dir s using assms(1) by (simp add: disco_ok_def)
  then have "igual d (\<lambda>_. False) s t" if "di_mkdir d dir s = (e, t)" for dir s e t using that by (metis snd_conv)
  then have m: "igual d (\<lambda>_. False) s (snd (prepararDiretorio d dir s))" for dir s
    by (auto simp: prepararDiretorio_def igual_def split: info.splits prod.splits)
  show "igual d (\<lambda>_. False) s s'"
    using assms(2) m [of s "dir_de d f"] by (auto simp: resolver_def igual_def split: if_splits sum.splits prod.splits option.splits)
  show "x = Inr None \<Longrightarrow> \<not> ligado d f" and
    "x = Inr (Some (p, c)) \<Longrightarrow> ligado d f \<and> p = caminho_de d f \<and> NewCredentialBox (chave_de d f) = Inr c"
    using assms(2) by (auto simp: resolver_def ligado_def split: if_splits sum.splits prod.splits option.splits)
qed

lemma gravar_temporario_ok:
  assumes "disco_ok d" and "gravar_temporario d t p b s = (e, s')" and "di_le d t s = Le []"
  shows "igual d (\<lambda>q. q = t \<or> q = p) s s'" and "e = None \<Longrightarrow> t \<noteq> p \<Longrightarrow> di_le d p s' = Le b"
    and "e \<noteq> None \<Longrightarrow> t \<noteq> p \<Longrightarrow> di_le d p s' = di_le d p s"
proof -
  have E: "igual d (\<lambda>p. p = t) s s1" "r = None \<Longrightarrow> di_le d t s1 = Le b" if "di_escreve d t b s = (r, s1)" for r s1
    using assms(1,3) that by (auto simp: disco_ok_def)
  have S: "igual d (\<lambda>_. False) s1 s2" if "di_sync d t s1 = (r, s2)" for r s1 s2
    using assms(1) that unfolding disco_ok_def by (metis snd_conv)
  have F: "igual d (\<lambda>_. False) s1 s2" if "di_fecha d t s1 = (r, s2)" for r s1 s2
    using assms(1) that unfolding disco_ok_def by (metis snd_conv)
  have R: "igual d (\<lambda>q. q = t \<or> q = p) s1 s2" "di_le d p s2 = (if r = None then di_le d t s1 else di_le d p s1)"
    if "di_renomeia d t p s1 = (r, s2)" for r s1 s2
    using assms(1) that by (auto simp: disco_ok_def)
  obtain r1 s1 where 1: "di_escreve d t b s = (r1, s1)" by (cases "di_escreve d t b s") auto
  obtain r2 s2 where 2: "di_sync d t s1 = (r2, s2)" by (cases "di_sync d t s1") auto
  obtain r3 s3 where 3: "di_fecha d t s2 = (r3, s3)" by (cases "di_fecha d t s2") auto
  obtain r4 s4 where 4: "di_renomeia d t p s3 = (r4, s4)" by (cases "di_renomeia d t p s3") auto
  obtain r5 s5 where 5: "di_fecha d t s1 = (r5, s5)" by (cases "di_fecha d t s1") auto
  note i = E [OF 1] S [OF 2] F [OF 3] R [OF 4] F [OF 5]
  have "(igual d (\<lambda>q. q = t \<or> q = p) s s') \<and> (e = None \<longrightarrow> t \<noteq> p \<longrightarrow> di_le d p s' = Le b) \<and> (e \<noteq> None \<longrightarrow> t \<noteq> p \<longrightarrow> di_le d p s' = di_le d p s)"
    using assms(2) i 1 2 3 4 5
    by (cases r1; cases r2; cases r3; cases r4) (auto simp: gravar_temporario_def igual_def)
  then show "igual d (\<lambda>q. q = t \<or> q = p) s s'" "e = None \<Longrightarrow> t \<noteq> p \<Longrightarrow> di_le d p s' = Le b"
    "e \<noteq> None \<Longrightarrow> t \<noteq> p \<Longrightarrow> di_le d p s' = di_le d p s" by blast+
qed

lemma arquivo_Save_ok:
  assumes "disco_ok d" and "arquivo_Save d (caminho_de d f) c v s = (e, s')"
  shows "\<exists>b. Seal (di_cifra d) c (di_sorteio d s) v = Inr b \<and> di_le d (caminho_de d f) s' = (if e = None then Le b else di_le d (caminho_de d f) s) \<or>
    e \<noteq> None \<and> di_le d (caminho_de d f) s' = di_le d (caminho_de d f) s"
proof (cases "Seal (di_cifra d) c (di_sorteio d s) v")
  case (Inl x)
  then show ?thesis using assms(2) by (auto simp: arquivo_Save_def)
next
  case (Inr b)
  let ?p = "caminho_de d f"
  show ?thesis
  proof (cases "di_temp d (di_dir d ?p) s")
    case (Pair t s1)
    show ?thesis
    proof (cases t)
      case (Inl x)
      then have "igual d (\<lambda>_. False) s s1" using assms(1) Pair by (simp add: disco_ok_def)
      then show ?thesis using assms(2) Inr Pair Inl by (auto simp: arquivo_Save_def igual_def)
    next
      case t: (Inr tmp)
      have T: "igual d (\<lambda>p. p = tmp) s s1" "di_le d tmp s1 = Le []" "\<not> suffix ''.cred'' tmp"
        using assms(1) Pair t by (simp_all add: disco_ok_def)
      have "suffix ''.cred'' ?p" using assms(1) by (simp add: disco_ok_def caminho_de_def)
      then have n: "?p \<noteq> tmp" using T(3) by blast
      obtain s2 where g: "gravar_temporario d tmp ?p b s1 = (e, s2)" "s' = di_remove d tmp s2"
        using assms(2) Inr Pair t by (auto simp: arquivo_Save_def split: prod.splits)
      note G = gravar_temporario_ok [OF assms(1) g(1) T(2)]
      have "igual d (\<lambda>p. p = tmp) s2 s'" using assms(1) g(2) by (simp add: disco_ok_def)
      then have "di_le d ?p s' = di_le d ?p s2" "di_le d ?p s1 = di_le d ?p s" using n T(1) by (simp_all add: igual_def)
      then show ?thesis using Inr G(2,3) n by (cases e) auto
    qed
  qed
qed

lemma FileStore_Save_visto:
  assumes "disco_ok d" and "FileStore_Save d f v s = (e, s')"
  shows "visto_no_arquivo d f s' = (if e = None \<and> ligado d f then v else visto_no_arquivo d f s)"
proof -
  obtain x s1 where r: "resolver d f s = (x, s1)" by (cases "resolver d f s") auto
  note R = resolver_casos [OF assms(1) r]
  have i: "visto_no_arquivo d f s1 = visto_no_arquivo d f s" by (rule visto_igual [OF R(1)]) simp
  show ?thesis
  proof (cases x)
    case (Inl y)
    then show ?thesis using assms(2) r i by (auto simp: FileStore_Save_def)
  next
    case (Inr y)
    show ?thesis
    proof (cases y)
      case None
      then have "\<not> ligado d f" using R(2) Inr by simp
      then show ?thesis using assms(2) r i Inr None by (auto simp: FileStore_Save_def)
    next
      case (Some pc)
      obtain p c where pc: "pc = (p, c)" by (cases pc) auto
      have on: "ligado d f" "p = caminho_de d f" "NewCredentialBox (chave_de d f) = Inr c" using R(3) Inr Some pc by blast+
      have s: "arquivo_Save d (caminho_de d f) c v s1 = (e, s')" using assms(2) r Inr Some pc on(2) by (simp add: FileStore_Save_def)
      from arquivo_Save_ok [OF assms(1) s] obtain b where
        b: "e \<noteq> None \<and> di_le d (caminho_de d f) s' = di_le d (caminho_de d f) s1 \<or>
            Seal (di_cifra d) c (di_sorteio d s1) v = Inr b \<and> e = None \<and> di_le d (caminho_de d f) s' = Le b"
        by (metis (full_types))
      have "Open (di_cifra d) c b = v" if "Seal (di_cifra d) c (di_sorteio d s1) v = Inr b"
        using Open_Seal(1) [OF _ _ that] assms(1) by (simp add: disco_ok_def)
      then show ?thesis using b on i by (auto simp: visto_no_arquivo_def)
    qed
  qed
qed

lemma FileStore_Load_visto:
  assumes "disco_ok d" and "FileStore_Load d f s = (x, s')"
  shows "visto_no_arquivo d f s' = visto_no_arquivo d f s \<and> (\<forall>y. x = Inr y \<longrightarrow> y = visto_no_arquivo d f s)"
proof -
  obtain z s1 where r: "resolver d f s = (z, s1)" by (cases "resolver d f s") auto
  note R = resolver_casos [OF assms(1) r]
  have i: "visto_no_arquivo d f s1 = visto_no_arquivo d f s" by (rule visto_igual [OF R(1)]) simp
  show ?thesis
  proof (cases z)
    case (Inl y)
    then show ?thesis using assms(2) r i by (auto simp: FileStore_Load_def)
  next
    case (Inr y)
    show ?thesis
    proof (cases y)
      case None
      then have "\<not> ligado d f" using R(2) Inr by simp
      then show ?thesis using assms(2) r i Inr None by (auto simp: FileStore_Load_def visto_no_arquivo_def)
    next
      case (Some pc)
      obtain p c where pc: "pc = (p, c)" by (cases pc) auto
      have on: "ligado d f" "p = caminho_de d f" "NewCredentialBox (chave_de d f) = Inr c" using R(3) Inr Some pc by blast+
      then show ?thesis using assms(2) r i Inr Some pc
        by (auto simp: FileStore_Load_def arquivo_Load_def visto_no_arquivo_def split: leitura.splits)
    qed
  qed
qed

interpretation arquivo: cofre_contrato "FileStore_Save d f" "FileStore_Load d f" "visto_no_arquivo d f" "\<lambda>_. disco_ok d" "\<lambda>_. True" for d :: "'s disco" and f
  by unfold_locales (use FileStore_Save_visto FileStore_Load_visto in fastforce)+

section \<open>The object keeps the contract\<close>

definition vale :: "condicao \<Rightarrow> (string \<times> int) option \<Rightarrow> bool" where
  "vale c o' \<longleftrightarrow> (case c of DoesNotExist \<Rightarrow> o' = None | GenerationMatch n \<Rightarrow> (\<exists>b. o' = Some (b, n)))"

text \<open>
  What is promised of the service, \<open>obj\<close> being the object: a write whose condition does not hold changes
  nothing and is not reported as done; one whose condition holds may fail, before or after it took effect,
  and gives the object a positive generation it did not have.
\<close>

definition servico_ok :: "'r servico \<Rightarrow> ('r \<Rightarrow> (string \<times> int) option) \<Rightarrow> bool" where
  "servico_ok g obj \<longleftrightarrow>
     gcm_ok (se_cifra g) \<and> (\<forall>r. sorteio_ok (se_sorteio g r)) \<and>
     (\<forall>r b n. obj r = Some (b, n) \<longrightarrow> 0 < n) \<and>
     (\<forall>r x r'. se_le g r = (x, r') \<longrightarrow> obj r' = obj r \<and> (\<forall>y. x = Inr y \<longrightarrow> y = obj r)) \<and>
     (\<forall>c b r x r'. se_grava g c b r = (x, r') \<longrightarrow>
        (x \<noteq> Gravou \<and> obj r' = obj r) \<or>
        (x \<noteq> Conflito \<and> vale c (obj r) \<and> (\<exists>n. 0 < n \<and> obj r' = Some (b, n) \<and> (\<forall>b' m. obj r = Some (b', m) \<longrightarrow> n \<noteq> m))))"

definition visto_no_objeto :: "'r servico \<Rightarrow> gcs_credential \<Rightarrow> ('r \<Rightarrow> (string \<times> int) option) \<Rightarrow> 'r processo \<Rightarrow> string" where
  "visto_no_objeto g c obj p =
     (case obj (snd p) of
        None \<Rightarrow> []
      | Some (b, n) \<Rightarrow>
          (case NewCredentialBox (gcs_chave g c) of Inl _ \<Rightarrow> [] | Inr k \<Rightarrow> Open (se_cifra g) k (take limite_de_leitura b)))"

definition cabe_no_objeto :: "string \<Rightarrow> bool" where
  "cabe_no_objeto v \<longleftrightarrow> length v + 43 \<le> limite_de_leitura"

text \<open>A save writes what opens as the value, and only over the generation that this process read.\<close>

lemma gcs_Save_casos:
  assumes "servico_ok g obj" and "cabe_no_objeto v" and "gcs_Save g c v (ger, r) = (e, p')"
  shows "\<exists>r'. p' = (ger, r') \<and>
    (obj r' = obj r \<or>
     vale (condicao_de ger) (obj r) \<and> visto_no_objeto g c obj p' = v \<and>
       (\<exists>b n. 0 < n \<and> obj r' = Some (b, n) \<and> (\<forall>b' m. obj r = Some (b', m) \<longrightarrow> n \<noteq> m)))"
proof (cases "se_abre g r")
  case (Some x)
  then have "p' = (ger, r)" "e \<noteq> None" using assms(3) by (auto simp: gcs_Save_def)
  then show ?thesis by blast
next
  case None
  show ?thesis
  proof (cases "NewCredentialBox (gcs_chave g c)")
    case (Inl x)
    then have "p' = (ger, r)" "e \<noteq> None" using assms(3) None by (auto simp: gcs_Save_def)
    then show ?thesis by blast
  next
    case k: (Inr k)
    show ?thesis
    proof (cases "Seal (se_cifra g) k (se_sorteio g r) v")
      case (Inl x)
      then have "p' = (ger, r)" "e \<noteq> None" using assms(3) None k by (auto simp: gcs_Save_def)
      then show ?thesis by blast
    next
      case b: (Inr b)
      obtain x r' where w: "se_grava g (condicao_de ger) b r = (x, r')" by (cases "se_grava g (condicao_de ger) b r") auto
      have p': "p' = (ger, r')" "e = erroDeEscrita x" using assms(3) None k b w by (auto simp: gcs_Save_def)
      have "Open (se_cifra g) k b = v" "length b \<le> length v + 43"
        using Open_Seal [OF _ _ b] assms(1) by (simp_all add: servico_ok_def)
      then have v: "visto_no_objeto g c obj p' = v" if "obj r' = Some (b, n)" for n
        using that p'(1) k assms(2) by (simp add: visto_no_objeto_def cabe_no_objeto_def)
      from assms(1) w have "(x \<noteq> Gravou \<and> obj r' = obj r) \<or>
          (x \<noteq> Conflito \<and> vale (condicao_de ger) (obj r) \<and> (\<exists>n. 0 < n \<and> obj r' = Some (b, n) \<and> (\<forall>b' m. obj r = Some (b', m) \<longrightarrow> n \<noteq> m)))"
        unfolding servico_ok_def by blast
      then show ?thesis using v p' by blast
    qed
  qed
qed

lemma gcs_Load_casos:
  assumes "servico_ok g obj" and "gcs_Load g c (ger, r) = (x, p')"
  shows "\<exists>ger' r'. p' = (ger', r') \<and> obj r' = obj r \<and> (\<forall>y. x = Inr y \<longrightarrow> y = visto_no_objeto g c obj (ger, r) \<and>
    ger' = Some (case obj r of None \<Rightarrow> 0 | Some (b, n) \<Rightarrow> n))"
proof (cases "se_abre g r")
  case (Some e)
  then show ?thesis using assms(2) by (auto simp: gcs_Load_def)
next
  case None
  obtain y r' where l: "se_le g r = (y, r')" by (cases "se_le g r") auto
  have o: "obj r' = obj r" "\<forall>z. y = Inr z \<longrightarrow> z = obj r" using assms(1) l by (simp_all add: servico_ok_def)
  show ?thesis
  proof (cases y)
    case (Inl e)
    then show ?thesis using assms(2) None l o by (auto simp: gcs_Load_def)
  next
    case (Inr z)
    then have z: "z = obj r" using o by simp
    show ?thesis
    proof (cases z)
      case None
      then show ?thesis using assms(2) \<open>se_abre g r = None\<close> l o(1) Inr z [symmetric] by (auto simp: gcs_Load_def visto_no_objeto_def)
    next
      case (Some bn)
      obtain b n where "bn = (b, n)" by (cases bn) auto
      then show ?thesis using assms(2) \<open>se_abre g r = None\<close> l o(1) Inr z [symmetric] Some
        by (auto simp: gcs_Load_def visto_no_objeto_def split: sum.splits)
    qed
  qed
qed

lemma visto_no_objeto_obj: "obj (snd p) = obj (snd q) \<Longrightarrow> visto_no_objeto g c obj p = visto_no_objeto g c obj q"
  by (simp add: visto_no_objeto_def)

interpretation objeto: cofre_contrato "gcs_Save g c" "gcs_Load g c" "visto_no_objeto g c obj" "\<lambda>_. servico_ok g obj" cabe_no_objeto
  for g :: "'r servico" and c and obj
proof
  fix p v e p'
  assume a: "servico_ok g obj" "cabe_no_objeto v" "gcs_Save g c v p = (e, p')"
  obtain ger r where p: "p = (ger, r)" by (cases p) auto
  from gcs_Save_casos [OF a(1,2) a(3) [unfolded p]] obtain r' where "p' = (ger, r')" "obj r' = obj r \<or> visto_no_objeto g c obj p' = v" by blast
  then show "servico_ok g obj \<and> visto_no_objeto g c obj p' \<in> {v, visto_no_objeto g c obj p}"
    using a(1) p visto_no_objeto_obj [of obj p' p] by auto
next
  fix p x p'
  assume a: "servico_ok g obj" "gcs_Load g c p = (x, p')"
  obtain ger r where p: "p = (ger, r)" by (cases p) auto
  from gcs_Load_casos [OF a(1) a(2) [unfolded p]] obtain ger' r' where
    l: "p' = (ger', r')" "obj r' = obj r" "\<forall>y. x = Inr y \<longrightarrow> y = visto_no_objeto g c obj (ger, r)" by blast
  then show "servico_ok g obj \<and> visto_no_objeto g c obj p' = visto_no_objeto g c obj p \<and> (\<forall>y. x = Inr y \<longrightarrow> y = visto_no_objeto g c obj p)"
    using a(1) p visto_no_objeto_obj [of obj p' p] by auto
qed

section \<open>What holds\<close>


text \<open>
  C22: the file never holds anything but a value that was saved. In any sequence of loads and saves, whatever
  step of a save fails, each value loaded is the first one or one that was saved; a save without an error
  into a store that is on is what the next load gives, and a save with an error changes nothing.
\<close>

theorem FileStore_nunca_corrompe:
  assumes "disco_ok d" and "usar (FileStore_Save d f) (FileStore_Load d f) us s = (xs, s')"
  shows "set xs \<subseteq> insert (visto_no_arquivo d f s) (gravados us) \<and> visto_no_arquivo d f s' \<in> insert (visto_no_arquivo d f s) (gravados us) \<and>
    (\<forall>v e t. FileStore_Save d f v s' = (e, t) \<longrightarrow>
       (\<forall>y t'. FileStore_Load d f t = (Inr y, t') \<longrightarrow> y = (if e = None \<and> ligado d f then v else visto_no_arquivo d f s')))"
proof -
  have "y = (if e = None \<and> ligado d f then v else visto_no_arquivo d f s')"
    if "FileStore_Save d f v s' = (e, t)" "FileStore_Load d f t = (Inr y, t')" for v e t y t'
    using FileStore_Save_visto [OF assms(1) that(1)] FileStore_Load_visto [OF assms(1) that(2)] by simp
  then show ?thesis using arquivo.nunca_inventa [OF assms(1) _ assms(2)] by blast
qed

text \<open>The generation of an object, zero for none.\<close>

definition geracao :: "(string \<times> int) option \<Rightarrow> int" where
  "geracao o' = (case o' of None \<Rightarrow> 0 | Some (b, n) \<Rightarrow> n)"

lemma gcs_geracao_velha:
  assumes "servico_ok g obj" and "cabe_no_objeto v" and "gcs_Load g c p0 = (Inr x, (ger, r1))"
    and "geracao (obj r) \<noteq> geracao (obj r1)" and "gcs_Save g c v (ger, r) = (e, p')"
  shows "obj (snd p') = obj r"
proof -
  obtain ger0 r0 where p0: "p0 = (ger0, r0)" by (cases p0) auto
  have n: "ger = Some (geracao (obj r1))" using gcs_Load_casos [OF assms(1) assms(3) [unfolded p0]] by (auto simp: geracao_def)
  have "\<not> vale (condicao_de ger) (obj r)"
    using assms(4) n by (auto simp: vale_def condicao_de_def geracao_def split: option.splits condicao.splits if_splits)
  then show ?thesis using gcs_Save_casos [OF assms(1,2,5)] by auto
qed

text \<open>
  C25: a save never replaces a newer credential: once the object has another generation than the one this
  process read, what it saves changes nothing. And any sequence of loads and saves of one process gives back
  values that were saved.
\<close>

theorem gcs_nao_apaga_o_mais_novo:
  assumes "servico_ok g obj" and "cabe_no_objeto v" and "gcs_Load g c p0 = (Inr x, (ger, r1))"
    and "geracao (obj r) \<noteq> geracao (obj r1)" and "gcs_Save g c v (ger, r) = (e, p')"
    and "\<forall>v \<in> gravados us. cabe_no_objeto v" and "usar (gcs_Save g c) (gcs_Load g c) us p0 = (xs, p1)"
  shows "obj (snd p') = obj r \<and> set xs \<subseteq> insert (visto_no_objeto g c obj p0) (gravados us)"
  using gcs_geracao_velha [OF assms(1-5)] objeto.nunca_inventa [OF assms(1,6,7)] by blast

text \<open>
  The generation is remembered at a load only, so of two saves of one process with no load between them
  the second is lost whenever the first landed.
\<close>

theorem gcs_segunda_rotacao_perdida:
  assumes "servico_ok g obj" and "cabe_no_objeto w" and "gcs_Load g c p0 = (Inr x, p1)"
    and "gcs_Save g c v p1 = (None, p2)" and "geracao (obj (snd p2)) \<noteq> geracao (obj (snd p1))" and "gcs_Save g c w p2 = (e, p3)"
  shows "visto_no_objeto g c obj p3 = visto_no_objeto g c obj p2"
proof -
  obtain ger r1 r2 where p: "p1 = (ger, r1)" "p2 = (ger, r2)"
    using assms(4) by (cases p1) (auto simp: gcs_Save_def split: option.splits sum.splits prod.splits)
  show ?thesis
    by (rule visto_no_objeto_obj) (use gcs_geracao_velha [OF assms(1,2) assms(3) [unfolded p] _ assms(6) [unfolded p]] assms(5) p in simp)
qed

section \<open>Examples\<close>

definition cifra_de_exemplo :: cifra where
  "cifra_de_exemplo =
     \<lparr>ci_seal = (\<lambda>k n v a. v @ replicate 16 (CHR ''x'')), ci_open = (\<lambda>k n c a. Some (take (length c - 16) c))\<rparr>"

lemma cifra_de_exemplo_ok: "gcm_ok cifra_de_exemplo"
  by (simp add: gcm_ok_def cifra_de_exemplo_def Overhead_def)

definition nonce_de_exemplo :: "string + string" where
  "nonce_de_exemplo = Inr (replicate 12 (CHR ''n''))"

lemma nonce_de_exemplo_ok: "sorteio_ok nonce_de_exemplo"
  by (simp add: sorteio_ok_def nonce_de_exemplo_def NonceSize_def)

definition disco_de_exemplo :: "string gomap disco" where
  "disco_de_exemplo =
     \<lparr>di_stat = (\<lambda>_ _. Dir 448), di_mkdir = (\<lambda>_ s. (None, s)),
      di_le = (\<lambda>p s. case map_of s p of None \<Rightarrow> SemArquivo | Some b \<Rightarrow> Le b),
      di_temp = (\<lambda>dir s. (Inr (dir @ ''/.cred-1''), poe (dir @ ''/.cred-1'') [] s)),
      di_escreve = (\<lambda>t x s. (None, poe t x s)), di_sync = (\<lambda>_ s. (None, s)), di_fecha = (\<lambda>_ s. (None, s)),
      di_renomeia = (\<lambda>t p s. case map_of s t of None \<Rightarrow> (Some ''no such file'', s) | Some b \<Rightarrow> (None, poe p b s)),
      di_remove = (\<lambda>t s. filter (\<lambda>(k, _). k \<noteq> t) s), di_sorteio = (\<lambda>_. nonce_de_exemplo),
      di_join = (\<lambda>d n. d @ ''/'' @ n), di_dir = (\<lambda>p. ''d''), di_cifra = cifra_de_exemplo, di_env = []\<rparr>"

lemma map_of_filtrado: "q \<noteq> t \<Longrightarrow> map_of (filter (\<lambda>(k, _). k \<noteq> t) s) q = map_of s q"
  by (induction s) auto

lemma disco_de_exemplo_ok: "disco_ok disco_de_exemplo"
  using cifra_de_exemplo_ok nonce_de_exemplo_ok
  by (auto simp: disco_ok_def disco_de_exemplo_def igual_def map_of_filtrado suffix_def split: option.splits)

definition loja_de_exemplo :: file_store where
  "loja_de_exemplo = \<lparr>st_name = ''sessao'', st_dir = ''d'', st_key = []\<rparr>"

lemma FileStore_nunca_corrompe_witness:
  "visto_no_arquivo disco_de_exemplo loja_de_exemplo
     (snd (usar (FileStore_Save disco_de_exemplo loja_de_exemplo) (FileStore_Load disco_de_exemplo loja_de_exemplo) [Grava ''a'', Carrega] [])) = ''a'' \<and>
   set (fst (usar (FileStore_Save disco_de_exemplo loja_de_exemplo) (FileStore_Load disco_de_exemplo loja_de_exemplo) [Grava ''a'', Carrega] []))
     \<subseteq> {[], ''a''}"
proof -
  let ?u = "usar (FileStore_Save disco_de_exemplo loja_de_exemplo) (FileStore_Load disco_de_exemplo loja_de_exemplo) [Grava ''a'', Carrega] []"
  have i: "visto_no_arquivo disco_de_exemplo loja_de_exemplo [] = []" by code_simp
  have v: "visto_no_arquivo disco_de_exemplo loja_de_exemplo (snd ?u) = ''a''" by code_simp
  from FileStore_nunca_corrompe [OF disco_de_exemplo_ok surjective_pairing [of ?u]] show ?thesis using i v by simp
qed


definition geracoes_de :: "(string \<times> nat) option \<Rightarrow> (string \<times> int) option" where
  "geracoes_de r = map_option (\<lambda>(b, n). (b, int n + 1)) r"

definition servico_de_exemplo :: "(string \<times> nat) option servico" where
  "servico_de_exemplo =
     \<lparr>se_abre = (\<lambda>_. None), se_le = (\<lambda>r. (Inr (geracoes_de r), r)),
      se_grava = (\<lambda>c b r. if (case c of DoesNotExist \<Rightarrow> r = None | GenerationMatch n \<Rightarrow> (case r of None \<Rightarrow> False | Some (_, k) \<Rightarrow> int k + 1 = n))
        then (Gravou, Some (b, case r of None \<Rightarrow> 0 | Some (_, k) \<Rightarrow> Suc k)) else (Conflito, r)),
      se_sorteio = (\<lambda>_. nonce_de_exemplo), se_cifra = cifra_de_exemplo, se_env = []\<rparr>"

lemma servico_de_exemplo_ok: "servico_ok servico_de_exemplo geracoes_de"
proof -
  have g: "0 < n" if "geracoes_de r = Some (b, n)" for r b n using that by (auto simp: geracoes_de_def)
  have w: "(x \<noteq> Gravou \<and> geracoes_de r' = geracoes_de r) \<or>
      (x \<noteq> Conflito \<and> vale c (geracoes_de r) \<and>
        (\<exists>n. 0 < n \<and> geracoes_de r' = Some (b, n) \<and> (\<forall>b' m. geracoes_de r = Some (b', m) \<longrightarrow> n \<noteq> m)))"
    if "se_grava servico_de_exemplo c b r = (x, r')" for c b r x r'
    using that by (cases c; cases r) (auto simp: servico_de_exemplo_def geracoes_de_def vale_def split: if_splits)
  have l: "geracoes_de r' = geracoes_de r \<and> (\<forall>y. x = Inr y \<longrightarrow> y = geracoes_de r)" if "se_le servico_de_exemplo r = (x, r')" for r x r'
    using that by (auto simp: servico_de_exemplo_def)
  have c: "sorteio_ok (se_sorteio servico_de_exemplo r)" "gcm_ok (se_cifra servico_de_exemplo)" for r
    using cifra_de_exemplo_ok nonce_de_exemplo_ok by (simp_all add: servico_de_exemplo_def)
  show ?thesis unfolding servico_ok_def using c g l w by blast
qed

definition objeto_de_exemplo :: gcs_credential where
  "objeto_de_exemplo = \<lparr>gc_bucket = ''b'', gc_object = ''o'', gc_key = []\<rparr>"

definition depois_de_ler :: "(string \<times> nat) option processo" where
  "depois_de_ler = snd (gcs_Load servico_de_exemplo objeto_de_exemplo (None, None))"

definition depois_de_gravar :: "(string \<times> nat) option processo" where
  "depois_de_gravar = snd (gcs_Save servico_de_exemplo objeto_de_exemplo ''v1'' depois_de_ler)"

lemma exemplo_de_gcs:
  "gcs_Load servico_de_exemplo objeto_de_exemplo (None, None) = (Inr [], (Some 0, None))"
  "depois_de_ler = (Some 0, None)"
  "gcs_Save servico_de_exemplo objeto_de_exemplo ''v1'' (Some 0, None) = (None, depois_de_gravar)"
  "depois_de_gravar = (Some 0, Some (formatoClaro @ quebra @ ''v1'', 0))"
  "fst (gcs_Save servico_de_exemplo objeto_de_exemplo ''v2'' depois_de_gravar) = None"
  by code_simp+

lemma exemplo_visto: "visto_no_objeto servico_de_exemplo objeto_de_exemplo geracoes_de depois_de_gravar = ''v1''"
proof -
  have "NewCredentialBox (gcs_chave servico_de_exemplo objeto_de_exemplo) = Inr None" by code_simp
  moreover have "take limite_de_leitura (formatoClaro @ quebra @ ''v1'') = formatoClaro @ quebra @ ''v1''"
    by (simp add: limite_de_leitura_def formatoClaro_def quebra_def)
  ultimately show ?thesis
    by (simp add: visto_no_objeto_def exemplo_de_gcs(4) geracoes_de_def Open_def primeiraLinha_de sem_quebra)
qed

lemma gcs_segunda_rotacao_perdida_witness:
  "\<exists>p. gcs_Save servico_de_exemplo objeto_de_exemplo ''v2'' depois_de_gravar = (None, p) \<and>
     visto_no_objeto servico_de_exemplo objeto_de_exemplo geracoes_de p = ''v1''"
proof -
  obtain p where p: "gcs_Save servico_de_exemplo objeto_de_exemplo ''v2'' depois_de_gravar = (None, p)"
    using exemplo_de_gcs(5) by (metis prod.collapse)
  have c: "cabe_no_objeto ''v2''" by (simp add: cabe_no_objeto_def limite_de_leitura_def)
  have g: "geracao (geracoes_de (snd depois_de_gravar)) \<noteq> geracao (geracoes_de (snd (Some 0, None)))"
    by (simp add: exemplo_de_gcs(4) geracoes_de_def geracao_def)
  from gcs_segunda_rotacao_perdida [OF servico_de_exemplo_ok c exemplo_de_gcs(1,3) g p] show ?thesis
    using p exemplo_visto by simp
qed

lemma gcs_nao_apaga_o_mais_novo_witness:
  "\<exists>p. gcs_Save servico_de_exemplo objeto_de_exemplo ''v2'' (Some 0, Some (''outro'', 0)) = (None, p) \<and> geracoes_de (snd p) = Some (''outro'', 1)"
proof -
  have "fst (gcs_Save servico_de_exemplo objeto_de_exemplo ''v2'' (Some 0, Some (''outro'', 0))) = None" by code_simp
  then obtain p where p: "gcs_Save servico_de_exemplo objeto_de_exemplo ''v2'' (Some 0, Some (''outro'', 0)) = (None, p)" by (metis prod.collapse)
  have c: "cabe_no_objeto ''v2''" by (simp add: cabe_no_objeto_def limite_de_leitura_def)
  have g: "geracao (geracoes_de (Some (''outro'', 0))) \<noteq> geracao (geracoes_de None)" by (simp add: geracoes_de_def geracao_def)
  from gcs_nao_apaga_o_mais_novo [OF servico_de_exemplo_ok c exemplo_de_gcs(1) g p, of "[]" "[]" "(None, None)"]
  show ?thesis using p by (simp add: geracoes_de_def)
qed

end
