(* ===== verification/Credencial.thy ===== *)
theory Credencial
  imports Extracao Cofre
begin

text \<open>
  How the kit authenticates: \<open>sdk/internal/core/auth.go\<close> (the credential, its cache, the appliers),
  \<open>sdk/extract/auth.go\<close> (login, renewal) and \<open>sdk/extract/credjar.go\<close> (the cookies that carry the
  credential). The requests, the clock and the store are functions over the state of the world. Logging, and
  the redaction of addresses, are left out.
\<close>

section \<open>Headers and cookies\<close>

type_synonym cabecalho = "string list gomap"

definition token_char :: "char \<Rightarrow> bool" where
  "token_char c \<longleftrightarrow> minuscula c \<or> maiuscula c \<or> digito c \<or> c \<in> set ''!#$%&*+-.^_|~'' \<or> c = CHR 0x27 \<or> c = CHR 0x60"

text \<open>\<open>textproto.CanonicalMIMEHeaderKey\<close>.\<close>

fun capitalizar :: "bool \<Rightarrow> string \<Rightarrow> string" where
  "capitalizar sobe [] = []"
| "capitalizar sobe (c # cs) =
     (if sobe \<and> minuscula c then char_of (byte c - 32) else if \<not> sobe then to_lower c else c) # capitalizar (c = CHR ''-'') cs"

definition canonico :: "string \<Rightarrow> string" where
  "canonico k = (if list_all token_char k then capitalizar True k else k)"

definition hd_set :: "string \<Rightarrow> string \<Rightarrow> cabecalho \<Rightarrow> cabecalho" where
  "hd_set k v h = poe (canonico k) [v] h"

definition hd_get :: "string \<Rightarrow> cabecalho \<Rightarrow> string" where
  "hd_get k h = (case map_of h (canonico k) of Some (v # _) \<Rightarrow> v | _ \<Rightarrow> [])"

definition branco :: "char \<Rightarrow> bool" where
  "branco c \<longleftrightarrow> c = CHR '' '' \<or> c = CHR 0x09 \<or> c = CHR 0x0A \<or> c = CHR 0x0D"

definition TrimString :: "string \<Rightarrow> string" where
  "TrimString s = rev (dropWhile branco (rev (dropWhile branco s)))"

definition valor_byte :: "char \<Rightarrow> bool" where
  "valor_byte c \<longleftrightarrow> 32 \<le> byte c \<and> byte c < 127 \<and> c \<noteq> CHR 0x22 \<and> c \<noteq> CHR '';'' \<and> c \<noteq> CHR 0x5C"

definition parseCookieValue :: "string \<Rightarrow> string option" where
  "parseCookieValue raw =
     (let raw = (if 1 < length raw \<and> hd raw = CHR 0x22 \<and> last raw = CHR 0x22 then butlast (tl raw) else raw) in
      if list_all valor_byte raw then Some raw else None)"

definition um_cookie :: "string \<Rightarrow> (string \<times> string) option" where
  "um_cookie s =
     (case cut (CHR ''='') (TrimString s) of
        None \<Rightarrow> None
      | Some (n, v) \<Rightarrow> if n = [] \<or> \<not> list_all token_char n then None else map_option (Pair n) (parseCookieValue v))"

fun todos_os_cookies :: "string list \<Rightarrow> (string \<times> string) list option" where
  "todos_os_cookies [] = Some []"
| "todos_os_cookies (s # ss) =
     (case um_cookie s of None \<Rightarrow> None | Some c \<Rightarrow> map_option (Cons c) (todos_os_cookies ss))"

definition ParseCookie :: "string \<Rightarrow> (string \<times> string) list option" where
  "ParseCookie line = (let ps = split_on (CHR '';'') (TrimString line) in if ps = [[]] then None else todos_os_cookies ps)"

section \<open>The cookies of the credential\<close>

text \<open>\<open>jr_resto\<close> is what the inner jar was given.\<close>

record jar =
  jr_nomes :: "string list"
  jr_rotacoes :: "string gomap"
  jr_resto :: "(string \<times> string) list"

definition newCredentialJar :: "string list \<Rightarrow> jar" where
  "newCredentialJar nomes = \<lparr>jr_nomes = nomes, jr_rotacoes = [], jr_resto = []\<rparr>"

definition SetCookies :: "(string \<times> string) list \<Rightarrow> jar \<Rightarrow> jar" where
  "SetCookies cs j =
     fold (\<lambda>(n, v) j. if n \<in> set (jr_nomes j) then j\<lparr>jr_rotacoes := poe n v (jr_rotacoes j)\<rparr> else j\<lparr>jr_resto := jr_resto j @ [(n, v)]\<rparr>) cs j"

definition Rotacoes :: "jar \<Rightarrow> string gomap \<times> jar" where
  "Rotacoes j = (jr_rotacoes j, j\<lparr>jr_rotacoes := []\<rparr>)"

definition troca :: "string gomap \<Rightarrow> string \<times> string \<Rightarrow> string \<times> string" where
  "troca rot = (\<lambda>(n, v). (n, case map_of rot n of None \<Rightarrow> v | Some w \<Rightarrow> w))"

definition escreve_cookies :: "(string \<times> string) list \<Rightarrow> string" where
  "escreve_cookies cs = join ''; '' (map (\<lambda>(n, v). n @ ''='' @ v) cs)"

definition aplicarRotacao :: "string gomap \<Rightarrow> cabecalho \<Rightarrow> bool \<times> cabecalho" where
  "aplicarRotacao rot h =
     (if rot = [] then (False, h)
      else (case ParseCookie (hd_get ''Cookie'' h) of
              None \<Rightarrow> (False, h)
            | Some cs \<Rightarrow> (True, hd_set ''Cookie'' (escreve_cookies (map (troca rot) cs)) h)))"

text \<open>\<open>newClient\<close>: the names are those of the \<open>Cookie\<close> header.\<close>

definition newClient :: "cabecalho \<Rightarrow> jar option" where
  "newClient h =
     (let raw = hd_get ''Cookie'' h in
      if raw = [] then Some (newCredentialJar []) else map_option (\<lambda>cs. newCredentialJar (map fst cs)) (ParseCookie raw))"

section \<open>The credential\<close>

datatype erro_campo =
    RespostaNaoJSON string | NaoEObjetoEm string | CampoFaltando string | CampoDeOutroTipo qualquer | NaoERFC3339 string

record 'w cofre_de =
  co_load :: "'w \<Rightarrow> (string + string) \<times> 'w"
  co_save :: "string \<Rightarrow> 'w \<Rightarrow> string option \<times> 'w"
  co_check :: "('w \<Rightarrow> string option \<times> 'w) option"     \<comment> \<open>\<open>CredentialStoreChecker\<close>\<close>

record 'w refresh =
  rf_url :: string
  rf_method :: string
  rf_expires :: "(string \<Rightarrow> erro_campo + time) option"
  rf_store :: "'w cofre_de option"
  rf_warn :: int

record 'w login =
  lg_url :: string
  lg_method :: string
  lg_body :: "('w \<Rightarrow> (string + string \<times> string) \<times> 'w) option"
  lg_header :: "cabecalho option"
  lg_token :: "(string \<Rightarrow> erro_campo + string) option"

record 'w credential =
  cd_value :: "('w \<Rightarrow> (string + string) \<times> 'w) option"
  cd_apply :: "(cabecalho \<Rightarrow> string \<Rightarrow> cabecalho) option"
  cd_ttl :: int
  cd_login :: "'w login option"
  cd_refresh :: "'w refresh option"

record cache =
  ca_valor :: string
  ca_em :: time

datatype erro_req =
    NaoMontou string | FalhouReq int string | LeuMal string | StatusRuim int string | SemTentativas

datatype erro_cred =
    SemValueNemLogin | ValueELogin | LoginSemURL | LoginSemToken | SemApply | RefreshSemURL | StoreRecusou string | WarnSemExpires
  | LoginNaoPreparado | ValueFalhou string | SegredoVazio
  | CorpoDoLogin string | Requisicao erro_req | TokenIlegivel erro_campo | TokenVazio
  | CookieInvalido | RenovacaoNaoConfere erro_campo

definition FromEnv :: "string gomap \<Rightarrow> string \<Rightarrow> string + string" where
  "FromEnv amb nome = (let v = Getenv_de amb nome in if v = [] then Inl nome else Inr v)"

definition AsBearer :: "cabecalho \<Rightarrow> string \<Rightarrow> cabecalho" where
  "AsBearer h secret = hd_set ''Authorization'' (''Bearer '' @ secret) h"

definition AsCookie :: "cabecalho \<Rightarrow> string \<Rightarrow> cabecalho" where
  "AsCookie h secret = hd_set ''Cookie'' secret h"

definition AsCookieNamed :: "string \<Rightarrow> cabecalho \<Rightarrow> string \<Rightarrow> cabecalho" where
  "AsCookieNamed name h secret = hd_set ''Cookie'' (name @ ''='' @ secret) h"

definition AsHeader :: "string \<Rightarrow> cabecalho \<Rightarrow> string \<Rightarrow> cabecalho" where
  "AsHeader name h secret = hd_set name secret h"

text \<open>Decoding into a map leaves it nil for \<open>null\<close>. \<open>data\<close> is \<open>time.Parse\<close> with RFC 3339.\<close>

definition JSONField :: "(string \<Rightarrow> string + qualquer) \<Rightarrow> (string \<Rightarrow> time option) \<Rightarrow> string \<Rightarrow> string \<Rightarrow> erro_campo + time" where
  "JSONField json data name body =
     (case json body of
        Inl e \<Rightarrow> Inl (RespostaNaoJSON e)
      | Inr v \<Rightarrow>
          (case (case v of QMap doc \<Rightarrow> Some doc | QNil \<Rightarrow> Some [] | _ \<Rightarrow> None) of
             None \<Rightarrow> Inl (RespostaNaoJSON ''cannot unmarshal into map'')
           | Some doc \<Rightarrow>
               (case map_of doc name of
                  None \<Rightarrow> Inl (CampoFaltando name)
                | Some (QText s) \<Rightarrow> (case data s of None \<Rightarrow> Inl (NaoERFC3339 s) | Some t \<Rightarrow> Inr t)
                | Some w \<Rightarrow> Inl (CampoDeOutroTipo w))))"

fun andar_campos :: "string list \<Rightarrow> string list \<Rightarrow> qualquer \<Rightarrow> erro_campo + qualquer" where
  "andar_campos feitas [] v = Inr v"
| "andar_campos feitas (p # ps) v =
     (case v of
        QMap obj \<Rightarrow> (case map_of obj p of None \<Rightarrow> Inl (CampoFaltando p) | Some w \<Rightarrow> andar_campos (feitas @ [p]) ps w)
      | _ \<Rightarrow> Inl (NaoEObjetoEm (join ''.'' feitas)))"

definition CampoJSON :: "(string \<Rightarrow> string + qualquer) \<Rightarrow> strconv \<Rightarrow> string \<Rightarrow> string \<Rightarrow> erro_campo + string" where
  "CampoJSON json sc caminho corpo =
     (case json corpo of
        Inl e \<Rightarrow> Inl (RespostaNaoJSON e)
      | Inr v \<Rightarrow>
          (case andar_campos [] (split_on (CHR ''.'') caminho) v of
             Inl e \<Rightarrow> Inl e
           | Inr (QText t) \<Rightarrow> Inr t
           | Inr (QNum n) \<Rightarrow> Inr n
           | Inr (QFloat f) \<Rightarrow> Inr (sc_formata sc f)
           | Inr w \<Rightarrow> Inl (CampoDeOutroTipo w)))"

definition cred_Check :: "'w credential \<Rightarrow> 'w \<Rightarrow> erro_cred option \<times> 'w" where
  "cred_Check c w =
     (if cd_value c = None \<and> cd_login c = None then (Some SemValueNemLogin, w)
      else if cd_value c \<noteq> None \<and> cd_login c \<noteq> None then (Some ValueELogin, w)
      else if (case cd_login c of Some l \<Rightarrow> lg_url l = [] | None \<Rightarrow> False) then (Some LoginSemURL, w)
      else if (case cd_login c of Some l \<Rightarrow> lg_token l = None | None \<Rightarrow> False) then (Some LoginSemToken, w)
      else if cd_apply c = None then (Some SemApply, w)
      else (case cd_refresh c of
              None \<Rightarrow> (None, w)
            | Some r \<Rightarrow>
                if rf_url r = [] then (Some RefreshSemURL, w)
                else (case (case rf_store r of None \<Rightarrow> (None, w)
                            | Some st \<Rightarrow> (case co_check st of None \<Rightarrow> (None, w) | Some f \<Rightarrow> f w)) of
                        (Some e, w) \<Rightarrow> (Some (StoreRecusou e), w)
                      | (None, w) \<Rightarrow> (if rf_warn r \<noteq> 0 \<and> rf_expires r = None then Some WarnSemExpires else None, w))))"

text \<open>\<open>Get\<close>; \<open>preparado\<close> is the secret that \<open>PrepararLogin\<close> installed.\<close>

type_synonym 'w segredo = "'w \<Rightarrow> (erro_cred + string) \<times> 'w"

definition produzir :: "'w credential \<Rightarrow> 'w segredo option \<Rightarrow> 'w segredo option" where
  "produzir c preparado =
     (case cd_value c of
        Some f \<Rightarrow> Some (\<lambda>w. case f w of (Inl e, w) \<Rightarrow> (Inl (ValueFalhou e), w) | (Inr v, w) \<Rightarrow> (Inr v, w))
      | None \<Rightarrow> preparado)"

definition cred_Get :: "('w \<Rightarrow> time) \<Rightarrow> 'w credential \<Rightarrow> 'w segredo option \<Rightarrow> cache \<Rightarrow> 'w \<Rightarrow> (erro_cred + string) \<times> cache \<times> 'w" where
  "cred_Get agora c preparado ca w =
     (if cd_value c = None \<and> cd_login c = None then (Inl SemValueNemLogin, ca, w)
      else if 0 < cd_ttl c \<and> ca_valor ca \<noteq> [] \<and> agora w - ca_em ca < cd_ttl c then (Inr (ca_valor ca), ca, w)
      else
        (case (case cd_refresh c of None \<Rightarrow> (Inr [], w)
               | Some r \<Rightarrow> (case rf_store r of None \<Rightarrow> (Inr [], w) | Some st \<Rightarrow> co_load st w)) of
           (guardado, w) \<Rightarrow>
             if (case guardado of Inr g \<Rightarrow> g \<noteq> [] | Inl _ \<Rightarrow> False)
             then (Inr (projr guardado), \<lparr>ca_valor = projr guardado, ca_em = agora w\<rparr>, w)
             else
               (case produzir c preparado of
                  None \<Rightarrow> (Inl LoginNaoPreparado, ca, w)
                | Some f \<Rightarrow>
                    (case f w of
                       (Inl e, w) \<Rightarrow> (Inl e, ca, w)
                     | (Inr v, w) \<Rightarrow> if v = [] then (Inl SegredoVazio, ca, w) else (Inr v, \<lparr>ca_valor = v, ca_em = agora w\<rparr>, w)))))"

section \<open>One request\<close>

text \<open>
  A request carries a header and the cookies that the jar holds; it gives no response, or one with the error of reading its body and the cookies it sets.
  \<open>ra_monta\<close> is \<open>http.NewRequestWithContext\<close>.
\<close>

record 'w rede_auth =
  ra_monta :: "string \<Rightarrow> string \<Rightarrow> string option"
  ra_pede :: "string \<Rightarrow> string \<Rightarrow> cabecalho \<Rightarrow> (string \<times> string) list \<Rightarrow> string option \<Rightarrow> 'w
    \<Rightarrow> (string + resposta_http \<times> string option \<times> (string \<times> string) list) \<times> 'w"
  ra_data :: "string \<Rightarrow> int option"
  ra_sorteio :: "int \<Rightarrow> int"
  ra_agora :: "'w \<Rightarrow> time"

definition limite_do_corpo :: nat where "limite_do_corpo = 2 ^ 20"

text \<open>The attempts that are left, and those made; it also gives the sleeps.\<close>

fun tentar_requisicao ::
    "'w rede_auth \<Rightarrow> retry_config \<Rightarrow> string \<Rightarrow> string \<Rightarrow> cabecalho \<Rightarrow> string option \<Rightarrow> nat \<Rightarrow> nat \<Rightarrow> jar \<Rightarrow> 'w
     \<Rightarrow> (erro_req + string) \<times> int list \<times> jar \<times> 'w" where
  "tentar_requisicao net cfg metodo url h corpo 0 attempt j w = (Inl SemTentativas, [], j, w)"
| "tentar_requisicao net cfg metodo url h corpo (Suc n) attempt j w =
     (case ra_monta net metodo url of
        Some e \<Rightarrow> (Inl (NaoMontou e), [], j, w)
      | None \<Rightarrow>
          (case ra_pede net metodo url h (jr_resto j) corpo w of
             (Inl e, w) \<Rightarrow>
               if shouldRetry e \<and> n \<noteq> 0 then
                 (case tentar_requisicao net cfg metodo url h corpo n (Suc attempt) j w of
                    (x, es, s) \<Rightarrow> (x, calculateBackoff (ra_sorteio net) attempt cfg # es, s))
               else (Inl (FalhouReq (int attempt + 1) e), [], j, w)
           | (Inr (p, leitura, cookies), w) \<Rightarrow>
               (let j = SetCookies cookies j in
                if 200 \<le> rh_status p \<and> rh_status p \<le> 299 then
                  (case leitura of Some e \<Rightarrow> (Inl (LeuMal e), [], j, w) | None \<Rightarrow> (Inr (take limite_do_corpo (rh_body p)), [], j, w))
                else if shouldRetryStatus (rh_status p) \<and> n \<noteq> 0 then
                  (case tentar_requisicao net cfg metodo url h corpo n (Suc attempt) j w of
                     (x, es, s) \<Rightarrow> (x, retryAfter (ra_data net) (ra_sorteio net) p attempt cfg # es, s))
                else (Inl (StatusRuim (rh_status p) (take limite_do_corpo (rh_body p))), [], j, w))))"

definition requisitar ::
    "'w rede_auth \<Rightarrow> retry_config \<Rightarrow> string \<Rightarrow> string \<Rightarrow> cabecalho \<Rightarrow> string option \<Rightarrow> jar \<Rightarrow> 'w
     \<Rightarrow> (erro_req + string) \<times> int list \<times> jar \<times> 'w" where
  "requisitar net cfg metodo url h corpo j w =
     tentar_requisicao net cfg metodo url h corpo (if 0 < rc_max_attempts cfg then nat (rc_max_attempts cfg) else 1) 0 j w"

section \<open>Login and renewal\<close>

text \<open>\<open>prepararLogin\<close>, with the jar of its provisional client.\<close>

definition prepararLogin :: "'w rede_auth \<Rightarrow> retry_config \<Rightarrow> jar \<Rightarrow> 'w login \<Rightarrow> 'w segredo" where
  "prepararLogin net cfg j l w =
     (case (case lg_body l of None \<Rightarrow> (Inr ([], None), w)
            | Some f \<Rightarrow> (case f w of (Inl e, w) \<Rightarrow> (Inl e, w) | (Inr (t, b), w) \<Rightarrow> (Inr (t, Some b), w))) of
        (Inl e, w) \<Rightarrow> (Inl (CorpoDoLogin e), w)
      | (Inr (tipo, corpo), w) \<Rightarrow>
          (let h = (case lg_header l of None \<Rightarrow> [] | Some h \<Rightarrow> h); h = (if tipo \<noteq> [] then hd_set ''Content-Type'' tipo h else h) in
           case requisitar net cfg (if lg_method l = [] then ''POST'' else lg_method l) (lg_url l) h corpo j w of
             (Inl e, _, _, w) \<Rightarrow> (Inl (Requisicao e), w)
           | (Inr resposta, _, _, w) \<Rightarrow>
               (case (the (lg_token l)) resposta of
                  Inl e \<Rightarrow> (Inl (TokenIlegivel e), w)
                | Inr token \<Rightarrow> if token = [] then (Inl TokenVazio, w) else (Inr token, w))))"

definition guardar :: "'w cofre_de option \<Rightarrow> string \<Rightarrow> 'w \<Rightarrow> string option \<times> 'w" where
  "guardar store valor w =
     (case store of None \<Rightarrow> (None, w) | Some st \<Rightarrow> if valor = [] then (None, w) else co_save st valor w)"

datatype aviso = SemAviso | JaExpirou | ExpiraLogo | Renovada

record renovacao =
  rn_expira :: "time option"            \<comment> \<open>\<open>Stats.CredentialExpiry\<close>\<close>
  rn_nao_gravou :: "string option"      \<comment> \<open>\<open>Stats.CredentialStoreError\<close>\<close>
  rn_aviso :: aviso

definition defaultWarnAfter :: int where "defaultWarnAfter = 7 * 24 * 3600 * 1000000000"

definition persistir :: "'w refresh \<Rightarrow> bool \<Rightarrow> cabecalho \<Rightarrow> 'w \<Rightarrow> string option \<times> 'w" where
  "persistir r rotacionou h w = (if rotacionou then guardar (rf_store r) (hd_get ''Cookie'' h) w else (None, w))"

definition renew ::
    "'w rede_auth \<Rightarrow> retry_config \<Rightarrow> 'w refresh \<Rightarrow> cabecalho \<Rightarrow> jar \<Rightarrow> 'w \<Rightarrow> (erro_cred + cabecalho \<times> renovacao) \<times> jar \<times> 'w" where
  "renew net cfg r h j w =
     (case requisitar net cfg (if rf_method r = [] then ''GET'' else rf_method r) (rf_url r) h None j w of
        (Inl e, _, j, w) \<Rightarrow> (Inl (Requisicao e), j, w)
      | (Inr body, _, j, w) \<Rightarrow>
          (case Rotacoes j of
             (rot, j) \<Rightarrow>
               (case aplicarRotacao rot h of
                  (rotacionou, h) \<Rightarrow>
                    (case rf_expires r of
                       None \<Rightarrow>
                         (case persistir r rotacionou h w of
                            (e, w) \<Rightarrow> (Inr (h, \<lparr>rn_expira = None, rn_nao_gravou = e, rn_aviso = SemAviso\<rparr>), j, w))
                     | Some f \<Rightarrow>
                         (case f body of
                            Inl e \<Rightarrow> (Inl (RenovacaoNaoConfere e), j, w)
                          | Inr expires \<Rightarrow>
                              (case persistir r rotacionou h w of
                                 (e, w) \<Rightarrow>
                                   (let left = expires - ra_agora net w; limite = (if rf_warn r = 0 then defaultWarnAfter else rf_warn r) in
                                    (Inr (h, \<lparr>rn_expira = Some expires, rn_nao_gravou = e,
                                       rn_aviso = (if left \<le> 0 then JaExpirou else if left < limite then ExpiraLogo else Renovada)\<rparr>), j, w))))))))"

definition sem_renovacao :: renovacao where
  "sem_renovacao = \<lparr>rn_expira = None, rn_nao_gravou = None, rn_aviso = SemAviso\<rparr>"

definition authenticate ::
    "'w rede_auth \<Rightarrow> 'w credential \<Rightarrow> 'w segredo option \<Rightarrow> cabecalho \<Rightarrow> cache \<Rightarrow> 'w \<Rightarrow> (erro_cred + cabecalho) \<times> cache \<times> 'w" where
  "authenticate net c preparado h ca w =
     (case cred_Check c w of
        (Some e, w) \<Rightarrow> (Inl e, ca, w)
      | (None, w) \<Rightarrow>
          (case cred_Get (ra_agora net) c preparado ca w of
             (Inl e, ca, w) \<Rightarrow> (Inl e, ca, w)
           | (Inr secret, ca, w) \<Rightarrow> (Inr ((the (cd_apply c)) h secret), ca, w)))"

text \<open>The part of \<open>fetch\<close> before the first page: the login is prepared, the credential applied, and renewed.\<close>

definition abrir ::
    "'w rede_auth \<Rightarrow> retry_config \<Rightarrow> 'w credential \<Rightarrow> cabecalho \<Rightarrow> cache \<Rightarrow> 'w
     \<Rightarrow> (erro_cred + cabecalho \<times> jar \<times> renovacao) \<times> cache \<times> 'w" where
  "abrir net cfg c h ca w =
     (case (case cd_login c of
              None \<Rightarrow> Inr None
            | Some l \<Rightarrow> (case newClient h of None \<Rightarrow> Inl CookieInvalido | Some j \<Rightarrow> Inr (Some (prepararLogin net cfg j l)))) of
        Inl e \<Rightarrow> (Inl e, ca, w)
      | Inr preparado \<Rightarrow>
          (case authenticate net c preparado h ca w of
             (Inl e, ca, w) \<Rightarrow> (Inl e, ca, w)
           | (Inr h, ca, w) \<Rightarrow>
               (case newClient h of
                  None \<Rightarrow> (Inl CookieInvalido, ca, w)
                | Some j \<Rightarrow>
                    (case cd_refresh c of
                       None \<Rightarrow> (Inr (h, j, sem_renovacao), ca, w)
                     | Some r \<Rightarrow>
                         (case renew net cfg r h j w of
                            (Inl e, j, w) \<Rightarrow> (Inl e, ca, w)
                          | (Inr (h, rn), j, w) \<Rightarrow> (Inr (h, j, rn), ca, w))))))"

section \<open>Cookies are read as they were written\<close>

definition cookie_ok :: "string \<times> string \<Rightarrow> bool" where
  "cookie_ok c \<longleftrightarrow> fst c \<noteq> [] \<and> list_all token_char (fst c) \<and> list_all valor_byte (snd c) \<and> (snd c = [] \<or> last (snd c) \<noteq> CHR '' '')"

lemma token_char_fora: "token_char c \<Longrightarrow> c \<noteq> CHR ''='' \<and> c \<noteq> CHR '';'' \<and> \<not> branco c"
  unfolding token_char_def branco_def by (auto simp: byte_classes)

lemma valor_byte_fora: "valor_byte c \<Longrightarrow> c \<noteq> CHR 0x22 \<and> c \<noteq> CHR '';'' \<and> (branco c \<longrightarrow> c = CHR '' '')"
  unfolding valor_byte_def branco_def by (auto simp: byte_def)

definition texto_do_cookie :: "string \<times> string \<Rightarrow> string" where
  "texto_do_cookie = (\<lambda>(n, v). n @ ''='' @ v)"

lemma cookie_bordas:
  assumes "cookie_ok c"
  shows "texto_do_cookie c \<noteq> []" "\<not> branco (hd (texto_do_cookie c))" "\<not> branco (last (texto_do_cookie c))" "CHR '';'' \<notin> set (texto_do_cookie c)"
proof -
  obtain n v where c: "c = (n, v)" by (cases c) auto
  obtain x xs where n: "n = x # xs" using assms c by (cases n) (auto simp: cookie_ok_def)
  have t: "\<And>y. y \<in> set n \<Longrightarrow> token_char y" "\<And>y. y \<in> set v \<Longrightarrow> valor_byte y" using assms c by (auto simp: cookie_ok_def list_all_iff)
  show "texto_do_cookie c \<noteq> []" by (simp add: c texto_do_cookie_def)
  show "\<not> branco (hd (texto_do_cookie c))" using t(1) [of x] token_char_fora by (simp add: c n texto_do_cookie_def)
  show "\<not> branco (last (texto_do_cookie c))"
  proof (cases "v = []")
    case True
    then show ?thesis by (simp add: c texto_do_cookie_def branco_def)
  next
    case False
    then have "valor_byte (last v)" "last v \<noteq> CHR '' ''" using t(2) assms c by (simp_all add: cookie_ok_def)
    then show ?thesis using valor_byte_fora False by (auto simp: c texto_do_cookie_def)
  qed
  show "CHR '';'' \<notin> set (texto_do_cookie c)" using t token_char_fora valor_byte_fora by (auto simp: c texto_do_cookie_def)
qed

lemma TrimString_bordas:
  assumes "s \<noteq> []" and "\<not> branco (hd s)" and "\<not> branco (last s)"
  shows "TrimString s = s" "TrimString (CHR '' '' # s) = s"
proof -
  have d: "dropWhile branco s = s" using assms(1,2) by (cases s) auto
  have "dropWhile branco (rev s) = rev s" using assms(1,3) by (cases "rev s") (auto simp: hd_rev [symmetric])
  then show "TrimString s = s" "TrimString (CHR '' '' # s) = s" using d by (simp_all add: TrimString_def branco_def)
qed

lemma split_escritos:
  "\<forall>p \<in> set (q # ps). CHR '';'' \<notin> set p \<Longrightarrow> split_on (CHR '';'') (join ''; '' (q # ps)) = q # map (Cons (CHR '' '')) ps"
proof (induction ps arbitrary: q)
  case (Cons p ps)
  have "split_on (CHR '';'') (join ''; '' (q # p # ps)) = q # split_on (CHR '';'') (CHR '' '' # join ''; '' (p # ps))"
    using split_on_prefixo [of "CHR '';''" q "CHR '' '' # join ''; '' (p # ps)"] Cons.prems by simp
  moreover have "split_on (CHR '';'') (join ''; '' (p # ps)) = p # map (Cons (CHR '' '')) ps" using Cons by simp
  ultimately show ?case by simp
qed (simp add: split_on_inteiro)

lemma um_cookie_texto:
  assumes "cookie_ok c"
  shows "um_cookie (texto_do_cookie c) = Some c" "um_cookie (CHR '' '' # texto_do_cookie c) = Some c"
proof -
  obtain n v where c: "c = (n, v)" by (cases c) auto
  have "CHR ''='' \<notin> set n" using assms c token_char_fora by (auto simp: cookie_ok_def list_all_iff)
  then have k: "cut (CHR ''='') (texto_do_cookie c) = Some (n, v)" by (simp add: c texto_do_cookie_def cut_append)
  have "\<not> (1 < length v \<and> hd v = CHR 0x22 \<and> last v = CHR 0x22)"
    using assms c valor_byte_fora by (cases v) (auto simp: cookie_ok_def)
  then have "parseCookieValue v = Some v" using assms c by (auto simp: parseCookieValue_def cookie_ok_def Let_def)
  then show "um_cookie (texto_do_cookie c) = Some c" "um_cookie (CHR '' '' # texto_do_cookie c) = Some c"
    using TrimString_bordas [OF cookie_bordas(1-3) [OF assms]] k assms c by (simp_all add: um_cookie_def cookie_ok_def)
qed

lemma todos_os_cookies_textos:
  "\<forall>c \<in> set cs. cookie_ok c \<Longrightarrow> todos_os_cookies (map (Cons (CHR '' '') \<circ> texto_do_cookie) cs) = Some cs"
  by (induction cs) (simp_all add: um_cookie_texto)

lemma escreve_cookies_textos: "escreve_cookies cs = join ''; '' (map texto_do_cookie cs)"
  by (simp add: escreve_cookies_def texto_do_cookie_def)

lemma join_bordas:
  "ps \<noteq> [] \<Longrightarrow> \<forall>p \<in> set ps. p \<noteq> [] \<Longrightarrow> join sep ps \<noteq> [] \<and> hd (join sep ps) = hd (hd ps) \<and> last (join sep ps) = last (last ps)"
proof (induction ps)
  case (Cons p ps)
  then show ?case by (cases ps) auto
qed simp

lemma ParseCookie_escreve:
  assumes "cs \<noteq> []" and "\<forall>c \<in> set cs. cookie_ok c"
  shows "ParseCookie (escreve_cookies cs) = Some cs"
proof -
  obtain c cs' where cs: "cs = c # cs'" using assms(1) by (cases cs) auto
  let ?ps = "map texto_do_cookie cs"
  have b: "\<forall>p \<in> set ?ps. p \<noteq> [] \<and> \<not> branco (hd p) \<and> \<not> branco (last p) \<and> CHR '';'' \<notin> set p"
    using assms(2) cookie_bordas by auto
  have j: "join ''; '' ?ps \<noteq> []" "hd (join ''; '' ?ps) = hd (hd ?ps)" "last (join ''; '' ?ps) = last (last ?ps)"
    using join_bordas [of ?ps "''; ''"] assms(1) b by auto
  have "hd ?ps \<in> set ?ps" "last ?ps \<in> set ?ps" using assms(1) by (simp add: cs, intro last_in_set, simp)
  then have t: "TrimString (join ''; '' ?ps) = join ''; '' ?ps" using b j by (intro TrimString_bordas(1)) auto
  have "split_on (CHR '';'') (join ''; '' ?ps) = texto_do_cookie c # map (Cons (CHR '' '')) (map texto_do_cookie cs')"
    using split_escritos [of "texto_do_cookie c" "map texto_do_cookie cs'"] b by (simp add: cs)
  then show ?thesis
    using t b assms(2) um_cookie_texto(1) [of c] todos_os_cookies_textos [of cs']
    by (simp add: ParseCookie_def Let_def escreve_cookies_textos cs)
qed

lemma ParseCookie_not_Nil: "ParseCookie s = Some cs \<Longrightarrow> cs \<noteq> []"
  using split_on_not_Nil [of "CHR '';''" "TrimString s"]
  by (cases "split_on (CHR '';'') (TrimString s)") (auto simp: ParseCookie_def Let_def split: if_splits option.splits)

lemma hd_get_set [simp]: "hd_get k (hd_set k v h) = v"
  by (simp add: hd_get_def hd_set_def)

lemma map_of_hd_set: "map_of (hd_set k v h) = (map_of h)(canonico k \<mapsto> [v])"
  by (auto simp: hd_set_def fun_eq_iff)

section \<open>Rotation\<close>

text \<open>Only names of the credential are kept aside, and the last value of each.\<close>

lemma SetCookies_nomes: "jr_nomes (SetCookies cs j) = jr_nomes j"
proof -
  have "jr_nomes (fold (\<lambda>(n, v) j. if n \<in> set (jr_nomes j) then j\<lparr>jr_rotacoes := poe n v (jr_rotacoes j)\<rparr>
      else j\<lparr>jr_resto := jr_resto j @ [(n, v)]\<rparr>) cs j) = jr_nomes j"
    by (induction cs arbitrary: j) auto
  then show ?thesis by (simp add: SetCookies_def)
qed

definition jar_ok :: "(string \<Rightarrow> bool) \<Rightarrow> jar \<Rightarrow> bool" where
  "jar_ok P j \<longleftrightarrow> fst ` set (jr_rotacoes j) \<subseteq> set (jr_nomes j) \<and> (\<forall>v \<in> snd ` set (jr_rotacoes j). P v)"

lemma set_poe_sub: "set (poe k v m) \<subseteq> insert (k, v) (set m)"
  unfolding poe_def by (induction m) auto

lemma SetCookies_Cons:
  "SetCookies (c # cs) j = SetCookies cs
     (if fst c \<in> set (jr_nomes j) then j\<lparr>jr_rotacoes := poe (fst c) (snd c) (jr_rotacoes j)\<rparr> else j\<lparr>jr_resto := jr_resto j @ [c]\<rparr>)"
  by (simp add: SetCookies_def split: prod.splits)

lemma SetCookies_ok: "jar_ok P j \<Longrightarrow> \<forall>v \<in> snd ` set cs. P v \<Longrightarrow> jar_ok P (SetCookies cs j)"
proof (induction cs arbitrary: j)
  case Nil
  then show ?case by (simp add: SetCookies_def)
next
  case (Cons c cs)
  have "jar_ok P (j\<lparr>jr_rotacoes := poe (fst c) (snd c) (jr_rotacoes j)\<rparr>)" if "fst c \<in> set (jr_nomes j)"
    using Cons.prems that set_poe_sub [of "fst c" "snd c" "jr_rotacoes j"] unfolding jar_ok_def by fastforce
  moreover have "jar_ok P (j\<lparr>jr_resto := jr_resto j @ [c]\<rparr>)" using Cons.prems by (simp add: jar_ok_def)
  ultimately show ?case using Cons by (simp add: SetCookies_Cons)
qed

text \<open>The value of a rotated cookie is the last one that the server set.\<close>

lemma SetCookies_ultimo:
  "map_of (jr_rotacoes (SetCookies cs j)) n =
     (case (if n \<in> set (jr_nomes j) then map_of (rev cs) n else None) of Some v \<Rightarrow> Some v | None \<Rightarrow> map_of (jr_rotacoes j) n)"
proof (induction cs arbitrary: j)
  case Nil
  then show ?case by (simp add: SetCookies_def split: option.splits)
next
  case (Cons c cs)
  show ?case by (auto simp: SetCookies_Cons Cons map_of_append split: option.splits)
qed

lemma map_troca_nomes: "map fst (map (troca rot) cs) = map fst cs"
  by (induction cs) (auto simp: troca_def)

definition valor_ok :: "string \<Rightarrow> bool" where
  "valor_ok v \<longleftrightarrow> list_all valor_byte v \<and> (v = [] \<or> last v \<noteq> CHR '' '')"

lemma map_of_snd: "map_of m k = Some v \<Longrightarrow> v \<in> snd ` set m"
  by (force dest: map_of_SomeD)

lemma troca_ok:
  assumes "cookie_ok c" and "\<forall>v \<in> snd ` set rot. valor_ok v"
  shows "cookie_ok (troca rot c)"
proof -
  obtain n v where c: "c = (n, v)" by (cases c) auto
  show ?thesis
  proof (cases "map_of rot n")
    case (Some w)
    then have "valor_ok w" using assms(2) map_of_snd by fast
    then show ?thesis using assms(1) Some by (simp add: c troca_def cookie_ok_def valor_ok_def)
  qed (use assms(1) in \<open>simp add: c troca_def cookie_ok_def\<close>)
qed

text \<open>The header that results reads as the same cookies, in the same order, with the reissued values.\<close>

lemma aplicarRotacao_le:
  assumes "ParseCookie (hd_get ''Cookie'' h) = Some cs" and "\<forall>c \<in> set cs. cookie_ok c"
    and "\<forall>v \<in> snd ` set rot. valor_ok v" and "rot \<noteq> []"
  shows "ParseCookie (hd_get ''Cookie'' (snd (aplicarRotacao rot h))) = Some (map (troca rot) cs)"
proof -
  have "\<forall>c \<in> set (map (troca rot) cs). cookie_ok c"
    using assms(2,3) troca_ok by simp
  moreover have "map (troca rot) cs \<noteq> []" using ParseCookie_not_Nil [OF assms(1)] by simp
  ultimately show ?thesis using assms(1,4) ParseCookie_escreve by (simp add: aplicarRotacao_def)
qed

lemma aplicarRotacao_outros: "canonico k \<noteq> canonico ''Cookie'' \<Longrightarrow> hd_get k (snd (aplicarRotacao rot h)) = hd_get k h"
  by (simp add: aplicarRotacao_def hd_get_def map_of_hd_set split: option.splits)

lemma aplicarRotacao_fst: "fst (aplicarRotacao rot h) \<longleftrightarrow> rot \<noteq> [] \<and> ParseCookie (hd_get ''Cookie'' h) \<noteq> None"
  by (simp add: aplicarRotacao_def split: option.splits)

text \<open>A renewal that succeeds gives the header of the rotation, and one that fails saves nothing.\<close>

lemma renew_Inr:
  assumes "renew net cfg r h j w = (Inr (h', rn), j', w')"
  shows "\<exists>body es j1 w1.
    requisitar net cfg (if rf_method r = [] then ''GET'' else rf_method r) (rf_url r) h None j w = (Inr body, es, j1, w1) \<and>
    h' = snd (aplicarRotacao (jr_rotacoes j1) h) \<and>
    (rn_nao_gravou rn, w') = persistir r (fst (aplicarRotacao (jr_rotacoes j1) h)) h' w1 \<and>
    (\<forall>f. rf_expires r = Some f \<longrightarrow> (\<exists>t. f body = Inr t \<and> rn_expira rn = Some t))"
proof -
  obtain x es j1 w1 where q: "requisitar net cfg (if rf_method r = [] then ''GET'' else rf_method r) (rf_url r) h None j w = (x, es, j1, w1)"
    by (rule prod_cases4)
  obtain body where x: "x = Inr body" using assms q by (cases x) (simp_all add: renew_def)
  obtain rotou h1 where a: "aplicarRotacao (jr_rotacoes j1) h = (rotou, h1)" by (cases "aplicarRotacao (jr_rotacoes j1) h") auto
  obtain e w2 where g: "persistir r rotou h1 w1 = (e, w2)" by (cases "persistir r rotou h1 w1") auto
  have "h' = h1 \<and> rn_nao_gravou rn = e \<and> w' = w2 \<and> (\<forall>f. rf_expires r = Some f \<longrightarrow> (\<exists>t. f body = Inr t \<and> rn_expira rn = Some t))"
  proof (cases "rf_expires r")
    case None
    then show ?thesis using assms by (auto simp: renew_def q x Rotacoes_def a g)
  next
    case (Some f)
    then show ?thesis using assms by (cases "f body") (auto simp: renew_def q x Rotacoes_def a g Let_def)
  qed
  then show ?thesis using q x a g by auto
qed

lemma renew_Inl:
  assumes "renew net cfg r h j w = (Inl e, j', w')"
  shows "\<exists>x es j1. requisitar net cfg (if rf_method r = [] then ''GET'' else rf_method r) (rf_url r) h None j w = (x, es, j1, w')"
proof -
  obtain x es j1 w1 where q: "requisitar net cfg (if rf_method r = [] then ''GET'' else rf_method r) (rf_url r) h None j w = (x, es, j1, w1)"
    by (rule prod_cases4)
  have "w' = w1"
  proof (cases x)
    case (Inl e1)
    then show ?thesis using assms by (simp add: renew_def q)
  next
    case (Inr body)
    then show ?thesis using assms
      by (cases "rf_expires r"; cases "the (rf_expires r) body") (auto simp: renew_def q Rotacoes_def Let_def split: prod.splits)
  qed
  then show ?thesis using q by simp
qed

lemma tentar_requisicao_invariante:
  assumes "\<And>m u h c b w. I w \<Longrightarrow> I (snd (ra_pede net m u h c b w))" and "I w"
  shows "I (snd (snd (snd (tentar_requisicao net cfg metodo url h corpo n attempt j w))))"
  using assms(2)
proof (induction n arbitrary: attempt j w)
  case (Suc n)
  obtain x w1 where p: "ra_pede net metodo url h (jr_resto j) corpo w = (x, w1)" by (cases "ra_pede net metodo url h (jr_resto j) corpo w") auto
  have "I w1" using assms(1) [OF Suc.prems, of metodo url h "jr_resto j" corpo] p by simp
  have "I w2" if "tentar_requisicao net cfg metodo url h corpo n a j w1 = (y, es, j1, w2)" for y es j1 w2 a j
    using Suc.IH [OF \<open>I w1\<close>, where attempt = a and j = j] that by simp
  then show ?case using Suc.prems \<open>I w1\<close> by (auto simp: p Let_def split: option.splits sum.splits prod.splits)
qed simp

lemma primeira_resposta:
  assumes "ra_monta net m u = None" and "ra_pede net m u h (jr_resto j) corpo w = (Inr (p, None, cks), w1)"
    and "200 \<le> rh_status p" and "rh_status p \<le> 299"
  shows "requisitar net cfg m u h corpo j w = (Inr (take limite_do_corpo (rh_body p)), [], SetCookies cks j, w1)"
proof -
  obtain n where n: "(if 0 < rc_max_attempts cfg then nat (rc_max_attempts cfg) else 1) = Suc n"
    using gr0_implies_Suc [of "nat (rc_max_attempts cfg)"] by (cases "0 < rc_max_attempts cfg") auto
  show ?thesis unfolding requisitar_def n using assms by (simp add: Let_def)
qed

lemma join_not_Nil: "ps \<noteq> [] \<Longrightarrow> \<forall>p \<in> set ps. p \<noteq> [] \<Longrightarrow> join sep ps \<noteq> []"
  using join_bordas by blast

lemma aplicarRotacao_gravavel:
  assumes "snd (aplicarRotacao rot h) \<noteq> h"
  shows "fst (aplicarRotacao rot h)" "hd_get ''Cookie'' (snd (aplicarRotacao rot h)) \<noteq> []"
proof -
  obtain cs where cs: "ParseCookie (hd_get ''Cookie'' h) = Some cs" "rot \<noteq> []"
    using assms by (cases "ParseCookie (hd_get ''Cookie'' h)") (auto simp: aplicarRotacao_def split: if_splits)
  have "\<forall>p \<in> set (map texto_do_cookie (map (troca rot) cs)). p \<noteq> []" by (auto simp: texto_do_cookie_def split: prod.splits)
  then have "escreve_cookies (map (troca rot) cs) \<noteq> []"
    using ParseCookie_not_Nil [OF cs(1)] join_not_Nil [of "map texto_do_cookie (map (troca rot) cs)"] by (simp add: escreve_cookies_textos)
  then show "fst (aplicarRotacao rot h)" "hd_get ''Cookie'' (snd (aplicarRotacao rot h)) \<noteq> []"
    using cs by (simp_all add: aplicarRotacao_def)
qed

text \<open>What a run reads after the renewal of another has saved.\<close>

lemma Get_depois_de_gravar:
  assumes "renew net cfg r h j w = (Inr (h', rn), j', w1)" and "h' \<noteq> h" and "rn_nao_gravou rn = None"
    and "rf_store r = Some st" and "\<And>v w w'. co_save st v w = (None, w') \<Longrightarrow> co_load st w' = (Inr v, w')"
    and "cd_refresh c = Some r" and "cd_value c \<noteq> None \<or> cd_login c \<noteq> None" and "ca_valor ca = []"
  shows "cred_Get agora c preparado ca w1 =
     (Inr (hd_get ''Cookie'' h'), \<lparr>ca_valor = hd_get ''Cookie'' h', ca_em = agora w1\<rparr>, w1)"
proof -
  obtain j1 :: jar and w2 where *: "h' = snd (aplicarRotacao (jr_rotacoes j1) h)"
    "(rn_nao_gravou rn, w1) = persistir r (fst (aplicarRotacao (jr_rotacoes j1) h)) h' w2"
    using renew_Inr [OF assms(1)] by blast
  have g: "fst (aplicarRotacao (jr_rotacoes j1) h)" "hd_get ''Cookie'' h' \<noteq> []"
    using aplicarRotacao_gravavel [of "jr_rotacoes j1" h] *(1) assms(2) by simp_all
  then have "co_save st (hd_get ''Cookie'' h') w2 = (None, w1)" using *(2) assms(3,4) by (simp add: persistir_def guardar_def)
  then have "co_load st w1 = (Inr (hd_get ''Cookie'' h'), w1)" using assms(5) by blast
  then show ?thesis using g(2) assms(4,6-8) by (auto simp: cred_Get_def)
qed

lemma cred_Check_fonte: "cred_Check c w = (None, w') \<Longrightarrow> cd_value c \<noteq> None \<or> cd_login c \<noteq> None"
  by (rule ccontr) (simp add: cred_Check_def)

text \<open>A secret that was produced is cached, and it is not empty.\<close>

lemma cred_Get_guarda:
  assumes "cred_Get agora c preparado ca w = (Inr v, ca', w')"
  shows "v \<noteq> [] \<and> ca_valor ca' = v \<and> (ca' = ca \<or> ca_em ca' = agora w') \<and> (cd_value c \<noteq> None \<or> cd_login c \<noteq> None)"
  using assms
  by (auto simp: cred_Get_def split: if_splits sum.splits option.splits prod.splits)

text \<open>An endpoint that reissues the cookie \<open>s\<close>, and a store that is one cell; the world is the cell and the clock.\<close>

definition rede_exemplo :: "string \<Rightarrow> (string \<times> int) rede_auth" where
  "rede_exemplo corpo =
     \<lparr>ra_monta = \<lambda>m u. None,
      ra_pede = \<lambda>m u h c b w. (Inr (\<lparr>rh_url = u, rh_status = 200, rh_link = [], rh_retry_after = [], rh_body = corpo\<rparr>, None, [(''s'', ''2'')]), w),
      ra_data = \<lambda>_. None, ra_sorteio = \<lambda>_. 0, ra_agora = snd\<rparr>"

definition cofre_exemplo :: "(string \<times> int) cofre_de" where
  "cofre_exemplo = \<lparr>co_load = \<lambda>w. (Inr (fst w), w), co_save = \<lambda>v w. (None, (v, snd w)), co_check = None\<rparr>"

definition refresh_exemplo :: "(string \<Rightarrow> erro_campo + time) option \<Rightarrow> (string \<times> int) refresh" where
  "refresh_exemplo f = \<lparr>rf_url = ''u'', rf_method = [], rf_expires = f, rf_store = Some cofre_exemplo, rf_warn = 0\<rparr>"

definition cfg_exemplo :: retry_config where
  "cfg_exemplo = \<lparr>rc_max_attempts = 1, rc_initial = 0, rc_max = 0, rc_jitter = 0\<rparr>"

section \<open>Properties\<close>

text \<open>C23: a renewal that the endpoint answers reaches the pages: when the answer reissues cookies of the
credential, the header of every page reads as the same cookies in the same order, each with the last value the
endpoint set for it or else its old one, and every other header is as it was.\<close>

theorem renovacao_chega_as_paginas:
  assumes "ParseCookie (hd_get ''Cookie'' h) = Some cs" and "\<forall>c \<in> set cs. cookie_ok c" and "newClient h = Some j"
    and "ra_monta net (if rf_method r = [] then ''GET'' else rf_method r) (rf_url r) = None"
    and "ra_pede net (if rf_method r = [] then ''GET'' else rf_method r) (rf_url r) h [] None w = (Inr (p, None, novos), w1)"
    and "200 \<le> rh_status p" and "rh_status p \<le> 299" and "\<forall>v \<in> snd ` set novos. valor_ok v"
    and "\<exists>c \<in> set cs. map_of (rev novos) (fst c) \<noteq> None"
    and "renew net cfg r h j w = (Inr (h', rn), j', w')"
  shows "ParseCookie (hd_get ''Cookie'' h') =
           Some (map (\<lambda>(n, v). (n, case map_of (rev novos) n of None \<Rightarrow> v | Some x \<Rightarrow> x)) cs) \<and>
         (\<forall>k. canonico k \<noteq> ''Cookie'' \<longrightarrow> hd_get k h' = hd_get k h)"
proof -
  let ?rot = "jr_rotacoes (SetCookies novos j)"
  have j: "j = newCredentialJar (map fst cs)"
    using assms(1,3) by (auto simp: newClient_def Let_def ParseCookie_def TrimString_def split: if_splits)
  have rest: "jr_resto j = []" by (simp add: j newCredentialJar_def)
  have h': "h' = snd (aplicarRotacao ?rot h)"
    using renew_Inr [OF assms(10)] primeira_resposta [OF assms(4), of h j None w p novos w1] assms(5-7) rest by auto
  have m: "map_of ?rot n = map_of (rev novos) n" if "n \<in> fst ` set cs" for n
    using that by (simp add: SetCookies_ultimo j newCredentialJar_def split: option.splits)
  have m': "map_of ?rot a = map_of (rev novos) a" if "(a, b) \<in> set cs" for a b
    using m [of a] that by force
  have "jar_ok valor_ok (SetCookies novos j)" using assms(8) by (intro SetCookies_ok) (simp_all add: jar_ok_def j newCredentialJar_def)
  moreover have "?rot \<noteq> []" using assms(9) m by force
  ultimately have "ParseCookie (hd_get ''Cookie'' h') = Some (map (troca ?rot) cs)"
    using aplicarRotacao_le [OF assms(1,2)] h' by (auto simp: jar_ok_def)
  moreover have "map (troca ?rot) cs = map (\<lambda>(n, v). (n, case map_of (rev novos) n of None \<Rightarrow> v | Some x \<Rightarrow> x)) cs"
    using m' by (auto simp: troca_def)
  moreover have "canonico ''Cookie'' = ''Cookie''" by code_simp
  ultimately show ?thesis using h' aplicarRotacao_outros by simp
qed

text \<open>A renewal that fails writes nothing to the store: whatever the requests leave of the world, such as
what is stored, is left by the whole renewal, also when the answer was 200 and its body does not tell an expiry.\<close>

theorem renovacao_recusada_nao_grava:
  assumes "\<And>m u h c b w. I w \<Longrightarrow> I (snd (ra_pede net m u h c b w))" and "I w"
    and "renew net cfg r h j w = (Inl e, j', w')"
  shows "I w'"
proof -
  obtain x es j1 where "requisitar net cfg (if rf_method r = [] then ''GET'' else rf_method r) (rf_url r) h None j w = (x, es, j1, w')"
    using renew_Inl [OF assms(3)] by blast
  then show ?thesis
    using tentar_requisicao_invariante [where I = I and net = net, OF assms(1,2)] by (metis requisitar_def snd_conv)
qed

lemma newClient_s:
  "newClient [(''Cookie'', [''s=1''])] = Some \<lparr>jr_nomes = [''s''], jr_rotacoes = [], jr_resto = []\<rparr>"
  "ParseCookie (hd_get ''Cookie'' [(''Cookie'', [''s=1''])]) = Some [(''s'', ''1'')]" "canonico ''Cookie'' = ''Cookie''"
  by code_simp+

lemma renew_exemplo:
  "renew (rede_exemplo b) cfg_exemplo (refresh_exemplo f) [(''Cookie'', [''s=1''])] \<lparr>jr_nomes = [''s''], jr_rotacoes = [], jr_resto = []\<rparr> ([], 0) =
     (case f of
        None \<Rightarrow> (Inr ([(''Cookie'', [''s=2''])], sem_renovacao), \<lparr>jr_nomes = [''s''], jr_rotacoes = [], jr_resto = []\<rparr>, (''s=2'', 0))
      | Some g \<Rightarrow>
          (case g (take limite_do_corpo b) of
             Inl e \<Rightarrow> (Inl (RenovacaoNaoConfere e), \<lparr>jr_nomes = [''s''], jr_rotacoes = [], jr_resto = []\<rparr>, ([], 0))
           | Inr t \<Rightarrow>
               (Inr ([(''Cookie'', [''s=2''])], \<lparr>rn_expira = Some t, rn_nao_gravou = None,
                  rn_aviso = (if t \<le> 0 then JaExpirou else if t < defaultWarnAfter then ExpiraLogo else Renovada)\<rparr>),
                \<lparr>jr_nomes = [''s''], jr_rotacoes = [], jr_resto = []\<rparr>, (''s=2'', 0))))"
proof -
  have q: "requisitar (rede_exemplo b) cfg_exemplo ''GET'' ''u'' [(''Cookie'', [''s=1''])] None \<lparr>jr_nomes = [''s''], jr_rotacoes = [], jr_resto = []\<rparr> ([], 0)
     = (Inr (take limite_do_corpo b), [], \<lparr>jr_nomes = [''s''], jr_rotacoes = [(''s'', ''2'')], jr_resto = []\<rparr>, ([], 0))"
    by (subst primeira_resposta [where cks = "[(''s'', ''2'')]" and ?w1.0 = "([], 0)"])
       (auto simp: rede_exemplo_def SetCookies_def poe_def)
  have a: "aplicarRotacao [(''s'', ''2'')] [(''Cookie'', [''s=1''])] = (True, [(''Cookie'', [''s=2''])])"
    "hd_get ''Cookie'' [(''Cookie'', [''s=2''])] = ''s=2''" by code_simp+
  have r: "rf_url (refresh_exemplo g) = ''u''" "rf_method (refresh_exemplo g) = []" "rf_expires (refresh_exemplo g) = g"
    "rf_store (refresh_exemplo g) = Some cofre_exemplo" "rf_warn (refresh_exemplo g) = 0" "ra_agora (rede_exemplo b) = snd"
    "co_save cofre_exemplo = (\<lambda>v w. (None, (v, snd w)))" for g
    by (simp_all add: refresh_exemplo_def rede_exemplo_def cofre_exemplo_def)
  show ?thesis
    by (simp add: renew_def q r Rotacoes_def a persistir_def guardar_def sem_renovacao_def split: option.split sum.split)
qed

lemma renovacao_chega_as_paginas_witness:
  "ParseCookie (hd_get ''Cookie'' [(''Cookie'', [''s=2''])]) = Some [(''s'', ''2'')]"
proof -
  have ok: "\<forall>c \<in> set [(''s'', ''1'')]. cookie_ok c" "\<forall>v \<in> snd ` set [(''s'', ''2'')]. valor_ok v"
    "\<exists>c \<in> set [(''s'', ''1'')]. map_of (rev [(''s'', ''2'')]) (fst c) \<noteq> None" by code_simp+
  have pede: "ra_pede (rede_exemplo []) (if rf_method (refresh_exemplo None) = [] then ''GET'' else rf_method (refresh_exemplo None))
      (rf_url (refresh_exemplo None)) [(''Cookie'', [''s=1''])] [] None ([], 0) =
    (Inr (\<lparr>rh_url = ''u'', rh_status = 200, rh_link = [], rh_retry_after = [], rh_body = []\<rparr>, None, [(''s'', ''2'')]), ([], 0))"
    by (simp add: rede_exemplo_def refresh_exemplo_def)
  have monta: "ra_monta (rede_exemplo []) m u = None" for m u by (simp add: rede_exemplo_def)
  show ?thesis
    using renovacao_chega_as_paginas [OF newClient_s(2) ok(1) newClient_s(1) monta pede _ _ ok(2,3) renew_exemplo [of "[]" None, simplified]]
    by simp
qed

lemma renovacao_recusada_nao_grava_witness:
  "fst (snd (snd (renew (rede_exemplo ''null'') cfg_exemplo (refresh_exemplo (Some (\<lambda>b. Inl (CampoFaltando ''expires''))))
     [(''Cookie'', [''s=1''])] \<lparr>jr_nomes = [''s''], jr_rotacoes = [], jr_resto = []\<rparr> ([], 0)))) = []"
proof -
  let ?r = "refresh_exemplo (Some (\<lambda>b. Inl (CampoFaltando ''expires'')))"
  have eq: "renew (rede_exemplo ''null'') cfg_exemplo ?r [(''Cookie'', [''s=1''])] \<lparr>jr_nomes = [''s''], jr_rotacoes = [], jr_resto = []\<rparr> ([], 0) =
    (Inl (RenovacaoNaoConfere (CampoFaltando ''expires'')), \<lparr>jr_nomes = [''s''], jr_rotacoes = [], jr_resto = []\<rparr>, ([], 0))"
    by (simp add: renew_exemplo)
  have inv: "\<And>m u h c b w. fst w = [] \<Longrightarrow> fst (snd (ra_pede (rede_exemplo ''null'') m u h c b w)) = []" by (simp add: rede_exemplo_def)
  have "fst ([] :: string, 0 :: int) = []" by simp
  from renovacao_recusada_nao_grava [where I = "\<lambda>w. fst w = []", OF inv this eq] show ?thesis unfolding eq by simp
qed

text \<open>C24: a rotated credential comes back: when a renewal has saved, a later run that has nothing cached and
sends the secret as the whole \<open>Cookie\<close> header sends the cookies with which the first one read its pages.\<close>

theorem rotacao_volta:
  assumes "renew net cfg r h j w = (Inr (h', rn), j', w1)" and "h' \<noteq> h" and "rn_nao_gravou rn = None"
    and "rf_store r = Some st" and "\<And>v w w'. co_save st v w = (None, w') \<Longrightarrow> co_load st w' = (Inr v, w')"
    and "cd_refresh c = Some r" and "cd_apply c = Some AsCookie" and "cred_Check c w1 = (None, w1)" and "ca_valor ca = []"
  shows "\<exists>h2 ca2. authenticate net c preparado h0 ca w1 = (Inr h2, ca2, w1) \<and> hd_get ''Cookie'' h2 = hd_get ''Cookie'' h'"
proof -
  have "cd_value c \<noteq> None \<or> cd_login c \<noteq> None" using assms(8) by (rule cred_Check_fonte)
  then show ?thesis
    using Get_depois_de_gravar [OF assms(1-6) _ assms(9)] assms(7,8) by (simp add: authenticate_def AsCookie_def)
qed

text \<open>C40: it does not come back under \<open>AsCookieNamed\<close>: what is saved is the whole header, with the name, and
the next run puts the name in front of it again.\<close>

theorem AsCookieNamed_nao_volta:
  assumes "renew net cfg r h j w = (Inr (h', rn), j', w1)" and "h' \<noteq> h" and "rn_nao_gravou rn = None"
    and "rf_store r = Some st" and "\<And>v w w'. co_save st v w = (None, w') \<Longrightarrow> co_load st w' = (Inr v, w')"
    and "cd_refresh c = Some r" and "cd_apply c = Some (AsCookieNamed n)" and "cred_Check c w1 = (None, w1)" and "ca_valor ca = []"
  shows "\<exists>h2 ca2. authenticate net c preparado h0 ca w1 = (Inr h2, ca2, w1) \<and> hd_get ''Cookie'' h2 = n @ ''='' @ hd_get ''Cookie'' h'"
proof -
  have "cd_value c \<noteq> None \<or> cd_login c \<noteq> None" using assms(8) by (rule cred_Check_fonte)
  then show ?thesis
    using Get_depois_de_gravar [OF assms(1-6) _ assms(9)] assms(7,8) by (simp add: authenticate_def AsCookieNamed_def)
qed

text \<open>A credential that is seeded and kept in that store.\<close>

definition credencial_exemplo :: "(cabecalho \<Rightarrow> string \<Rightarrow> cabecalho) \<Rightarrow> (string \<times> int) credential" where
  "credencial_exemplo ap =
     \<lparr>cd_value = Some (\<lambda>w. (Inr ''1'', w)), cd_apply = Some ap, cd_ttl = 0, cd_login = None, cd_refresh = Some (refresh_exemplo None)\<rparr>"

lemma exemplo_gravado:
  "rf_store (refresh_exemplo None) = Some cofre_exemplo" "cd_refresh (credencial_exemplo ap) = Some (refresh_exemplo None)"
  "cd_apply (credencial_exemplo ap) = Some ap" "cred_Check (credencial_exemplo ap) w = (None, w)"
  "co_save cofre_exemplo v w = (None, w') \<Longrightarrow> co_load cofre_exemplo w' = (Inr v, w')"
  by (auto simp: credencial_exemplo_def refresh_exemplo_def cofre_exemplo_def cred_Check_def)

lemma rotacao_volta_witness:
  "\<exists>h2 ca2. authenticate (rede_exemplo []) (credencial_exemplo AsCookie) None [] \<lparr>ca_valor = [], ca_em = 0\<rparr> (''s=2'', 0) = (Inr h2, ca2, (''s=2'', 0)) \<and>
     hd_get ''Cookie'' h2 = ''s=2''"
proof -
  have g: "hd_get ''Cookie'' [(''Cookie'', [''s=2''])] = ''s=2''" by code_simp
  show ?thesis
    using rotacao_volta [where c = "credencial_exemplo AsCookie" and st = cofre_exemplo and preparado = None and ?h0.0 = "[]"
        and ca = "\<lparr>ca_valor = [], ca_em = 0\<rparr>", OF renew_exemplo [of "[]" None, simplified] _ _ exemplo_gravado(1) _ exemplo_gravado(2,3,4)]
    by (simp add: sem_renovacao_def cofre_exemplo_def g)
qed

lemma AsCookieNamed_nao_volta_witness:
  "\<exists>h2 ca2. authenticate (rede_exemplo []) (credencial_exemplo (AsCookieNamed ''s'')) None [] \<lparr>ca_valor = [], ca_em = 0\<rparr> (''s=2'', 0) = (Inr h2, ca2, (''s=2'', 0)) \<and>
     hd_get ''Cookie'' h2 = ''s=s=2''"
proof -
  have g: "hd_get ''Cookie'' [(''Cookie'', [''s=2''])] = ''s=2''" by code_simp
  show ?thesis
    using AsCookieNamed_nao_volta [where c = "credencial_exemplo (AsCookieNamed ''s'')" and st = cofre_exemplo and preparado = None and ?h0.0 = "[]"
        and ca = "\<lparr>ca_valor = [], ca_em = 0\<rparr>" and n = "''s''", OF renew_exemplo [of "[]" None, simplified] _ _ exemplo_gravado(1) _ exemplo_gravado(2,3,4)]
    by (simp add: sem_renovacao_def cofre_exemplo_def g)
qed

text \<open>With a TTL the secret is produced once: what one call gave is given again, with no request and no
reading of the store, by every call until the TTL is over.\<close>

theorem Get_uma_vez_por_ttl:
  assumes "cred_Get agora c preparado ca w = (Inr v, ca1, w1)" and "0 < cd_ttl c" and "agora w2 - ca_em ca1 < cd_ttl c"
  shows "cred_Get agora c preparado ca1 w2 = (Inr v, ca1, w2)"
  using cred_Get_guarda [OF assms(1)] assms(2,3) by (auto simp: cred_Get_def)

lemma Get_uma_vez_por_ttl_witness:
  "cred_Get id \<lparr>cd_value = Some (\<lambda>w. (Inr ''k'', w)), cd_apply = None, cd_ttl = 10, cd_login = None, cd_refresh = None\<rparr> None
     \<lparr>ca_valor = ''k'', ca_em = 5\<rparr> 14 = (Inr ''k'', \<lparr>ca_valor = ''k'', ca_em = 5\<rparr>, 14)"
  by (rule Get_uma_vez_por_ttl [where ca = "\<lparr>ca_valor = [], ca_em = 0\<rparr>" and w = 5 and ?w1.0 = 5]) (simp_all add: cred_Get_def produzir_def)

text \<open>An endpoint that tells an expiry already past has what it set saved all the same, and the renewal
counts as done.\<close>

theorem expirada_e_guardada:
  assumes "requisitar net cfg (if rf_method r = [] then ''GET'' else rf_method r) (rf_url r) h None j w = (Inr body, es, j1, w1)"
    and "rf_expires r = Some f" and "f body = Inr t" and "rf_store r = Some st" and "snd (aplicarRotacao (jr_rotacoes j1) h) \<noteq> h"
    and "co_save st (hd_get ''Cookie'' (snd (aplicarRotacao (jr_rotacoes j1) h))) w1 = (None, w2)" and "t \<le> ra_agora net w2"
  shows "\<exists>j'. renew net cfg r h j w =
    (Inr (snd (aplicarRotacao (jr_rotacoes j1) h), \<lparr>rn_expira = Some t, rn_nao_gravou = None, rn_aviso = JaExpirou\<rparr>), j', w2)"
proof -
  obtain h1 where a: "aplicarRotacao (jr_rotacoes j1) h = (True, h1)" "hd_get ''Cookie'' h1 \<noteq> []"
    using aplicarRotacao_gravavel [OF assms(5)] by (cases "aplicarRotacao (jr_rotacoes j1) h") auto
  show ?thesis using assms(1-4,6,7) a by (simp add: renew_def Rotacoes_def persistir_def guardar_def)
qed

lemma expirada_e_guardada_witness:
  "\<exists>j'. renew (rede_exemplo []) cfg_exemplo (refresh_exemplo (Some (\<lambda>b. Inr 0))) [(''Cookie'', [''s=1''])]
      \<lparr>jr_nomes = [''s''], jr_rotacoes = [], jr_resto = []\<rparr> ([], 0) =
    (Inr ([(''Cookie'', [''s=2''])], \<lparr>rn_expira = Some 0, rn_nao_gravou = None, rn_aviso = JaExpirou\<rparr>), j', (''s=2'', 0))"
proof -
  have q: "requisitar (rede_exemplo []) cfg_exemplo (if rf_method (refresh_exemplo (Some (\<lambda>b. Inr 0))) = [] then ''GET'' else rf_method (refresh_exemplo (Some (\<lambda>b. Inr 0))))
      (rf_url (refresh_exemplo (Some (\<lambda>b. Inr 0)))) [(''Cookie'', [''s=1''])] None \<lparr>jr_nomes = [''s''], jr_rotacoes = [], jr_resto = []\<rparr> ([], 0)
     = (Inr [], [], \<lparr>jr_nomes = [''s''], jr_rotacoes = [(''s'', ''2'')], jr_resto = []\<rparr>, ([], 0))"
    by (subst primeira_resposta [where cks = "[(''s'', ''2'')]" and ?w1.0 = "([], 0)"])
       (auto simp: rede_exemplo_def refresh_exemplo_def SetCookies_def poe_def)
  have a: "aplicarRotacao [(''s'', ''2'')] [(''Cookie'', [''s=1''])] = (True, [(''Cookie'', [''s=2''])])"
    "hd_get ''Cookie'' [(''Cookie'', [''s=2''])] = ''s=2''" by code_simp+
  show ?thesis
    using expirada_e_guardada [OF q, where t = 0 and st = cofre_exemplo and ?w2.0 = "(''s=2'', 0)"]
    by (simp add: a refresh_exemplo_def cofre_exemplo_def rede_exemplo_def)
qed

end
