(* ===== verification/Param.thy ===== *)
theory Param
  imports Prelude
begin

text \<open>
  \<open>internal/domain/workflow/param.go\<close>: the declared parameters of a workflow, what values a
  parameter accepts, and the resolution of the values of one dispatch. The three fixed
  regular expressions are byte predicates; \<open>regexp.Compile\<close> of an author's \<open>pattern\<close>
  is the argument \<open>re\<close>, which gives the matcher or no matcher at all.
\<close>

type_synonym regexp = "string \<Rightarrow> (string \<Rightarrow> bool) option"

record param =
  pm_nome :: string
  pm_tipo :: string
  pm_padrao :: string
  pm_descricao :: string
  pm_enum :: "string list"
  pm_pattern :: string

definition ParamTexto :: string where "ParamTexto = ''string''"
definition ParamBool :: string where "ParamBool = ''boolean''"
definition ParamInteiro :: string where "ParamInteiro = ''integer''"

lemmas tipos_param = ParamTexto_def ParamBool_def ParamInteiro_def

text \<open>\<open>^[A-Za-z0-9_.:/=,+@\- ]*$\<close>\<close>

definition seguro :: "char \<Rightarrow> bool" where
  "seguro c \<longleftrightarrow> minuscula c \<or> maiuscula c \<or> digito c \<or> c \<in> set ''_.:/=,+@- ''"

definition caracteresSeguros :: "string \<Rightarrow> bool" where
  "caracteresSeguros s \<longleftrightarrow> list_all seguro s"

text \<open>\<open>^[a-z][a-z0-9_]*$\<close>\<close>

definition nomeDeParam :: "string \<Rightarrow> bool" where
  "nomeDeParam s \<longleftrightarrow>
     s \<noteq> [] \<and> minuscula (hd s) \<and> list_all (\<lambda>c. minuscula c \<or> digito c \<or> c = CHR ''_'') (tl s)"

datatype erro_valor =
    NaoBooleano string
  | NaoInteiro string
  | ForaDoEnum string
  | PatternInvalido
  | NaoCasa string
  | CaractereDeShell string

datatype erro_param =
    NomeInvalido string
  | SemTipo string
  | TipoDesconhecido string string
  | ParamPattern string
  | PadraoInvalido string erro_valor

text \<open>\<open>Aceita\<close>: a value against the declaration.\<close>

definition Aceita :: "regexp \<Rightarrow> param \<Rightarrow> string \<Rightarrow> erro_valor option" where
  "Aceita re p valor =
     (if pm_tipo p = ParamBool then
        (if valor \<noteq> ''true'' \<and> valor \<noteq> ''false'' then Some (NaoBooleano valor) else None)
      else if pm_tipo p = ParamInteiro then
        (case atoi valor of None \<Rightarrow> Some (NaoInteiro valor) | Some _ \<Rightarrow> None)
      else if pm_enum p \<noteq> [] then
        (if List.member (pm_enum p) valor then None else Some (ForaDoEnum valor))
      else if pm_pattern p \<noteq> [] then
        (case re (pm_pattern p) of
           None \<Rightarrow> Some PatternInvalido
         | Some casa \<Rightarrow> if \<not> casa valor then Some (NaoCasa valor) else None)
      else if \<not> caracteresSeguros valor then Some (CaractereDeShell valor)
      else None)"

text \<open>\<open>Validar\<close>: the declaration itself, its default included.\<close>

definition Validar :: "regexp \<Rightarrow> param \<Rightarrow> erro_param option" where
  "Validar re p =
     (if \<not> nomeDeParam (pm_nome p) then Some (NomeInvalido (pm_nome p))
      else if pm_tipo p = [] then Some (SemTipo (pm_nome p))
      else if pm_tipo p \<noteq> ParamTexto \<and> pm_tipo p \<noteq> ParamBool \<and> pm_tipo p \<noteq> ParamInteiro then
        Some (TipoDesconhecido (pm_nome p) (pm_tipo p))
      else if pm_pattern p \<noteq> [] \<and> re (pm_pattern p) = None then Some (ParamPattern (pm_nome p))
      else if pm_padrao p \<noteq> [] then
        (case Aceita re p (pm_padrao p) of
           Some e \<Rightarrow> Some (PadraoInvalido (pm_nome p) e) | None \<Rightarrow> None)
      else None)"

datatype erro_resolver =
    NaoDeclarado string
  | ValorRecusado string erro_valor

text \<open>
  The first loop of \<open>Resolver\<close> walks the given values (in map order), the second the
  declarations (in file order).
\<close>

fun resolver_params :: "regexp \<Rightarrow> string gomap \<Rightarrow> param list \<Rightarrow> string gomap
    \<Rightarrow> erro_resolver + string gomap" where
  "resolver_params re informados [] out = Inr out"
| "resolver_params re informados (p # ps) out =
     (let valor = (case map_of informados (pm_nome p) of Some v \<Rightarrow> v | None \<Rightarrow> pm_padrao p) in
      case Aceita re p valor of
        Some e \<Rightarrow> Inl (ValorRecusado (pm_nome p) e)
      | None \<Rightarrow> resolver_params re informados ps (poe (pm_nome p) valor out))"

definition Resolver :: "regexp \<Rightarrow> param list \<Rightarrow> string gomap \<Rightarrow> erro_resolver + string gomap" where
  "Resolver re ps informados =
     (case para_cada (\<lambda>(nome, _). if List.member (map pm_nome ps) nome then None
                                  else Some (NaoDeclarado nome)) informados of
        Some e \<Rightarrow> Inl e
      | None \<Rightarrow> resolver_params re informados ps [])"

section \<open>What resolution guarantees\<close>

lemma resolver_params_dom:
  "resolver_params re dados ps out = Inr m \<Longrightarrow>
     dom (map_of m) = dom (map_of out) \<union> set (map pm_nome ps)"
  by (induction re dados ps out rule: resolver_params.induct)
     (auto simp: Let_def split: option.splits)

lemma resolver_params_keep:
  "resolver_params re dados ps out = Inr m \<Longrightarrow> k \<notin> set (map pm_nome ps) \<Longrightarrow> map_of m k = map_of out k"
  by (induction re dados ps out rule: resolver_params.induct)
     (auto simp: Let_def split: option.splits)

lemma resolver_params_val:
  "resolver_params re dados ps out = Inr m \<Longrightarrow> distinct (map pm_nome ps) \<Longrightarrow> p \<in> set ps \<Longrightarrow>
     Aceita re p (the (map_of m (pm_nome p))) = None \<and>
     map_of m (pm_nome p) =
       Some (case map_of dados (pm_nome p) of Some v \<Rightarrow> v | None \<Rightarrow> pm_padrao p)"
proof (induction re dados ps out rule: resolver_params.induct)
  case (2 re dados q ps out)
  let ?v = "case map_of dados (pm_nome q) of Some v \<Rightarrow> v | None \<Rightarrow> pm_padrao q"
  from "2.prems"(1) have ok: "Aceita re q ?v = None"
    and rest: "resolver_params re dados ps (poe (pm_nome q) ?v out) = Inr m"
    by (auto simp: Let_def split: option.splits)
  show ?case
  proof (cases "p = q")
    case True
    have "pm_nome q \<notin> set (map pm_nome ps)" using "2.prems"(2) by simp
    with rest have v: "map_of m (pm_nome q) = Some ?v"
      by (simp add: resolver_params_keep)
    show ?thesis using ok v unfolding True by simp
  next
    case False
    with "2.prems" have "p \<in> set ps" "distinct (map pm_nome ps)" by auto
    with "2.IH" [OF refl ok rest] show ?thesis by blast
  qed
qed simp

lemma resolver_params_mapa_ok:
  "resolver_params re dados ps out = Inr m \<Longrightarrow> mapa_ok out \<Longrightarrow> mapa_ok m"
  by (induction re dados ps out rule: resolver_params.induct)
     (auto simp: Let_def split: option.splits)

lemma Resolver_InrD:
  assumes "Resolver re ps dados = Inr m"
  shows "set (map fst dados) \<subseteq> set (map pm_nome ps)" and "resolver_params re dados ps [] = Inr m"
  using assms by (auto simp: Resolver_def split: option.splits if_splits)

text \<open>A text parameter without enum and pattern lets no shell metacharacter through.\<close>

definition metacaracteres :: string where
  "metacaracteres = ''\"'' @ [CHR 0x27] @ '';|&$`()<>'' @ [CHR 0x5C, CHR 0x0A, CHR 0x0D, CHR 0x00]
     @ ''*?[]{}!#~%^''"

lemma seguro_sem_meta: "seguro c \<Longrightarrow> c \<notin> set metacaracteres"
  by (auto simp: seguro_def metacaracteres_def byte_classes)

lemma Aceita_texto_livre:
  "Aceita re p v = None \<Longrightarrow> pm_tipo p = ParamTexto \<Longrightarrow> pm_enum p = [] \<Longrightarrow> pm_pattern p = [] \<Longrightarrow>
   set v \<inter> set metacaracteres = {}"
  using seguro_sem_meta
  by (auto simp: Aceita_def tipos_param caracteresSeguros_def list_all_iff split: if_splits)

section \<open>Properties\<close>

definition param_de_exemplo :: "string \<Rightarrow> string \<Rightarrow> string \<Rightarrow> param" where
  "param_de_exemplo nome tipo padrao =
     \<lparr>pm_nome = nome, pm_tipo = tipo, pm_padrao = padrao, pm_descricao = [], pm_enum = [], pm_pattern = []\<rparr>"

text \<open>
  C34: what \<open>Resolver\<close> returns has exactly the declared names, each with the given value
  or else its default; every value is one its declaration accepts, so a text parameter
  that declares neither \<open>enum\<close> nor \<open>pattern\<close> carries no character a shell interprets.
\<close>

theorem Resolver_valores:
  assumes "Resolver re ps dados = Inr m" and "distinct (map pm_nome ps)"
  shows "dom (map_of m) = set (map pm_nome ps) \<and> mapa_ok m \<and>
    (\<forall>p \<in> set ps. \<exists>v. map_of m (pm_nome p) = Some v \<and>
        v = (case map_of dados (pm_nome p) of Some v \<Rightarrow> v | None \<Rightarrow> pm_padrao p) \<and>
        Aceita re p v = None \<and>
        (pm_tipo p = ParamTexto \<longrightarrow> pm_enum p = [] \<longrightarrow> pm_pattern p = [] \<longrightarrow>
           set v \<inter> set metacaracteres = {}))"
proof -
  note r = Resolver_InrD(2) [OF assms(1)]
  have "mapa_ok ([] :: string gomap)" by (simp add: mapa_ok_def)
  then have "dom (map_of m) = set (map pm_nome ps)" "mapa_ok m"
    using resolver_params_dom [OF r] resolver_params_mapa_ok [OF r] by simp_all
  moreover have "\<exists>v. map_of m (pm_nome p) = Some v \<and>
      v = (case map_of dados (pm_nome p) of Some v \<Rightarrow> v | None \<Rightarrow> pm_padrao p) \<and>
      Aceita re p v = None \<and>
      (pm_tipo p = ParamTexto \<longrightarrow> pm_enum p = [] \<longrightarrow> pm_pattern p = [] \<longrightarrow>
         set v \<inter> set metacaracteres = {})" if "p \<in> set ps" for p
  proof -
    define v where "v = (case map_of dados (pm_nome p) of Some v \<Rightarrow> v | None \<Rightarrow> pm_padrao p)"
    note x = resolver_params_val [OF r assms(2) that, folded v_def]
    then have "map_of m (pm_nome p) = Some v" by simp
    with x have "Aceita re p v = None" by simp
    with \<open>map_of m (pm_nome p) = Some v\<close> show ?thesis
      using Aceita_texto_livre [of re p v] v_def by blast
  qed
  ultimately show ?thesis by blast
qed

theorem Resolver_valores_witness:
  "dom (map_of [(''cheio'', ''true''), (''data'', ''2024-01-01'')]) = {''cheio'', ''data''}"
proof -
  let ?ps = "[param_de_exemplo ''cheio'' ParamBool ''false'', param_de_exemplo ''data'' ParamTexto ''2024-01-01'']"
  have "Resolver (\<lambda>_. None) ?ps [(''cheio'', ''true'')] = Inr [(''cheio'', ''true''), (''data'', ''2024-01-01'')]"
    by code_simp
  moreover have "distinct (map pm_nome ?ps)" by code_simp
  ultimately have "dom (map_of [(''cheio'', ''true''), (''data'', ''2024-01-01'')]) = set (map pm_nome ?ps)"
    by (rule Resolver_valores [THEN conjunct1])
  then show ?thesis by (simp only: list.set list.map param_de_exemplo_def param.simps)
qed

text \<open>
  A value that names no declared parameter is refused, whatever else is given: a
  misspelt parameter never silently runs with the default.
\<close>

theorem Resolver_desconhecido:
  assumes "nome \<in> set (map fst dados)" and "nome \<notin> set (map pm_nome ps)"
  shows "\<exists>n. Resolver re ps dados = Inl (NaoDeclarado n) \<and> n \<notin> set (map pm_nome ps)"
proof -
  let ?f = "\<lambda>(n, _ :: string). if List.member (map pm_nome ps) n then None else Some (NaoDeclarado n)"
  obtain v where "(nome, v) \<in> set dados" using assms(1) by auto
  then have "para_cada ?f dados \<noteq> None"
  proof (intro notI)
    assume v: "(nome, v) \<in> set dados" and "para_cada ?f dados = None"
    then have "\<forall>x \<in> set dados. ?f x = None" by (simp only: para_cada_None)
    from bspec [OF this v] assms(2) show False by simp
  qed
  then obtain e where e: "para_cada ?f dados = Some e" by blast
  from para_cada_Some [OF e] obtain n where "e = NaoDeclarado n" "n \<notin> set (map pm_nome ps)"
    by (auto split: if_splits)
  with e show ?thesis by (simp add: Resolver_def)
qed

theorem Resolver_desconhecido_witness:
  "\<exists>n. Resolver (\<lambda>_. None) [param_de_exemplo ''load_full'' ParamBool ''false''] [(''lod_full'', ''true'')]
     = Inl (NaoDeclarado n)"
proof -
  have "''lod_full'' \<in> set (map fst [(''lod_full'', ''true'')])"
    "''lod_full'' \<notin> set (map pm_nome [param_de_exemplo ''load_full'' ParamBool ''false''])"
    by (simp_all add: param_de_exemplo_def)
  from Resolver_desconhecido [OF this] show ?thesis by blast
qed

end
