(* ===== verification/Workflow.thy ===== *)
theory Workflow
  imports Param
begin

text \<open>
  \<open>internal/domain/workflow/workflow.go\<close>: the workflow and its nodes, the inheritance of
  image, resources, environment and secrets from the workflow to its steps, and the
  validation that runs before a workflow is published. The search for a cycle is in
  theory \<open>Ciclo\<close>. Errors are constructors that carry the names the message prints.
\<close>

section \<open>Types\<close>

datatype kind = KindChain | KindDAG

record resources =
  cpu :: string
  memory :: string
  cpu_limit :: string
  memory_limit :: string

record node =
  nd_id :: string
  nd_run :: string
  nd_action :: string
  nd_with :: "valor gomap"
  nd_image :: string
  nd_resources :: resources
  nd_shell :: "bool option"
  nd_env :: "string gomap"
  nd_secrets :: "string gomap"

record edge =
  e_from :: string
  e_to :: string

record workflow =
  wf_slug :: string
  wf_name :: string
  wf_kind :: kind
  wf_schedule :: string
  wf_tags :: "string list"
  wf_image :: string
  wf_resources :: resources
  wf_env :: "string gomap"
  wf_secrets :: "string gomap"
  wf_params :: "param list"
  wf_max_ativos :: int
  wf_nodes :: "node list"
  wf_edges :: "edge list"

definition workflow_vazio :: workflow where
  "workflow_vazio =
     \<lparr>wf_slug = [], wf_name = [], wf_kind = KindDAG, wf_schedule = [], wf_tags = [], wf_image = [],
      wf_resources = \<lparr>cpu = [], memory = [], cpu_limit = [], memory_limit = []\<rparr>,
      wf_env = [], wf_secrets = [], wf_params = [], wf_max_ativos = 0, wf_nodes = [], wf_edges = []\<rparr>"

section \<open>Inheritance\<close>

definition Vazio :: "resources \<Rightarrow> bool" where
  "Vazio r \<longleftrightarrow> cpu r = [] \<and> memory r = [] \<and> cpu_limit r = [] \<and> memory_limit r = []"

definition ComPadrao :: "resources \<Rightarrow> resources \<Rightarrow> resources" where
  "ComPadrao r p =
     (let r = (if cpu r = [] then r\<lparr>cpu := cpu p\<rparr> else r);
          r = (if memory r = [] then r\<lparr>memory := memory p\<rparr> else r);
          r = (if cpu_limit r = [] then r\<lparr>cpu_limit := cpu_limit p\<rparr> else r);
          r = (if memory_limit r = [] then r\<lparr>memory_limit := memory_limit p\<rparr> else r)
      in r)"

definition ImagemDe :: "workflow \<Rightarrow> node \<Rightarrow> string" where
  "ImagemDe w n = (if nd_image n \<noteq> [] then nd_image n else wf_image w)"

definition RecursosDe :: "workflow \<Rightarrow> node \<Rightarrow> resources" where
  "RecursosDe w n = ComPadrao (nd_resources n) (wf_resources w)"

text \<open>\<open>sobrepor\<close>: a fresh map with \<open>base\<close> first and \<open>cima\<close> written over it.\<close>

definition sobrepor :: "string gomap \<Rightarrow> string gomap \<Rightarrow> string gomap" where
  "sobrepor base cima =
     (if base = [] \<and> cima = [] then [] else poe_todos cima (poe_todos base []))"

definition EnvDe :: "workflow \<Rightarrow> node \<Rightarrow> string gomap" where
  "EnvDe w n = sobrepor (wf_env w) (nd_env n)"

definition SecretsDe :: "workflow \<Rightarrow> node \<Rightarrow> string gomap" where
  "SecretsDe w n = sobrepor (wf_secrets w) (nd_secrets n)"

definition UsaShell :: "node \<Rightarrow> bool" where
  "UsaShell n \<longleftrightarrow> nd_shell n = None \<or> nd_shell n = Some True"

section \<open>Field checks\<close>

datatype onde = NoWorkflow | NoStep string

datatype erro_nome_var =
    NomeVazio
  | ComecaComDigito string
  | CaractereInvalido string

datatype erro_wf =
    SemSlug
  | SemStep string
  | StepSemId string
  | IdDuplicado string string
  | RunEAction string
  | NemRunNemAction string
  | WithSemAction string
  | ConcurrencyNegativa string int
  | QuantidadeInvalida string onde string string
  | DependenciaInexistente string string
  | DependeDeSi string
  | ParamRuim string erro_param
  | ParamDuplicado string string
  | EnvNome string onde erro_nome_var
  | SecretNome string onde erro_nome_var
  | EnvESecret string onde string
  | CoordenadaInvalida string onde string nat
  | TemCiclo string string

text \<open>
  \<open>validarNomeDeVar\<close>. The source walks runes; a rune outside ASCII is refused like any
  other character that is not a letter, a digit or an underscore, so the byte walk gives
  the same verdict.
\<close>

definition validarNomeDeVar :: "string \<Rightarrow> erro_nome_var option" where
  "validarNomeDeVar nome =
     (if nome = [] then Some NomeVazio
      else if digito (hd nome) then Some (ComecaComDigito nome)
      else if list_all (\<lambda>c. c = CHR ''_'' \<or> minuscula c \<or> maiuscula c \<or> digito c) nome then None
      else Some (CaractereInvalido nome))"

text \<open>\<open>^[0-9]+(\.[0-9]+)?(m|[KMGTPE]i?)?$\<close>\<close>

definition sufixo_de_quantidade :: "string \<Rightarrow> bool" where
  "sufixo_de_quantidade s \<longleftrightarrow>
     s = [] \<or> s = ''m'' \<or>
     (hd s \<in> set ''KMGTPE'' \<and> (tl s = [] \<or> tl s = ''i''))"

definition quantidade :: "string \<Rightarrow> bool" where
  "quantidade s =
     (let ds = takeWhile digito s; r = dropWhile digito s in
      ds \<noteq> [] \<and>
      (if r \<noteq> [] \<and> hd r = CHR ''.'' then
         takeWhile digito (tl r) \<noteq> [] \<and> sufixo_de_quantidade (dropWhile digito (tl r))
       else sufixo_de_quantidade r))"

text \<open>\<open>validarRecursos\<close>: the map literal of four fields, in the order they are written.\<close>

definition validarRecursos :: "string \<Rightarrow> onde \<Rightarrow> resources \<Rightarrow> erro_wf option" where
  "validarRecursos slug onde r =
     para_cada (\<lambda>(campo, valor).
         if valor = [] then None
         else if \<not> quantidade valor then Some (QuantidadeInvalida slug onde campo valor)
         else None)
       [(''cpu'', cpu r), (''memory'', memory r),
        (''cpu_limit'', cpu_limit r), (''memory_limit'', memory_limit r)]"

text \<open>One entry of \<open>secrets:\<close>: the name, the collision with \<open>env:\<close>, the coordinate.\<close>

definition validar_segredo ::
  "string \<Rightarrow> onde \<Rightarrow> string gomap \<Rightarrow> string \<times> string \<Rightarrow> erro_wf option" where
  "validar_segredo slug onde env = (\<lambda>(nome, coord).
     case validarNomeDeVar nome of
       Some e \<Rightarrow> Some (SecretNome slug onde e)
     | None \<Rightarrow>
         if map_of env nome \<noteq> None then Some (EnvESecret slug onde nome)
         else (case cut CHR ''/'' coord of
                 None \<Rightarrow> Some (CoordenadaInvalida slug onde nome (length coord))
               | Some (segredo, chave) \<Rightarrow>
                   if segredo = [] \<or> chave = [] \<or> List.member chave CHR ''/''
                   then Some (CoordenadaInvalida slug onde nome (length coord))
                   else None))"

definition validarAmbiente ::
  "string \<Rightarrow> onde \<Rightarrow> string gomap \<Rightarrow> string gomap \<Rightarrow> erro_wf option" where
  "validarAmbiente slug onde env secrets =
     entao
       (para_cada (\<lambda>(nome, _). case validarNomeDeVar nome of
            Some e \<Rightarrow> Some (EnvNome slug onde e) | None \<Rightarrow> None) env)
       (para_cada (validar_segredo slug onde env) secrets)"

text \<open>The first loop of \<open>Validate\<close>: ids present and unique, one form of execution each.\<close>

fun validar_nos :: "string \<Rightarrow> string list \<Rightarrow> node list \<Rightarrow> erro_wf option" where
  "validar_nos slug vistos [] = None"
| "validar_nos slug vistos (n # ns) =
     (if nd_id n = [] then Some (StepSemId slug)
      else if List.member vistos (nd_id n) then Some (IdDuplicado slug (nd_id n))
      else if nd_run n \<noteq> [] \<and> nd_action n \<noteq> [] then Some (RunEAction (nd_id n))
      else if nd_run n = [] \<and> nd_action n = [] then Some (NemRunNemAction (nd_id n))
      else if nd_run n \<noteq> [] \<and> nd_with n \<noteq> [] then Some (WithSemAction (nd_id n))
      else validar_nos slug (nd_id n # vistos) ns)"

definition validar_aresta :: "string \<Rightarrow> string list \<Rightarrow> edge \<Rightarrow> erro_wf option" where
  "validar_aresta slug vistos e =
     (if \<not> List.member vistos (e_from e) then Some (DependenciaInexistente slug (e_from e))
      else if \<not> List.member vistos (e_to e) then Some (DependenciaInexistente slug (e_to e))
      else if e_from e = e_to e then Some (DependeDeSi (e_from e))
      else None)"

fun validar_params :: "regexp \<Rightarrow> string \<Rightarrow> string list \<Rightarrow> param list \<Rightarrow> erro_wf option" where
  "validar_params re slug vistos [] = None"
| "validar_params re slug vistos (p # ps) =
     (case Validar re p of
        Some e \<Rightarrow> Some (ParamRuim slug e)
      | None \<Rightarrow>
          if List.member vistos (pm_nome p) then Some (ParamDuplicado slug (pm_nome p))
          else validar_params re slug (pm_nome p # vistos) ps)"

section \<open>Lemmas\<close>

lemma ComPadrao_campos [simp]:
  "cpu (ComPadrao r p) = (if cpu r = [] then cpu p else cpu r)"
  "memory (ComPadrao r p) = (if memory r = [] then memory p else memory r)"
  "cpu_limit (ComPadrao r p) = (if cpu_limit r = [] then cpu_limit p else cpu_limit r)"
  "memory_limit (ComPadrao r p) = (if memory_limit r = [] then memory_limit p else memory_limit r)"
  by (simp_all add: ComPadrao_def Let_def)

lemma map_of_sobrepor:
  assumes "mapa_ok base" and "mapa_ok cima"
  shows "map_of (sobrepor base cima) = map_of base ++ map_of cima"
  using assms by (simp add: sobrepor_def map_of_poe_todos)

lemma mapa_ok_sobrepor [simp]: "mapa_ok (sobrepor base cima)"
proof -
  have "mapa_ok ([] :: string gomap)" by (simp add: mapa_ok_def)
  then show ?thesis by (simp add: sobrepor_def)
qed

lemma dom_poe_todos: "dom (map_of (poe_todos n m)) = dom (map_of m) \<union> set (map fst n)"
proof (induction n arbitrary: m)
  case (Cons p n)
  obtain k v where p: "p = (k, v)" by (cases p)
  have "dom (map_of (poe k v m)) = insert k (dom (map_of m))" by simp
  with Cons.IH [of "poe k v m"] show ?case by (simp add: p del: map_of_poe)
qed simp

lemma keys_sobrepor: "set (map fst (sobrepor base cima)) = set (map fst base) \<union> set (map fst cima)"
  using dom_poe_todos [of cima "poe_todos base []"] dom_poe_todos [of base "[]"]
  by (auto simp: sobrepor_def dom_map_of_conv_image_fst)

lemma validar_nos_None:
  "validar_nos slug vistos ns = None \<longleftrightarrow>
     distinct (map nd_id ns) \<and> set (map nd_id ns) \<inter> set vistos = {} \<and>
     (\<forall>n \<in> set ns. nd_id n \<noteq> [] \<and> (nd_run n = [] \<longleftrightarrow> nd_action n \<noteq> []) \<and>
        (nd_with n \<noteq> [] \<longrightarrow> nd_run n = []))"
  by (induction slug vistos ns rule: validar_nos.induct) auto

lemma validar_aresta_None [simp]:
  "validar_aresta slug vistos e = None \<longleftrightarrow>
     e_from e \<in> set vistos \<and> e_to e \<in> set vistos \<and> e_from e \<noteq> e_to e"
  by (auto simp: validar_aresta_def)

lemma validar_params_None:
  "validar_params re slug vistos ps = None \<longleftrightarrow>
     distinct (map pm_nome ps) \<and> set (map pm_nome ps) \<inter> set vistos = {} \<and>
     (\<forall>p \<in> set ps. Validar re p = None)"
  by (induction re slug vistos ps rule: validar_params.induct) (auto split: option.splits)

lemma validar_segredo_None [simp]:
  "validar_segredo slug onde env (nome, coord) = None \<longleftrightarrow>
     validarNomeDeVar nome = None \<and> map_of env nome = None \<and>
     (\<exists>segredo chave. coord = segredo @ CHR ''/'' # chave \<and> segredo \<noteq> [] \<and> chave \<noteq> [] \<and>
        CHR ''/'' \<notin> set segredo \<and> CHR ''/'' \<notin> set chave)"
proof (cases "cut CHR ''/'' coord")
  case None
  then have "CHR ''/'' \<notin> set coord" by (simp add: cut_None_iff)
  then show ?thesis
    using None by (auto simp: validar_segredo_def split: option.splits)
next
  case (Some ab)
  obtain a b where ab: "ab = (a, b)" by (cases ab)
  then have c: "cut CHR ''/'' coord = Some (a, b)" using Some by simp
  then have u: "coord = s @ CHR ''/'' # k \<and> CHR ''/'' \<notin> set s \<longleftrightarrow> s = a \<and> k = b" for s k
    by (metis cut_SomeD cut_append option.inject prod.inject)
  have "(\<exists>s k. coord = s @ CHR ''/'' # k \<and> s \<noteq> [] \<and> k \<noteq> [] \<and> CHR ''/'' \<notin> set s \<and> CHR ''/'' \<notin> set k)
    \<longleftrightarrow> a \<noteq> [] \<and> b \<noteq> [] \<and> CHR ''/'' \<notin> set b" (is "?E \<longleftrightarrow> _")
  proof
    assume ?E
    then obtain s k where "coord = s @ CHR ''/'' # k" "CHR ''/'' \<notin> set s"
      and ne: "s \<noteq> []" "k \<noteq> []" "CHR ''/'' \<notin> set k" by blast
    then have "s = a \<and> k = b" using u by blast
    with ne show "a \<noteq> [] \<and> b \<noteq> [] \<and> CHR ''/'' \<notin> set b" by simp
  next
    assume "a \<noteq> [] \<and> b \<noteq> [] \<and> CHR ''/'' \<notin> set b"
    then show ?E using u [of a b] by blast
  qed
  then show ?thesis
    by (simp only:) (simp add: validar_segredo_def c split: option.splits)
qed

lemma validarAmbiente_None:
  "validarAmbiente slug onde env secrets = None \<longleftrightarrow>
     (\<forall>(nome, v) \<in> set env. validarNomeDeVar nome = None) \<and>
     (\<forall>p \<in> set secrets. validar_segredo slug onde env p = None)"
  by (auto simp: validarAmbiente_def split: option.splits)

end
