(* ===== verification/Execucao.thy ===== *)
theory Execucao
  imports Workflow
begin

text \<open>
  \<open>internal/execution/executor.go\<close>, \<open>registry.go\<close> and \<open>render.go\<close>: the task an executor is
  asked to run, the events it reports, the registry of the tasks written in Go and the
  rendering of the command of a step. A started executor is the list of the events its channel
  delivers until it is closed; it runs in a world of type \<open>'s\<close>, which stands for the cluster,
  the processes and the clock. The template engine of Go is the argument \<open>tmpl\<close>.
\<close>

section \<open>executor.go\<close>

datatype event_kind = EventStarted | EventLog | EventSucceeded | EventFailed

record event =
  ev_kind :: event_kind
  ev_node :: string
  ev_message :: string
  ev_stream :: string
  ev_exit :: int

definition evento_de :: "event_kind \<Rightarrow> string \<Rightarrow> event" where
  "evento_de k nid = \<lparr>ev_kind = k, ev_node = nid, ev_message = [], ev_stream = [], ev_exit = 0\<rparr>"

definition log_de :: "string \<Rightarrow> string \<Rightarrow> string \<Rightarrow> event" where
  "log_de nid fluxo msg = \<lparr>ev_kind = EventLog, ev_node = nid, ev_message = msg, ev_stream = fluxo, ev_exit = 0\<rparr>"

record taskexec =
  te_execution :: string
  te_node :: string
  te_workflow :: string
  te_run :: string
  te_tentativa :: int
  te_tentativa_run :: int
  te_command :: string
  te_action :: string
  te_with :: "valor gomap"
  te_image :: string
  te_shell :: bool
  te_cpu :: string
  te_memoria :: string
  te_cpu_max :: string
  te_memoria_max :: string
  te_workdir :: string
  te_env :: "string gomap"
  te_secrets :: "string gomap"
  te_timeout :: time

text \<open>\<open>Execute\<close>: an error, or the events of the channel in order; the world moves on.\<close>

type_synonym 's executor = "taskexec \<Rightarrow> 's \<Rightarrow> (string + event list) \<times> 's"

text \<open>
  What every executor promises of its channel: the start, then lines, then one outcome. It is
  the law of the interface; each executor shows that it keeps it.
\<close>

definition relato_de_execucao :: "event list \<Rightarrow> bool" where
  "relato_de_execucao evs \<longleftrightarrow>
     (\<exists>i meio f. evs = i # meio @ [f] \<and> ev_kind i = EventStarted \<and> (\<forall>e \<in> set meio. ev_kind e = EventLog) \<and>
        ev_kind f \<in> {EventSucceeded, EventFailed})"

lemma relato_de_execucaoI:
  "ev_kind i = EventStarted \<Longrightarrow> (\<forall>e \<in> set meio. ev_kind e = EventLog) \<Longrightarrow> ev_kind f \<in> {EventSucceeded, EventFailed} \<Longrightarrow>
     relato_de_execucao (i # meio @ [f])"
  unfolding relato_de_execucao_def by blast

locale canal =
  fixes entrega :: "taskexec \<Rightarrow> event list \<Rightarrow> bool"
  assumes relato: "entrega t evs \<Longrightarrow> relato_de_execucao evs"
begin

lemma comeca: "entrega t evs \<Longrightarrow> ev_kind (hd evs) = EventStarted"
  using relato [of t evs] by (auto simp: relato_de_execucao_def)

lemma um_desfecho:
  "entrega t evs \<Longrightarrow> length (filter (\<lambda>e. ev_kind e \<in> {EventSucceeded, EventFailed}) evs) = 1"
  using relato [of t evs] by (auto simp: relato_de_execucao_def filter_empty_conv)

lemma falhas_do_canal:
  assumes "entrega t evs"
  shows "filter (\<lambda>e. ev_kind e = EventFailed) evs = (if ev_kind (last evs) = EventFailed then [last evs] else [])"
  using relato [OF assms] by (auto simp: relato_de_execucao_def filter_empty_conv)

lemma ultimo_do_canal: "entrega t evs \<Longrightarrow> ev_kind (last evs) \<in> {EventSucceeded, EventFailed}"
  using relato [of t evs] by (auto simp: relato_de_execucao_def)

end

section \<open>registry.go\<close>

record 't task =
  tk_nome :: string
  tk_fn :: 't

type_synonym 't registry = "'t task gomap"

datatype erro_registro = TaskSemNome | TaskJaRegistrada string

definition Register :: "'t task \<Rightarrow> 't registry \<Rightarrow> erro_registro option \<times> 't registry" where
  "Register t r =
     (if tk_nome t = [] then (Some TaskSemNome, r)
      else if map_of r (tk_nome t) \<noteq> None then (Some (TaskJaRegistrada (tk_nome t)), r)
      else (None, poe (tk_nome t) t r))"

definition registry_Get :: "'t registry \<Rightarrow> string \<Rightarrow> 't task option" where
  "registry_Get r nome = map_of r nome"

definition Nomes :: "'t registry \<Rightarrow> string list" where
  "Nomes r = sort_strings (map fst r)"

datatype erro_texto = ParametroAusente string | ParametroNaoTexto string valor

definition Texto :: "valor gomap \<Rightarrow> string \<Rightarrow> erro_texto + string" where
  "Texto w chave =
     (case map_of w chave of
        None \<Rightarrow> Inl (ParametroAusente chave)
      | Some (VText s) \<Rightarrow> Inr s
      | Some v \<Rightarrow> Inl (ParametroNaoTexto chave v))"

definition registro_ok :: "'t registry \<Rightarrow> bool" where
  "registro_ok r \<longleftrightarrow> mapa_ok r \<and> [] \<notin> fst ` set r \<and> (\<forall>(k, t) \<in> set r. tk_nome t = k)"

section \<open>render.go\<close>

text \<open>
  \<open>tmpl\<close> parses a text: an error, or the function that executes it on the params, which
  gives an error or the output.
\<close>

type_synonym engine = "string \<Rightarrow> string + (string gomap \<Rightarrow> string + string)"

definition chaves :: "string gomap \<Rightarrow> string" where
  "chaves m = (if m = [] then ''nenhum'' else join '', '' (sort_strings (map fst m)))"

definition Renderizar :: "engine \<Rightarrow> string \<Rightarrow> string gomap \<Rightarrow> string + string" where
  "Renderizar tmpl comando ps =
     (if \<not> contem_sub ''{{'' comando then Inr comando
      else case tmpl comando of
             Inl e \<Rightarrow> Inl (''comando com template invalido: '' @ e)
           | Inr executa \<Rightarrow>
               (case executa ps of
                  Inl e \<Rightarrow> Inl (e @ '' (params disponiveis: '' @ chaves ps @ '')'')
                | Inr s \<Rightarrow> Inr s))"

section \<open>Lemmas\<close>

lemma set_poe: "mapa_ok r \<Longrightarrow> set (poe k v r) = insert (k, v) {(a, b). (a, b) \<in> set r \<and> a \<noteq> k}"
  by (induction r) (auto simp: poe_def mapa_ok_def image_iff)

lemma Register_ok: "registro_ok r \<Longrightarrow> registro_ok (snd (Register t r))"
  by (auto simp: Register_def registro_ok_def set_poe image_iff)

lemma Nomes_set [simp]: "set (Nomes r) = fst ` set r"
  by (simp add: Nomes_def sort_strings_def)

lemma Renderizar_sem_chaves: "\<not> contem_sub ''{{'' c \<Longrightarrow> Renderizar tmpl c ps = Inr c"
  by (simp add: Renderizar_def)

text \<open>
  The registry of tasks never replaces a task. From the empty registry, whatever is
  registered and in whatever order, every name maps to the first task offered under it, later
  ones are refused with an error and leave the registry alone, a task without a name is never
  stored, and the listing is the sorted set of the names.
\<close>

theorem Register_primeiro_vence:
  "map_of (fold (\<lambda>t r. snd (Register t r)) ts []) =
     (\<lambda>n. if n = [] then None else find (\<lambda>t. tk_nome t = n) ts) \<and>
   registro_ok (fold (\<lambda>t r. snd (Register t r)) ts []) \<and>
   sorted (Nomes (fold (\<lambda>t r. snd (Register t r)) ts [])) \<and>
   set (Nomes (fold (\<lambda>t r. snd (Register t r)) ts [])) = tk_nome ` set ts - {[]}"
proof -
  let ?R = "fold (\<lambda>t r. snd (Register t r)) ts []"
  have m: "map_of (fold (\<lambda>t r. snd (Register t r)) ts r) n =
      (case map_of r n of Some t \<Rightarrow> Some t | None \<Rightarrow> if n = [] then None else find (\<lambda>t. tk_nome t = n) ts)" for r n
    by (induction ts arbitrary: r) (auto simp: Register_def split: option.splits)
  have ok: "registro_ok (fold (\<lambda>t r. snd (Register t r)) ts r)" if "registro_ok r" for r
    using that by (induction ts arbitrary: r) (simp_all add: Register_ok)
  have "fst ` set ?R = dom (map_of ?R)" by (simp add: dom_map_of_conv_image_fst)
  also have "\<dots> = {n. n \<noteq> [] \<and> find (\<lambda>t. tk_nome t = n) ts \<noteq> None}" by (auto simp: m dom_def)
  also have "\<dots> = tk_nome ` set ts - {[]}" by (auto simp: find_None_iff)
  finally have names: "fst ` set ?R = tk_nome ` set ts - {[]}" .
  have "map_of ?R = (\<lambda>n. if n = [] then None else find (\<lambda>t. tk_nome t = n) ts)" by (rule ext) (simp add: m)
  moreover have "registro_ok ?R" by (rule ok) (simp add: registro_ok_def mapa_ok_def)
  ultimately show ?thesis using names by (simp add: Nomes_def sort_strings_def)
qed

end
