(* ===== verification/Janela.thy ===== *)
theory Janela
  imports Prelude
begin

text \<open>
  \<open>internal/application/execution/janela.go\<close>: the buffer that keeps the beginning and the end
  of the output of a step under a limit and says how much it dropped in between.
\<close>

section \<open>The buffer\<close>

definition TetoDoLog :: nat where
  "TetoDoLog = 131072"

definition fatiaDoInicio :: nat where
  "fatiaDoInicio = TetoDoLog div 4"

record janela =
  ja_inicio :: string
  ja_fim :: "string list"
  ja_fim_len :: nat
  ja_cortado :: nat

definition janela_vazia :: janela where
  "janela_vazia = \<lparr>ja_inicio = [], ja_fim = [], ja_fim_len = 0, ja_cortado = 0\<rparr>"

definition nl :: string where
  "nl = [CHR 0x0A]"

text \<open>The loop that drops from the front: lines kept, their bytes, bytes dropped.\<close>

fun descartar :: "string list \<Rightarrow> nat \<Rightarrow> nat \<Rightarrow> string list \<times> nat \<times> nat" where
  "descartar (x # y # fim) n c =
     (if TetoDoLog - fatiaDoInicio < n then descartar (y # fim) (n - (length x + 1)) (c + (length x + 1))
      else (x # y # fim, n, c))"
| "descartar fim n c = (fim, n, c)"

definition Escrever :: "string \<Rightarrow> janela \<Rightarrow> janela" where
  "Escrever linha j =
     (let n = length linha + 1 in
      if length (ja_inicio j) + n \<le> fatiaDoInicio then j\<lparr>ja_inicio := ja_inicio j @ linha @ nl\<rparr>
      else (case descartar (ja_fim j @ [linha]) (ja_fim_len j + n) (ja_cortado j) of
              (fim, m, c) \<Rightarrow> j\<lparr>ja_fim := fim, ja_fim_len := m, ja_cortado := c\<rparr>))"

definition linhas :: "string list \<Rightarrow> string" where
  "linhas ls = (if ls = [] then [] else join nl ls @ nl)"

definition emKB :: "nat \<Rightarrow> string" where
  "emKB n = (if n < 1024 then show_nat n @ '' B'' else show_nat (n div 1024) @ '' KB'')"

definition janela_String :: "janela \<Rightarrow> string" where
  "janela_String j =
     (if ja_cortado j = 0 then ja_inicio j @ linhas (ja_fim j)
      else ja_inicio j @ nl @ ''[... '' @ emKB (ja_cortado j) @ '' omitidos pelo limite de '' @ emKB TetoDoLog @
           '' por passo ...]'' @ nl @ nl @ linhas (ja_fim j))"

definition janela_de :: "string list \<Rightarrow> janela" where
  "janela_de ls = fold Escrever ls janela_vazia"

section \<open>Lemmas\<close>

lemma linhas_concat: "linhas ls = concat (map (\<lambda>l. l @ nl) ls)"
proof -
  have "ls \<noteq> [] \<Longrightarrow> join nl ls @ nl = concat (map (\<lambda>l. l @ nl) ls)"
    by (induction nl ls rule: join.induct) auto
  then show ?thesis by (auto simp: linhas_def)
qed

lemma linhas_simps [simp]: "linhas [] = []" "linhas (l # ls) = l @ nl @ linhas ls" "linhas (ls @ ms) = linhas ls @ linhas ms"
  by (simp_all add: linhas_concat)

lemma length_nl [simp]: "length nl = 1"
  by (simp add: nl_def)

text \<open>What the loop drops is a prefix, it counts what it drops, and it stops under the limit.\<close>

lemma descartar_spec:
  "n = length (linhas fim) \<Longrightarrow> fim \<noteq> [] \<Longrightarrow>
   \<exists>fora resto. fim = fora @ resto \<and> resto \<noteq> [] \<and> last resto = last fim \<and>
     descartar fim n c = (resto, length (linhas resto), c + length (linhas fora)) \<and>
     (length (linhas resto) \<le> TetoDoLog - fatiaDoInicio \<or> length resto = 1)"
proof (induction fim n c rule: descartar.induct)
  case (1 x y fim n c)
  show ?case
  proof (cases "TetoDoLog - fatiaDoInicio < n")
    case True
    have "n - (length x + 1) = length (linhas (y # fim))" using "1.prems"(1) by simp
    from "1.IH" [OF True this] obtain fora resto where *:
      "y # fim = fora @ resto" "resto \<noteq> []" "last resto = last (y # fim)"
      "descartar (y # fim) (n - (length x + 1)) (c + (length x + 1)) =
         (resto, length (linhas resto), c + (length x + 1) + length (linhas fora))"
      "length (linhas resto) \<le> TetoDoLog - fatiaDoInicio \<or> length resto = 1" by blast
    have "descartar (x # y # fim) n c = descartar (y # fim) (n - (length x + 1)) (c + (length x + 1))"
      using True by simp
    then have "descartar (x # y # fim) n c = (resto, length (linhas resto), c + length (linhas (x # fora)))"
      using * by (simp only: linhas_simps length_append length_nl add.assoc)
    moreover have "x # y # fim = (x # fora) @ resto" "last resto = last (x # y # fim)" using * by simp_all
    ultimately show ?thesis using * by blast
  next
    case False
    with "1.prems" show ?thesis by - (rule exI [of _ "[]"], rule exI [of _ "x # y # fim"], auto)
  qed
next
  case "2_2"
  then show ?case by - (rule exI [of _ "[]"], auto)
qed simp

text \<open>The lines marked for the beginning, and the others.\<close>

definition marcadas :: "bool list \<Rightarrow> 'a list \<Rightarrow> 'a list" where
  "marcadas bs ls = map snd (filter fst (zip bs ls))"

lemma marcadas_snoc:
  "length bs = length ls \<Longrightarrow> marcadas (bs @ [b]) (ls @ [l]) = marcadas bs ls @ (if b then [l] else [])"
  by (simp add: marcadas_def)

lemma marcadas_todas: "marcadas (replicate (length ls) True) ls = ls"
  by (induction ls) (simp_all add: marcadas_def)

lemma marcadas_length:
  "length bs = length ls \<Longrightarrow> length (linhas (marcadas bs ls)) + length (linhas (marcadas (map Not bs) ls)) = length (linhas ls)"
  by (induction bs ls rule: list_induct2) (simp_all add: marcadas_def)

definition janela_ok :: "string list \<Rightarrow> bool list \<Rightarrow> janela \<Rightarrow> bool" where
  "janela_ok ls bs j \<longleftrightarrow> length bs = length ls \<and>
     ja_inicio j = linhas (marcadas bs ls) \<and> length (ja_inicio j) \<le> fatiaDoInicio \<and>
     (\<exists>fora. marcadas (map Not bs) ls = fora @ ja_fim j \<and> ja_cortado j = length (linhas fora)) \<and>
     ja_fim_len j = length (linhas (ja_fim j)) \<and>
     (ja_fim_len j \<le> TetoDoLog - fatiaDoInicio \<or> length (ja_fim j) = 1)"

lemma Escrever_ok:
  assumes "janela_ok ls bs j"
  shows "\<exists>b. janela_ok (ls @ [l]) (bs @ [b]) (Escrever l j)"
proof (cases "length (ja_inicio j) + (length l + 1) \<le> fatiaDoInicio")
  case True
  with assms show ?thesis
    by (intro exI [of _ True]) (auto simp: janela_ok_def Escrever_def marcadas_snoc)
next
  case False
  obtain fora where f: "marcadas (map Not bs) ls = fora @ ja_fim j" "ja_cortado j = length (linhas fora)"
    using assms by (auto simp: janela_ok_def)
  have n: "ja_fim_len j + (length l + 1) = length (linhas (ja_fim j @ [l]))" using assms by (simp add: janela_ok_def)
  obtain f2 resto where r: "ja_fim j @ [l] = f2 @ resto" "resto \<noteq> []"
    "descartar (ja_fim j @ [l]) (ja_fim_len j + (length l + 1)) (ja_cortado j) =
       (resto, length (linhas resto), ja_cortado j + length (linhas f2))"
    "length (linhas resto) \<le> TetoDoLog - fatiaDoInicio \<or> length resto = 1"
    using descartar_spec [OF n, of "ja_cortado j"] by auto
  have "marcadas (map Not (bs @ [False])) (ls @ [l]) = (fora @ f2) @ resto"
    using assms f(1) r(1) by (simp add: marcadas_snoc janela_ok_def)
  with False assms f(2) r(3,4) show ?thesis
    by (intro exI [of _ False]) (auto simp: janela_ok_def Escrever_def Let_def marcadas_snoc)
qed

lemma janela_de_ok: "\<exists>bs. janela_ok ls bs (janela_de ls)"
proof (induction ls rule: rev_induct)
  case Nil
  show ?case by (simp add: janela_de_def janela_vazia_def janela_ok_def marcadas_def)
next
  case (snoc l ls)
  then obtain bs where "janela_ok ls bs (janela_de ls)" by blast
  from Escrever_ok [OF this, of l] show ?case by (auto simp: janela_de_def)
qed

lemma janela_curta:
  assumes "length (linhas ls) \<le> fatiaDoInicio"
  shows "janela_de ls = janela_vazia\<lparr>ja_inicio := linhas ls\<rparr>"
  using assms
proof (induction ls rule: rev_induct)
  case Nil
  show ?case by (simp add: janela_de_def janela_vazia_def)
next
  case (snoc l ls)
  then show ?case by (simp add: janela_de_def Escrever_def janela_vazia_def)
qed

section \<open>Properties\<close>

text \<open>
  The buffer keeps the beginning and the end, and accounts for the rest. The lines are
  split in two subsequences: the first makes up the beginning, under a quarter of the limit;
  of the second a suffix is kept, within the rest of the limit or a single line; the bytes
  dropped are counted exactly. An output that fits in the first quarter is kept as it is.
\<close>

theorem janela_guarda:
  "\<exists>bs fora. length bs = length ls \<and>
     ja_inicio (janela_de ls) = linhas (marcadas bs ls) \<and> length (ja_inicio (janela_de ls)) \<le> fatiaDoInicio \<and>
     marcadas (map Not bs) ls = fora @ ja_fim (janela_de ls) \<and> ja_cortado (janela_de ls) = length (linhas fora) \<and>
     (length (linhas (ja_fim (janela_de ls))) \<le> TetoDoLog - fatiaDoInicio \<or> length (ja_fim (janela_de ls)) = 1) \<and>
     length (ja_inicio (janela_de ls)) + length (linhas (ja_fim (janela_de ls))) + ja_cortado (janela_de ls)
       = length (linhas ls) \<and>
     \<not> (length (linhas ls) \<le> fatiaDoInicio \<and> janela_String (janela_de ls) \<noteq> linhas ls)"
proof -
  obtain bs fora where b: "janela_ok ls bs (janela_de ls)"
    and f: "marcadas (map Not bs) ls = fora @ ja_fim (janela_de ls)" "ja_cortado (janela_de ls) = length (linhas fora)"
    using janela_de_ok [of ls] by (auto simp: janela_ok_def)
  then have "length (ja_inicio (janela_de ls)) + length (linhas (ja_fim (janela_de ls))) + ja_cortado (janela_de ls)
       = length (linhas ls)"
    using marcadas_length [of bs ls] by (simp add: janela_ok_def)
  moreover have "\<not> (length (linhas ls) \<le> fatiaDoInicio \<and> janela_String (janela_de ls) \<noteq> linhas ls)"
    using janela_curta [of ls] by (auto simp: janela_String_def janela_vazia_def)
  ultimately show ?thesis using b f by (intro exI [of _ bs] exI [of _ fora]) (auto simp: janela_ok_def)
qed

text \<open>
  The order of the lines is not kept. A line too long for the beginning goes to the end,
  and a later line that still fits is put in the beginning, before it: two lines of which
  nothing is dropped come out swapped.
\<close>

theorem janela_troca_ordem:
  assumes "length a = fatiaDoInicio" and "length b < fatiaDoInicio"
  shows "janela_String (janela_de [a, b]) = linhas [b, a] \<and> ja_cortado (janela_de [a, b]) = 0"
  using assms
  by (simp add: janela_de_def Escrever_def janela_vazia_def janela_String_def Let_def fatiaDoInicio_def TetoDoLog_def)

theorem janela_troca_ordem_witness:
  "janela_String (janela_de [replicate fatiaDoInicio CHR ''x'', ''fim'']) =
     linhas [''fim'', replicate fatiaDoInicio CHR ''x'']"
  using janela_troca_ordem [of "replicate fatiaDoInicio CHR ''x''" "''fim''"]
  by (simp add: fatiaDoInicio_def TetoDoLog_def)

end
