(* ===== verification/RunState.thy ===== *)
theory RunState
  imports Workflow
begin

text \<open>
  \<open>internal/domain/run\<close>: the states of a run and of a step (\<open>status.go\<close>), the table of
  allowed transitions, and the transition methods that stamp the times (\<open>run.go\<close>).
\<close>

section \<open>status.go\<close>

text \<open>
  \<open>Status\<close> is a string; \<open>StatusOutro\<close> is any string that is not one of the seven
  constants (a column edited by hand, an empty value).
\<close>

datatype status =
    StatusCreated
  | StatusQueued
  | StatusRunning
  | StatusSuccess
  | StatusFailed
  | StatusRetrying
  | StatusCanceled
  | StatusOutro string

fun texto_status :: "status \<Rightarrow> string" where
  "texto_status StatusCreated = ''created''"
| "texto_status StatusQueued = ''queued''"
| "texto_status StatusRunning = ''running''"
| "texto_status StatusSuccess = ''success''"
| "texto_status StatusFailed = ''failed''"
| "texto_status StatusRetrying = ''retrying''"
| "texto_status StatusCanceled = ''canceled''"
| "texto_status (StatusOutro s) = s"

fun transicoes :: "status \<Rightarrow> status list option" where
  "transicoes StatusCreated = Some [StatusQueued, StatusCanceled]"
| "transicoes StatusQueued = Some [StatusRunning, StatusCanceled]"
| "transicoes StatusRunning = Some [StatusSuccess, StatusFailed, StatusCanceled]"
| "transicoes StatusFailed = Some [StatusRetrying]"
| "transicoes StatusRetrying = Some [StatusQueued, StatusCanceled]"
| "transicoes StatusSuccess = Some []"
| "transicoes StatusCanceled = Some []"
| "transicoes (StatusOutro s) = None"

definition Terminal :: "status \<Rightarrow> bool" where
  "Terminal s \<longleftrightarrow> s = StatusSuccess \<or> s = StatusCanceled"

text \<open>Reading a missing key of the Go map gives the nil slice: no destination.\<close>

definition PodeIr :: "status \<Rightarrow> status \<Rightarrow> bool" where
  "PodeIr s destino = List.member (case transicoes s of None \<Rightarrow> [] | Some ds \<Rightarrow> ds) destino"

datatype erro_status =
    EstadoDesconhecido status
  | TransicaoInvalida status status

definition Valida :: "status \<Rightarrow> status \<Rightarrow> erro_status option" where
  "Valida de para =
     (case transicoes de of
        None \<Rightarrow> Some (EstadoDesconhecido de)
      | Some _ \<Rightarrow> if \<not> PodeIr de para then Some (TransicaoInvalida de para) else None)"

section \<open>run.go\<close>

record run =
  r_id :: nat                       \<comment> \<open>uuid\<close>
  r_slug :: string
  r_chave :: string                 \<comment> \<open>IdempotencyKey\<close>
  r_status :: status
  r_attempt :: int
  r_definicao :: workflow           \<comment> \<open>the snapshot of the graph, as the value its JSON encodes\<close>
  r_trigger :: string
  r_params :: "string gomap"
  r_max_ativos :: int
  r_logical :: "time option"
  r_criado :: time
  r_iniciado :: "time option"
  r_terminado :: "time option"
  r_erro :: string

record taskrun =
  t_run :: nat
  t_node :: string
  t_status :: status
  t_attempt :: int
  t_exit :: "int option"
  t_iniciado :: "time option"
  t_terminado :: "time option"
  t_erro :: string
  t_log :: string

definition run_Transition :: "run \<Rightarrow> status \<Rightarrow> time \<Rightarrow> erro_status + run" where
  "run_Transition r para agora =
     (case Valida (r_status r) para of
        Some e \<Rightarrow> Inl e
      | None \<Rightarrow>
          let r = r\<lparr>r_status := para\<rparr> in
          Inr (case para of
                 StatusRunning \<Rightarrow>
                   if r_iniciado r = None then r\<lparr>r_iniciado := Some agora\<rparr> else r
               | StatusSuccess \<Rightarrow> r\<lparr>r_terminado := Some agora\<rparr>
               | StatusCanceled \<Rightarrow> r\<lparr>r_terminado := Some agora\<rparr>
               | StatusQueued \<Rightarrow> r\<lparr>r_iniciado := None, r_terminado := None\<rparr>
               | _ \<Rightarrow> r))"

definition task_Transition :: "taskrun \<Rightarrow> status \<Rightarrow> time \<Rightarrow> erro_status + taskrun" where
  "task_Transition t para agora =
     (case Valida (t_status t) para of
        Some e \<Rightarrow> Inl e
      | None \<Rightarrow>
          let t = t\<lparr>t_status := para\<rparr> in
          Inr (case para of
                 StatusRunning \<Rightarrow>
                   if t_iniciado t = None then t\<lparr>t_iniciado := Some agora\<rparr> else t
               | StatusSuccess \<Rightarrow> t\<lparr>t_terminado := Some agora\<rparr>
               | StatusFailed \<Rightarrow> t\<lparr>t_terminado := Some agora\<rparr>
               | StatusCanceled \<Rightarrow> t\<lparr>t_terminado := Some agora\<rparr>
               | _ \<Rightarrow> t))"

section \<open>The transition graph\<close>

text \<open>The table read as a step relation.\<close>

inductive passo :: "status \<Rightarrow> status \<Rightarrow> bool" where
  created_queued: "passo StatusCreated StatusQueued"
| created_canceled: "passo StatusCreated StatusCanceled"
| queued_running: "passo StatusQueued StatusRunning"
| queued_canceled: "passo StatusQueued StatusCanceled"
| running_success: "passo StatusRunning StatusSuccess"
| running_failed: "passo StatusRunning StatusFailed"
| running_canceled: "passo StatusRunning StatusCanceled"
| failed_retrying: "passo StatusFailed StatusRetrying"
| retrying_queued: "passo StatusRetrying StatusQueued"
| retrying_canceled: "passo StatusRetrying StatusCanceled"

inductive_cases passo_de_success: "passo StatusSuccess s"
inductive_cases passo_de_canceled: "passo StatusCanceled s"
inductive_cases passo_de_failed: "passo StatusFailed s"
inductive_simps passo_para_running: "passo s StatusRunning"
inductive_simps passo_para_success: "passo s StatusSuccess"
inductive_simps passo_para_queued: "passo s StatusQueued"

lemma PodeIr_passo: "PodeIr s t \<longleftrightarrow> passo s t"
  by (cases s; cases t) (auto simp: PodeIr_def intro: passo.intros elim: passo.cases)

lemma Valida_None [simp]: "Valida s t = None \<longleftrightarrow> passo s t"
proof -
  have "passo s t \<Longrightarrow> transicoes s \<noteq> None" by (auto elim: passo.cases)
  then show ?thesis
    by (auto simp: Valida_def PodeIr_passo split: option.splits)
qed

lemma Valida_Some: "Valida s t = Some e \<Longrightarrow> \<not> passo s t"
  using Valida_None [of s t] by simp

lemma passo_nao_terminal: "passo s t \<Longrightarrow> \<not> Terminal s"
  by (auto simp: Terminal_def elim: passo.cases)

lemma passo_conhecido: "passo s t \<Longrightarrow> t \<noteq> StatusOutro x \<and> t \<noteq> StatusCreated"
  by (auto elim: passo.cases)

text \<open>A run is only ever shown as running right after it was queued.\<close>

lemma run_Transition_Inr:
  "run_Transition r para agora = Inr r' \<Longrightarrow> passo (r_status r) para \<and> r_status r' = para"
  by (auto simp: run_Transition_def Let_def dest: Valida_Some
        split: option.splits status.splits if_splits)

lemma run_Transition_Inl:
  "run_Transition r para agora = Inl e \<longleftrightarrow> Valida (r_status r) para = Some e"
  by (auto simp: run_Transition_def Let_def simp del: Valida_None split: option.splits)

section \<open>The stamps of a run\<close>

text \<open>
  What the stamps say of the state: a run waiting to start carries none, a run that
  has started carries its start, a finished one its end, and an end is never dated
  before its start when the clock does not go backwards.
\<close>

definition carimbos_ok :: "run \<Rightarrow> bool" where
  "carimbos_ok r \<longleftrightarrow>
     (r_status r \<in> {StatusCreated, StatusQueued} \<longrightarrow> r_iniciado r = None \<and> r_terminado r = None) \<and>
     (r_status r \<in> {StatusRunning, StatusFailed, StatusRetrying} \<longrightarrow>
        r_iniciado r \<noteq> None \<and> r_terminado r = None) \<and>
     (r_status r = StatusSuccess \<longrightarrow> r_iniciado r \<noteq> None) \<and>
     (Terminal (r_status r) \<longleftrightarrow> r_terminado r \<noteq> None)"

lemma run_Transition_carimbos:
  assumes "carimbos_ok r" and "run_Transition r para agora = Inr r'"
  shows "carimbos_ok r'"
proof -
  have p: "passo (r_status r) para" using run_Transition_Inr [OF assms(2)] by simp
  from p show ?thesis
    using assms
    by (cases rule: passo.cases)
       (auto simp: run_Transition_def Valida_def PodeIr_passo carimbos_ok_def Terminal_def
          passo.intros Let_def split: if_splits option.splits)
qed

text \<open>A whole life: transitions requested one after the other, refused ones changing nothing.\<close>

fun vida :: "run \<Rightarrow> (status \<times> time) list \<Rightarrow> run" where
  "vida r [] = r"
| "vida r ((s, t) # ps) =
     (case run_Transition r s t of Inl _ \<Rightarrow> vida r ps | Inr r' \<Rightarrow> vida r' ps)"

lemma vida_carimbos: "carimbos_ok r \<Longrightarrow> carimbos_ok (vida r ps)"
  by (induction r ps rule: vida.induct)
     (auto split: sum.splits intro: run_Transition_carimbos)

lemma vida_terminal: "Terminal (r_status r) \<Longrightarrow> vida r ps = r"
proof (induction r ps rule: vida.induct)
  case (2 r s t ps)
  have "\<not> passo (r_status r) s"
    using "2.prems" passo_nao_terminal by blast
  then obtain e where "run_Transition r s t = Inl e"
    by (cases "run_Transition r s t") (auto dest: run_Transition_Inr)
  with 2 show ?case by simp
qed simp

lemma vida_passos: "passo\<^sup>*\<^sup>* (r_status r) (r_status (vida r ps))"
proof (induction r ps rule: vida.induct)
  case (2 r s t ps)
  show ?case
  proof (cases "run_Transition r s t")
    case (Inl e)
    with "2.IH"(1) show ?thesis by simp
  next
    case (Inr r')
    from run_Transition_Inr [OF Inr] have "passo (r_status r) (r_status r')" by simp
    then have "passo\<^sup>*\<^sup>* (r_status r) (r_status (vida r' ps))"
      using "2.IH"(2) [OF Inr] by (rule converse_rtranclp_into_rtranclp)
    with Inr show ?thesis by simp
  qed
qed simp

section \<open>Properties\<close>

definition run_de_exemplo :: "status \<Rightarrow> run" where
  "run_de_exemplo s =
     \<lparr>r_id = 1, r_slug = ''bronze'', r_chave = ''bronze/1'', r_status = s, r_attempt = 0,
      r_definicao = workflow_vazio, r_trigger = ''manual'', r_params = [], r_max_ativos = 0,
      r_logical = None, r_criado = 5, r_iniciado = None, r_terminado = None, r_erro = []\<rparr>"

text \<open>
  C10: whatever sequence of transitions is requested of a run, refused ones included, the
  stamps keep telling its state (no start before it runs, a start while it runs, an end
  exactly when it is finished), the state moves along the declared graph only, and a
  finished run never changes again.
\<close>

theorem vida_da_run:
  assumes "carimbos_ok r"
  shows "carimbos_ok (vida r ps) \<and> passo\<^sup>*\<^sup>* (r_status r) (r_status (vida r ps)) \<and>
         (Terminal (r_status (vida r ps)) \<longrightarrow> vida r (ps @ qs) = vida r ps)"
proof -
  have "vida r (ps @ qs) = vida (vida r ps) qs"
    by (induction r ps rule: vida.induct) (auto split: sum.splits)
  then show ?thesis using vida_carimbos [OF assms] vida_passos vida_terminal by simp
qed

theorem vida_da_run_witness:
  "carimbos_ok (vida (run_de_exemplo StatusCreated)
     [(StatusQueued, 6), (StatusSuccess, 7), (StatusRunning, 8), (StatusFailed, 9),
      (StatusRetrying, 9), (StatusQueued, 10), (StatusRunning, 11), (StatusSuccess, 12)]) \<and>
   vida (run_de_exemplo StatusCreated) ([(StatusQueued, 6), (StatusCanceled, 7)] @ [(StatusRunning, 8)])
     = vida (run_de_exemplo StatusCreated) [(StatusQueued, 6), (StatusCanceled, 7)]"
proof -
  have ok: "carimbos_ok (run_de_exemplo StatusCreated)"
    by (simp add: carimbos_ok_def run_de_exemplo_def Terminal_def)
  have "Terminal (r_status (vida (run_de_exemplo StatusCreated) [(StatusQueued, 6), (StatusCanceled, 7)]))"
    by code_simp
  with vida_da_run [OF ok] show ?thesis by blast
qed

end
