(* ===== verification/Schedule.thy ===== *)
theory Schedule
  imports Prelude
begin

text \<open>
  \<open>internal/domain/schedule/schedule.go\<close>: which slots of a cron are still to be
  materialised. \<open>time.LoadLocation\<close> and the cron library are parameters: \<open>fuso\<close> says
  whether a zone exists, \<open>cron\<close> parses an expression in a zone and gives its \<open>Next\<close>.
  The library documents \<open>Next\<close> as an instant later than the given one, or the zero time
  when the expression never fires. The unbounded loop of the catch-up is a partial
  function, so that its termination is a theorem.
\<close>

section \<open>The model\<close>

datatype trigger = TriggerSchedule | TriggerManual | TriggerBackfill | TriggerAPI | TriggerRetry

fun texto_trigger :: "trigger \<Rightarrow> string" where
  "texto_trigger TriggerSchedule = ''schedule''"
| "texto_trigger TriggerManual = ''manual''"
| "texto_trigger TriggerBackfill = ''backfill''"
| "texto_trigger TriggerAPI = ''api''"
| "texto_trigger TriggerRetry = ''retry''"

record agenda =
  ag_slug :: string
  ag_cron :: string
  ag_timezone :: string
  ag_catchup :: bool
  ag_ativo :: bool
  ag_ultimo :: "time option"

datatype erro_agenda = TimezoneInvalido string | CronInvalido string

type_synonym fuso = "string \<Rightarrow> bool"
type_synonym cron = "string \<Rightarrow> string \<Rightarrow> (time \<Rightarrow> time) option"

definition agenda_Parse :: "fuso \<Rightarrow> cron \<Rightarrow> agenda \<Rightarrow> erro_agenda + (time \<Rightarrow> time)" where
  "agenda_Parse fuso cron s =
     (let tz = (if ag_timezone s = [] then ''UTC'' else ag_timezone s) in
      if \<not> fuso tz then Inl (TimezoneInvalido tz)
      else case cron (ag_cron s) tz of
             None \<Rightarrow> Inl (CronInvalido (ag_cron s))
           | Some next \<Rightarrow> Inr next)"

text \<open>The loop without catch-up: at most \<open>n\<close> steps, keeping the last slot that is not in the future.\<close>

fun varrer :: "(time \<Rightarrow> time) \<Rightarrow> time \<Rightarrow> nat \<Rightarrow> time \<Rightarrow> time \<Rightarrow> time" where
  "varrer next agora n de ultimo =
     (if n = 0 then ultimo
      else let prox = next de in
        if agora < prox then ultimo else varrer next agora (n - 1) prox prox)"

declare varrer.simps [simp del]

text \<open>The loop with catch-up. \<open>None\<close> is a loop that never ends.\<close>

partial_function (option) coletar ::
  "(time \<Rightarrow> time) \<Rightarrow> time \<Rightarrow> int \<Rightarrow> time \<Rightarrow> time list \<Rightarrow> (time list \<times> bool) option" where
  "coletar next agora limite de slots =
     (let prox = next de in
      if agora < prox then Some (slots, False)
      else let slots = slots @ [prox] in
        if 0 < limite \<and> limite \<le> int (length slots) then Some (slots, True)
        else coletar next agora limite prox slots)"

definition maxIter :: nat where
  "maxIter = 500000"

definition Slots :: "fuso \<Rightarrow> cron \<Rightarrow> agenda \<Rightarrow> time \<Rightarrow> int \<Rightarrow> (erro_agenda + time list \<times> bool) option" where
  "Slots fuso cron s agora limite =
     (if \<not> ag_ativo s then Some (Inr ([], False))
      else case agenda_Parse fuso cron s of
        Inl e \<Rightarrow> Some (Inl e)
      | Inr next \<Rightarrow>
          let de = (case ag_ultimo s of None \<Rightarrow> agora | Some u \<Rightarrow> u) in
          if \<not> ag_catchup s then
            (let ultimo = varrer next agora maxIter de tempo_zero in
             Some (Inr (if ultimo = tempo_zero then [] else [ultimo], False)))
          else map_option Inr (coletar next agora limite de []))"

definition Proximo :: "fuso \<Rightarrow> cron \<Rightarrow> agenda \<Rightarrow> time \<Rightarrow> erro_agenda + time" where
  "Proximo fuso cron s agora =
     (case agenda_Parse fuso cron s of Inl e \<Rightarrow> Inl e | Inr next \<Rightarrow> Inr (next agora))"

section \<open>The two loops\<close>

text \<open>The slots of a cron after \<open>de\<close>: the iterates of \<open>Next\<close>.\<close>

definition iterado :: "(time \<Rightarrow> time) \<Rightarrow> time \<Rightarrow> nat \<Rightarrow> time" where
  "iterado next de k = (next ^^ Suc k) de"

lemma iterado_0 [simp]: "iterado next de 0 = next de"
  by (simp add: iterado_def)

lemma iterado_Suc: "iterado next de (Suc k) = iterado next (next de) k"
  by (simp add: iterado_def funpow_swap1)

lemma iterado_Suc': "iterado next de (Suc k) = next (iterado next de k)"
  by (simp add: iterado_def)

lemma iterado_mono:
  assumes "\<And>t. t < next t" and "i < j"
  shows "iterado next de i < iterado next de j"
  using assms(2) by (induction j) (auto simp: iterado_Suc' less_Suc_eq intro: less_trans assms(1))

lemma iterado_depois: "(\<And>t. t < next t) \<Longrightarrow> de < iterado next de k"
  by (induction k) (auto simp: iterado_Suc' intro: less_trans)

lemma varrer_spec:
  "\<exists>k \<le> n. (\<forall>j < k. iterado next de j \<le> agora) \<and>
     varrer next agora n de ultimo = (if k = 0 then ultimo else iterado next de (k - 1)) \<and>
     (k = n \<or> agora < iterado next de k)"
proof (induction n arbitrary: de ultimo)
  case 0
  show ?case by (simp add: varrer.simps [of _ _ 0])
next
  case (Suc n)
  show ?case
  proof (cases "agora < next de")
    case True
    then show ?thesis by (intro exI [of _ 0]) (simp add: varrer.simps [of _ _ "Suc n"] Let_def)
  next
    case False
    from Suc.IH [of "next de" "next de"] obtain k where k: "k \<le> n"
      "\<forall>j < k. iterado next (next de) j \<le> agora"
      "varrer next agora n (next de) (next de) = (if k = 0 then next de else iterado next (next de) (k - 1))"
      "k = n \<or> agora < iterado next (next de) k" by blast
    have "\<forall>j < Suc k. iterado next de j \<le> agora"
    proof (intro allI impI)
      fix j assume "j < Suc k"
      with k(2) False show "iterado next de j \<le> agora" by (cases j) (auto simp: iterado_Suc)
    qed
    moreover have "varrer next agora (Suc n) de ultimo = iterado next de k"
      using False k(3) by (cases k) (simp_all add: varrer.simps [of _ _ "Suc n"] Let_def iterado_Suc)
    ultimately show ?thesis using k(1,4) by (intro exI [of _ "Suc k"]) (simp add: iterado_Suc)
  qed
qed

text \<open>The catch-up loop, on any input on which it ends.\<close>

definition coleta_ok :: "(time \<Rightarrow> time) \<Rightarrow> time \<Rightarrow> int \<Rightarrow> time \<Rightarrow> time list \<Rightarrow> time list \<times> bool \<Rightarrow> bool" where
  "coleta_ok next agora limite de slots r \<longleftrightarrow>
     (\<exists>k. fst r = slots @ map (iterado next de) [0..<k] \<and> (\<forall>j < k. iterado next de j \<le> agora) \<and>
          (snd r \<longrightarrow> 0 < limite) \<and> (\<not> snd r \<longrightarrow> agora < iterado next de k) \<and>
          (0 < limite \<longrightarrow> int (length slots) < limite \<longrightarrow>
             (if snd r then int (length slots + k) = limite else int (length slots + k) < limite)))"

lemma map_slot_Suc: "map (iterado next de) [0..<Suc k] = next de # map (iterado next (next de)) [0..<k]"
proof -
  have "[0..<Suc k] = 0 # map Suc [0..<k]" by (simp add: map_Suc_upt upt_conv_Cons del: upt_Suc)
  then show ?thesis by (simp add: iterado_Suc comp_def del: upt_Suc)
qed

lemma coleta_ok_passo:
  assumes nao: "\<not> agora < next de" and segue: "\<not> (0 < limite \<and> limite \<le> int (length (slots @ [next de])))"
    and r: "coleta_ok next agora limite (next de) (slots @ [next de]) r"
  shows "coleta_ok next agora limite de slots r"
proof -
  from r obtain k where k: "fst r = (slots @ [next de]) @ map (iterado next (next de)) [0..<k]"
    "\<forall>j < k. iterado next (next de) j \<le> agora" "snd r \<longrightarrow> 0 < limite"
    "\<not> snd r \<longrightarrow> agora < iterado next (next de) k"
    "0 < limite \<longrightarrow> int (length (slots @ [next de])) < limite \<longrightarrow>
       (if snd r then int (length (slots @ [next de]) + k) = limite
        else int (length (slots @ [next de]) + k) < limite)"
    unfolding coleta_ok_def by blast
  have "\<forall>j < Suc k. iterado next de j \<le> agora"
  proof (intro allI impI)
    fix j assume "j < Suc k"
    with k(2) nao show "iterado next de j \<le> agora" by (cases j) (auto simp: iterado_Suc)
  qed
  moreover have "fst r = slots @ map (iterado next de) [0..<Suc k]"
    using k(1) by (simp add: map_slot_Suc del: upt_Suc)
  ultimately show ?thesis
    unfolding coleta_ok_def using k(3-5) segue
    by (intro exI [of _ "Suc k"]) (auto simp: iterado_Suc split: if_splits)
qed

lemma coletar_ok:
  assumes "coletar next agora limite de slots = Some r"
  shows "coleta_ok next agora limite de slots r"
proof (rule coletar.raw_induct [OF _ assms])
  fix rec :: "(time \<Rightarrow> time) \<Rightarrow> time \<Rightarrow> int \<Rightarrow> time \<Rightarrow> time list \<Rightarrow> (time list \<times> bool) option"
    and nxt agora limite de slots r
  assume IH: "\<And>nxt agora limite de slots r. rec nxt agora limite de slots = Some r \<Longrightarrow>
        coleta_ok nxt agora limite de slots r"
    and b: "(let prox = nxt de in
      if agora < prox then Some (slots, False)
      else let slots = slots @ [prox] in
        if 0 < limite \<and> limite \<le> int (length slots) then Some (slots, True)
        else rec nxt agora limite prox slots) = Some r"
  show "coleta_ok nxt agora limite de slots r"
  proof (cases "agora < nxt de")
    case True
    with b have "r = (slots, False)" by simp
    with True show ?thesis
      unfolding coleta_ok_def by (intro exI [of _ 0]) simp
  next
    case nao: False
    show ?thesis
    proof (cases "0 < limite \<and> limite \<le> int (length (slots @ [nxt de]))")
      case True
      with b nao have "r = (slots @ [nxt de], True)" by (simp add: Let_def)
      with True nao show ?thesis
        unfolding coleta_ok_def by (intro exI [of _ 1]) auto
    next
      case False
      with b nao have "rec nxt agora limite (nxt de) (slots @ [nxt de]) = Some r"
        by (auto simp: Let_def)
      from coleta_ok_passo [OF nao False IH [OF this]] show ?thesis .
    qed
  qed
qed

lemma coletar_vazio:
  assumes "coletar nxt agora limite de [] = Some r" and "0 < limite"
  shows "\<exists>k. fst r = map (iterado nxt de) [0..<k] \<and> (\<forall>j < k. iterado nxt de j \<le> agora) \<and>
    (\<not> snd r \<longrightarrow> agora < iterado nxt de k) \<and> (if snd r then int k = limite else int k < limite)"
  using coletar_ok [OF assms(1)] assms(2)
  by (simp only: coleta_ok_def list.size append_Nil add_0 of_nat_0) blast

text \<open>It ends when time advances, and it ends under a limit even when it does not.\<close>

lemma coletar_termina_cron:
  assumes "\<And>t. t < next t"
  shows "\<exists>r. coletar next agora limite de slots = Some r"
proof (induction "nat (agora - de)" arbitrary: de slots rule: less_induct)
  case less
  show ?case
  proof (cases "agora < next de")
    case True
    then show ?thesis by (subst coletar.simps) (simp add: ex_bool_eq)
  next
    case False
    then have "nat (agora - next de) < nat (agora - de)" using assms [of de] by simp
    from less [OF this] False show ?thesis by (subst coletar.simps) (auto simp: Let_def)
  qed
qed

lemma coletar_termina_limite:
  assumes "0 < limite"
  shows "\<exists>r. coletar next agora limite de slots = Some r"
proof (induction "nat (limite - int (length slots))" arbitrary: de slots rule: less_induct)
  case less
  show ?case
  proof (cases "limite \<le> int (length (slots @ [next de]))")
    case True
    then show ?thesis using assms by (subst coletar.simps) (simp add: Let_def ex_bool_eq)
  next
    case False
    then have "nat (limite - int (length (slots @ [next de]))) < nat (limite - int (length slots))" by simp
    from less [OF this] show ?thesis by (subst coletar.simps) (auto simp: Let_def)
  qed
qed

text \<open>Without catch-up, a cron that advances gives the latest slot within the sweep.\<close>

lemma varrer_ultimo:
  assumes "\<And>t. t < nxt t" and "tempo_zero \<le> de"
  shows "\<exists>k \<le> n. (\<forall>j < k. iterado nxt de j \<le> agora) \<and> (k = n \<or> agora < iterado nxt de k) \<and>
    (if k = 0 then varrer nxt agora n de tempo_zero = tempo_zero
     else varrer nxt agora n de tempo_zero = iterado nxt de (k - 1) \<and> iterado nxt de (k - 1) \<noteq> tempo_zero)"
proof -
  obtain k where k: "k \<le> n" "\<forall>j < k. iterado nxt de j \<le> agora"
    "varrer nxt agora n de tempo_zero = (if k = 0 then tempo_zero else iterado nxt de (k - 1))"
    "k = n \<or> agora < iterado nxt de k"
    using varrer_spec by blast
  have "iterado nxt de (k - 1) \<noteq> tempo_zero"
    using iterado_depois [OF assms(1), of de "k - 1"] assms(2) by simp
  with k show ?thesis by (intro exI [of _ k]) simp
qed

lemma slots_catchup:
  assumes "agenda_Parse fuso cron s = Inr nxt" and "\<And>t. t < nxt t"
    and "ag_ativo s" and "ag_catchup s" and "ag_ultimo s = Some u" and "0 < limite"
  shows "\<exists>k trunc. Slots fuso cron s agora limite = Some (Inr (map (iterado nxt u) [0..<k], trunc)) \<and>
    (\<forall>j < k. u < iterado nxt u j \<and> iterado nxt u j \<le> agora) \<and>
    (if trunc then int k = limite else int k < limite \<and> agora < iterado nxt u k)"
proof -
  obtain r where r: "coletar nxt agora limite u [] = Some r"
    using coletar_termina_cron [OF assms(2)] by blast
  have S: "Slots fuso cron s agora limite = Some (Inr r)"
    using assms r by (simp add: Slots_def)
  from coletar_vazio [OF r assms(6)] obtain k where
    k: "fst r = map (iterado nxt u) [0..<k]" "\<forall>j < k. iterado nxt u j \<le> agora"
      "if snd r then int k = limite else int k < limite" "\<not> snd r \<longrightarrow> agora < iterado nxt u k"
    by blast
  have "\<forall>j < k. u < iterado nxt u j" using iterado_depois [OF assms(2)] by blast
  with S k show ?thesis by (intro exI [of _ k] exI [of _ "snd r"]) (cases r; auto)
qed

section \<open>Properties\<close>

definition de_hora_em_hora :: cron where
  "de_hora_em_hora c tz = (if c = ''0 * * * *'' then Some (\<lambda>t. t + 3600000000000 - t mod 3600000000000) else None)"

definition agenda_de_exemplo :: "bool \<Rightarrow> time option \<Rightarrow> agenda" where
  "agenda_de_exemplo catchup u =
     \<lparr>ag_slug = ''bronze'', ag_cron = ''0 * * * *'', ag_timezone = [], ag_catchup = catchup,
      ag_ativo = True, ag_ultimo = u\<rparr>"

lemma de_hora_em_hora_avanca:
  "agenda_Parse (\<lambda>_. True) de_hora_em_hora (agenda_de_exemplo c u) = Inr (\<lambda>t. t + 3600000000000 - t mod 3600000000000)"
  "t < t + 3600000000000 - t mod (3600000000000 :: int)"
  by (simp_all add: agenda_Parse_def de_hora_em_hora_def agenda_de_exemplo_def)



text \<open>
  Without catch-up, \<open>Slots\<close> gives at most one slot. It gives none exactly when no slot
  fell due after the marker, and otherwise the latest one that did, among the first
  500000.
\<close>

theorem Slots_sem_catchup:
  assumes "agenda_Parse fuso cron s = Inr nxt" and "\<And>t. t < nxt t"
    and "ag_ativo s" and "\<not> ag_catchup s" and "ag_ultimo s = Some u" and "tempo_zero \<le> u"
  shows "\<exists>k \<le> maxIter. (\<forall>j < k. iterado nxt u j \<le> agora) \<and> (k = maxIter \<or> agora < iterado nxt u k) \<and>
    Slots fuso cron s agora limite =
      Some (Inr (if k = 0 then [] else [iterado nxt u (k - 1)], False))"
proof -
  from varrer_ultimo [OF assms(2,6), of maxIter agora] obtain k where k: "k \<le> maxIter"
    "\<forall>j < k. iterado nxt u j \<le> agora" "k = maxIter \<or> agora < iterado nxt u k"
    "if k = 0 then varrer nxt agora maxIter u tempo_zero = tempo_zero
     else varrer nxt agora maxIter u tempo_zero = iterado nxt u (k - 1) \<and> iterado nxt u (k - 1) \<noteq> tempo_zero"
    by blast
  with assms(1,3,4,5) show ?thesis
    by (intro exI [of _ k]) (auto simp: Slots_def Let_def split: if_splits)
qed

theorem Slots_sem_catchup_witness:
  "\<exists>k \<le> maxIter. Slots (\<lambda>_. True) de_hora_em_hora (agenda_de_exemplo False (Some 0)) 9000000000000 100 =
      Some (Inr (if k = 0 then [] else [iterado (\<lambda>t. t + 3600000000000 - t mod 3600000000000) 0 (k - 1)], False))"
  using Slots_sem_catchup [OF de_hora_em_hora_avanca, of False "Some 0" 0 9000000000000 100]
  by (auto simp: agenda_de_exemplo_def tempo_zero_def)

text \<open>
  An expression that never fires makes the library return the zero time, which is not
  after any present instant: with catch-up, \<open>Slots\<close> then reports \<open>limite\<close> slots, all of
  them the zero time.
\<close>

theorem Slots_data_impossivel:
  assumes "agenda_Parse fuso cron s = Inr (\<lambda>_. tempo_zero)" and "ag_ativo s" and "ag_catchup s"
    and "0 < limite" and "tempo_zero \<le> agora"
  shows "Slots fuso cron s agora limite = Some (Inr (replicate (nat limite) tempo_zero, True))"
proof -
  let ?u = "case ag_ultimo s of None \<Rightarrow> agora | Some u \<Rightarrow> u"
  obtain r where r: "coletar (\<lambda>_. tempo_zero) agora limite ?u [] = Some r"
    using coletar_termina_limite [OF assms(4)] by blast
  have "iterado (\<lambda>_. tempo_zero) ?u = (\<lambda>_. tempo_zero)" by (simp add: iterado_def fun_eq_iff)
  with coletar_vazio [OF r assms(4)] obtain k where
    "fst r = replicate k tempo_zero" "\<not> snd r \<longrightarrow> agora < tempo_zero"
    "if snd r then int k = limite else int k < limite"
    by (auto simp: map_replicate_const)
  with assms(5) have "r = (replicate (nat limite) tempo_zero, True)" by (cases r) auto
  with r assms show ?thesis by (simp add: Slots_def)
qed

theorem Slots_data_impossivel_witness:
  "Slots (\<lambda>_. True) (\<lambda>_ _. Some (\<lambda>_. tempo_zero)) (agenda_de_exemplo True None) 0 2
     = Some (Inr ([tempo_zero, tempo_zero], True))"
proof -
  have "Slots (\<lambda>_. True) (\<lambda>_ _. Some (\<lambda>_. tempo_zero)) (agenda_de_exemplo True None) 0 2
     = Some (Inr (replicate (nat 2) tempo_zero, True))"
    by (rule Slots_data_impossivel)
      (simp_all add: agenda_Parse_def agenda_de_exemplo_def tempo_zero_def)
  then show ?thesis by (simp add: numeral_2_eq_2)
qed

end
