(* ===== verification/Store.thy ===== *)
theory Store
  imports RunState Schedule "HOL-Library.Product_Lexorder"
begin

text \<open>
  The tables of the database (\<open>migrations\<close>) and the repositories that write them:
  \<open>runs.go\<close>, \<open>taskruns.go\<close> and \<open>schedules.go\<close> of \<open>internal/infrastructure/postgres\<close>.
  A table is the list of its rows; one statement or transaction is one step. \<open>now()\<close> and
  \<open>time.Now()\<close> are the argument \<open>agora\<close>, \<open>uuid.New()\<close> the argument \<open>novo\<close>, and 0 is
  \<open>uuid.Nil\<close>. Loss of the connection is not modelled.
\<close>

section \<open>The tables\<close>

record item =
  i_id :: nat
  i_run :: nat
  i_prioridade :: int
  i_disponivel :: time
  i_reivindicado :: "time option"
  i_por :: "string option"

record publicado =
  pb_projeto :: nat
  pb_slug :: string
  pb_name :: string
  pb_definicao :: workflow

record banco =
  db_runs :: "run list"
  db_tasks :: "taskrun list"
  db_itens :: "item list"
  db_seq :: nat                      \<comment> \<open>the sequence of \<open>queue_items.id\<close>\<close>
  db_agendas :: "agenda list"
  db_workflows :: "publicado list"

definition banco_vazio :: banco where
  "banco_vazio =
     \<lparr>db_runs = [], db_tasks = [], db_itens = [], db_seq = 1, db_agendas = [], db_workflows = []\<rparr>"

text \<open>The keys and references the migrations declare.\<close>

definition chave_task :: "taskrun \<Rightarrow> nat \<times> string \<times> int" where
  "chave_task t = (t_run t, t_node t, t_attempt t)"

definition runs_ok :: "run list \<Rightarrow> bool" where
  "runs_ok rs \<longleftrightarrow> distinct (map r_id rs) \<and> distinct (map r_chave rs)"

definition tasks_ok :: "nat list \<Rightarrow> taskrun list \<Rightarrow> bool" where
  "tasks_ok ids ts \<longleftrightarrow> distinct (map chave_task ts) \<and> t_run ` set ts \<subseteq> set ids"

definition itens_ok :: "nat list \<Rightarrow> nat \<Rightarrow> item list \<Rightarrow> bool" where
  "itens_ok ids seq qs \<longleftrightarrow>
     distinct (map i_id qs) \<and> distinct (map i_run qs) \<and> i_run ` set qs \<subseteq> set ids \<and>
     (\<forall>q \<in> set qs. i_id q < seq)"

definition agendas_ok :: "agenda list \<Rightarrow> bool" where
  "agendas_ok as \<longleftrightarrow> distinct (map ag_slug as)"

definition workflows_ok :: "publicado list \<Rightarrow> bool" where
  "workflows_ok ps \<longleftrightarrow> distinct (map (\<lambda>p. (pb_projeto p, pb_slug p)) ps)"

definition banco_ok :: "banco \<Rightarrow> bool" where
  "banco_ok b \<longleftrightarrow>
     runs_ok (db_runs b) \<and> tasks_ok (map r_id (db_runs b)) (db_tasks b) \<and>
     itens_ok (map r_id (db_runs b)) (db_seq b) (db_itens b) \<and>
     agendas_ok (db_agendas b) \<and> workflows_ok (db_workflows b)"

lemmas tabelas = runs_ok_def tasks_ok_def itens_ok_def agendas_ok_def workflows_ok_def

datatype erro_db =
    JaExiste
  | RunNaoExiste nat
  | TransicaoRecusada nat erro_status
  | SemLinhas
  | ChaveEstrangeira

section \<open>runs.go\<close>

definition buscar_run :: "nat \<Rightarrow> banco \<Rightarrow> run option" where
  "buscar_run x b = find (\<lambda>r. r_id r = x) (db_runs b)"

definition atualiza_run :: "nat \<Rightarrow> (run \<Rightarrow> run) \<Rightarrow> banco \<Rightarrow> banco" where
  "atualiza_run x f b = b\<lparr>db_runs := map (\<lambda>r. if r_id r = x then f r else r) (db_runs b)\<rparr>"

text \<open>\<open>Criar\<close>: the defaults of the source, then the insert. Both unique keys raise 23505.\<close>

definition com_padroes :: "nat \<Rightarrow> run \<Rightarrow> run" where
  "com_padroes novo r =
     (let r = (if r_id r = 0 then r\<lparr>r_id := novo\<rparr> else r);
          r = (if r_status r = StatusOutro [] then r\<lparr>r_status := StatusCreated\<rparr> else r)
      in if r_trigger r = [] then r\<lparr>r_trigger := ''manual''\<rparr> else r)"

definition linha_da_run :: "time \<Rightarrow> run \<Rightarrow> run" where
  "linha_da_run agora r =
     r\<lparr>r_criado := agora, r_erro := [], r_iniciado := None, r_terminado := None\<rparr>"

definition Criar :: "nat \<Rightarrow> time \<Rightarrow> run \<Rightarrow> banco \<Rightarrow> (erro_db + run) \<times> banco" where
  "Criar novo agora r b =
     (let r = com_padroes novo r in
      if r_id r \<in> r_id ` set (db_runs b) \<or> r_chave r \<in> r_chave ` set (db_runs b) then (Inl JaExiste, b)
      else (Inr (r\<lparr>r_criado := agora\<rparr>), b\<lparr>db_runs := db_runs b @ [linha_da_run agora r]\<rparr>))"

text \<open>SQL's \<open>COALESCE\<close> of two values.\<close>

definition coalesce :: "'a option \<Rightarrow> 'a option \<Rightarrow> 'a option" where
  "coalesce a b = (case a of Some x \<Rightarrow> Some x | None \<Rightarrow> b)"

text \<open>The row the \<open>UPDATE\<close> of \<open>Transicionar\<close> writes.\<close>

definition linha_transicionada :: "status \<Rightarrow> time \<Rightarrow> run \<Rightarrow> run" where
  "linha_transicionada para agora r =
     (let iniciado = (case para of StatusRunning \<Rightarrow> Some agora | _ \<Rightarrow> None);
          terminado = (case para of StatusSuccess \<Rightarrow> Some agora | StatusCanceled \<Rightarrow> Some agora | _ \<Rightarrow> None)
      in r\<lparr>r_status := para,
           r_iniciado := coalesce iniciado (if para = StatusQueued then None else r_iniciado r),
           r_terminado := coalesce terminado (if para = StatusQueued then None else r_terminado r)\<rparr>)"

definition Transicionar :: "nat \<Rightarrow> status \<Rightarrow> time \<Rightarrow> banco \<Rightarrow> erro_db option \<times> banco" where
  "Transicionar x para agora b =
     (case buscar_run x b of
        None \<Rightarrow> (Some (RunNaoExiste x), b)
      | Some atual \<Rightarrow>
          (case Valida (r_status atual) para of
             Some e \<Rightarrow> (Some (TransicaoRecusada x e), b)
           | None \<Rightarrow> (None, atualiza_run x (linha_transicionada para agora) b)))"

definition IncrementarTentativa :: "nat \<Rightarrow> banco \<Rightarrow> (erro_db + int) \<times> banco" where
  "IncrementarTentativa x b =
     (case buscar_run x b of
        None \<Rightarrow> (Inl SemLinhas, b)
      | Some r \<Rightarrow> (Inr (r_attempt r + 1), atualiza_run x (\<lambda>r. r\<lparr>r_attempt := r_attempt r + 1\<rparr>) b))"

definition RegistrarErro :: "nat \<Rightarrow> string \<Rightarrow> banco \<Rightarrow> banco" where
  "RegistrarErro x msg b = atualiza_run x (\<lambda>r. r\<lparr>r_erro := msg\<rparr>) b"

definition Buscar :: "nat \<Rightarrow> banco \<Rightarrow> erro_db + run" where
  "Buscar x b = (case buscar_run x b of None \<Rightarrow> Inl SemLinhas | Some r \<Rightarrow> Inr r)"

text \<open>The two \<open>GROUP BY\<close> counts.\<close>

definition agrupar :: "('a \<Rightarrow> 'k) \<Rightarrow> 'a list \<Rightarrow> ('k \<times> nat) list" where
  "agrupar k xs = map (\<lambda>v. (v, length (filter (\<lambda>x. k x = v) xs))) (remdups (map k xs))"

definition ContarPorStatus :: "banco \<Rightarrow> (status \<times> nat) list" where
  "ContarPorStatus b = agrupar r_status (db_runs b)"

definition ContarPorTrigger :: "banco \<Rightarrow> (string \<times> nat) list" where
  "ContarPorTrigger b = agrupar r_trigger (db_runs b)"

section \<open>taskruns.go\<close>

definition IniciarTask :: "nat \<Rightarrow> string \<Rightarrow> int \<Rightarrow> time \<Rightarrow> banco \<Rightarrow> erro_db option \<times> banco" where
  "IniciarTask x nid tentativa agora b =
     (if (x, nid, tentativa) \<in> chave_task ` set (db_tasks b) then
        (None, b\<lparr>db_tasks := map (\<lambda>t. if chave_task t = (x, nid, tentativa)
            then t\<lparr>t_status := StatusRunning, t_iniciado := Some agora, t_terminado := None, t_erro := []\<rparr>
            else t) (db_tasks b)\<rparr>)
      else if x \<notin> r_id ` set (db_runs b) then (Some ChaveEstrangeira, b)
      else (None, b\<lparr>db_tasks := db_tasks b @
          [\<lparr>t_run = x, t_node = nid, t_status = StatusRunning, t_attempt = tentativa, t_exit = None,
            t_iniciado = Some agora, t_terminado = None, t_erro = [], t_log = []\<rparr>]\<rparr>))"

definition TerminarTask ::
  "nat \<Rightarrow> string \<Rightarrow> int \<Rightarrow> status \<Rightarrow> int option \<Rightarrow> string \<Rightarrow> string \<Rightarrow> time \<Rightarrow> banco \<Rightarrow> banco" where
  "TerminarTask x nid tentativa st exit erro log agora b =
     b\<lparr>db_tasks := map (\<lambda>t. if chave_task t = (x, nid, tentativa)
         then t\<lparr>t_status := st, t_exit := exit, t_erro := erro, t_log := log, t_terminado := Some agora\<rparr>
         else t) (db_tasks b)\<rparr>"

definition PassoJaTeveSucesso :: "string \<Rightarrow> string \<Rightarrow> nat \<Rightarrow> banco \<Rightarrow> bool" where
  "PassoJaTeveSucesso slug nid exceto b =
     list_ex (\<lambda>t. (case buscar_run (t_run t) b of None \<Rightarrow> False | Some rn \<Rightarrow> r_slug rn = slug) \<and>
        t_node t = nid \<and> t_run t \<noteq> exceto \<and> t_status t = StatusSuccess) (db_tasks b)"

text \<open>\<open>Duration.Milliseconds\<close> truncates toward zero.\<close>

definition milissegundos :: "time \<Rightarrow> int" where
  "milissegundos d = (if d < 0 then - ((- d) div 1000000) else d div 1000000)"

record estado_no =
  en_node :: string
  en_status :: status
  en_tentativa :: int
  en_exit :: "int option"
  en_erro :: string
  en_duracao :: int

definition estado_da_task :: "taskrun \<Rightarrow> estado_no" where
  "estado_da_task t =
     \<lparr>en_node = t_node t, en_status = t_status t, en_tentativa = t_attempt t, en_exit = t_exit t,
      en_erro = t_erro t,
      en_duracao = (case (t_iniciado t, t_terminado t) of
          (Some i, Some f) \<Rightarrow> milissegundos (f - i) | _ \<Rightarrow> 0)\<rparr>"

text \<open>\<open>DISTINCT ON (node_id) ... ORDER BY node_id, attempt DESC\<close>\<close>

definition EstadoDosNos :: "nat \<Rightarrow> banco \<Rightarrow> (string \<times> estado_no) list" where
  "EstadoDosNos x b =
     (let ts = filter (\<lambda>t. t_run t = x) (db_tasks b) in
      map (\<lambda>nid. (nid, estado_da_task (hd (sort_key (\<lambda>t. - t_attempt t) (filter (\<lambda>t. t_node t = nid) ts)))))
        (remdups (map t_node ts)))"

definition valor_ou :: "'a \<Rightarrow> 'a option \<Rightarrow> 'a" where
  "valor_ou d x = (case x of None \<Rightarrow> d | Some v \<Rightarrow> v)"

text \<open>The cast of fractional milliseconds to \<open>bigint\<close> rounds half away from zero.\<close>

definition milissegundos_sql :: "time \<Rightarrow> int" where
  "milissegundos_sql d =
     (if d < 0 then - ((- d + 500000) div 1000000) else (d + 500000) div 1000000)"

record log_do_passo =
  lp_node :: string
  lp_tentativa :: int
  lp_status :: status
  lp_exit :: "int option"
  lp_erro :: string
  lp_log :: string
  lp_duracao :: int

text \<open>The text order of the column is the argument \<open>col\<close> (the collation of the database).\<close>

definition LogsDaRun :: "(string \<Rightarrow> 'k::linorder) \<Rightarrow> nat \<Rightarrow> banco \<Rightarrow> log_do_passo list" where
  "LogsDaRun col x b =
     map (\<lambda>t. \<lparr>lp_node = t_node t, lp_tentativa = t_attempt t, lp_status = t_status t, lp_exit = t_exit t,
              lp_erro = t_erro t, lp_log = t_log t,
              lp_duracao = (case (t_iniciado t, t_terminado t) of
                  (Some i, Some f) \<Rightarrow> milissegundos_sql (f - i) | _ \<Rightarrow> 0)\<rparr>)
       (sort_key (\<lambda>t. ((t_iniciado t = None, valor_ou 0 (t_iniciado t)), col (t_node t), t_attempt t))
         (filter (\<lambda>t. t_run t = x) (db_tasks b)))"

definition PassoQueFalhou :: "nat \<Rightarrow> banco \<Rightarrow> string \<times> string" where
  "PassoQueFalhou x b =
     (case sort_key (\<lambda>t. ((t_iniciado t = None, - valor_ou 0 (t_iniciado t)), - t_attempt t))
             (filter (\<lambda>t. t_run t = x \<and> t_status t = StatusFailed) (db_tasks b)) of
        [] \<Rightarrow> ([], []) | t # _ \<Rightarrow> (t_node t, t_log t))"

section \<open>schedules.go\<close>

definition buscar_agenda :: "string \<Rightarrow> banco \<Rightarrow> agenda option" where
  "buscar_agenda slug b = find (\<lambda>a. ag_slug a = slug) (db_agendas b)"

definition atualiza_agenda :: "string \<Rightarrow> (agenda \<Rightarrow> agenda) \<Rightarrow> banco \<Rightarrow> banco" where
  "atualiza_agenda slug f b =
     b\<lparr>db_agendas := map (\<lambda>a. if ag_slug a = slug then f a else a) (db_agendas b)\<rparr>"

definition apagar_agendas :: "(string \<Rightarrow> bool) \<Rightarrow> banco \<Rightarrow> banco" where
  "apagar_agendas P b = b\<lparr>db_agendas := filter (\<lambda>a. \<not> P (ag_slug a)) (db_agendas b)\<rparr>"

text \<open>
  \<open>Publicar\<close>: the upsert of the workflow, then the deletion or the upsert of its agenda;
  the update keeps \<open>ativo\<close> and \<open>ultimo_slot\<close>.
\<close>

definition publicar_workflow :: "workflow \<Rightarrow> nat \<Rightarrow> banco \<Rightarrow> banco" where
  "publicar_workflow w projeto b =
     (let linha = \<lparr>pb_projeto = projeto, pb_slug = wf_slug w, pb_name = wf_name w, pb_definicao = w\<rparr> in
      if (projeto, wf_slug w) \<in> (\<lambda>p. (pb_projeto p, pb_slug p)) ` set (db_workflows b)
      then b\<lparr>db_workflows := map (\<lambda>p. if pb_projeto p = projeto \<and> pb_slug p = wf_slug w
               then linha else p) (db_workflows b)\<rparr>
      else b\<lparr>db_workflows := db_workflows b @ [linha]\<rparr>)"

definition Publicar :: "workflow \<Rightarrow> nat \<Rightarrow> banco \<Rightarrow> banco" where
  "Publicar w projeto b =
     (let b = publicar_workflow w projeto b in
      if wf_schedule w = [] then apagar_agendas (\<lambda>s. s = wf_slug w) b
      else if wf_slug w \<in> ag_slug ` set (db_agendas b)
      then atualiza_agenda (wf_slug w)
             (\<lambda>a. a\<lparr>ag_cron := wf_schedule w, ag_timezone := ''UTC'', ag_catchup := False\<rparr>) b
      else b\<lparr>db_agendas := db_agendas b @
             [\<lparr>ag_slug = wf_slug w, ag_cron = wf_schedule w, ag_timezone = ''UTC'', ag_catchup = False,
               ag_ativo = True, ag_ultimo = None\<rparr>]\<rparr>)"

definition Definicao :: "string \<Rightarrow> banco \<Rightarrow> erro_db + workflow" where
  "Definicao slug b =
     (case find (\<lambda>p. pb_slug p = slug) (db_workflows b) of
        None \<Rightarrow> Inl SemLinhas | Some p \<Rightarrow> Inr (pb_definicao p))"

text \<open>\<open>Podar\<close>: the workflows of the project outside the list go, and their agendas with them.\<close>

definition Podar :: "nat \<Rightarrow> string list \<Rightarrow> banco \<Rightarrow> string list \<times> banco" where
  "Podar projeto manter b =
     (let sai = (\<lambda>p. pb_projeto p = projeto \<and> pb_slug p \<notin> set manter);
          removidos = map pb_slug (filter sai (db_workflows b));
          b = b\<lparr>db_workflows := filter (\<lambda>p. \<not> sai p) (db_workflows b)\<rparr>
      in if removidos = [] then ([], b)
         else (removidos, apagar_agendas (\<lambda>s. s \<in> set removidos) b))"

definition Ativas :: "banco \<Rightarrow> agenda list" where
  "Ativas b = filter ag_ativo (db_agendas b)"

definition DefinirAtivo :: "string \<Rightarrow> bool \<Rightarrow> banco \<Rightarrow> (erro_db + bool) \<times> banco" where
  "DefinirAtivo slug ativo b =
     (case buscar_agenda slug b of
        None \<Rightarrow> (Inl SemLinhas, b)
      | Some a \<Rightarrow> (Inr ativo, atualiza_agenda slug (\<lambda>a. a\<lparr>ag_ativo := ativo\<rparr>) b))"

definition Alternar :: "string \<Rightarrow> banco \<Rightarrow> (erro_db + bool) \<times> banco" where
  "Alternar slug b =
     (case buscar_agenda slug b of
        None \<Rightarrow> (Inl SemLinhas, b)
      | Some a \<Rightarrow> (Inr (\<not> ag_ativo a), atualiza_agenda slug (\<lambda>a. a\<lparr>ag_ativo := \<not> ag_ativo a\<rparr>) b))"

definition AvancarSlot :: "string \<Rightarrow> time \<Rightarrow> banco \<Rightarrow> banco" where
  "AvancarSlot slug slot b =
     atualiza_agenda slug (\<lambda>a. case ag_ultimo a of
         None \<Rightarrow> a\<lparr>ag_ultimo := Some slot\<rparr>
       | Some u \<Rightarrow> if u < slot then a\<lparr>ag_ultimo := Some slot\<rparr> else a) b"

section \<open>Lemmas: the tables stay consistent\<close>

named_theorems banco_lib \<open>what each statement leaves of the tables\<close>

definition status_de :: "banco \<Rightarrow> nat \<Rightarrow> status option" where
  "status_de b x = map_option r_status (buscar_run x b)"

lemma buscar_run_SomeD: "buscar_run x b = Some r \<Longrightarrow> r \<in> set (db_runs b) \<and> r_id r = x"
  by (auto simp: buscar_run_def find_Some_iff)

lemma buscar_run_None_iff: "buscar_run x b = None \<longleftrightarrow> x \<notin> r_id ` set (db_runs b)"
  by (auto simp: buscar_run_def find_None_iff)

lemma find_map_mesma_chave:
  "(\<And>r. k (f r) = k r) \<Longrightarrow>
   find (\<lambda>r. k r = x) (map (\<lambda>r. if k r = y then f r else r) xs) =
   map_option (\<lambda>r. if k r = y then f r else r) (find (\<lambda>r. k r = x) xs)"
  by (induction xs) auto

lemma buscar_atualiza [banco_lib]:
  assumes "\<And>r. r_id (f r) = r_id r"
  shows "buscar_run x (atualiza_run y f b) =
    (if x = y then map_option f (buscar_run x b) else buscar_run x b)"
proof -
  have e: "buscar_run x (atualiza_run y f b) =
      map_option (\<lambda>r. if r_id r = y then f r else r) (buscar_run x b)"
    unfolding buscar_run_def atualiza_run_def by (simp add: find_map_mesma_chave assms)
  show ?thesis
    unfolding e by (cases "buscar_run x b") (auto dest: buscar_run_SomeD)
qed

lemma atualiza_run_campos [simp]:
  "db_tasks (atualiza_run x f b) = db_tasks b" "db_itens (atualiza_run x f b) = db_itens b"
  "db_seq (atualiza_run x f b) = db_seq b" "db_agendas (atualiza_run x f b) = db_agendas b"
  "db_workflows (atualiza_run x f b) = db_workflows b"
  by (simp_all add: atualiza_run_def)

lemma atualiza_run_ok:
  assumes "\<And>r. r_id (f r) = r_id r" and "\<And>r. r_chave (f r) = r_chave r"
  shows "banco_ok (atualiza_run x f b) \<longleftrightarrow> banco_ok b"
proof -
  have "map r_id (db_runs (atualiza_run x f b)) = map r_id (db_runs b)"
    "map r_chave (db_runs (atualiza_run x f b)) = map r_chave (db_runs b)"
    by (simp_all add: atualiza_run_def assms)
  then show ?thesis by (simp only: banco_ok_def runs_ok_def atualiza_run_campos)
qed

lemma linha_transicionada_campos [simp]:
  "r_id (linha_transicionada p a r) = r_id r" "r_chave (linha_transicionada p a r) = r_chave r"
  "r_slug (linha_transicionada p a r) = r_slug r" "r_status (linha_transicionada p a r) = p"
  "r_max_ativos (linha_transicionada p a r) = r_max_ativos r"
  "r_attempt (linha_transicionada p a r) = r_attempt r"
  by (simp_all add: linha_transicionada_def Let_def)

lemma Transicionar_ok: "banco_ok b \<Longrightarrow> banco_ok (snd (Transicionar x para agora b))"
  by (auto simp: Transicionar_def atualiza_run_ok Let_def split: option.splits)

lemma IncrementarTentativa_ok: "banco_ok b \<Longrightarrow> banco_ok (snd (IncrementarTentativa x b))"
  by (auto simp: IncrementarTentativa_def atualiza_run_ok split: option.splits)

lemma RegistrarErro_ok: "banco_ok b \<Longrightarrow> banco_ok (RegistrarErro x msg b)"
  by (simp add: RegistrarErro_def atualiza_run_ok)

lemma linha_da_run_campos [simp]:
  "r_id (linha_da_run agora r) = r_id r" "r_chave (linha_da_run agora r) = r_chave r"
  "r_status (linha_da_run agora r) = r_status r" "r_slug (linha_da_run agora r) = r_slug r"
  "r_max_ativos (linha_da_run agora r) = r_max_ativos r" "r_iniciado (linha_da_run agora r) = None"
  "r_terminado (linha_da_run agora r) = None"
  by (simp_all add: linha_da_run_def)

lemma com_padroes_campos [simp]:
  "r_id (com_padroes novo r) = (if r_id r = 0 then novo else r_id r)"
  "r_chave (com_padroes novo r) = r_chave r" "r_slug (com_padroes novo r) = r_slug r"
  "r_max_ativos (com_padroes novo r) = r_max_ativos r"
  "r_status (com_padroes novo r) = (if r_status r = StatusOutro [] then StatusCreated else r_status r)"
  by (simp_all add: com_padroes_def Let_def)

lemma tasks_ok_mais: "tasks_ok ids ts \<Longrightarrow> set ids \<subseteq> set ids' \<Longrightarrow> tasks_ok ids' ts"
  by (auto simp: tasks_ok_def)

lemma itens_ok_mais: "itens_ok ids seq qs \<Longrightarrow> set ids \<subseteq> set ids' \<Longrightarrow> itens_ok ids' seq qs"
  by (auto simp: itens_ok_def)

lemma Criar_ok:
  assumes "banco_ok b"
  shows "banco_ok (snd (Criar novo agora r b))"
proof -
  let ?l = "linha_da_run agora (com_padroes novo r)"
  have "tasks_ok (map r_id (db_runs b @ [?l])) (db_tasks b)"
    by (rule tasks_ok_mais [of "map r_id (db_runs b)"]) (use assms in \<open>auto simp: banco_ok_def\<close>)
  moreover have "itens_ok (map r_id (db_runs b @ [?l])) (db_seq b) (db_itens b)"
    by (rule itens_ok_mais [of "map r_id (db_runs b)"]) (use assms in \<open>auto simp: banco_ok_def\<close>)
  moreover have "runs_ok (db_runs b @ [?l])"
    if "r_id (com_padroes novo r) \<notin> r_id ` set (db_runs b)" "r_chave r \<notin> r_chave ` set (db_runs b)"
    using assms that by (simp add: banco_ok_def runs_ok_def del: com_padroes_campos(1))
  ultimately show ?thesis
    using assms by (simp add: Criar_def Let_def banco_ok_def)
qed

lemma tasks_ok_atualiza:
  assumes "\<And>t. chave_task (f t) = chave_task t"
  shows "tasks_ok ids (map (\<lambda>t. if P t then f t else t) ts) \<longleftrightarrow> tasks_ok ids ts"
proof -
  define l where "l = map (\<lambda>t. if P t then f t else t) ts"
  have c: "map chave_task l = map chave_task ts" by (simp add: l_def assms)
  have r: "map t_run xs = map fst (map chave_task xs)" for xs by (simp add: chave_task_def)
  have "map t_run l = map t_run ts" by (simp only: r c)
  then have "t_run ` set l = t_run ` set ts" by (metis list.set_map)
  with c show ?thesis unfolding tasks_ok_def l_def [symmetric] by simp
qed

lemma IniciarTask_ok: "banco_ok b \<Longrightarrow> banco_ok (snd (IniciarTask x nid k agora b))"
proof (cases "(x, nid, k) \<in> chave_task ` set (db_tasks b)")
  case True
  assume "banco_ok b"
  with True show ?thesis
    by (simp add: IniciarTask_def banco_ok_def tasks_ok_atualiza chave_task_def)
next
  case False
  assume "banco_ok b"
  with False show ?thesis
    by (auto simp: IniciarTask_def banco_ok_def tasks_ok_def chave_task_def)
qed

lemma TerminarTask_ok: "banco_ok b \<Longrightarrow> banco_ok (TerminarTask x nid k st ex er lg agora b)"
  by (simp add: TerminarTask_def banco_ok_def tasks_ok_atualiza chave_task_def)

lemma agendas_ok_atualiza:
  "(\<And>a. ag_slug (f a) = ag_slug a) \<Longrightarrow>
   agendas_ok (map (\<lambda>a. if ag_slug a = s then f a else a) as) \<longleftrightarrow> agendas_ok as"
  by (simp add: agendas_ok_def comp_def if_distrib cong: if_cong)

lemma atualiza_agenda_ok:
  "(\<And>a. ag_slug (f a) = ag_slug a) \<Longrightarrow> banco_ok (atualiza_agenda s f b) \<longleftrightarrow> banco_ok b"
  by (simp add: atualiza_agenda_def banco_ok_def agendas_ok_atualiza)

lemma AvancarSlot_ok: "banco_ok b \<Longrightarrow> banco_ok (AvancarSlot s t b)"
  by (simp add: AvancarSlot_def atualiza_agenda_ok split: option.splits)

lemma DefinirAtivo_ok: "banco_ok b \<Longrightarrow> banco_ok (snd (DefinirAtivo s a b))"
  by (auto simp: DefinirAtivo_def atualiza_agenda_ok split: option.splits)

lemma Alternar_ok: "banco_ok b \<Longrightarrow> banco_ok (snd (Alternar s b))"
  by (auto simp: Alternar_def atualiza_agenda_ok split: option.splits)

lemma agendas_ok_filter: "agendas_ok as \<Longrightarrow> agendas_ok (filter P as)"
  by (simp add: agendas_ok_def distinct_map_filter)

lemma workflows_ok_filter: "workflows_ok ps \<Longrightarrow> workflows_ok (filter P ps)"
  by (simp add: workflows_ok_def distinct_map_filter)

lemma apagar_agendas_ok: "banco_ok b \<Longrightarrow> banco_ok (apagar_agendas P b)"
  by (simp add: apagar_agendas_def banco_ok_def agendas_ok_filter)

lemma Podar_ok: "banco_ok b \<Longrightarrow> banco_ok (snd (Podar p manter b))"
  by (auto simp: Podar_def Let_def banco_ok_def apagar_agendas_def agendas_ok_filter workflows_ok_filter)

lemma workflows_ok_atualiza:
  assumes "\<And>p. P p \<Longrightarrow> (pb_projeto p, pb_slug p) = (pb_projeto l, pb_slug l)"
  shows "workflows_ok (map (\<lambda>p. if P p then l else p) ps) \<longleftrightarrow> workflows_ok ps"
proof -
  have "map (\<lambda>p. (pb_projeto p, pb_slug p)) (map (\<lambda>p. if P p then l else p) ps)
      = map (\<lambda>p. (pb_projeto p, pb_slug p)) ps"
    using assms by auto
  then show ?thesis by (simp only: workflows_ok_def)
qed

lemma publicar_workflow_ok: "banco_ok b \<Longrightarrow> banco_ok (publicar_workflow w p b)"
  by (auto simp: publicar_workflow_def Let_def banco_ok_def workflows_ok_atualiza)
     (auto simp: workflows_ok_def)

lemma Publicar_ok:
  assumes "banco_ok b"
  shows "banco_ok (Publicar w p b)"
proof -
  have ok: "banco_ok (publicar_workflow w p b)" by (rule publicar_workflow_ok [OF assms])
  have novo: "banco_ok (c\<lparr>db_agendas := db_agendas c @ [a]\<rparr>)"
    if "banco_ok c" "ag_slug a \<notin> ag_slug ` set (db_agendas c)" for c a
    using that by (simp add: banco_ok_def agendas_ok_def)
  show ?thesis
    unfolding Publicar_def Let_def using ok novo
    by (simp add: apagar_agendas_ok atualiza_agenda_ok)
qed

section \<open>Lemmas: what each operation does\<close>

definition carimbos_do_banco :: "banco \<Rightarrow> bool" where
  "carimbos_do_banco b \<longleftrightarrow> (\<forall>r \<in> set (db_runs b). carimbos_ok r)"

lemma linha_transicionada_Transition:
  assumes "carimbos_ok r" and "run_Transition r para agora = Inr r'"
  shows "linha_transicionada para agora r = r'"
proof -
  have p: "passo (r_status r) para" using run_Transition_Inr [OF assms(2)] by simp
  from p show ?thesis
    using assms
    by (cases rule: passo.cases)
       (auto simp: run_Transition_def linha_transicionada_def carimbos_ok_def coalesce_def Let_def
          Terminal_def passo.intros split: option.splits)
qed

lemma Transicionar_casos:
  obtains (ausente) "buscar_run x b = None" "Transicionar x para agora b = (Some (RunNaoExiste x), b)"
  | (recusada) r e where "buscar_run x b = Some r" "Valida (r_status r) para = Some e"
      "Transicionar x para agora b = (Some (TransicaoRecusada x e), b)"
  | (aceita) r where "buscar_run x b = Some r" "passo (r_status r) para"
      "Transicionar x para agora b = (None, atualiza_run x (linha_transicionada para agora) b)"
proof (cases "buscar_run x b")
  case None
  then show ?thesis using ausente by (simp add: Transicionar_def)
next
  case (Some r)
  show ?thesis
  proof (cases "Valida (r_status r) para")
    case None
    then have "passo (r_status r) para" by simp
    moreover have "Transicionar x para agora b = (None, atualiza_run x (linha_transicionada para agora) b)"
      using Some None by (simp add: Transicionar_def del: Valida_None)
    ultimately show ?thesis using Some aceita by blast
  next
    case (Some e)
    with \<open>buscar_run x b = Some r\<close> show ?thesis using recusada by (simp add: Transicionar_def)
  qed
qed

lemma run_unica:
  assumes "runs_ok (db_runs b)" and "buscar_run x b = Some r" and "q \<in> set (db_runs b)" and "r_id q = x"
  shows "q = r"
  using assms buscar_run_SomeD [OF assms(2)]
  by (auto simp: runs_ok_def distinct_map dest: inj_onD)

lemma buscar_run_eq:
  "runs_ok (db_runs b) \<Longrightarrow> q \<in> set (db_runs b) \<Longrightarrow> buscar_run (r_id q) b = Some q"
  using run_unica by (metis buscar_run_None_iff image_eqI option.exhaust)

lemma carimbos_Transicionar:
  assumes "carimbos_do_banco b" and "runs_ok (db_runs b)"
  shows "carimbos_do_banco (snd (Transicionar x para agora b))"
proof (cases rule: Transicionar_casos [of x b para agora])
  case (aceita r)
  have c: "carimbos_ok r"
    using assms(1) buscar_run_SomeD [OF aceita(1)] by (simp add: carimbos_do_banco_def)
  obtain r' where r': "run_Transition r para agora = Inr r'"
    using aceita(2) by (cases "run_Transition r para agora") (auto simp: run_Transition_Inl dest: Valida_Some)
  have "carimbos_ok (linha_transicionada para agora r)"
    unfolding linha_transicionada_Transition [OF c r'] by (rule run_Transition_carimbos [OF c r'])
  with assms(1) run_unica [OF assms(2) aceita(1)] show ?thesis
    by (auto simp: aceita carimbos_do_banco_def atualiza_run_def)
qed (use assms in simp_all)

lemma carimbos_Criar:
  assumes "carimbos_do_banco b" and "r_status r \<in> {StatusOutro [], StatusCreated, StatusQueued}"
  shows "carimbos_do_banco (snd (Criar novo agora r b))"
proof -
  have "carimbos_ok (linha_da_run agora (com_padroes novo r))"
    using assms(2) by (auto simp: carimbos_ok_def Terminal_def)
  with assms(1) show ?thesis by (auto simp: carimbos_do_banco_def Criar_def Let_def)
qed

lemma AvancarSlot_agenda:
  "buscar_agenda s (AvancarSlot s t b) =
     map_option (\<lambda>a. a\<lparr>ag_ultimo := Some (case ag_ultimo a of None \<Rightarrow> t | Some u \<Rightarrow> max u t)\<rparr>)
       (buscar_agenda s b)"
proof -
  let ?f = "\<lambda>a. case ag_ultimo a of None \<Rightarrow> a\<lparr>ag_ultimo := Some t\<rparr>
       | Some u \<Rightarrow> if u < t then a\<lparr>ag_ultimo := Some t\<rparr> else a"
  have k: "ag_slug (?f a) = ag_slug a" for a by (simp split: option.splits)
  have e: "buscar_agenda s (AvancarSlot s t b) = map_option (\<lambda>a. if ag_slug a = s then ?f a else a) (buscar_agenda s b)"
    unfolding buscar_agenda_def AvancarSlot_def atualiza_agenda_def agenda.simps banco.simps
    using find_map_mesma_chave [where k = ag_slug and f = ?f and x = s and y = s, OF k] by simp
  show ?thesis
  proof (cases "buscar_agenda s b")
    case None
    with e show ?thesis by simp
  next
    case (Some a)
    then have "ag_slug a = s" by (auto simp: buscar_agenda_def find_Some_iff)
    with e Some show ?thesis by (simp add: max_def split: option.splits)
  qed
qed

lemma AvancarSlot_outras: "s \<noteq> s' \<Longrightarrow> buscar_agenda s' (AvancarSlot s t b) = buscar_agenda s' b"
proof -
  assume "s \<noteq> s'"
  have "find (\<lambda>a. ag_slug a = s') (map (\<lambda>a. if ag_slug a = s then f a else a) xs)
      = find (\<lambda>a. ag_slug a = s') xs" if "\<And>a. ag_slug (f a) = ag_slug a" for f :: "agenda \<Rightarrow> agenda" and xs
    using \<open>s \<noteq> s'\<close> that by (induction xs) auto
  then show ?thesis
    by (simp add: buscar_agenda_def AvancarSlot_def atualiza_agenda_def split: option.splits)
qed

text \<open>Two schedulers: the marker does not depend on the order of the two updates.\<close>

lemma AvancarSlot_comuta:
  "AvancarSlot s t (AvancarSlot s u b) = AvancarSlot s u (AvancarSlot s t b)"
  by (auto simp: AvancarSlot_def atualiza_agenda_def comp_def intro!: map_cong split: option.splits)

text \<open>The last attempt of a step.\<close>

lemma hd_sort_key_min:
  assumes "xs \<noteq> []"
  shows "hd (sort_key k xs) \<in> set xs \<and> (\<forall>x \<in> set xs. k (hd (sort_key k xs)) \<le> k x)"
proof -
  obtain y ys where y: "sort_key k xs = y # ys"
    using assms by (metis length_0_conv length_sort list.exhaust)
  have "sorted (map k (y # ys))" using y by (metis sorted_sort_key)
  moreover have "set (y # ys) = set xs" using y by (metis set_sort)
  ultimately show ?thesis unfolding y by auto
qed

lemma EstadoDosNos_ultima:
  assumes "map_of (EstadoDosNos x b) nid = Some e"
  shows "\<exists>t \<in> set (db_tasks b). t_run t = x \<and> t_node t = nid \<and> e = estado_da_task t \<and>
    (\<forall>t' \<in> set (db_tasks b). t_run t' = x \<longrightarrow> t_node t' = nid \<longrightarrow> t_attempt t' \<le> t_attempt t)"
proof -
  let ?ts = "filter (\<lambda>t. t_run t = x) (db_tasks b)"
  let ?ns = "filter (\<lambda>t. t_node t = nid) ?ts"
  have "(nid, e) \<in> set (EstadoDosNos x b)" using assms by (rule map_of_SomeD)
  then have n: "nid \<in> t_node ` set ?ts" and e: "e = estado_da_task (hd (sort_key (\<lambda>t. - t_attempt t) ?ns))"
    by (auto simp: EstadoDosNos_def Let_def)
  from n have "?ns \<noteq> []" by (auto simp: filter_empty_conv)
  from hd_sort_key_min [OF this, of "\<lambda>t. - t_attempt t"] e show ?thesis
    by (intro bexI [of _ "hd (sort_key (\<lambda>t. - t_attempt t) ?ns)"]) auto
qed

section \<open>Properties\<close>

definition banco_com_run :: "status \<Rightarrow> banco" where
  "banco_com_run s = banco_vazio\<lparr>db_runs := [run_de_exemplo s]\<rparr>"

lemmas exemplo_banco = banco_com_run_def banco_vazio_def run_de_exemplo_def

text \<open>
  C14: the SQL of \<open>Transicionar\<close> and the \<open>Transition\<close> method of the domain agree. On a
  stored run whose stamps tell its state, the transaction is refused exactly when the
  method is, with the same error and no write; otherwise the stored row becomes what the
  method computes, and no other run changes.
\<close>

theorem Transicionar_refina:
  assumes "carimbos_ok r" and "buscar_run x b = Some r"
  shows "case run_Transition r para agora of
      Inl e \<Rightarrow> Transicionar x para agora b = (Some (TransicaoRecusada x e), b)
    | Inr r' \<Rightarrow> fst (Transicionar x para agora b) = None \<and>
        (\<forall>y. buscar_run y (snd (Transicionar x para agora b)) = (if y = x then Some r' else buscar_run y b))"
proof (cases "run_Transition r para agora")
  case (Inl e)
  then have "Valida (r_status r) para = Some e" by (simp add: run_Transition_Inl)
  with assms(2) Inl show ?thesis by (simp add: Transicionar_def)
next
  case (Inr r')
  have p: "passo (r_status r) para" using run_Transition_Inr [OF Inr] by simp
  have l: "linha_transicionada para agora r = r'"
    by (rule linha_transicionada_Transition [OF assms(1) Inr])
  show ?thesis
  proof (cases rule: Transicionar_casos [of x b para agora])
    case (aceita q)
    with assms(2) l Inr show ?thesis by (simp add: buscar_atualiza)
  next
    case (recusada q e)
    with assms(2) p show ?thesis by (auto dest: Valida_Some)
  qed (use assms(2) in simp)
qed

theorem Transicionar_refina_witness:
  "fst (Transicionar 1 StatusQueued 7 (banco_com_run StatusCreated)) = None \<and>
   fst (Transicionar 1 StatusRunning 7 (banco_com_run StatusCreated)) \<noteq> None"
proof -
  have c: "carimbos_ok (run_de_exemplo StatusCreated)"
    by (simp add: carimbos_ok_def run_de_exemplo_def Terminal_def)
  have b: "buscar_run 1 (banco_com_run StatusCreated) = Some (run_de_exemplo StatusCreated)"
    by (simp add: buscar_run_def exemplo_banco)
  have "\<not> isl (run_Transition (run_de_exemplo StatusCreated) StatusQueued 7)"
    "isl (run_Transition (run_de_exemplo StatusCreated) StatusRunning 7)" by code_simp+
  with Transicionar_refina [OF c b, of StatusQueued 7] Transicionar_refina [OF c b, of StatusRunning 7]
  show ?thesis by (auto split: sum.splits simp: isl_def)
qed

text \<open>
  Creating a run is idempotent on its key: a second \<open>Criar\<close> with the key of a stored
  run reports \<open>ErrJaExiste\<close> and writes nothing, whatever else the second run carries.
\<close>

theorem Criar_idempotente:
  assumes "fst (Criar novo agora r b) = Inr r'" and "r_chave q = r_chave r"
  shows "Criar novo2 agora2 q (snd (Criar novo agora r b)) = (Inl JaExiste, snd (Criar novo agora r b))"
  using assms by (auto simp: Criar_def Let_def split: if_splits)

theorem Criar_idempotente_witness:
  "fst (Criar 8 20 (run_de_exemplo StatusCreated\<lparr>r_id := 0\<rparr>)
     (snd (Criar 7 10 (run_de_exemplo StatusCreated\<lparr>r_id := 0\<rparr>) banco_vazio))) = Inl JaExiste"
proof -
  have "fst (Criar 7 10 (run_de_exemplo StatusCreated\<lparr>r_id := 0\<rparr>) banco_vazio)
      = Inr (com_padroes 7 (run_de_exemplo StatusCreated\<lparr>r_id := 0\<rparr>)\<lparr>r_criado := 10\<rparr>)"
    by (simp add: Criar_def Let_def banco_vazio_def)
  from Criar_idempotente [OF this refl, of 8 20] show ?thesis by simp
qed

text \<open>
  The marker of an agenda never goes back, however two schedulers interleave: after
  \<open>AvancarSlot\<close> it is the later of what it was and the slot, no other agenda changes, and
  two advances commute.
\<close>

theorem AvancarSlot_monotono:
  "buscar_agenda s' (AvancarSlot s t b) =
     (if s' = s
      then map_option (\<lambda>a. a\<lparr>ag_ultimo := Some (case ag_ultimo a of None \<Rightarrow> t | Some u \<Rightarrow> max u t)\<rparr>)
             (buscar_agenda s b)
      else buscar_agenda s' b) \<and>
   AvancarSlot s t (AvancarSlot s u b) = AvancarSlot s u (AvancarSlot s t b)"
  using AvancarSlot_agenda AvancarSlot_outras [of s s'] AvancarSlot_comuta by simp

text \<open>The writes of the repositories, to state what any sequence of them leaves.\<close>

datatype escrita =
    ECriar nat time run
  | ETransicionar nat status time
  | EIncrementar nat
  | ERegistrarErro nat string
  | EIniciarTask nat string int time
  | ETerminarTask nat string int status "int option" string string time
  | EPublicar workflow nat
  | EPodar nat "string list"
  | EDefinirAtivo string bool
  | EAlternar string
  | EAvancarSlot string time

fun escrever :: "banco \<Rightarrow> escrita \<Rightarrow> banco" where
  "escrever b (ECriar n t r) = snd (Criar n t r b)"
| "escrever b (ETransicionar x s t) = snd (Transicionar x s t b)"
| "escrever b (EIncrementar x) = snd (IncrementarTentativa x b)"
| "escrever b (ERegistrarErro x m) = RegistrarErro x m b"
| "escrever b (EIniciarTask x n k t) = snd (IniciarTask x n k t b)"
| "escrever b (ETerminarTask x n k s ex er lg t) = TerminarTask x n k s ex er lg t b"
| "escrever b (EPublicar w p) = Publicar w p b"
| "escrever b (EPodar p m) = snd (Podar p m b)"
| "escrever b (EDefinirAtivo s a) = snd (DefinirAtivo s a b)"
| "escrever b (EAlternar s) = snd (Alternar s b)"
| "escrever b (EAvancarSlot s t) = AvancarSlot s t b"

lemma escrever_ok: "banco_ok b \<Longrightarrow> banco_ok (escrever b e)"
  by (cases e) (simp_all add: Criar_ok Transicionar_ok IncrementarTentativa_ok RegistrarErro_ok
      IniciarTask_ok TerminarTask_ok Publicar_ok Podar_ok DefinirAtivo_ok Alternar_ok AvancarSlot_ok)

lemma banco_vazio_ok [simp]: "banco_ok banco_vazio"
  by (simp add: banco_ok_def banco_vazio_def tabelas)


text \<open>
  Publishing a new version of a workflow never makes the scheduler repeat slots or
  resume a paused agenda: the marker and the pause of an existing agenda survive, while
  the cron is the new one.
\<close>

theorem Publicar_mantem_marcador:
  assumes "buscar_agenda (wf_slug w) b = Some a" and "wf_schedule w \<noteq> []"
  shows "\<exists>a'. buscar_agenda (wf_slug w) (Publicar w p b) = Some a' \<and>
    ag_ultimo a' = ag_ultimo a \<and> ag_ativo a' = ag_ativo a \<and> ag_cron a' = wf_schedule w"
proof -
  let ?f = "\<lambda>a. a\<lparr>ag_cron := wf_schedule w, ag_timezone := ''UTC'', ag_catchup := False\<rparr>"
  let ?b = "publicar_workflow w p b"
  have ag: "db_agendas ?b = db_agendas b" by (simp add: publicar_workflow_def Let_def)
  have a: "ag_slug a = wf_slug w" "a \<in> set (db_agendas b)"
    using assms(1) by (auto simp: buscar_agenda_def find_Some_iff)
  have "wf_slug w \<in> ag_slug ` set (db_agendas ?b)" unfolding ag using a by force
  with assms(2) have "Publicar w p b = atualiza_agenda (wf_slug w) ?f ?b"
    by (simp add: Publicar_def Let_def)
  moreover have "buscar_agenda (wf_slug w) (atualiza_agenda (wf_slug w) ?f ?b) = Some (?f a)"
    using assms(1) a(1) ag
    by (simp add: buscar_agenda_def atualiza_agenda_def find_map_mesma_chave [where k = ag_slug])
  ultimately show ?thesis by simp
qed

definition agenda_pausada :: agenda where
  "agenda_pausada = \<lparr>ag_slug = ''bronze'', ag_cron = ''0 2 * * *'', ag_timezone = ''UTC'', ag_catchup = False,
     ag_ativo = False, ag_ultimo = Some 99\<rparr>"

theorem Publicar_mantem_marcador_witness:
  "\<exists>a'. buscar_agenda ''bronze'' (Publicar (workflow_vazio\<lparr>wf_slug := ''bronze'', wf_schedule := ''0 3 * * *''\<rparr>) 1
      (banco_vazio\<lparr>db_agendas := [agenda_pausada]\<rparr>)) = Some a' \<and> ag_ultimo a' = Some 99"
  using Publicar_mantem_marcador [of "workflow_vazio\<lparr>wf_slug := ''bronze'', wf_schedule := ''0 3 * * *''\<rparr>"
      "banco_vazio\<lparr>db_agendas := [agenda_pausada]\<rparr>" agenda_pausada 1]
  by (auto simp: buscar_agenda_def agenda_pausada_def)

text \<open>
  Two projects may both have a workflow of the same slug (the key of \<open>workflows\<close> is
  project and slug), but an agenda is keyed by the slug alone: publishing the second
  project's workflow without a schedule deletes the agenda of the first one's, whose
  definition stays published.
\<close>

theorem Publicar_apaga_agenda_alheia:
  assumes "(1, wf_slug w) \<in> (\<lambda>p. (pb_projeto p, pb_slug p)) ` set (db_workflows b)" and "wf_schedule w = []"
  shows "buscar_agenda (wf_slug w) (Publicar w 2 b) = None \<and>
    (1, wf_slug w) \<in> (\<lambda>p. (pb_projeto p, pb_slug p)) ` set (db_workflows (Publicar w 2 b))"
proof -
  have "buscar_agenda s (apagar_agendas (\<lambda>x. x = s) c) = None" for s c
    by (auto simp: buscar_agenda_def apagar_agendas_def find_None_iff)
  moreover have "(1, wf_slug w) \<in> (\<lambda>p. (pb_projeto p, pb_slug p)) ` set (db_workflows (publicar_workflow w 2 b))"
    using assms(1) by (force simp: publicar_workflow_def Let_def image_iff)
  ultimately show ?thesis using assms(2)
    by (simp add: Publicar_def Let_def) (simp add: apagar_agendas_def)
qed

theorem Publicar_apaga_agenda_alheia_witness:
  "buscar_agenda ''bronze''
     (Publicar (workflow_vazio\<lparr>wf_slug := ''bronze''\<rparr>) 2
       (Publicar (workflow_vazio\<lparr>wf_slug := ''bronze'', wf_schedule := ''0 3 * * *''\<rparr>) 1 banco_vazio)) = None"
  using Publicar_apaga_agenda_alheia [of "workflow_vazio\<lparr>wf_slug := ''bronze''\<rparr>"
      "Publicar (workflow_vazio\<lparr>wf_slug := ''bronze'', wf_schedule := ''0 3 * * *''\<rparr>) 1 banco_vazio"]
  by (simp add: Publicar_def publicar_workflow_def banco_vazio_def workflow_vazio_def)

end
