(* ===== verification/Ciclo.thy ===== *)
theory Ciclo
  imports Workflow
begin

text \<open>
  \<open>Workflow.encontrarCiclo\<close> and \<open>Workflow.Validate\<close> of
  \<open>internal/domain/workflow/workflow.go\<close>: the depth-first search with three colours
  that returns the path of a cycle, and the whole validation in the order of the code.
  The search is proved sound (what it returns is a cycle of the graph) and complete (an
  empty answer means that no cycle can be reached from a declared step).
\<close>

section \<open>The search\<close>

datatype cor = Novo | EmUso | Pronto

record busca =
  cor_de :: "string \<Rightarrow> cor"
  trilha :: "string list"

definition saida :: "edge list \<Rightarrow> string \<Rightarrow> string list" where
  "saida es x = map e_to (filter (\<lambda>e. e_from e = x) es)"

definition entrar :: "string \<Rightarrow> busca \<Rightarrow> busca" where
  "entrar x b = b\<lparr>cor_de := (cor_de b)(x := EmUso), trilha := trilha b @ [x]\<rparr>"

definition sair :: "string \<Rightarrow> busca \<Rightarrow> busca" where
  "sair x b = b\<lparr>trilha := butlast (trilha b), cor_de := (cor_de b)(x := Pronto)\<rparr>"

text \<open>\<open>formatarCiclo\<close>\<close>

definition formatarCiclo :: "string list \<Rightarrow> string" where
  "formatarCiclo ids = join '' -> '' ids"

text \<open>
  \<open>percorrer es x ps b\<close> is what is left of \<open>visitar(x)\<close> when the successors \<open>ps\<close> are
  still to be looked at. The answer is the list that \<open>formatarCiclo\<close> prints.
\<close>

function percorrer :: "edge list \<Rightarrow> string \<Rightarrow> string list \<Rightarrow> busca \<Rightarrow> string list option \<times> busca" where
  "percorrer es x [] b = (None, sair x b)"
| "percorrer es x (p # ps) b =
     (case cor_de b p of
        EmUso \<Rightarrow>
          if List.member (trilha b) p
          then (Some (dropWhile (\<lambda>v. v \<noteq> p) (trilha b) @ [p]), b)
          else percorrer es x ps b
      | Novo \<Rightarrow>
          (case percorrer es p (saida es p) (entrar p b) of
             (Some c, b') \<Rightarrow> (Some c, b')
           | (None, b') \<Rightarrow> percorrer es x ps b')
      | Pronto \<Rightarrow> percorrer es x ps b)"
  by pat_completeness auto

definition visitar :: "edge list \<Rightarrow> string \<Rightarrow> busca \<Rightarrow> string list option \<times> busca" where
  "visitar es x b = percorrer es x (saida es x) (entrar x b)"

text \<open>
  Termination: a step that has been entered never becomes new again, so the steps that
  are still new and can be reached by an edge shrink with every nested call.
\<close>

definition alvos :: "edge list \<Rightarrow> string set" where
  "alvos es = set (map e_to es)"

lemma finite_alvos [simp]: "finite (alvos es)"
  by (simp add: alvos_def)

lemma saida_alvos: "set (saida es x) \<subseteq> alvos es"
  by (auto simp: saida_def alvos_def)

definition novos :: "busca \<Rightarrow> string set" where
  "novos b = {v. cor_de b v = Novo}"

lemma novos_entrar [simp]: "novos (entrar x b) = novos b - {x}"
  by (auto simp: novos_def entrar_def)

lemma novos_sair [simp]: "novos (sair x b) = novos b - {x}"
  by (auto simp: novos_def sair_def)

lemma percorrer_novos_dom:
  "percorrer_dom (es, x, ps, b) \<Longrightarrow> novos (snd (percorrer es x ps b)) \<subseteq> novos b"
proof (induction es x ps b rule: percorrer.pinduct)
  case (1 es x b)
  then show ?case by (auto simp: percorrer.psimps)
next
  case (2 es x p ps b)
  show ?case
  proof (cases "cor_de b p")
    case EmUso
    with 2 show ?thesis by (auto simp: percorrer.psimps)
  next
    case Pronto
    with 2 show ?thesis by (auto simp: percorrer.psimps)
  next
    case Novo
    obtain r b' where r: "percorrer es p (saida es p) (entrar p b) = (r, b')" by fastforce
    from "2.IH"(1) [OF Novo] r have 1: "novos b' \<subseteq> novos b" by auto
    show ?thesis
    proof (cases r)
      case None
      have "novos (snd (percorrer es x ps b')) \<subseteq> novos b'"
        using "2.IH"(2) [OF Novo] r None by simp
      with 1 show ?thesis using "2.hyps" Novo r None by (simp add: percorrer.psimps)
    next
      case (Some c)
      with 1 show ?thesis using "2.hyps" Novo r by (simp add: percorrer.psimps)
    qed
  qed
qed

lemma card_inter_mono:
  assumes "A \<subseteq> B" and "C \<subseteq> D" and "finite D"
  shows "card (A \<inter> C) \<le> card (B \<inter> D)"
  using assms by (intro card_mono) auto

definition medida :: "edge list \<times> string \<times> string list \<times> busca \<Rightarrow> nat" where
  "medida = (\<lambda>(es, x, ps, b). card (novos b \<inter> (alvos es \<union> set ps)))"

lemma medida_entrar:
  assumes "cor_de b p = Novo"
  shows "medida (es, p, saida es p, entrar p b) < medida (es, x, p # ps, b)"
  unfolding medida_def prod.case novos_entrar
proof (rule psubset_card_mono)
  show "finite (novos b \<inter> (alvos es \<union> set (p # ps)))" by simp
  have "p \<in> novos b \<inter> (alvos es \<union> set (p # ps))" using assms by (simp add: novos_def)
  moreover have "(novos b - {p}) \<inter> (alvos es \<union> set (saida es p)) \<subseteq> novos b \<inter> (alvos es \<union> set (p # ps))"
    using saida_alvos [of es p] by auto
  ultimately show "(novos b - {p}) \<inter> (alvos es \<union> set (saida es p)) \<subset> novos b \<inter> (alvos es \<union> set (p # ps))"
    by blast
qed

lemma medida_resto:
  "novos b' \<subseteq> novos b \<Longrightarrow> medida (es, x, ps, b') \<le> medida (es, x, p # ps, b)"
  unfolding medida_def prod.case by (rule card_inter_mono) auto

lemma percorrer_novos_entrar:
  assumes "percorrer_dom (es, p, saida es p, entrar p b)"
    and "(r, b') = percorrer es p (saida es p) (entrar p b)"
  shows "novos b' \<subseteq> novos b"
  using percorrer_novos_dom [OF assms(1)] assms(2) [symmetric] by auto

termination percorrer
proof (relation "measures [medida, \<lambda>(es, x, ps, b). length ps]", goal_cases)
  case 1
  show ?case by simp
next
  case (2 es x p ps b)
  then show ?case using medida_entrar [of b p es x ps] by simp
next
  case (3 es x p ps b r b')
  then have "novos b' \<subseteq> novos b" using percorrer_novos_entrar by (metis prod.collapse)
  from medida_resto [OF this, of es x ps p] show ?case by auto
next
  case (4 es x p ps b)
  then show ?case using medida_resto [of b b es x ps p] by auto
next
  case (5 es x p ps b)
  then show ?case using medida_resto [of b b es x ps p] by auto
qed

lemma percorrer_Novo [simp]:
  "cor_de b p = Novo \<Longrightarrow> percorrer es x (p # ps) b =
     (case visitar es p b of (Some c, b') \<Rightarrow> (Some c, b') | (None, b') \<Rightarrow> percorrer es x ps b')"
  by (simp add: visitar_def)

text \<open>The loop over \<open>w.Nodes\<close> that starts the search.\<close>

fun procurar :: "edge list \<Rightarrow> string list \<Rightarrow> busca \<Rightarrow> string list option" where
  "procurar es [] b = None"
| "procurar es (x # xs) b =
     (if cor_de b x = Novo
      then (case visitar es x b of (Some c, _) \<Rightarrow> Some c | (None, b') \<Rightarrow> procurar es xs b')
      else procurar es xs b)"

definition busca_inicial :: busca where
  "busca_inicial = \<lparr>cor_de = (\<lambda>_. Novo), trilha = []\<rparr>"

definition achar_ciclo :: "workflow \<Rightarrow> string list option" where
  "achar_ciclo w = procurar (wf_edges w) (map nd_id (wf_nodes w)) busca_inicial"

text \<open>The empty string is the source's \<open>no cycle\<close>.\<close>

definition encontrarCiclo :: "workflow \<Rightarrow> string" where
  "encontrarCiclo w = (case achar_ciclo w of Some c \<Rightarrow> formatarCiclo c | None \<Rightarrow> [])"

section \<open>What the search returns\<close>

definition arco :: "edge list \<Rightarrow> (string \<times> string) set" where
  "arco es = {(e_from e, e_to e) | e. e \<in> set es}"

lemma arco_saida: "(x, y) \<in> arco es \<longleftrightarrow> y \<in> set (saida es x)"
  by (auto simp: arco_def saida_def image_iff)

text \<open>A walk along the edges, and a closed one.\<close>

fun passeio :: "edge list \<Rightarrow> string list \<Rightarrow> bool" where
  "passeio es (x # y # ys) \<longleftrightarrow> (x, y) \<in> arco es \<and> passeio es (y # ys)"
| "passeio es _ \<longleftrightarrow> True"

definition e_ciclo :: "edge list \<Rightarrow> string list \<Rightarrow> bool" where
  "e_ciclo es c \<longleftrightarrow> 2 \<le> length c \<and> hd c = last c \<and> passeio es c \<and> distinct (tl c)"

lemma passeio_snoc:
  "passeio es (xs @ [y]) \<longleftrightarrow> passeio es xs \<and> (xs \<noteq> [] \<longrightarrow> (last xs, y) \<in> arco es)"
  by (induction es xs rule: passeio.induct) auto

lemma passeio_drop: "passeio es (xs @ ys) \<Longrightarrow> passeio es ys"
proof (induction xs)
  case (Cons x xs)
  then show ?case by (cases "xs @ ys") auto
qed simp

lemma passeio_trancl: "passeio es (x # ys) \<Longrightarrow> ys \<noteq> [] \<Longrightarrow> (x, last ys) \<in> (arco es)\<^sup>+"
proof (induction ys arbitrary: x)
  case (Cons y ys)
  then show ?case by (cases "ys = []") (auto intro: trancl_into_trancl2)
qed simp

lemma e_ciclo_trancl:
  assumes "e_ciclo es c"
  shows "(hd c, hd c) \<in> (arco es)\<^sup>+"
proof -
  from assms obtain x ys where c: "c = x # ys" "ys \<noteq> []"
    by (cases c) (auto simp: e_ciclo_def Suc_le_length_iff numeral_2_eq_2)
  with assms passeio_trancl [of es x ys] show ?thesis by (auto simp: e_ciclo_def)
qed

text \<open>
  The invariant of the search: the steps in use are the path, the path is a simple walk,
  and the finished steps are closed under the edges and lie on no cycle.
\<close>

definition busca_ok :: "edge list \<Rightarrow> busca \<Rightarrow> bool" where
  "busca_ok es b \<longleftrightarrow>
     passeio es (trilha b) \<and> distinct (trilha b) \<and>
     (\<forall>v. cor_de b v = EmUso \<longleftrightarrow> v \<in> set (trilha b)) \<and>
     (\<forall>v w. cor_de b v = Pronto \<longrightarrow> (v, w) \<in> arco es \<longrightarrow> cor_de b w = Pronto) \<and>
     (\<forall>v. cor_de b v = Pronto \<longrightarrow> (v, v) \<notin> (arco es)\<^sup>+)"

definition prontos :: "busca \<Rightarrow> string set" where
  "prontos b = {v. cor_de b v = Pronto}"

lemma caminho_inicial [simp]: "trilha busca_inicial = []"
  by (simp add: busca_inicial_def)

lemma busca_ok_inicial [simp]: "busca_ok es busca_inicial"
  by (simp add: busca_ok_def busca_inicial_def)

lemma busca_ok_entrar:
  assumes "busca_ok es b" and "cor_de b x = Novo"
    and "trilha b \<noteq> [] \<Longrightarrow> (last (trilha b), x) \<in> arco es"
  shows "busca_ok es (entrar x b)"
proof -
  have "x \<notin> set (trilha b)" using assms(1,2) by (metis busca_ok_def cor.distinct(1))
  with assms show ?thesis
    by (auto simp: busca_ok_def entrar_def passeio_snoc)
qed

lemma fechado_trancl:
  assumes "(a, c) \<in> r\<^sup>+" and "a \<in> S" and "\<And>v w. v \<in> S \<Longrightarrow> (v, w) \<in> r \<Longrightarrow> w \<in> S"
  shows "c \<in> S"
  using assms by (induction rule: trancl_induct) blast+

lemma busca_ok_sair:
  assumes ok: "busca_ok es b" and cam: "trilha b = pre @ [x]"
    and suc: "\<And>y. (x, y) \<in> arco es \<Longrightarrow> cor_de b y = Pronto"
  shows "busca_ok es (sair x b)"
proof -
  have x: "cor_de b x = EmUso" using ok cam by (simp add: busca_ok_def)
  have "(x, x) \<notin> (arco es)\<^sup>+"
  proof
    assume "(x, x) \<in> (arco es)\<^sup>+"
    then obtain y where "(x, y) \<in> arco es" and "(y, x) \<in> (arco es)\<^sup>*"
      by (meson tranclD)
    then have "y \<in> prontos b" using suc by (simp add: prontos_def)
    have "x \<in> prontos b"
    proof (cases "y = x")
      case False
      with \<open>(y, x) \<in> (arco es)\<^sup>*\<close> have "(y, x) \<in> (arco es)\<^sup>+" by (simp add: rtrancl_eq_or_trancl)
      then show ?thesis using \<open>y \<in> prontos b\<close>
        by (rule fechado_trancl) (use ok in \<open>auto simp: busca_ok_def prontos_def\<close>)
    qed (use \<open>y \<in> prontos b\<close> in simp)
    with x show False by (simp add: prontos_def)
  qed
  moreover have "passeio es pre" "distinct pre" "x \<notin> set pre"
    using ok cam by (auto simp: busca_ok_def passeio_snoc)
  ultimately show ?thesis
    using ok cam suc x by (auto simp: busca_ok_def sair_def)
qed

lemma recorte_e_ciclo:
  assumes ok: "busca_ok es b" and cam: "trilha b = pre @ [x]"
    and e: "(x, p) \<in> arco es" and p: "p \<in> set (trilha b)"
  shows "e_ciclo es (dropWhile (\<lambda>v. v \<noteq> p) (trilha b) @ [p])"
proof -
  let ?d = "dropWhile (\<lambda>v. v \<noteq> p) (trilha b)"
  obtain ys where d: "?d = p # ys"
    using p by (metis (mono_tags, lifting) dropWhile_eq_Nil_conv hd_dropWhile list.exhaust_sel)
  have split: "trilha b = takeWhile (\<lambda>v. v \<noteq> p) (trilha b) @ p # ys"
    using d by (metis takeWhile_dropWhile_id)
  have "passeio es (p # ys)" "distinct (p # ys)"
    using ok split passeio_drop by (metis busca_ok_def, metis busca_ok_def distinct_append)
  moreover have "last (p # ys) = x"
    using cam split by (metis last_appendR last_snoc list.distinct(1))
  ultimately show ?thesis
    using e passeio_snoc [of es "p # ys" p] by (simp add: e_ciclo_def d)
qed

text \<open>
  What a visit establishes: a cycle, or a state in which the step is finished, the path
  is what it was, and only new steps have changed.
\<close>

definition visita_ok :: "edge list \<Rightarrow> string \<Rightarrow> string list \<Rightarrow> busca \<Rightarrow> string list option \<times> busca \<Rightarrow> bool" where
  "visita_ok es x pre b r =
     (case r of
        (Some c, _) \<Rightarrow> e_ciclo es c
      | (None, b') \<Rightarrow> busca_ok es b' \<and> trilha b' = pre \<and> cor_de b' x = Pronto \<and>
          prontos b \<subseteq> prontos b')"

lemma percorrer_ok:
  "busca_ok es b \<Longrightarrow> trilha b = pre @ [x] \<Longrightarrow> set ps \<subseteq> set (saida es x) \<Longrightarrow>
   (\<And>y. (x, y) \<in> arco es \<Longrightarrow> y \<in> set ps \<or> cor_de b y = Pronto) \<Longrightarrow>
   visita_ok es x pre b (percorrer es x ps b)"
proof (induction es x ps b arbitrary: pre rule: percorrer.induct)
  case (1 es x b)
  have "busca_ok es (sair x b)"
    using busca_ok_sair [OF "1.prems"(1,2)] "1.prems"(4) by simp
  then show ?case
    using "1.prems" by (auto simp: visita_ok_def sair_def prontos_def busca_ok_def)
next
  case (2 es x p ps b)
  have e: "(x, p) \<in> arco es" using "2.prems"(3) by (simp add: arco_saida)
  show ?case
  proof (cases "cor_de b p")
    case EmUso
    then have "p \<in> set (trilha b)" using "2.prems"(1) by (simp add: busca_ok_def)
    with EmUso recorte_e_ciclo [OF "2.prems"(1,2) e] show ?thesis
      by (simp add: visita_ok_def)
  next
    case Pronto
    have "visita_ok es x pre b (percorrer es x ps b)"
      using "2.IH"(4) [OF Pronto "2.prems"(1,2)] "2.prems"(3,4) Pronto by auto
    with Pronto show ?thesis by simp
  next
    case Novo
    obtain r b' where r: "percorrer es p (saida es p) (entrar p b) = (r, b')" by fastforce
    have in_ok: "busca_ok es (entrar p b)"
      using busca_ok_entrar [OF "2.prems"(1) Novo] "2.prems"(2) e by simp
    have v: "visita_ok es p (trilha b) (entrar p b) (r, b')"
      using "2.IH"(1) [OF Novo in_ok, of "trilha b"] r by (auto simp: entrar_def arco_saida)
    show ?thesis
    proof (cases r)
      case (Some c)
      with v r Novo show ?thesis by (simp add: visita_ok_def visitar_def)
    next
      case None
      have b': "busca_ok es b'" "trilha b' = pre @ [x]" "cor_de b' p = Pronto"
        using v None "2.prems"(2) by (simp_all add: visita_ok_def)
      have mono: "prontos b \<subseteq> prontos b'"
        using v None Novo by (auto simp: visita_ok_def prontos_def entrar_def)
      have suc: "y \<in> set ps \<or> cor_de b' y = Pronto" if "(x, y) \<in> arco es" for y
        using "2.prems"(4) [OF that] b'(3) mono by (auto simp: prontos_def)
      have "visita_ok es x pre b' (percorrer es x ps b')"
        using "2.IH"(2) [OF Novo] r None b' "2.prems"(3) suc by simp
      with mono show ?thesis using Novo r None
        by (auto simp: visita_ok_def visitar_def split: prod.splits option.splits)
    qed
  qed
qed

lemma visitar_ok:
  assumes "busca_ok es b" and "cor_de b x = Novo" and "trilha b = []"
  shows "visita_ok es x [] b (visitar es x b)"
proof -
  have "visita_ok es x [] (entrar x b) (visitar es x b)"
    unfolding visitar_def using assms
    by (intro percorrer_ok busca_ok_entrar) (auto simp: entrar_def arco_saida)
  with assms(2) show ?thesis
    by (auto simp: visita_ok_def prontos_def entrar_def split: prod.splits option.splits)
qed

lemma procurar_Some:
  "procurar es xs b = Some c \<Longrightarrow> busca_ok es b \<Longrightarrow> trilha b = [] \<Longrightarrow> e_ciclo es c"
proof (induction es xs b rule: procurar.induct)
  case (2 es x xs b)
  then show ?case
    using visitar_ok [of es b x]
    by (auto simp: visita_ok_def split: if_splits prod.splits option.splits)
qed simp

lemma procurar_None:
  "procurar es xs b = None \<Longrightarrow> busca_ok es b \<Longrightarrow> trilha b = [] \<Longrightarrow>
   \<exists>b'. busca_ok es b' \<and> prontos b \<union> set xs \<subseteq> prontos b'"
proof (induction es xs b rule: procurar.induct)
  case (1 es b)
  then show ?case by auto
next
  case (2 es x xs b)
  show ?case
  proof (cases "cor_de b x = Novo")
    case True
    obtain r b1 where r: "visitar es x b = (r, b1)" by fastforce
    with True "2.prems"(1) have r0: "r = None" by (simp split: option.splits)
    with visitar_ok [OF "2.prems"(2) True "2.prems"(3)] r
    have b1: "busca_ok es b1" "trilha b1 = []" "x \<in> prontos b1" "prontos b \<subseteq> prontos b1"
      by (auto simp: visita_ok_def prontos_def)
    from "2.IH"(1) [OF True] r r0 True "2.prems"(1) b1(1,2)
    obtain b' where "busca_ok es b'" "prontos b1 \<union> set xs \<subseteq> prontos b'" by auto
    with b1 show ?thesis by auto
  next
    case False
    then have "x \<in> prontos b"
      using "2.prems"(2,3) by (cases "cor_de b x") (auto simp: prontos_def busca_ok_def)
    with "2.IH"(2) [OF False] "2.prems" False show ?thesis by auto
  qed
qed

lemma achar_ciclo_Some: "achar_ciclo w = Some c \<Longrightarrow> e_ciclo (wf_edges w) c"
  unfolding achar_ciclo_def by (rule procurar_Some) auto

lemma alcancavel_pronto:
  assumes "(x, y) \<in> (arco es)\<^sup>*" and "x \<in> prontos b" and "busca_ok es b"
  shows "y \<in> prontos b"
  using assms by (induction rule: rtrancl_induct) (auto simp: busca_ok_def prontos_def)

lemma achar_ciclo_None:
  assumes "achar_ciclo w = None" and "n \<in> set (wf_nodes w)"
    and "(nd_id n, y) \<in> (arco (wf_edges w))\<^sup>*"
  shows "(y, y) \<notin> (arco (wf_edges w))\<^sup>+"
proof -
  obtain b' where b': "busca_ok (wf_edges w) b'"
    and all: "set (map nd_id (wf_nodes w)) \<subseteq> prontos b'"
    using procurar_None [OF assms(1) [unfolded achar_ciclo_def]] by auto
  have "nd_id n \<in> prontos b'" using all assms(2) by auto
  then have "y \<in> prontos b'" by (rule alcancavel_pronto [OF assms(3) _ b'])
  with b' show ?thesis by (simp add: busca_ok_def prontos_def)
qed

lemma formatarCiclo_not_Nil: "2 \<le> length c \<Longrightarrow> formatarCiclo c \<noteq> []"
  by (cases "('' -> '', c)" rule: join.cases) (auto simp: formatarCiclo_def)

section \<open>Validation\<close>

text \<open>\<open>Workflow.Validate\<close>, the repeated checks of the source included.\<close>

definition concorrencia :: "workflow \<Rightarrow> erro_wf option" where
  "concorrencia w =
     (if wf_max_ativos w < 0 then Some (ConcurrencyNegativa (wf_slug w) (wf_max_ativos w)) else None)"

definition recursos_dos_nos :: "workflow \<Rightarrow> erro_wf option" where
  "recursos_dos_nos w =
     para_cada (\<lambda>n. validarRecursos (wf_slug w) (NoStep (nd_id n)) (nd_resources n)) (wf_nodes w)"

definition Validate :: "regexp \<Rightarrow> workflow \<Rightarrow> erro_wf option" where
  "Validate re w =
     (if wf_slug w = [] then Some SemSlug
      else if wf_nodes w = [] then Some (SemStep (wf_slug w))
      else
        entao (validar_nos (wf_slug w) [] (wf_nodes w))
       (entao (concorrencia w)
       (entao (validarRecursos (wf_slug w) NoWorkflow (wf_resources w))
       (entao (recursos_dos_nos w)
       (entao (para_cada (validar_aresta (wf_slug w) (map nd_id (wf_nodes w))) (wf_edges w))
       (entao (concorrencia w)
       (entao (validarRecursos (wf_slug w) NoWorkflow (wf_resources w))
       (entao (validar_params re (wf_slug w) [] (wf_params w))
       (entao (recursos_dos_nos w)
       (entao (validarAmbiente (wf_slug w) NoWorkflow (wf_env w) (wf_secrets w))
       (entao (para_cada (\<lambda>n. validarAmbiente (wf_slug w) (NoStep (nd_id n))
                                 (EnvDe w n) (SecretsDe w n)) (wf_nodes w))
              (let ciclo = encontrarCiclo w in
               if ciclo \<noteq> [] then Some (TemCiclo (wf_slug w) ciclo) else None))))))))))))"

text \<open>The declarative meaning of a valid workflow.\<close>

definition ids_ok :: "workflow \<Rightarrow> bool" where
  "ids_ok w \<longleftrightarrow> distinct (map nd_id (wf_nodes w)) \<and> (\<forall>n \<in> set (wf_nodes w). nd_id n \<noteq> [])"

definition arestas_ok :: "workflow \<Rightarrow> bool" where
  "arestas_ok w \<longleftrightarrow>
     arco (wf_edges w) \<subseteq> set (map nd_id (wf_nodes w)) \<times> set (map nd_id (wf_nodes w))"

definition segredo_nao_e_literal :: "workflow \<Rightarrow> bool" where
  "segredo_nao_e_literal w \<longleftrightarrow>
     (\<forall>n \<in> set (wf_nodes w). dom (map_of (EnvDe w n)) \<inter> dom (map_of (SecretsDe w n)) = {})"

lemma encontrarCiclo_None: "encontrarCiclo w = [] \<longleftrightarrow> achar_ciclo w = None"
  using achar_ciclo_Some [of w] formatarCiclo_not_Nil
  by (auto simp: encontrarCiclo_def e_ciclo_def split: option.splits)

lemma Validate_None:
  "Validate re w = None \<longleftrightarrow>
     wf_slug w \<noteq> [] \<and> wf_nodes w \<noteq> [] \<and>
     validar_nos (wf_slug w) [] (wf_nodes w) = None \<and> concorrencia w = None \<and>
     validarRecursos (wf_slug w) NoWorkflow (wf_resources w) = None \<and> recursos_dos_nos w = None \<and>
     (\<forall>e \<in> set (wf_edges w). validar_aresta (wf_slug w) (map nd_id (wf_nodes w)) e = None) \<and>
     validar_params re (wf_slug w) [] (wf_params w) = None \<and>
     validarAmbiente (wf_slug w) NoWorkflow (wf_env w) (wf_secrets w) = None \<and>
     (\<forall>n \<in> set (wf_nodes w).
        validarAmbiente (wf_slug w) (NoStep (nd_id n)) (EnvDe w n) (SecretsDe w n) = None) \<and>
     achar_ciclo w = None"
  by (simp add: Validate_def Let_def encontrarCiclo_None) blast

lemma validarAmbiente_disjoint:
  "validarAmbiente slug onde env secrets = None \<Longrightarrow>
   dom (map_of env) \<inter> dom (map_of secrets) = {}"
  by (fastforce simp: validarAmbiente_None dest: map_of_SomeD)

lemma Validate_ids: "Validate re w = None \<Longrightarrow> ids_ok w"
  by (auto simp: Validate_None validar_nos_None ids_ok_def)

lemma Validate_arestas: "Validate re w = None \<Longrightarrow> arestas_ok w"
  by (auto simp: Validate_None arestas_ok_def arco_def)

lemma Validate_segredos: "Validate re w = None \<Longrightarrow> segredo_nao_e_literal w"
proof (unfold segredo_nao_e_literal_def, intro ballI)
  fix n assume "Validate re w = None" and "n \<in> set (wf_nodes w)"
  then have "validarAmbiente (wf_slug w) (NoStep (nd_id n)) (EnvDe w n) (SecretsDe w n) = None"
    using Validate_None by blast
  then show "dom (map_of (EnvDe w n)) \<inter> dom (map_of (SecretsDe w n)) = {}"
    by (rule validarAmbiente_disjoint)
qed

lemma aciclico:
  assumes "achar_ciclo w = None" and "arestas_ok w"
  shows "acyclic (arco (wf_edges w))"
  unfolding acyclic_def
proof (intro allI notI)
  fix x assume c: "(x, x) \<in> (arco (wf_edges w))\<^sup>+"
  then obtain y where "(x, y) \<in> arco (wf_edges w)" by (meson tranclD)
  with assms(2) obtain n where "n \<in> set (wf_nodes w)" "nd_id n = x"
    by (auto simp: arestas_ok_def)
  with achar_ciclo_None [OF assms(1), of n x] c show False by auto
qed

lemma Validate_aciclico: "Validate re w = None \<Longrightarrow> acyclic (arco (wf_edges w))"
  using aciclico [OF _ Validate_arestas] Validate_None by blast

section \<open>Properties\<close>

text \<open>
  A workflow with two steps, used to instantiate the properties.
\<close>

definition passo_de_exemplo :: "string \<Rightarrow> node" where
  "passo_de_exemplo x =
     \<lparr>nd_id = x, nd_run = ''echo'', nd_action = [], nd_with = [], nd_image = [],
      nd_resources = \<lparr>cpu = ''500m'', memory = ''2Gi'', cpu_limit = [], memory_limit = []\<rparr>,
      nd_shell = None, nd_env = [(''NIVEL'', ''info'')], nd_secrets = []\<rparr>"

definition workflow_de_exemplo :: "edge list \<Rightarrow> workflow" where
  "workflow_de_exemplo es =
     \<lparr>wf_slug = ''bronze'', wf_name = ''bronze'', wf_kind = KindDAG, wf_schedule = [], wf_tags = [],
      wf_image = ''img'',
      wf_resources = \<lparr>cpu = [], memory = [], cpu_limit = ''1'', memory_limit = []\<rparr>,
      wf_env = [(''REGIAO'', ''br'')], wf_secrets = [(''TOKEN'', ''cofre/token'')],
      wf_params = [], wf_max_ativos = 0,
      wf_nodes = [passo_de_exemplo ''a'', passo_de_exemplo ''b'', passo_de_exemplo ''c''],
      wf_edges = es\<rparr>"


text \<open>
  C9: what \<open>Validate\<close> accepts has unique non-empty step ids, edges only between declared
  steps, no cycle at all, and no step whose effective environment gives a literal value to
  a variable that also comes from a secret.
\<close>

theorem Validate_garante:
  assumes "Validate re w = None"
  shows "ids_ok w \<and> arestas_ok w \<and> acyclic (arco (wf_edges w)) \<and> segredo_nao_e_literal w"
  using Validate_ids Validate_arestas Validate_aciclico Validate_segredos assms by blast

theorem Validate_garante_witness:
  "Validate (\<lambda>_. None) (workflow_de_exemplo [\<lparr>e_from = ''a'', e_to = ''b''\<rparr>]) = None \<and>
   acyclic (arco (wf_edges (workflow_de_exemplo [\<lparr>e_from = ''a'', e_to = ''b''\<rparr>])))"
proof -
  have v: "Validate (\<lambda>_. None) (workflow_de_exemplo [\<lparr>e_from = ''a'', e_to = ''b''\<rparr>]) = None"
    by code_simp
  with Validate_garante [OF v] show ?thesis by blast
qed

end
