(* ===== verification/Graph.thy ===== *)
theory Graph
  imports Ciclo "HOL-Library.Multiset"
begin

text \<open>
  \<open>internal/graph/order.go\<close>: the topological levels of a workflow (Kahn's algorithm with
  in-degree counters). The model keeps the counters, the multi-lists of successors and
  the scan over the nodes of the source. The levels are proved to be a permutation of the
  steps in which every edge goes to a later level, and the routine fails exactly on a
  cyclic graph.
\<close>

section \<open>The algorithm\<close>

definition entradas :: "edge list \<Rightarrow> string \<Rightarrow> int" where
  "entradas es = fold (\<lambda>e f. f(e_to e := f (e_to e) + 1)) es (\<lambda>_. 0)"

text \<open>The inner loop: \<open>entrada[dest]--; if entrada[dest] == 0 { proximo = append(...) }\<close>.\<close>

fun consumir :: "string list \<Rightarrow> (string \<Rightarrow> int) \<times> string list \<Rightarrow> (string \<Rightarrow> int) \<times> string list" where
  "consumir [] s = s"
| "consumir (d # ds) (f, prox) =
     (let f' = f(d := f d - 1) in
      consumir ds (f', if f' d = 0 then prox @ [d] else prox))"

fun um_nivel ::
  "edge list \<Rightarrow> string list \<Rightarrow> string list \<Rightarrow> (string \<Rightarrow> int) \<times> string list \<Rightarrow> (string \<Rightarrow> int) \<times> string list" where
  "um_nivel es atual [] s = s"
| "um_nivel es atual (x # xs) s =
     um_nivel es atual xs (if List.member atual x then consumir (saida es x) s else s)"

lemma consumir_append: "consumir (xs @ ys) s = consumir ys (consumir xs s)"
  by (induction xs s rule: consumir.induct) (auto simp: Let_def)

lemma um_nivel_consumir:
  "um_nivel es atual xs s = consumir (concat (map (saida es) (filter (\<lambda>x. x \<in> set atual) xs))) s"
  by (induction es atual xs s rule: um_nivel.induct) (auto simp: consumir_append)

text \<open>
  One pass: the counters drop by the number of occurrences, and the steps appended are
  those whose counter went from positive to zero or below, each once.
\<close>

lemma consumir_spec:
  "consumir ds (f, prox) = (f', prox') \<Longrightarrow>
   (\<forall>v. f' v = f v - int (count_list ds v)) \<and>
   (\<exists>novos. prox' = prox @ novos \<and> distinct novos \<and> set novos = {v. 0 < f v \<and> f' v \<le> 0})"
proof (induction ds "(f, prox)" arbitrary: f prox rule: consumir.induct)
  case (2 d ds f prox)
  let ?g = "f(d := f d - 1)" let ?p = "if ?g d = 0 then prox @ [d] else prox"
  have c: "consumir ds (?g, ?p) = (f', prox')" using "2.prems" by (simp add: Let_def)
  have "(\<forall>v. f' v = ?g v - int (count_list ds v)) \<and>
      (\<exists>novos. prox' = ?p @ novos \<and> distinct novos \<and> set novos = {v. 0 < ?g v \<and> f' v \<le> 0})"
    by (rule "2.hyps" [OF refl c])
  then obtain novos where f': "\<forall>v. f' v = ?g v - int (count_list ds v)" and p: "prox' = ?p @ novos"
    and n: "distinct novos" "set novos = {v. 0 < ?g v \<and> f' v \<le> 0}" by blast
  have "\<exists>ns. prox' = prox @ ns \<and> distinct ns \<and> set ns = {v. 0 < f v \<and> f' v \<le> 0}"
  proof (cases "f d = 1")
    case True
    then have "prox' = prox @ (d # novos)" "distinct (d # novos)" using p n by auto
    moreover have "set (d # novos) = {v. 0 < f v \<and> f' v \<le> 0}"
    proof -
      have d: "f' d \<le> 0" using f' True by simp
      have novos: "set novos = {v. 0 < f v \<and> v \<noteq> d \<and> f' v \<le> 0}"
        unfolding n(2)
      proof (rule Collect_cong)
        fix v show "(0 < ?g v \<and> f' v \<le> 0) = (0 < f v \<and> v \<noteq> d \<and> f' v \<le> 0)"
          using True by (cases "v = d") simp_all
      qed
      show ?thesis
      proof (rule set_eqI)
        fix v show "v \<in> set (d # novos) \<longleftrightarrow> v \<in> {v. 0 < f v \<and> f' v \<le> 0}"
          using d True by (cases "v = d") (simp_all add: novos)
      qed
    qed
    ultimately show ?thesis by blast
  next
    case False
    then have "prox' = prox @ novos" using p by simp
    moreover have "set novos = {v. 0 < f v \<and> f' v \<le> 0}"
    proof -
      have "0 < ?g v \<longleftrightarrow> 0 < f v" for v using False by auto
      then show ?thesis unfolding n(2) by (intro Collect_cong) simp
    qed
    ultimately show ?thesis using n by blast
  qed
  with f' show ?case by auto
qed auto

lemma set_proximo:
  assumes "um_nivel es atual xs (f, []) = (f', prox)"
  shows "distinct prox \<and> set prox = {v. 0 < f v \<and> f' v \<le> 0} \<and> (\<forall>v. f' v \<le> f v)"
  using consumir_spec [of _ f "[]" f' prox] assms by (fastforce simp: um_nivel_consumir)

text \<open>The counters that are still positive bound the number of levels.\<close>

definition pendentes :: "edge list \<Rightarrow> (string \<Rightarrow> int) \<Rightarrow> string set" where
  "pendentes es f = {v \<in> alvos es. 0 < f v}"

lemma proximo_alvos:
  assumes "um_nivel es atual xs (f, []) = (f', prox)"
  shows "set prox \<subseteq> alvos es"
proof
  fix v assume "v \<in> set prox"
  then have "0 < f v" "f' v \<le> 0" using set_proximo [OF assms] by auto
  moreover have "f' v = f v - int (count_list (concat (map (saida es) (filter (\<lambda>x. x \<in> set atual) xs))) v)"
    using consumir_spec [of _ f "[]" f' prox] assms by (simp add: um_nivel_consumir)
  ultimately have "v \<in> set (concat (map (saida es) (filter (\<lambda>x. x \<in> set atual) xs)))"
    by (metis count_notin diff_zero leD of_nat_0)
  then show "v \<in> alvos es" using saida_alvos by fastforce
qed

lemma pendentes_menos:
  assumes "um_nivel es atual xs (f, []) = (f', prox)" and "prox \<noteq> []"
  shows "card (pendentes es f') < card (pendentes es f)"
proof (rule psubset_card_mono)
  show "finite (pendentes es f)" by (simp add: pendentes_def)
  obtain v where "v \<in> set prox" using assms(2) by (cases prox) auto
  then have "v \<in> pendentes es f - pendentes es f'"
    using set_proximo [OF assms(1)] proximo_alvos [OF assms(1)] by (auto simp: pendentes_def)
  moreover have "pendentes es f' \<subseteq> pendentes es f"
    using set_proximo [OF assms(1)] by (fastforce simp: pendentes_def intro: less_le_trans)
  ultimately show "pendentes es f' \<subset> pendentes es f" by blast
qed

function camadas :: "edge list \<Rightarrow> string list \<Rightarrow> string list \<Rightarrow> (string \<Rightarrow> int) \<Rightarrow> string list list" where
  "camadas es ids [] f = []"
| "camadas es ids (a # as) f =
     (a # as) # (case um_nivel es (a # as) ids (f, []) of (f', prox) \<Rightarrow> camadas es ids prox f')"
  by pat_completeness auto
termination
proof (relation "measure (\<lambda>(es, ids, atual, f). if atual = [] then 0 else Suc (card (pendentes es f)))",
    goal_cases)
  case 1
  show ?case by simp
next
  case (2 es ids a as f f' prox)
  then show ?case using pendentes_menos [of es "a # as" ids f f' prox] by auto
qed

text \<open>\<open>Niveis\<close>: the error carries the two counts of its message.\<close>

definition Niveis :: "workflow \<Rightarrow> nat \<times> nat + string list list" where
  "Niveis w =
     (let ids = map nd_id (wf_nodes w);
          f = entradas (wf_edges w);
          niveis = camadas (wf_edges w) ids (filter (\<lambda>x. f x = 0) ids) f;
          vistos = sum_list (map length niveis)
      in if vistos \<noteq> length (wf_nodes w) then Inl (vistos, length (wf_nodes w)) else Inr niveis)"

section \<open>Correctness\<close>

text \<open>The number of edges into \<open>v\<close> that leave a step outside \<open>S\<close>.\<close>

definition restantes :: "edge list \<Rightarrow> string set \<Rightarrow> string \<Rightarrow> nat" where
  "restantes es S v = length (filter (\<lambda>e. e_to e = v \<and> e_from e \<notin> S) es)"

lemma entradas_restantes: "entradas es v = int (restantes es {} v)"
proof -
  have "fold (\<lambda>e f. f(e_to e := f (e_to e) + 1)) es g v
        = g v + int (length (filter (\<lambda>e. e_to e = v) es))" for g
    by (induction es arbitrary: g) auto
  then show ?thesis by (simp add: entradas_def restantes_def)
qed

lemma restantes_zero: "restantes es S v = 0 \<longleftrightarrow> (\<forall>u. (u, v) \<in> arco es \<longrightarrow> u \<in> S)"
  by (auto simp: restantes_def arco_def filter_empty_conv)

lemma count_saida: "count_list (saida es x) v = length (filter (\<lambda>e. e_to e = v \<and> e_from e = x) es)"
  by (induction es) (auto simp: saida_def)

lemma restantes_insert:
  "x \<notin> S \<Longrightarrow> restantes es S v = restantes es (insert x S) v + count_list (saida es x) v"
  unfolding restantes_def count_saida by (induction es) auto

lemma restantes_Un:
  "distinct xs \<Longrightarrow> set xs \<inter> S = {} \<Longrightarrow>
   restantes es S v = restantes es (S \<union> set xs) v + count_list (concat (map (saida es) xs)) v"
proof (induction xs arbitrary: S)
  case (Cons x xs)
  then have "restantes es (insert x S) v
      = restantes es (insert x S \<union> set xs) v + count_list (concat (map (saida es) xs)) v"
    by auto
  with Cons.prems show ?case using restantes_insert [of x S es v] by simp
qed simp

text \<open>
  The invariant of the level loop: \<open>feito\<close> are the steps of the levels already emitted,
  the counters count the edges from the others, and the current level is what has no
  edge left.
\<close>

definition kahn_ok :: "edge list \<Rightarrow> string list \<Rightarrow> string set \<Rightarrow> string list \<Rightarrow> (string \<Rightarrow> int) \<Rightarrow> bool" where
  "kahn_ok es ids feito atual f \<longleftrightarrow>
     distinct ids \<and> arco es \<subseteq> set ids \<times> set ids \<and>
     (\<forall>v. f v = int (restantes es feito v)) \<and>
     distinct atual \<and> set atual \<inter> feito = {} \<and> feito \<subseteq> set ids \<and>
     (\<forall>v \<in> feito. restantes es feito v = 0) \<and>
     set atual = {v \<in> set ids - feito. restantes es feito v = 0}"

lemma kahn_passo:
  assumes k: "kahn_ok es ids feito atual f" and n: "um_nivel es atual ids (f, []) = (f', prox)"
  shows "kahn_ok es ids (feito \<union> set atual) prox f'"
proof -
  let ?xs = "filter (\<lambda>x. x \<in> set atual) ids"
  have xs: "distinct ?xs" "set ?xs = set atual" "set ?xs \<inter> feito = {}"
    using k by (auto simp: kahn_ok_def)
  have f': "f' v = int (restantes es (feito \<union> set atual) v)" for v
  proof -
    have "f' v = f v - int (count_list (concat (map (saida es) ?xs)) v)"
      using consumir_spec [of _ f "[]" f' prox] n by (simp add: um_nivel_consumir)
    then show ?thesis
      using restantes_Un [OF xs(1,3), of es v] xs(2) k by (simp add: kahn_ok_def)
  qed
  have p: "distinct prox" "set prox = {v. 0 < f v \<and> f' v \<le> 0}"
    using set_proximo [OF n] by auto
  have ids: "set prox \<subseteq> set ids"
    using proximo_alvos [OF n] k by (auto simp: alvos_def arco_def kahn_ok_def)
  have antes: "restantes es feito v = 0" if "v \<in> feito \<union> set atual" for v
    using k that by (auto simp: kahn_ok_def)
  have novo: "0 < restantes es feito v" if "v \<in> set ids - (feito \<union> set atual)" for v
    using k that by (auto simp: kahn_ok_def)
  have fecha: "restantes es (feito \<union> set atual) v = 0" if "v \<in> feito \<union> set atual" for v
    using antes [OF that] by (auto simp: restantes_zero)
  have fv: "f v = int (restantes es feito v)" for v using k by (simp add: kahn_ok_def)
  have "v \<in> set prox \<longleftrightarrow> v \<in> set ids - (feito \<union> set atual) \<and> restantes es (feito \<union> set atual) v = 0" for v
  proof
    assume v: "v \<in> set prox"
    then have "v \<notin> feito \<union> set atual" using antes p(2) fv by fastforce
    with v show "v \<in> set ids - (feito \<union> set atual) \<and> restantes es (feito \<union> set atual) v = 0"
      using ids p(2) f' by auto
  next
    assume "v \<in> set ids - (feito \<union> set atual) \<and> restantes es (feito \<union> set atual) v = 0"
    then show "v \<in> set prox" using novo p(2) f' fv by simp
  qed
  then show ?thesis using k p(1) f' fecha by (auto simp: kahn_ok_def)
qed

text \<open>The level a step is in, and what a list of levels must satisfy.\<close>

fun nivel_de :: "string list list \<Rightarrow> string \<Rightarrow> nat" where
  "nivel_de [] x = 0"
| "nivel_de (l # ls) x = (if x \<in> set l then 0 else Suc (nivel_de ls x))"

definition niveis_ok :: "edge list \<Rightarrow> string list \<Rightarrow> string set \<Rightarrow> string list list \<Rightarrow> bool" where
  "niveis_ok es ids feito ls \<longleftrightarrow>
     distinct (concat ls) \<and> set (concat ls) \<subseteq> set ids - feito \<and> [] \<notin> set ls \<and>
     (\<forall>v \<in> set ids - feito - set (concat ls). restantes es (feito \<union> set (concat ls)) v \<noteq> 0) \<and>
     (\<forall>(a, b) \<in> arco es. b \<in> set (concat ls) \<longrightarrow>
        a \<in> feito \<or> (a \<in> set (concat ls) \<and> nivel_de ls a < nivel_de ls b)) \<and>
     (\<forall>b \<in> set (concat ls). \<forall>k. nivel_de ls b = Suc k \<longrightarrow>
        (\<exists>a \<in> set (concat ls). (a, b) \<in> arco es \<and> nivel_de ls a = k))"

lemma camadas_ok:
  "kahn_ok es ids feito atual f \<Longrightarrow> niveis_ok es ids feito (camadas es ids atual f)"
proof (induction es ids atual f arbitrary: feito rule: camadas.induct)
  case (1 es ids f)
  then show ?case by (auto simp: niveis_ok_def kahn_ok_def)
next
  case (2 es ids a as f)
  define atual where "atual = a # as"
  have False: "atual \<noteq> []" by (simp add: atual_def)
  note k = "2.prems" [folded atual_def]
    obtain f' prox where n: "um_nivel es atual ids (f, []) = (f', prox)" by fastforce
    let ?r = "camadas es ids prox f'"
    have ls: "camadas es ids atual f = atual # ?r"
      using n by (simp add: atual_def)
    have k': "kahn_ok es ids (feito \<union> set atual) prox f'" by (rule kahn_passo [OF k n])
    have r: "niveis_ok es ids (feito \<union> set atual) ?r"
      by (rule "2.IH" [OF n [symmetric, unfolded atual_def] k'])
    have disj: "set (concat ?r) \<inter> (feito \<union> set atual) = {}" and dist: "distinct (concat ?r)"
      using r by (auto simp: niveis_ok_def)
    have at: "set atual \<subseteq> set ids - feito" "distinct atual" using k by (auto simp: kahn_ok_def)
    have um: "distinct (concat (atual # ?r))" "set (concat (atual # ?r)) \<subseteq> set ids - feito"
        "[] \<notin> set (atual # ?r)"
      using r at disj dist False by (auto simp: niveis_ok_def)
    have sobra: "\<forall>v \<in> set ids - feito - set (concat (atual # ?r)).
        restantes es (feito \<union> set (concat (atual # ?r))) v \<noteq> 0"
      using r by (auto simp: niveis_ok_def Un_assoc)
    have ordem: "a \<in> feito \<or> (a \<in> set (concat (atual # ?r)) \<and> nivel_de (atual # ?r) a < nivel_de (atual # ?r) b)"
      if ab: "(a, b) \<in> arco es" and b: "b \<in> set (concat (atual # ?r))" for a b
    proof (cases "b \<in> set atual")
      case True
      then have "restantes es feito b = 0" using k by (auto simp: kahn_ok_def)
      with ab show ?thesis by (auto simp: restantes_zero)
    next
      case False
      with b have br: "b \<in> set (concat ?r)" by simp
      with r ab have "a \<in> feito \<union> set atual \<or> (a \<in> set (concat ?r) \<and> nivel_de ?r a < nivel_de ?r b)"
        unfolding niveis_ok_def by blast
      with False show ?thesis by auto
    qed
    have prox0: "b \<in> set prox" if "b \<in> set (concat ?r)" "nivel_de ?r b = 0" for b
      using that by (cases prox) (auto split: if_splits)
    have cedo: "\<exists>a \<in> set (concat (atual # ?r)). (a, b) \<in> arco es \<and> nivel_de (atual # ?r) a = m"
      if b: "b \<in> set (concat (atual # ?r))" and m: "nivel_de (atual # ?r) b = Suc m" for b m
    proof -
      have nb: "b \<notin> set atual" using m by auto
      with b have br: "b \<in> set (concat ?r)" by simp
      from m nb have m': "nivel_de ?r b = m" by simp
      show ?thesis
      proof (cases m)
        case 0
        with m' br have "b \<in> set prox" by (intro prox0) simp_all
        then have "b \<in> set ids - (feito \<union> set atual)" "restantes es (feito \<union> set atual) b = 0"
          using k' by (auto simp: kahn_ok_def)
        moreover have "restantes es feito b \<noteq> 0" using calculation k by (auto simp: kahn_ok_def)
        ultimately obtain a where "(a, b) \<in> arco es" "a \<in> set atual"
          by (auto simp: restantes_zero)
        with 0 show ?thesis by auto
      next
        case (Suc m'')
        with r br m' obtain a where a: "a \<in> set (concat ?r)" "(a, b) \<in> arco es" "nivel_de ?r a = m''"
          unfolding niveis_ok_def by blast
        then have "a \<notin> set atual" using disj by auto
        with a Suc show ?thesis by auto
      qed
    qed
    show ?case unfolding ls [unfolded atual_def] niveis_ok_def
      using um sobra ordem cedo by (fold atual_def) blast
qed

lemma kahn_inicio:
  assumes "ids_ok w" and "arestas_ok w"
  shows "kahn_ok (wf_edges w) (map nd_id (wf_nodes w)) {}
    (filter (\<lambda>x. entradas (wf_edges w) x = 0) (map nd_id (wf_nodes w))) (entradas (wf_edges w))"
  using assms by (auto simp: kahn_ok_def ids_ok_def arestas_ok_def entradas_restantes)

lemma Niveis_camadas:
  assumes "ids_ok w" and "arestas_ok w"
  obtains ls where "niveis_ok (wf_edges w) (map nd_id (wf_nodes w)) {} ls"
    and "Niveis w = (if length (concat ls) \<noteq> length (wf_nodes w)
                     then Inl (length (concat ls), length (wf_nodes w)) else Inr ls)"
  using camadas_ok [OF kahn_inicio [OF assms]] by (auto simp: Niveis_def Let_def length_concat)

lemma length_concat_todos:
  assumes "niveis_ok es ids {} ls" and "distinct ids"
  shows "length (concat ls) = length ids \<longleftrightarrow> set (concat ls) = set ids"
  using assms unfolding niveis_ok_def
  by (metis Diff_empty List.finite_set card_subset_eq distinct_card)

lemma niveis_ok_aciclico:
  assumes n: "niveis_ok es ids {} ls" and todos: "set (concat ls) = set ids"
    and es: "arco es \<subseteq> set ids \<times> set ids"
  shows "acyclic (arco es)"
proof -
  have "arco es \<subseteq> measure (nivel_de ls)"
    using n todos es unfolding niveis_ok_def by fastforce
  then show ?thesis by (meson acyclic_subset wf_acyclic wf_measure)
qed

lemma aciclico_todos:
  assumes n: "niveis_ok es ids {} ls" and ac: "acyclic (arco es)"
    and es: "arco es \<subseteq> set ids \<times> set ids"
  shows "set (concat ls) = set ids"
proof (rule ccontr)
  assume ne: "set (concat ls) \<noteq> set ids"
  have "set (concat ls) \<subseteq> set ids" using n by (auto simp: niveis_ok_def)
  with ne obtain x where x: "x \<in> set ids - set (concat ls)" by blast
  have "finite (arco es)" by (simp add: arco_def setcompr_eq_image)
  then have "wf (arco es)" using ac by (simp add: finite_acyclic_wf)
  from wfE_min [OF this x] obtain z where z: "z \<in> set ids - set (concat ls)"
    and min: "\<And>y. (y, z) \<in> arco es \<Longrightarrow> y \<notin> set ids - set (concat ls)" by blast
  have "restantes es (set (concat ls)) z \<noteq> 0" using n z by (auto simp: niveis_ok_def)
  then obtain y where "(y, z) \<in> arco es" "y \<notin> set (concat ls)" by (auto simp: restantes_zero)
  with min es show False by blast
qed

lemma Niveis_Inr_iff:
  assumes w: "ids_ok w" "arestas_ok w"
  shows "(\<exists>ls. Niveis w = Inr ls) \<longleftrightarrow> acyclic (arco (wf_edges w))"
proof -
  obtain ls where n: "niveis_ok (wf_edges w) (map nd_id (wf_nodes w)) {} ls"
    and N: "Niveis w = (if length (concat ls) \<noteq> length (wf_nodes w)
                     then Inl (length (concat ls), length (wf_nodes w)) else Inr ls)"
    using Niveis_camadas [OF w] by blast
  have es: "arco (wf_edges w) \<subseteq> set (map nd_id (wf_nodes w)) \<times> set (map nd_id (wf_nodes w))"
    and d: "distinct (map nd_id (wf_nodes w))"
    using w by (auto simp: arestas_ok_def ids_ok_def)
  have "(\<exists>l. Niveis w = Inr l) \<longleftrightarrow> length (concat ls) = length (map nd_id (wf_nodes w))"
    using N by auto
  also have "\<dots> \<longleftrightarrow> set (concat ls) = set (map nd_id (wf_nodes w))"
    by (rule length_concat_todos [OF n d])
  also have "\<dots> \<longleftrightarrow> acyclic (arco (wf_edges w))"
    using niveis_ok_aciclico [OF n _ es] aciclico_todos [OF n _ es] by blast
  finally show ?thesis .
qed

lemma Niveis_InrD:
  assumes w: "ids_ok w" "arestas_ok w" and r: "Niveis w = Inr ls"
  shows "niveis_ok (wf_edges w) (map nd_id (wf_nodes w)) {} ls \<and>
         mset (concat ls) = mset (map nd_id (wf_nodes w))"
proof -
  obtain l where n: "niveis_ok (wf_edges w) (map nd_id (wf_nodes w)) {} l"
    and N: "Niveis w = (if length (concat l) \<noteq> length (wf_nodes w)
                     then Inl (length (concat l), length (wf_nodes w)) else Inr l)"
    using Niveis_camadas [OF w] by blast
  have d: "distinct (map nd_id (wf_nodes w))" using w by (simp add: ids_ok_def)
  from N r have l: "l = ls" "length (concat ls) = length (map nd_id (wf_nodes w))"
    by (auto split: if_splits)
  with length_concat_todos [OF n d] have "set (concat ls) = set (map nd_id (wf_nodes w))" by simp
  moreover have "distinct (concat ls)" using n l by (simp add: niveis_ok_def)
  ultimately have "mset (concat ls) = mset (map nd_id (wf_nodes w))"
    using d set_eq_iff_mset_eq_distinct by blast
  with n l show ?thesis by simp
qed

section \<open>Properties\<close>

lemma arestas_ok_lista:
  "arestas_ok w \<longleftrightarrow> list_all (\<lambda>e. e_from e \<in> nd_id ` set (wf_nodes w) \<and>
     e_to e \<in> nd_id ` set (wf_nodes w)) (wf_edges w)"
proof -
  have "arco (wf_edges w) = (\<lambda>e. (e_from e, e_to e)) ` set (wf_edges w)"
    by (auto simp: arco_def)
  then show ?thesis by (simp add: arestas_ok_def image_subset_iff list_all_iff)
qed

text \<open>
  C8: the levels are the steps of the workflow, each exactly once; no level is empty; an
  edge always goes from a level to a later one; and a step is never later than it has to
  be, since outside the first level it depends on a step of the level just before.
\<close>

theorem Niveis_ordem:
  assumes "ids_ok w" and "arestas_ok w" and "Niveis w = Inr ls"
  shows "mset (concat ls) = mset (map nd_id (wf_nodes w)) \<and> [] \<notin> set ls \<and>
    (\<forall>(a, b) \<in> arco (wf_edges w). nivel_de ls a < nivel_de ls b) \<and>
    (\<forall>b \<in> set (concat ls). \<forall>k. nivel_de ls b = Suc k \<longrightarrow>
       (\<exists>a. (a, b) \<in> arco (wf_edges w) \<and> nivel_de ls a = k))"
proof -
  have n: "niveis_ok (wf_edges w) (map nd_id (wf_nodes w)) {} ls"
    and m: "mset (concat ls) = mset (map nd_id (wf_nodes w))"
    using Niveis_InrD [OF assms] by simp_all
  have s: "set (concat ls) = set (map nd_id (wf_nodes w))" using m by (metis set_mset_mset)
  have "\<forall>(a, b) \<in> arco (wf_edges w). b \<in> set (concat ls)"
    using assms(2) unfolding s arestas_ok_def by auto
  with n m show ?thesis unfolding niveis_ok_def by blast
qed

theorem Niveis_ordem_witness:
  "Niveis (workflow_de_exemplo [\<lparr>e_from = ''a'', e_to = ''c''\<rparr>, \<lparr>e_from = ''b'', e_to = ''c''\<rparr>])
     = Inr [[''a'', ''b''], [''c'']] \<and>
   mset (concat [[''a'', ''b''], [''c'']]) = mset [''a'', ''b'', ''c'']"
proof -
  let ?w = "workflow_de_exemplo [\<lparr>e_from = ''a'', e_to = ''c''\<rparr>, \<lparr>e_from = ''b'', e_to = ''c''\<rparr>]"
  have n: "Niveis ?w = Inr [[''a'', ''b''], [''c'']]" by code_simp
  have "ids_ok ?w" "arestas_ok ?w"
    by (simp_all add: ids_ok_def arestas_ok_lista workflow_de_exemplo_def passo_de_exemplo_def)
  from Niveis_ordem [OF this n] have "mset (concat [[''a'', ''b''], [''c'']]) = mset (map nd_id (wf_nodes ?w))"
    by blast
  with n show ?thesis by (simp add: workflow_de_exemplo_def passo_de_exemplo_def)
qed

text \<open>
  A workflow that \<open>Validate\<close> accepts can always be ordered, so the guard at the end of
  \<open>Niveis\<close> never fires for it; and on a workflow whose edges join declared steps the guard
  fires exactly when there is a cycle.
\<close>

theorem Niveis_total:
  assumes "ids_ok w" and "arestas_ok w"
  shows "((\<exists>ls. Niveis w = Inr ls) \<longleftrightarrow> acyclic (arco (wf_edges w))) \<and>
         (Validate re w = None \<longrightarrow> (\<exists>ls. Niveis w = Inr ls))"
  using Niveis_Inr_iff [OF assms] Validate_aciclico by blast

theorem Niveis_total_witness:
  "Niveis (workflow_de_exemplo [\<lparr>e_from = ''a'', e_to = ''b''\<rparr>, \<lparr>e_from = ''b'', e_to = ''a''\<rparr>]) = Inl (1, 3) \<and>
   \<not> acyclic (arco [\<lparr>e_from = ''a'', e_to = ''b''\<rparr>, \<lparr>e_from = ''b'', e_to = ''a''\<rparr>])"
proof -
  let ?es = "[\<lparr>e_from = ''a'', e_to = ''b''\<rparr>, \<lparr>e_from = ''b'', e_to = ''a''\<rparr>]"
  have n: "Niveis (workflow_de_exemplo ?es) = Inl (1, 3)" by code_simp
  have "ids_ok (workflow_de_exemplo ?es)" "arestas_ok (workflow_de_exemplo ?es)"
    by (simp_all add: ids_ok_def arestas_ok_lista workflow_de_exemplo_def passo_de_exemplo_def)
  from Niveis_total [OF this] n show ?thesis by (simp add: workflow_de_exemplo_def)
qed

end
