(* ===== verification/Runner.thy ===== *)
theory Runner
  imports Execucao Janela Store Graph
begin

text \<open>
  \<open>internal/application/execution/runner.go\<close>: the runner walks the levels of the graph and runs
  every step with its retries. A state holds the world of the executors, the database and the
  events reported so far. The functions of the world and the formats of the library are fields
  of \<open>ambiente\<close>: the clock, whether the context is alive, the two waits, and the order in which
  the steps of a level, which run in parallel, finish. The steps of one level write different
  rows, so a level is the sequence of its steps in that order.
\<close>

section \<open>Errors of a step\<close>

definition dicaDoCodigo :: "int \<Rightarrow> string" where
  "dicaDoCodigo c =
     (if c = 126 then ''comando sem permissao de execucao''
      else if c = 127 then ''comando nao encontrado '' @ map char_of [226, 128, 148 :: nat] @ '' verifique se ele existe na imagem do worker''
      else if c = 130 then ''interrompido por SIGINT''
      else if c = 137 then ''morto por SIGKILL '' @ map char_of [226, 128, 148 :: nat] @ '' normalmente falta de memoria''
      else if c = 143 then ''encerrado por SIGTERM''
      else if c = - 1 then ''encerrado por sinal, sem codigo de saida''
      else [])"

record erro_de_passo =
  ep_node :: string
  ep_exit :: int
  ep_mensagem :: string
  ep_saida :: "string list"

datatype erro_no = ErroSimples string | ErroPasso erro_de_passo

definition ErroDePasso_Error :: "(string \<Rightarrow> string) \<Rightarrow> erro_de_passo \<Rightarrow> string" where
  "ErroDePasso_Error q e =
     (let cabecalho = ''step '' @ q (ep_node e) @ '': '' @ ep_mensagem e;
          dica = dicaDoCodigo (ep_exit e);
          cabecalho = (if dica \<noteq> [] then cabecalho @ '' ('' @ dica @ '')'' else cabecalho)
      in if ep_saida e = [] then cabecalho else cabecalho @ nl @ join nl (ep_saida e))"

fun erro_Error :: "(string \<Rightarrow> string) \<Rightarrow> erro_no \<Rightarrow> string" where
  "erro_Error q (ErroSimples m) = m"
| "erro_Error q (ErroPasso e) = ErroDePasso_Error q e"

section \<open>The runner and its state\<close>

record 's runner =
  rn_processo :: "'s executor option"
  rn_go :: "'s executor option"
  rn_pods :: "'s executor option"
  rn_workdir :: string
  rn_env :: "string gomap"
  rn_report :: bool                  \<comment> \<open>\<open>Report\<close> is set\<close>
  rn_timeout :: time
  rn_max :: int                      \<comment> \<open>\<open>MaxTentativas\<close>\<close>
  rn_backoff :: time
  rn_persist :: bool                 \<comment> \<open>\<open>Persist\<close> is set: the repository of task runs\<close>
  rn_run :: nat                      \<comment> \<open>\<open>RunID\<close>; \<open>0\<close> is \<open>uuid.Nil\<close>\<close>
  rn_params :: "string gomap"
  rn_trigger :: string
  rn_logical :: "time option"
  rn_historico :: bool               \<comment> \<open>\<open>Historico\<close> is set: the same repository\<close>
  rn_vagas :: bool                   \<comment> \<open>\<open>Vagas\<close> is set\<close>
  rn_tentativa_run :: int

record 's ambiente =
  am_agora :: "'s \<Rightarrow> time"
  am_vivo :: "'s \<Rightarrow> bool"             \<comment> \<open>\<open>ctx.Err() == nil\<close>\<close>
  am_ctx_err :: "'s \<Rightarrow> string"
  am_tomar :: "'s \<Rightarrow> bool \<times> 's"       \<comment> \<open>wait for a place; \<open>False\<close> when the context ends first\<close>
  am_soltar :: "'s \<Rightarrow> 's"
  am_esperar :: "time \<Rightarrow> 's \<Rightarrow> bool \<times> 's"  \<comment> \<open>wait for the timer; \<open>False\<close> when the context ends first\<close>
  am_ordem :: "string list \<Rightarrow> 's \<Rightarrow> string list"
  am_quote :: "string \<Rightarrow> string"
  am_json :: "string gomap \<Rightarrow> string"
  am_rfc :: "time \<Rightarrow> string"
  am_dur :: "time \<Rightarrow> string"
  am_uuid :: "nat \<Rightarrow> string"
  am_tmpl :: engine
  am_db :: "erro_db \<Rightarrow> string"

record 's estado =
  es_mundo :: 's
  es_banco :: banco
  es_relato :: "event list"

definition relatar :: "'s runner \<Rightarrow> event \<Rightarrow> 's estado \<Rightarrow> 's estado" where
  "relatar r e s = (if rn_report r then s\<lparr>es_relato := es_relato s @ [e]\<rparr> else s)"

section \<open>Assembling the task\<close>

definition contextoDoRun :: "'s ambiente \<Rightarrow> 's runner \<Rightarrow> string \<Rightarrow> bool \<Rightarrow> int \<Rightarrow> string gomap" where
  "contextoDoRun am r nid primeira tentativa =
     (let env = [];
          env = (if rn_run r \<noteq> 0 then
                   poe ''BREVIS_RUN_ATTEMPT'' (show_int tentativa)
                     (poe ''BREVIS_RUN_FIRST'' (if primeira then ''true'' else ''false'')
                       (poe ''BREVIS_RUN_ID'' (am_uuid am (rn_run r)) env))
                 else env);
          env = (if rn_trigger r \<noteq> [] then poe ''BREVIS_RUN_TRIGGER'' (rn_trigger r) env else env);
          env = (case rn_logical r of None \<Rightarrow> env
                 | Some d \<Rightarrow> poe ''BREVIS_RUN_LOGICAL_DATE'' (am_rfc am d) env)
      in if rn_params r \<noteq> [] then poe ''BREVIS_RUN_PARAMS'' (am_json am (rn_params r)) env else env)"

definition mesclarEnv :: "string gomap \<Rightarrow> string gomap \<Rightarrow> string gomap list \<Rightarrow> string gomap" where
  "mesclarEnv base execucao acima = fold poe_todos acima (poe_todos base (poe_todos execucao []))"

definition primeiraExecucao :: "'s ambiente \<Rightarrow> 's runner \<Rightarrow> string \<Rightarrow> string \<Rightarrow> 's estado \<Rightarrow> bool" where
  "primeiraExecucao am r slug nid s =
     (if \<not> rn_historico r then False
      else if \<not> am_vivo am (es_mundo s) then False
      else \<not> PassoJaTeveSucesso slug nid (rn_run r) (es_banco s))"

definition tarefa_de :: "'s ambiente \<Rightarrow> 's runner \<Rightarrow> workflow \<Rightarrow> node \<Rightarrow> int \<Rightarrow> bool \<Rightarrow> taskexec" where
  "tarefa_de am r w n tentativa primeira =
     (let recursos = RecursosDe w n in
      \<lparr>te_execution = wf_slug w @ '':'' @ nd_id n, te_node = nd_id n, te_workflow = wf_slug w,
       te_run = am_uuid am (rn_run r), te_tentativa = tentativa, te_tentativa_run = 0,
       te_command = [], te_action = [], te_with = [], te_image = ImagemDe w n, te_shell = UsaShell n,
       te_cpu = cpu recursos, te_memoria = memory recursos, te_cpu_max = cpu_limit recursos,
       te_memoria_max = memory_limit recursos, te_workdir = rn_workdir r,
       te_env = mesclarEnv (rn_env r) (contextoDoRun am r (nd_id n) primeira tentativa) [EnvDe w n],
       te_secrets = SecretsDe w n, te_timeout = rn_timeout r\<rparr>)"

definition montar ::
  "'s ambiente \<Rightarrow> 's runner \<Rightarrow> workflow \<Rightarrow> node \<Rightarrow> int \<Rightarrow> bool \<Rightarrow> 's estado
     \<Rightarrow> (string + 's executor \<times> taskexec) \<times> 's estado" where
  "montar am r w n tentativa primeira s =
     (let q = am_quote am; imagem = ImagemDe w n; t = tarefa_de am r w n tentativa primeira in
      if nd_action n \<noteq> [] then
        (case rn_go r of
           None \<Rightarrow> (Inl (''step '' @ q (nd_id n) @ '' usa `action: '' @ nd_action n @
                        ''`, mas nenhum executor Go foi configurado''), s)
         | Some g \<Rightarrow> (Inr (g, t\<lparr>te_action := nd_action n, te_with := nd_with n\<rparr>), s))
      else
        (case Renderizar (am_tmpl am) (nd_run n) (rn_params r) of
           Inl e \<Rightarrow> (Inl (''step '' @ q (nd_id n) @ '': '' @ e), s)
         | Inr comando \<Rightarrow>
             let t = t\<lparr>te_command := comando\<rparr> in
             (case (imagem \<noteq> [], rn_pods r) of
                (True, Some p) \<Rightarrow> (Inr (p, t), s)
              | _ \<Rightarrow>
                (case rn_processo r of
                   None \<Rightarrow>
                     (Inl (if imagem \<noteq> [] then
                             ''step '' @ q (nd_id n) @ '' declara `image: '' @ imagem @
                             ''`, mas este processo nao tem executor de pods nem de processo''
                           else ''step '' @ q (nd_id n) @
                             '' usa `run:`, mas nenhum executor de processo foi configurado''), s)
                 | Some p \<Rightarrow>
                     (Inr (p, t),
                      if imagem \<noteq> [] then
                        relatar r (log_de (nd_id n) ''stderr''
                          (''modo local: rodando na instancia, ignorando `image: '' @ imagem @ ''`'')) s
                      else s)))))"

section \<open>One attempt\<close>

definition linhasDeContexto :: nat where
  "linhasDeContexto = 5"

record coleta =
  co_falha :: "erro_de_passo option"
  co_stderr :: "string list"
  co_stdout :: "string list"
  co_completa :: janela

definition coleta_vazia :: coleta where
  "coleta_vazia = \<lparr>co_falha = None, co_stderr = [], co_stdout = [], co_completa = janela_vazia\<rparr>"

definition desliza :: "string \<Rightarrow> string list \<Rightarrow> string list" where
  "desliza l ls = (let ls = ls @ [l] in if linhasDeContexto < length ls then tl ls else ls)"

definition consumir_evento :: "string \<Rightarrow> event \<Rightarrow> coleta \<Rightarrow> coleta" where
  "consumir_evento nid e c =
     (let linha = trim_space (ev_message e);
          c = (if ev_kind e = EventLog \<and> linha \<noteq> [] then
                 (let c = c\<lparr>co_completa := Escrever linha (co_completa c)\<rparr> in
                  if ev_stream e = ''stderr'' then c\<lparr>co_stderr := desliza linha (co_stderr c)\<rparr>
                  else c\<lparr>co_stdout := desliza linha (co_stdout c)\<rparr>)
               else c)
      in if ev_kind e = EventFailed
         then c\<lparr>co_falha := Some \<lparr>ep_node = nid, ep_exit = ev_exit e, ep_mensagem = ev_message e, ep_saida = []\<rparr>\<rparr>
         else c)"

definition desfecho :: "coleta \<Rightarrow> string \<times> erro_no option" where
  "desfecho c =
     (janela_String (co_completa c),
      case co_falha c of None \<Rightarrow> None
      | Some f \<Rightarrow> Some (ErroPasso (f\<lparr>ep_saida := (if co_stderr c = [] then co_stdout c else co_stderr c)\<rparr>)))"

definition tentar ::
  "'s ambiente \<Rightarrow> 's runner \<Rightarrow> workflow \<Rightarrow> node \<Rightarrow> int \<Rightarrow> 's estado \<Rightarrow> (string \<times> erro_no option) \<times> 's estado" where
  "tentar am r w n tentativa s =
     (case montar am r w n tentativa (primeiraExecucao am r (wf_slug w) (nd_id n) s) s of
        (Inl e, s) \<Rightarrow> (([], Some (ErroSimples e)), s)
      | (Inr (exec, tarefa), s) \<Rightarrow>
          (case exec tarefa (es_mundo s) of
             (Inl e, m) \<Rightarrow> (([], Some (ErroSimples (''step '' @ am_quote am (nd_id n) @ '': '' @ e))), s\<lparr>es_mundo := m\<rparr>)
           | (Inr eventos, m) \<Rightarrow>
               (desfecho (fold (consumir_evento (nd_id n)) eventos coleta_vazia),
                fold (relatar r) eventos (s\<lparr>es_mundo := m\<rparr>))))"

section \<open>A step with its retries\<close>

text \<open>A write to the database under a context that ended is refused and reported.\<close>

definition aviso :: "'s runner \<Rightarrow> string \<Rightarrow> string \<Rightarrow> string \<Rightarrow> 's estado \<Rightarrow> 's estado" where
  "aviso r nid momento causa s =
     relatar r (log_de nid ''stderr'' (''nao consegui registrar o '' @ momento @ '' do passo: '' @ causa)) s"

definition marcarInicio :: "'s ambiente \<Rightarrow> 's runner \<Rightarrow> string \<Rightarrow> int \<Rightarrow> 's estado \<Rightarrow> 's estado" where
  "marcarInicio am r nid tentativa s =
     (if \<not> rn_persist r \<or> rn_run r = 0 then s
      else if \<not> am_vivo am (es_mundo s) then aviso r nid ''inicio'' (am_ctx_err am (es_mundo s)) s
      else (case IniciarTask (rn_run r) nid tentativa (am_agora am (es_mundo s)) (es_banco s) of
              (None, b) \<Rightarrow> s\<lparr>es_banco := b\<rparr>
            | (Some e, b) \<Rightarrow> aviso r nid ''inicio'' (am_db am e) (s\<lparr>es_banco := b\<rparr>)))"

definition saida_do_passo :: "erro_no option \<Rightarrow> int option" where
  "saida_do_passo causa =
     (case causa of Some (ErroPasso p) \<Rightarrow> if ep_exit p \<noteq> 0 then Some (ep_exit p) else None | _ \<Rightarrow> None)"

definition marcarFim :: "'s ambiente \<Rightarrow> 's runner \<Rightarrow> string \<Rightarrow> int \<Rightarrow> erro_no option \<Rightarrow> string \<Rightarrow> 's estado \<Rightarrow> 's estado" where
  "marcarFim am r nid tentativa causa log s =
     (if \<not> rn_persist r \<or> rn_run r = 0 then s
      else if \<not> am_vivo am (es_mundo s) then aviso r nid ''fim'' (am_ctx_err am (es_mundo s)) s
      else s\<lparr>es_banco := TerminarTask (rn_run r) nid tentativa
               (if causa = None then StatusSuccess else StatusFailed) (saida_do_passo causa)
               (case causa of None \<Rightarrow> [] | Some e \<Rightarrow> erro_Error (am_quote am) e) log
               (am_agora am (es_mundo s)) (es_banco s)\<rparr>)"

definition ocupar :: "'s ambiente \<Rightarrow> 's runner \<Rightarrow> 's estado \<Rightarrow> bool \<times> 's estado" where
  "ocupar am r s =
     (if \<not> rn_vagas r then (True, s)
      else (case am_tomar am (es_mundo s) of (ok, m) \<Rightarrow> (ok, s\<lparr>es_mundo := m\<rparr>)))"

definition liberar :: "'s ambiente \<Rightarrow> 's runner \<Rightarrow> 's estado \<Rightarrow> 's estado" where
  "liberar am r s = (if rn_vagas r then s\<lparr>es_mundo := am_soltar am (es_mundo s)\<rparr> else s)"

text \<open>The body of one attempt, between taking the place and giving it back.\<close>

definition tentativa_marcada ::
  "'s ambiente \<Rightarrow> 's runner \<Rightarrow> workflow \<Rightarrow> node \<Rightarrow> int \<Rightarrow> 's estado \<Rightarrow> erro_no option \<times> 's estado" where
  "tentativa_marcada am r w n k s =
     (case tentar am r w n k (marcarInicio am r (nd_id n) k s) of
        ((texto, ultima), s) \<Rightarrow> (ultima, liberar am r (marcarFim am r (nd_id n) k ultima texto s)))"

definition espera_de :: "'s runner \<Rightarrow> int \<Rightarrow> time" where
  "espera_de r t = int64 (rn_backoff r * int64 (2 ^ nat (t - 1)))"

text \<open>\<open>restam\<close> attempts are left, the next one is number \<open>t\<close> of \<open>total\<close>.\<close>

definition aviso_de_nova ::
  "'s ambiente \<Rightarrow> 's runner \<Rightarrow> string \<Rightarrow> int \<Rightarrow> int \<Rightarrow> 's estado \<Rightarrow> 's estado" where
  "aviso_de_nova am r nid t limite s =
     relatar r (log_de nid ''stderr''
       (''tentativa '' @ show_int t @ ''/'' @ show_int limite @ '' falhou, repetindo em '' @
        am_dur am (espera_de r t))) s"

fun insistir ::
  "'s ambiente \<Rightarrow> 's runner \<Rightarrow> workflow \<Rightarrow> node \<Rightarrow> int \<Rightarrow> nat \<Rightarrow> int \<Rightarrow> erro_no option \<Rightarrow> 's estado
     \<Rightarrow> erro_no option \<times> 's estado" where
  "insistir am r w n limite 0 t ultima s = (ultima, s)"
| "insistir am r w n limite (Suc restam) t ultima s =
     (case ocupar am r s of
        (False, s) \<Rightarrow> (Some (ErroSimples (am_ctx_err am (es_mundo s))), s)
      | (True, s) \<Rightarrow>
          (case tentativa_marcada am r w n (t - 1) s of
             (None, s) \<Rightarrow> (None, s)
           | (Some e, s) \<Rightarrow>
               if restam = 0 \<or> \<not> am_vivo am (es_mundo s) then (Some e, s)
               else
                 (let s = aviso_de_nova am r (nd_id n) t limite s
                  in case am_esperar am (espera_de r t) (es_mundo s) of
                       (True, m) \<Rightarrow> insistir am r w n limite restam (t + 1) (Some e) (s\<lparr>es_mundo := m\<rparr>)
                     | (False, m) \<Rightarrow> (Some e, s\<lparr>es_mundo := m\<rparr>))))"

definition rodarNo ::
  "'s ambiente \<Rightarrow> 's runner \<Rightarrow> workflow \<Rightarrow> node \<Rightarrow> 's estado \<Rightarrow> erro_no option \<times> 's estado" where
  "rodarNo am r w n s =
     (let tentativas = (if rn_max r < 1 then 1 else rn_max r)
      in insistir am r w n tentativas (nat tentativas) 1 None s)"

section \<open>Levels\<close>

definition no_vazio :: node where
  "no_vazio = \<lparr>nd_id = [], nd_run = [], nd_action = [], nd_with = [], nd_image = [],
     nd_resources = \<lparr>cpu = [], memory = [], cpu_limit = [], memory_limit = []\<rparr>, nd_shell = None, nd_env = [], nd_secrets = []\<rparr>"

definition porID :: "workflow \<Rightarrow> string \<Rightarrow> node" where
  "porID w x = (case map_of (fold (\<lambda>n. poe (nd_id n) n) (wf_nodes w) []) x of Some n \<Rightarrow> n | None \<Rightarrow> no_vazio)"

fun rodar_todos ::
  "'s ambiente \<Rightarrow> 's runner \<Rightarrow> workflow \<Rightarrow> string list \<Rightarrow> 's estado \<Rightarrow> erro_no list \<times> 's estado" where
  "rodar_todos am r w [] s = ([], s)"
| "rodar_todos am r w (x # xs) s =
     (case rodarNo am r w (porID w x) s of
        (e, s) \<Rightarrow> (case rodar_todos am r w xs s of
                     (es, s) \<Rightarrow> ((case e of None \<Rightarrow> es | Some e \<Rightarrow> e # es), s)))"

definition rodarNivel ::
  "'s ambiente \<Rightarrow> 's runner \<Rightarrow> workflow \<Rightarrow> string list \<Rightarrow> 's estado \<Rightarrow> erro_no option \<times> 's estado" where
  "rodarNivel am r w nivel s =
     (case rodar_todos am r w (am_ordem am nivel (es_mundo s)) s of
        (es, s) \<Rightarrow> (case es of [] \<Rightarrow> None | e # _ \<Rightarrow> Some e, s))"

datatype erro_execucao = SemOrdem "nat \<times> nat" | NoNivel nat erro_no

fun rodar_niveis ::
  "'s ambiente \<Rightarrow> 's runner \<Rightarrow> workflow \<Rightarrow> nat \<Rightarrow> string list list \<Rightarrow> 's estado
     \<Rightarrow> erro_execucao option \<times> 's estado" where
  "rodar_niveis am r w i [] s = (None, s)"
| "rodar_niveis am r w i (l # ls) s =
     (case rodarNivel am r w l s of
        (Some e, s) \<Rightarrow> (Some (NoNivel (i + 1) e), s)
      | (None, s) \<Rightarrow> rodar_niveis am r w (i + 1) ls s)"

definition Run :: "'s ambiente \<Rightarrow> 's runner \<Rightarrow> workflow \<Rightarrow> 's estado \<Rightarrow> erro_execucao option \<times> 's estado" where
  "Run am r w s =
     (case Niveis w of
        Inl e \<Rightarrow> (Some (SemOrdem e), s)
      | Inr niveis \<Rightarrow> rodar_niveis am r w 0 niveis s)"

section \<open>What the events of a step become\<close>

definition ultimas :: "nat \<Rightarrow> 'a list \<Rightarrow> 'a list" where
  "ultimas k xs = drop (length xs - k) xs"

definition linhas_do_fluxo :: "(string \<Rightarrow> bool) \<Rightarrow> event list \<Rightarrow> string list" where
  "linhas_do_fluxo P es =
     filter (\<lambda>l. l \<noteq> []) (map (\<lambda>e. trim_space (ev_message e)) (filter (\<lambda>e. ev_kind e = EventLog \<and> P (ev_stream e)) es))"

definition falha_final :: "string \<Rightarrow> event list \<Rightarrow> erro_de_passo option" where
  "falha_final nid es =
     (let fs = filter (\<lambda>e. ev_kind e = EventFailed) es in if fs = [] then None
      else Some \<lparr>ep_node = nid, ep_exit = ev_exit (last fs), ep_mensagem = ev_message (last fs), ep_saida = []\<rparr>)"

definition contexto_da_falha :: "event list \<Rightarrow> string list" where
  "contexto_da_falha es =
     (let erros = linhas_do_fluxo (\<lambda>f. f = ''stderr'') es in
      ultimas linhasDeContexto (if erros = [] then linhas_do_fluxo (\<lambda>f. f \<noteq> ''stderr'') es else erros))"

lemma desliza_ultimas: "desliza l (ultimas linhasDeContexto ls) = ultimas linhasDeContexto (ls @ [l])"
proof (cases "length ls < linhasDeContexto")
  case False
  then have "Suc (length ls - 5) = length ls - 4" by (simp add: linhasDeContexto_def)
  with False show ?thesis
    by (simp add: desliza_def ultimas_def Let_def linhasDeContexto_def tl_drop flip: drop_Suc)
qed (simp add: desliza_def ultimas_def Let_def)

lemma ultimas_Nil [simp]: "ultimas k [] = []"
  by (simp add: ultimas_def)

lemma ultimas_vazia [simp]: "ultimas linhasDeContexto ls = [] \<longleftrightarrow> ls = []"
  by (cases ls) (simp_all add: ultimas_def linhasDeContexto_def)

lemma janela_de_snoc [simp]: "janela_de (ls @ [l]) = Escrever l (janela_de ls)"
  by (simp add: janela_de_def)

lemma linhas_do_fluxo_snoc [simp]:
  "linhas_do_fluxo P (es @ [e]) = linhas_do_fluxo P es @
     (if ev_kind e = EventLog \<and> P (ev_stream e) \<and> trim_space (ev_message e) \<noteq> [] then [trim_space (ev_message e)] else [])"
  by (simp add: linhas_do_fluxo_def)

lemma falha_final_snoc [simp]:
  "falha_final nid (es @ [e]) =
     (if ev_kind e = EventFailed
      then Some \<lparr>ep_node = nid, ep_exit = ev_exit e, ep_mensagem = ev_message e, ep_saida = []\<rparr> else falha_final nid es)"
  by (simp add: falha_final_def)

lemma consumir_eventos:
  "fold (consumir_evento nid) es coleta_vazia =
     \<lparr>co_falha = falha_final nid es,
      co_stderr = ultimas linhasDeContexto (linhas_do_fluxo (\<lambda>f. f = ''stderr'') es),
      co_stdout = ultimas linhasDeContexto (linhas_do_fluxo (\<lambda>f. f \<noteq> ''stderr'') es),
      co_completa = janela_de (linhas_do_fluxo (\<lambda>_. True) es)\<rparr>"
proof (induction es rule: rev_induct)
  case Nil
  show ?case by (simp add: coleta_vazia_def falha_final_def linhas_do_fluxo_def janela_de_def)
next
  case (snoc e es)
  show ?case
    by (cases "ev_kind e"; cases "ev_stream e = ''stderr''"; cases "trim_space (ev_message e) = []")
       (simp_all add: snoc consumir_evento_def [of nid e] Let_def desliza_ultimas)
qed

lemma desfecho_dos_eventos:
  "desfecho (fold (consumir_evento nid) es coleta_vazia) =
     (janela_String (janela_de (linhas_do_fluxo (\<lambda>_. True) es)),
      map_option (\<lambda>f. ErroPasso (f\<lparr>ep_saida := contexto_da_falha es\<rparr>)) (falha_final nid es))"
  unfolding consumir_eventos desfecho_def contexto_da_falha_def Let_def coleta.simps ultimas_vazia
  by (cases "falha_final nid es") simp_all

text \<open>A client of the interface: what an attempt makes of a channel that keeps its law.\<close>

context canal begin

lemma falha_do_canal:
  assumes "entrega t evs"
  shows "falha_final nid evs = (if ev_kind (last evs) = EventSucceeded then None
      else Some \<lparr>ep_node = nid, ep_exit = ev_exit (last evs), ep_mensagem = ev_message (last evs), ep_saida = []\<rparr>)"
  using falhas_do_canal [OF assms] ultimo_do_canal [OF assms] by (auto simp: falha_final_def)

lemma desfecho_do_canal:
  "entrega t evs \<Longrightarrow> snd (desfecho (fold (consumir_evento nid) evs coleta_vazia)) = None \<longleftrightarrow> ev_kind (last evs) = EventSucceeded"
  by (simp add: desfecho_dos_eventos falha_do_canal)

end

section \<open>What a step leaves in the database\<close>

definition do_no :: "nat \<Rightarrow> string \<Rightarrow> taskrun \<Rightarrow> bool" where
  "do_no x nid t \<longleftrightarrow> t_run t = x \<and> t_node t = nid"

definition pares_no :: "nat \<Rightarrow> string \<Rightarrow> banco \<Rightarrow> (int \<times> status) list" where
  "pares_no x nid b = map (\<lambda>t. (t_attempt t, t_status t)) (filter (do_no x nid) (db_tasks b))"

definition fora_do_no :: "nat \<Rightarrow> string \<Rightarrow> banco \<Rightarrow> banco" where
  "fora_do_no x nid b = b\<lparr>db_tasks := filter (\<lambda>t. \<not> do_no x nid t) (db_tasks b)\<rparr>"

lemma fora_pares: "fora_do_no x n b = fora_do_no x n c \<Longrightarrow> m \<noteq> n \<Longrightarrow> pares_no x m b = pares_no x m c"
proof -
  assume f: "fora_do_no x n b = fora_do_no x n c" and m: "m \<noteq> n"
  have "filter (do_no x m) (db_tasks d) = filter (do_no x m) (db_tasks (fora_do_no x n d))" for d
    using m by (auto simp: fora_do_no_def do_no_def intro: filter_cong)
  from this [of b] this [of c] f show ?thesis by (simp add: pares_no_def)
qed

lemma fora_runs: "fora_do_no x n b = fora_do_no x n c \<Longrightarrow> db_runs b = db_runs c"
  by (metis banco.ext_inject banco.surjective banco.update_convs(2) fora_do_no_def)

lemma marcar_linha:
  assumes k: "k \<notin> fst ` set (pares_no x nid b)" and x: "x \<in> r_id ` set (db_runs b)"
  shows "fst (IniciarTask x nid k ag b) = None"
    and "pares_no x nid (TerminarTask x nid k st ex er lg ag' (snd (IniciarTask x nid k ag b))) = pares_no x nid b @ [(k, st)]"
    and "fora_do_no x nid (TerminarTask x nid k st ex er lg ag' (snd (IniciarTask x nid k ag b))) = fora_do_no x nid b"
proof -
  have nova: "(x, nid, k) \<notin> chave_task ` set (db_tasks b)"
    using k by (force simp: pares_no_def do_no_def chave_task_def)
  have id: "map (\<lambda>t. if chave_task t = (x, nid, k) then f t else t) (db_tasks b) = db_tasks b" for f
    using nova by (intro map_idI) (metis imageI)
  show "fst (IniciarTask x nid k ag b) = None" using nova x by (simp add: IniciarTask_def)
  show "pares_no x nid (TerminarTask x nid k st ex er lg ag' (snd (IniciarTask x nid k ag b))) = pares_no x nid b @ [(k, st)]"
    and "fora_do_no x nid (TerminarTask x nid k st ex er lg ag' (snd (IniciarTask x nid k ag b))) = fora_do_no x nid b"
    using nova x id by (simp_all add: IniciarTask_def TerminarTask_def pares_no_def fora_do_no_def do_no_def chave_task_def)
qed

lemma relatar_campos [simp]: "es_banco (relatar r e s) = es_banco s" "es_mundo (relatar r e s) = es_mundo s"
  by (simp_all add: relatar_def)

lemma avisos_campos [simp]: "es_banco (aviso r n p c s) = es_banco s" "es_mundo (aviso r n p c s) = es_mundo s"
  "es_banco (aviso_de_nova am r n t k s) = es_banco s" "es_mundo (aviso_de_nova am r n t k s) = es_mundo s"
  by (simp_all add: aviso_def aviso_de_nova_def)

lemma relatar_todos [simp]: "es_banco (fold (relatar r) es s) = es_banco s"
  by (induction es arbitrary: s) simp_all

lemma montar_banco: "montar am r w n k p s = (res, s') \<Longrightarrow> es_banco s' = es_banco s"
  by (auto simp: montar_def Let_def split: if_splits option.splits sum.splits)

lemma tentar_banco: "tentar am r w n k s = (res, s') \<Longrightarrow> es_banco s' = es_banco s"
  unfolding tentar_def
  by (auto split: prod.splits sum.splits dest: montar_banco)

lemma ocupar_banco: "ocupar am r s = (ok, s') \<Longrightarrow> es_banco s' = es_banco s"
  by (auto simp: ocupar_def split: if_splits prod.splits)

lemma liberar_banco [simp]: "es_banco (liberar am r s) = es_banco s"
  by (simp add: liberar_def)

definition falhas :: "nat \<Rightarrow> (int \<times> status) list" where
  "falhas k = map (\<lambda>i. (int i, StatusFailed)) [0..<k]"

text \<open>\<open>k\<close> failed attempts, numbered from 0, and then the one that succeeded, if the step did.\<close>

definition historico :: "nat \<Rightarrow> erro_no option \<Rightarrow> (int \<times> status) list" where
  "historico k res = falhas k @ (if res = None then [(int k, StatusSuccess)] else [])"

lemma falhas_simps [simp]: "falhas 0 = []" "falhas (Suc k) = falhas k @ [(int k, StatusFailed)]"
  by (simp_all add: falhas_def)

lemma falhas_fora [simp]: "int k \<notin> fst ` set (falhas k)"
  by (auto simp: falhas_def)

definition gravando :: "'s ambiente \<Rightarrow> 's runner \<Rightarrow> 's estado \<Rightarrow> bool" where
  "gravando am r s \<longleftrightarrow> rn_persist r \<and> rn_run r \<noteq> 0 \<and> (\<forall>m. am_vivo am m) \<and> rn_run r \<in> r_id ` set (db_runs (es_banco s))"

lemma gravando_fora:
  "gravando am r s \<Longrightarrow> fora_do_no x n (es_banco s') = fora_do_no x n (es_banco s) \<Longrightarrow> gravando am r s'"
  by (metis fora_runs gravando_def)

lemma gravando_banco: "gravando am r s \<Longrightarrow> es_banco s' = es_banco s \<Longrightarrow> gravando am r s'"
  by (simp add: gravando_def)

lemma tentativa_efeito:
  assumes g: "gravando am r s" and k: "k \<notin> fst ` set (pares_no (rn_run r) (nd_id n) (es_banco s))"
    and t: "tentativa_marcada am r w n k s = (res, s')"
  shows "pares_no (rn_run r) (nd_id n) (es_banco s') = pares_no (rn_run r) (nd_id n) (es_banco s) @
      [(k, if res = None then StatusSuccess else StatusFailed)]"
    and "fora_do_no (rn_run r) (nd_id n) (es_banco s') = fora_do_no (rn_run r) (nd_id n) (es_banco s)"
proof -
  let ?i = "marcarInicio am r (nd_id n) k s"
  have x: "rn_run r \<in> r_id ` set (db_runs (es_banco s))" using g by (simp add: gravando_def)
  obtain ag where i: "es_banco ?i = snd (IniciarTask (rn_run r) (nd_id n) k ag (es_banco s))"
  proof
    show "es_banco ?i = snd (IniciarTask (rn_run r) (nd_id n) k (am_agora am (es_mundo s)) (es_banco s))"
      using g by (simp add: marcarInicio_def gravando_def split: prod.splits option.splits)
  qed
  obtain texto u where tt: "tentar am r w n k ?i = ((texto, res), u)"
    and s': "s' = liberar am r (marcarFim am r (nd_id n) k res texto u)"
    using t by (auto simp: tentativa_marcada_def split: prod.splits)
  have "es_banco u = es_banco ?i" using tt by (rule tentar_banco)
  then obtain ex er lg ag' where "es_banco s' = TerminarTask (rn_run r) (nd_id n) k
      (if res = None then StatusSuccess else StatusFailed) ex er lg ag' (snd (IniciarTask (rn_run r) (nd_id n) k ag (es_banco s)))"
    using g by (auto simp: s' i marcarFim_def gravando_def)
  with marcar_linha(2,3) [OF k x]
  show "pares_no (rn_run r) (nd_id n) (es_banco s') = pares_no (rn_run r) (nd_id n) (es_banco s) @
      [(k, if res = None then StatusSuccess else StatusFailed)]"
    and "fora_do_no (rn_run r) (nd_id n) (es_banco s') = fora_do_no (rn_run r) (nd_id n) (es_banco s)" by simp_all
qed

lemma insistir_efeito:
  assumes "gravando am r s" and "pares_no (rn_run r) (nd_id n) (es_banco s) = falhas j" and "t = int j + 1"
    and "insistir am r w n limite restam t ultima s = (res, s')" and "ultima = None \<longrightarrow> restam \<noteq> 0"
  shows "\<exists>i. i + (if res = None then 1 else 0) \<le> restam \<and>
      pares_no (rn_run r) (nd_id n) (es_banco s') = historico (j + i) res \<and>
      fora_do_no (rn_run r) (nd_id n) (es_banco s') = fora_do_no (rn_run r) (nd_id n) (es_banco s)"
  using assms
proof (induction restam arbitrary: j t ultima s)
  case 0
  then show ?case by (auto simp: historico_def)
next
  case (Suc restam)
  let ?x = "rn_run r" and ?n = "nd_id n"
  obtain ok u where o: "ocupar am r s = (ok, u)" by fastforce
  note ub = ocupar_banco [OF o]
  show ?case
  proof (cases ok)
    case False
    with Suc.prems o ub show ?thesis by (intro exI [of _ 0]) (auto simp: historico_def)
  next
    case True
    obtain e v where tm: "tentativa_marcada am r w n (t - 1) u = (e, v)" by fastforce
    have k: "t - 1 \<notin> fst ` set (pares_no ?x ?n (es_banco u))"
      using Suc.prems(2,3) falhas_fora [of j] by (simp only: ub) simp
    note v = tentativa_efeito [OF gravando_banco [OF Suc.prems(1) ub] k tm]
    note gv = gravando_fora [OF gravando_banco [OF Suc.prems(1) ub] v(2)]
    show ?thesis
    proof (cases e)
      case None
      with Suc.prems o True tm v ub show ?thesis by (intro exI [of _ 0]) (auto simp: historico_def)
    next
      case (Some f)
      have p: "pares_no ?x ?n (es_banco v) = falhas (Suc j)" using v(1) Some Suc.prems(2,3) ub by simp
      obtain sig m where w: "am_esperar am (espera_de r t) (es_mundo v) = (sig, m)" by fastforce
      let ?y = "(aviso_de_nova am r ?n t limite v)\<lparr>es_mundo := m\<rparr>"
      have passo: "(if restam = 0 \<or> \<not> am_vivo am (es_mundo v) then (Some f, v)
          else if sig then insistir am r w n limite restam (t + 1) (Some f) ?y else (Some f, ?y)) = (res, s')"
        using Suc.prems(4) o True tm Some by (cases sig; cases "restam = 0 \<or> \<not> am_vivo am (es_mundo v)") (auto simp: Let_def w)
      consider (fim) "res = Some f" "es_banco s' = es_banco v"
        | (volta) y where "es_banco y = es_banco v" "insistir am r w n limite restam (t + 1) (Some f) y = (res, s')"
      proof (cases "restam = 0 \<or> \<not> am_vivo am (es_mundo v) \<or> \<not> sig")
        case True
        then show ?thesis using passo that(1) by (auto split: if_splits)
      next
        case False
        then show ?thesis using passo that(2) [of ?y] by simp
      qed
      then show ?thesis
      proof cases
        case fim
        with p v(2) ub show ?thesis by (intro exI [of _ 1]) (auto simp: historico_def)
      next
        case volta
        have "\<exists>i. i + (if res = None then 1 else 0) \<le> restam \<and> pares_no ?x ?n (es_banco s') = historico (Suc j + i) res \<and>
            fora_do_no ?x ?n (es_banco s') = fora_do_no ?x ?n (es_banco y)"
          using Suc.IH [OF gravando_banco [OF gv volta(1)] _ _ volta(2), of "Suc j"] p volta(1) Suc.prems(3) by simp
        then obtain i where "i + (if res = None then 1 else 0) \<le> restam" "pares_no ?x ?n (es_banco s') = historico (Suc j + i) res"
          "fora_do_no ?x ?n (es_banco s') = fora_do_no ?x ?n (es_banco y)" by blast
        with volta(1) v(2) ub show ?thesis by (intro exI [of _ "Suc i"]) simp
      qed
    qed
  qed
qed

lemma rodarNo_efeito:
  assumes "gravando am r s" and "pares_no (rn_run r) (nd_id n) (es_banco s) = []"
    and "rodarNo am r w n s = (res, s')"
  shows "\<exists>i. i + (if res = None then 1 else 0) \<le> max 1 (nat (rn_max r)) \<and>
      pares_no (rn_run r) (nd_id n) (es_banco s') = historico i res \<and>
      fora_do_no (rn_run r) (nd_id n) (es_banco s') = fora_do_no (rn_run r) (nd_id n) (es_banco s)"
proof -
  have m: "nat (if rn_max r < 1 then 1 else rn_max r) = max 1 (nat (rn_max r))" by (simp add: max_def) linarith
  have "insistir am r w n (if rn_max r < 1 then 1 else rn_max r) (max 1 (nat (rn_max r))) 1 None s = (res, s')"
    using assms(3) by (simp only: rodarNo_def Let_def m)
  from insistir_efeito [OF assms(1) _ _ this, of 0] assms(2) show ?thesis by simp
qed

section \<open>What a whole execution leaves in the database\<close>

definition concluido :: "nat \<Rightarrow> banco \<Rightarrow> string \<Rightarrow> bool" where
  "concluido x b m \<longleftrightarrow> StatusSuccess \<in> snd ` set (pares_no x m b)"

definition fora_da_run :: "nat \<Rightarrow> banco \<Rightarrow> banco" where
  "fora_da_run x b = b\<lparr>db_tasks := filter (\<lambda>t. t_run t \<noteq> x) (db_tasks b)\<rparr>"

text \<open>Every step in \<open>M\<close> has a history of at most \<open>lim\<close> attempts or none yet.\<close>

definition registrado :: "nat \<Rightarrow> nat \<Rightarrow> banco \<Rightarrow> string \<Rightarrow> bool" where
  "registrado x lim b m \<longleftrightarrow>
     (\<exists>i res. i + (if res = None then 1 else 0) \<le> lim \<and> pares_no x m b = historico i res) \<or> pares_no x m b = []"

lemma registrado_vazio: "pares_no x m b = [] \<Longrightarrow> registrado x lim b m"
  by (simp add: registrado_def)

lemma historico_sucesso [simp]: "StatusSuccess \<in> snd ` set (historico i res) \<longleftrightarrow> res = None"
  by (auto simp: historico_def falhas_def)

lemma fora_do_no_run: "fora_do_no x n b = fora_do_no x n c \<Longrightarrow> fora_da_run x b = fora_da_run x c"
proof -
  assume f: "fora_do_no x n b = fora_do_no x n c"
  have "(\<lambda>t::taskrun. (t_run t = x \<longrightarrow> t_node t \<noteq> n) \<and> t_run t \<noteq> x) = (\<lambda>t. t_run t \<noteq> x)" by auto
  then have "fora_da_run x d = fora_da_run x (fora_do_no x n d)" for d
    by (simp add: fora_da_run_def fora_do_no_def do_no_def)
  then show ?thesis using f by metis
qed

lemma porID_id: "x \<in> nd_id ` set (wf_nodes w) \<Longrightarrow> nd_id (porID w x) = x"
proof -
  have "x \<in> nd_id ` set ns \<Longrightarrow> \<exists>n. nd_id n = x \<and> map_of (fold (\<lambda>n. poe (nd_id n) n) ns []) x = Some n" for ns
    by (induction ns rule: rev_induct) auto
  then show "x \<in> nd_id ` set (wf_nodes w) \<Longrightarrow> ?thesis" by (fastforce simp: porID_def)
qed

lemma rodar_todos_efeito:
  assumes "gravando am r s" and "distinct xs" and "\<forall>m \<in> set xs. nd_id (porID w m) = m \<and> pares_no (rn_run r) m (es_banco s) = []"
    and "rodar_todos am r w xs s = (es, s')"
  shows "gravando am r s' \<and> fora_da_run (rn_run r) (es_banco s') = fora_da_run (rn_run r) (es_banco s) \<and>
    (\<forall>m. m \<notin> set xs \<longrightarrow> pares_no (rn_run r) m (es_banco s') = pares_no (rn_run r) m (es_banco s)) \<and>
    (\<forall>m \<in> set xs. registrado (rn_run r) (max 1 (nat (rn_max r))) (es_banco s') m) \<and>
    (es = [] \<longleftrightarrow> (\<forall>m \<in> set xs. concluido (rn_run r) (es_banco s') m))"
  using assms
proof (induction xs arbitrary: s es)
  case (Cons m xs)
  let ?x = "rn_run r"
  obtain e u where n: "rodarNo am r w (porID w m) s = (e, u)" by fastforce
  obtain fs where t: "rodar_todos am r w xs u = (fs, s')" and es: "es = (case e of None \<Rightarrow> fs | Some f \<Rightarrow> f # fs)"
    using Cons.prems(4) n by (auto split: prod.splits)
  have m: "nd_id (porID w m) = m" "pares_no ?x m (es_banco s) = []" using Cons.prems(3) by simp_all
  obtain i where i: "i + (if e = None then 1 else 0) \<le> max 1 (nat (rn_max r))" "pares_no ?x m (es_banco u) = historico i e"
    and f: "fora_do_no ?x m (es_banco u) = fora_do_no ?x m (es_banco s)"
    using rodarNo_efeito [OF Cons.prems(1) _ n] m by auto
  have g: "gravando am r u" using gravando_fora [OF Cons.prems(1) f] .
  have o: "k \<noteq> m \<Longrightarrow> pares_no ?x k (es_banco u) = pares_no ?x k (es_banco s)" for k using fora_pares [OF f] .
  have "\<forall>k \<in> set xs. nd_id (porID w k) = k \<and> pares_no ?x k (es_banco u) = []"
    using Cons.prems(2,3) o by (metis distinct.simps(2) list.set_intros(2))
  from Cons.IH [OF g _ this t] Cons.prems(2)
  have IH: "gravando am r s'" "fora_da_run ?x (es_banco s') = fora_da_run ?x (es_banco u)"
    "\<forall>k. k \<notin> set xs \<longrightarrow> pares_no ?x k (es_banco s') = pares_no ?x k (es_banco u)"
    "\<forall>k \<in> set xs. registrado ?x (max 1 (nat (rn_max r))) (es_banco s') k"
    "fs = [] \<longleftrightarrow> (\<forall>k \<in> set xs. concluido ?x (es_banco s') k)" by auto
  have pm: "pares_no ?x m (es_banco s') = historico i e" using IH(3) i(2) Cons.prems(2) by simp
  have cm: "concluido ?x (es_banco s') m \<longleftrightarrow> e = None" by (simp add: concluido_def pm)
  have rm: "registrado ?x (max 1 (nat (rn_max r))) (es_banco s') m" unfolding registrado_def using pm i(1) by blast
  have "fora_da_run ?x (es_banco s') = fora_da_run ?x (es_banco s)" using IH(2) fora_do_no_run [OF f] by simp
  moreover have "es = [] \<longleftrightarrow> (\<forall>k \<in> set (m # xs). concluido ?x (es_banco s') k)"
    using IH(5) cm es by (cases e) simp_all
  ultimately show ?case using IH(1,3,4) rm o by simp
qed simp

lemma rodarNivel_efeito:
  assumes g: "gravando am r s" and d: "distinct l" and ord: "\<forall>l m. mset (am_ordem am l m) = mset l"
    and v: "\<forall>m \<in> set l. nd_id (porID w m) = m \<and> pares_no (rn_run r) m (es_banco s) = []"
    and n: "rodarNivel am r w l s = (e, s')"
  shows "gravando am r s' \<and> fora_da_run (rn_run r) (es_banco s') = fora_da_run (rn_run r) (es_banco s) \<and>
    (\<forall>m. m \<notin> set l \<longrightarrow> pares_no (rn_run r) m (es_banco s') = pares_no (rn_run r) m (es_banco s)) \<and>
    (\<forall>m \<in> set l. registrado (rn_run r) (max 1 (nat (rn_max r))) (es_banco s') m) \<and>
    (e = None \<longleftrightarrow> (\<forall>m \<in> set l. concluido (rn_run r) (es_banco s') m))"
proof -
  let ?xs = "am_ordem am l (es_mundo s)"
  have xs: "set ?xs = set l" "distinct ?xs" using ord d by (metis set_mset_mset, metis mset_eq_imp_distinct_iff)
  obtain es where t: "rodar_todos am r w ?xs s = (es, s')" and e: "e = None \<longleftrightarrow> es = []"
    using n by (auto simp: rodarNivel_def split: prod.splits list.splits)
  from rodar_todos_efeito [OF g xs(2) _ t] v show ?thesis by (simp add: xs(1) e)
qed

lemma rodar_niveis_efeito:
  assumes "gravando am r s" and "distinct (concat ls)" and ord: "\<forall>l m. mset (am_ordem am l m) = mset l"
    and "\<forall>m \<in> set (concat ls). nd_id (porID w m) = m \<and> pares_no (rn_run r) m (es_banco s) = []"
    and "rodar_niveis am r w i ls s = (e, s')"
  shows "fora_da_run (rn_run r) (es_banco s') = fora_da_run (rn_run r) (es_banco s) \<and>
    (\<forall>m. m \<notin> set (concat ls) \<longrightarrow> pares_no (rn_run r) m (es_banco s') = pares_no (rn_run r) m (es_banco s)) \<and>
    (\<forall>m \<in> set (concat ls). registrado (rn_run r) (max 1 (nat (rn_max r))) (es_banco s') m) \<and>
    (\<forall>m \<in> set (concat ls). pares_no (rn_run r) m (es_banco s') \<noteq> [] \<longrightarrow>
       (\<forall>k \<in> set (concat ls). nivel_de ls k < nivel_de ls m \<longrightarrow> concluido (rn_run r) (es_banco s') k)) \<and>
    (e = None \<longleftrightarrow> (\<forall>m \<in> set (concat ls). concluido (rn_run r) (es_banco s') m))"
  using assms
proof (induction ls arbitrary: i s)
  case (Cons l ls)
  let ?x = "rn_run r" and ?M = "max 1 (nat (rn_max r))"
  obtain f u where n: "rodarNivel am r w l s = (f, u)" by fastforce
  have dl: "distinct l" "distinct (concat ls)" "set l \<inter> set (concat ls) = {}" using Cons.prems(2) by auto
  have N: "gravando am r u" "fora_da_run ?x (es_banco u) = fora_da_run ?x (es_banco s)"
    "\<And>m. m \<notin> set l \<Longrightarrow> pares_no ?x m (es_banco u) = pares_no ?x m (es_banco s)"
    "\<And>m. m \<in> set l \<Longrightarrow> registrado ?x ?M (es_banco u) m"
    "f = None \<longleftrightarrow> (\<forall>m \<in> set l. concluido ?x (es_banco u) m)"
    using rodarNivel_efeito [OF Cons.prems(1) dl(1) ord _ n] Cons.prems(4) by auto
  have vazio: "m \<in> set (concat ls) \<Longrightarrow> pares_no ?x m (es_banco u) = []" for m
    using N(3) [of m] Cons.prems(4) dl(3) by auto
  show ?case
  proof (cases f)
    case (Some h)
    then have s': "s' = u" "e \<noteq> None" using Cons.prems(5) n by auto
    have falhou: "\<exists>m \<in> set l. \<not> concluido ?x (es_banco u) m" using N(5) Some by simp
    have "nivel_de (l # ls) m = 0" if "m \<in> set (concat (l # ls))" "pares_no ?x m (es_banco u) \<noteq> []" for m
      using that vazio by auto
    moreover have "registrado ?x ?M (es_banco u) m" if "m \<in> set (concat (l # ls))" for m
      using that N(4) registrado_vazio [OF vazio] by auto
    ultimately show ?thesis using falhou N(2,3) s' by fastforce
  next
    case None
    then have t: "rodar_niveis am r w (i + 1) ls u = (e, s')" using Cons.prems(5) n by simp
    have "\<forall>m \<in> set (concat ls). nd_id (porID w m) = m \<and> pares_no ?x m (es_banco u) = []"
      using vazio Cons.prems(4) by simp
    note IH = Cons.IH [OF N(1) dl(2) ord this t]
    then have O: "m \<notin> set (concat ls) \<Longrightarrow> pares_no ?x m (es_banco s') = pares_no ?x m (es_banco u)" for m by blast
    have L: "pares_no ?x m (es_banco s') = pares_no ?x m (es_banco u)" if "m \<in> set l" for m
      using that dl(3) by (intro O) blast
    have cl: "m \<in> set l \<Longrightarrow> concluido ?x (es_banco s') m" for m
      using N(5) None L [of m] by (simp add: concluido_def)
    have rl: "m \<in> set l \<Longrightarrow> registrado ?x ?M (es_banco s') m" for m
      using N(4) [of m] L [of m] by (simp add: registrado_def)
    have ordem: "concluido ?x (es_banco s') k" if "m \<in> set (concat (l # ls))" "k \<in> set (concat (l # ls))"
      "pares_no ?x m (es_banco s') \<noteq> []" "nivel_de (l # ls) k < nivel_de (l # ls) m" for m k
    proof (cases "k \<in> set l")
      case False
      with that have "m \<notin> set l" "nivel_de ls k < nivel_de ls m" "k \<in> set (concat ls)" "m \<in> set (concat ls)"
        by (auto split: if_splits)
      with IH that(3) show ?thesis by blast
    qed (rule cl)
    have "fora_da_run ?x (es_banco s') = fora_da_run ?x (es_banco s)" using IH N(2) by simp
    moreover have "\<forall>m. m \<notin> set (concat (l # ls)) \<longrightarrow> pares_no ?x m (es_banco s') = pares_no ?x m (es_banco s)"
      using O N(3) by simp
    moreover have "\<forall>m \<in> set (concat (l # ls)). registrado ?x ?M (es_banco s') m" using IH rl by auto
    moreover have "e = None \<longleftrightarrow> (\<forall>m \<in> set (concat (l # ls)). concluido ?x (es_banco s') m)" using IH cl by auto
    ultimately show ?thesis using ordem by blast
  qed
qed simp

lemma map_of_mesclarEnv:
  assumes "mapa_ok base" and "mapa_ok ctx" and "mapa_ok cima"
  shows "map_of (mesclarEnv base ctx [cima]) = map_of ctx ++ map_of base ++ map_of cima"
  using assms by (simp add: mesclarEnv_def map_of_poe_todos)

lemma mapa_ok_contexto [simp]: "mapa_ok (contextoDoRun am r nid p k)"
proof -
  have "mapa_ok ([] :: string gomap)" by (simp add: mapa_ok_def)
  then show ?thesis by (simp add: contextoDoRun_def Let_def split: option.splits)
qed

lemma tarefa_de_campos [simp]:
  "te_node (tarefa_de am r w n k p) = nd_id n" "te_tentativa (tarefa_de am r w n k p) = k"
  "te_secrets (tarefa_de am r w n k p) = SecretsDe w n" "te_command (tarefa_de am r w n k p) = []"
  "te_action (tarefa_de am r w n k p) = []" "te_tentativa_run (tarefa_de am r w n k p) = 0"
  by (simp_all add: tarefa_de_def Let_def)

lemma map_add_nao_esta: "n k = None \<Longrightarrow> (m ++ n) k = m k"
  by (simp add: map_add_def)

lemma montar_casos:
  assumes "montar am r w n k p s = (Inr (exec, t), s')"
  shows "if nd_action n \<noteq> [] then rn_go r = Some exec \<and>
       t = (tarefa_de am r w n k p)\<lparr>te_action := nd_action n, te_with := nd_with n\<rparr>
     else (\<exists>c. Renderizar (am_tmpl am) (nd_run n) (rn_params r) = Inr c \<and> t = (tarefa_de am r w n k p)\<lparr>te_command := c\<rparr>) \<and>
       (if ImagemDe w n \<noteq> [] \<and> rn_pods r \<noteq> None then rn_pods r = Some exec else rn_processo r = Some exec)"
  using assms by (simp add: montar_def Let_def split: if_split_asm option.split_asm sum.split_asm)

section \<open>Examples\<close>

text \<open>A world that counts the tasks started; the executor fails the step it is told to fail.\<close>

definition executor_de_exemplo :: "string \<Rightarrow> nat executor" where
  "executor_de_exemplo ruim t m =
     (Inr (if te_node t = ruim
           then [evento_de EventStarted (te_node t), log_de (te_node t) ''stderr'' '' '',
                 (evento_de EventFailed (te_node t))\<lparr>ev_message := ''saiu com codigo 2'', ev_exit := 2\<rparr>]
           else [evento_de EventStarted (te_node t), evento_de EventSucceeded (te_node t)]), m + 1)"

definition runner_de_exemplo :: "string \<Rightarrow> nat runner" where
  "runner_de_exemplo ruim =
     \<lparr>rn_processo = Some (executor_de_exemplo ruim), rn_go = None, rn_pods = None, rn_workdir = [], rn_env = [],
      rn_report = True, rn_timeout = 0, rn_max = 1, rn_backoff = 1000, rn_persist = True, rn_run = 1, rn_params = [],
      rn_trigger = ''manual'', rn_logical = None, rn_historico = True, rn_vagas = False, rn_tentativa_run = 0\<rparr>"

definition ambiente_de_exemplo :: "nat ambiente" where
  "ambiente_de_exemplo =
     \<lparr>am_agora = int, am_vivo = (\<lambda>_. True), am_ctx_err = (\<lambda>_. []), am_tomar = (\<lambda>m. (True, m)), am_soltar = (\<lambda>m. m),
      am_esperar = (\<lambda>_ m. (True, m)), am_ordem = (\<lambda>l _. rev l), am_quote = (\<lambda>s. s), am_json = (\<lambda>_. []),
      am_rfc = (\<lambda>_. []), am_dur = (\<lambda>_. []), am_uuid = (\<lambda>_. []), am_tmpl = (\<lambda>_. Inl []), am_db = (\<lambda>_. [])\<rparr>"

definition estado_de_exemplo :: "nat estado" where
  "estado_de_exemplo = \<lparr>es_mundo = 0, es_banco = banco_com_run StatusRunning, es_relato = []\<rparr>"

lemma exemplo_campos [simp]:
  "es_mundo estado_de_exemplo = 0" "rn_go (runner_de_exemplo ruim) = None" "rn_pods (runner_de_exemplo ruim) = None"
  "rn_processo (runner_de_exemplo ruim) = Some (executor_de_exemplo ruim)" "rn_params (runner_de_exemplo ruim) = []"
  by (simp_all add: estado_de_exemplo_def runner_de_exemplo_def)

lemma montar_de_exemplo:
  "nd_action n = [] \<Longrightarrow> nd_run n = [] \<Longrightarrow> rn_params r = [] \<Longrightarrow> ImagemDe w n = [] \<Longrightarrow> rn_processo r = Some x \<Longrightarrow>
     montar am r w n k p s = (Inr (x, (tarefa_de am r w n k p)\<lparr>te_command := []\<rparr>), s)"
  by (simp add: montar_def Let_def Renderizar_def contem_sub_def)

lemma exemplo_gravando: "gravando ambiente_de_exemplo (runner_de_exemplo ruim) estado_de_exemplo"
  by (simp add: gravando_def ambiente_de_exemplo_def runner_de_exemplo_def estado_de_exemplo_def banco_com_run_def run_de_exemplo_def)

section \<open>Properties\<close>

text \<open>
  C2: an execution respects the graph. Run over a run without recorded steps, under a context
  that stays alive and whatever the executors answer and the order in which parallel steps end:
  a step starts only after every step it depends on has succeeded; each step has at most
  \<open>MaxTentativas\<close> attempts (one when that is less than one), numbered from 0 without a hole,
  all failed but possibly the last, none left running; the execution reports no error exactly
  when every step succeeded; and nothing outside the steps of this run is written.
\<close>

theorem Run_respeita_dependencias:
  assumes w: "ids_ok w" "arestas_ok w" and g: "gravando am r s" and ord: "\<forall>l m. mset (am_ordem am l m) = mset l"
    and novo: "\<forall>t \<in> set (db_tasks (es_banco s)). t_run t \<noteq> rn_run r"
    and run: "Run am r w s = (e, s')"
  shows "(\<forall>(a, b) \<in> arco (wf_edges w). pares_no (rn_run r) b (es_banco s') \<noteq> [] \<longrightarrow> concluido (rn_run r) (es_banco s') a) \<and>
    (\<forall>m. registrado (rn_run r) (max 1 (nat (rn_max r))) (es_banco s') m) \<and>
    (e = None \<longleftrightarrow> (\<forall>n \<in> set (wf_nodes w). concluido (rn_run r) (es_banco s') (nd_id n))) \<and>
    fora_da_run (rn_run r) (es_banco s') = fora_da_run (rn_run r) (es_banco s)"
proof -
  have vazio: "pares_no (rn_run r) m (es_banco s) = []" for m
    using novo by (simp add: pares_no_def do_no_def filter_empty_conv)
  show ?thesis
  proof (cases "Niveis w")
    case (Inl c)
    have "wf_nodes w \<noteq> []"
    proof
      assume "wf_nodes w = []"
      then have "Niveis w = Inr []" by (simp add: Niveis_def)
      with Inl show False by simp
    qed
    moreover have "e \<noteq> None" "s' = s" using run Inl by (auto simp: Run_def)
    ultimately show ?thesis using vazio
      by (auto simp: registrado_vazio concluido_def neq_Nil_conv)
  next
    case (Inr ls)
    then have rn: "rodar_niveis am r w 0 ls s = (e, s')" using run by (simp add: Run_def)
    note N = Niveis_InrD [OF w Inr]
    have c: "set (concat ls) = nd_id ` set (wf_nodes w)" using N by (metis list.set_map set_mset_mset)
    have "\<forall>m \<in> set (concat ls). nd_id (porID w m) = m \<and> pares_no (rn_run r) m (es_banco s) = []"
      using vazio porID_id unfolding c by blast
    note E = rodar_niveis_efeito [OF g _ ord this rn]
    have E: "fora_da_run (rn_run r) (es_banco s') = fora_da_run (rn_run r) (es_banco s)"
      "\<And>m. m \<notin> set (concat ls) \<Longrightarrow> pares_no (rn_run r) m (es_banco s') = []"
      "\<And>m. m \<in> set (concat ls) \<Longrightarrow> registrado (rn_run r) (max 1 (nat (rn_max r))) (es_banco s') m"
      "\<And>m k. m \<in> set (concat ls) \<Longrightarrow> pares_no (rn_run r) m (es_banco s') \<noteq> [] \<Longrightarrow> k \<in> set (concat ls) \<Longrightarrow>
         nivel_de ls k < nivel_de ls m \<Longrightarrow> concluido (rn_run r) (es_banco s') k"
      "e = None \<longleftrightarrow> (\<forall>m \<in> set (concat ls). concluido (rn_run r) (es_banco s') m)"
      using E N vazio by (auto simp: niveis_ok_def simp del: set_concat)
    have dep: "concluido (rn_run r) (es_banco s') a"
      if ab: "(a, b) \<in> arco (wf_edges w)" "pares_no (rn_run r) b (es_banco s') \<noteq> []" for a b
    proof -
      have b: "b \<in> set (concat ls)" using E(2) ab(2) by blast
      with N ab(1) have "a \<in> set (concat ls)" "nivel_de ls a < nivel_de ls b" by (auto simp: niveis_ok_def simp del: set_concat)
      then show ?thesis by (intro E(4) [OF b ab(2)])
    qed
    have "registrado (rn_run r) (max 1 (nat (rn_max r))) (es_banco s') m" for m
      using E(2,3) registrado_vazio by blast
    with dep E(1,5) show ?thesis by (auto simp: c simp del: set_concat)
  qed
qed

theorem Run_respeita_dependencias_witness:
  "\<exists>s'. Run ambiente_de_exemplo (runner_de_exemplo ''b'')
        (workflow_de_exemplo [\<lparr>e_from = ''a'', e_to = ''c''\<rparr>, \<lparr>e_from = ''b'', e_to = ''c''\<rparr>]) estado_de_exemplo
      = (Some (NoNivel 1 (ErroPasso \<lparr>ep_node = ''b'', ep_exit = 2, ep_mensagem = ''saiu com codigo 2'', ep_saida = []\<rparr>)), s') \<and>
    pares_no 1 ''b'' (es_banco s') = [(0, StatusFailed)] \<and> concluido 1 (es_banco s') ''a'' \<and>
    pares_no 1 ''c'' (es_banco s') = []"
proof -
  let ?w = "workflow_de_exemplo [\<lparr>e_from = ''a'', e_to = ''c''\<rparr>, \<lparr>e_from = ''b'', e_to = ''c''\<rparr>]"
  let ?R = "Run ambiente_de_exemplo (runner_de_exemplo ''b'') ?w estado_de_exemplo"
  have f: "fst ?R = Some (NoNivel 1 (ErroPasso \<lparr>ep_node = ''b'', ep_exit = 2, ep_mensagem = ''saiu com codigo 2'', ep_saida = []\<rparr>))"
    by code_simp
  have f2: "pares_no 1 ''b'' (es_banco (snd ?R)) = [(0, StatusFailed)]" by code_simp
  have f3: "concluido 1 (es_banco (snd ?R)) ''a''" by code_simp
  have h: "ids_ok ?w" "arestas_ok ?w"
    by (simp_all add: ids_ok_def arestas_ok_lista workflow_de_exemplo_def passo_de_exemplo_def)
  have o: "\<forall>l m. mset (am_ordem ambiente_de_exemplo l m) = mset l" by (simp add: ambiente_de_exemplo_def)
  have n: "\<forall>t \<in> set (db_tasks (es_banco estado_de_exemplo)). t_run t \<noteq> rn_run (runner_de_exemplo ''b'')"
    by (simp add: estado_de_exemplo_def banco_com_run_def banco_vazio_def)
  obtain e u where R: "?R = (e, u)" by fastforce
  have arco: "(''b'', ''c'') \<in> arco (wf_edges ?w)" by (force simp: arco_def workflow_de_exemplo_def)
  have x: "rn_run (runner_de_exemplo ''b'') = 1" by (simp add: runner_de_exemplo_def)
  have "\<not> concluido 1 (es_banco u) ''b''" using f2 R by (simp add: concluido_def)
  with Run_respeita_dependencias [OF h exemplo_gravando o n R, unfolded x] arco have "pares_no 1 ''c'' (es_banco u) = []" by blast
  with f f2 f3 R show ?thesis by simp
qed

text \<open>
  What an attempt reports is exactly what its events say. Once the executor started, the
  attempt fails exactly when an event of failure arrived, with the code and message of the
  last one and, for context, the last five lines of stderr that are not blank, or of stdout
  when stderr said nothing; the saved log is the buffer of all the lines; and every event is
  passed on to the reporter, in order.
\<close>

theorem tentar_resultado:
  assumes m: "montar am r w n k (primeiraExecucao am r (wf_slug w) (nd_id n) s) s = (Inr (exec, t), u)"
    and e: "exec t (es_mundo u) = (Inr es, m')"
  shows "tentar am r w n k s =
      ((janela_String (janela_de (linhas_do_fluxo (\<lambda>_. True) es)),
        map_option (\<lambda>f. ErroPasso (f\<lparr>ep_saida := contexto_da_falha es\<rparr>)) (falha_final (nd_id n) es)),
       u\<lparr>es_mundo := m', es_relato := es_relato u @ (if rn_report r then es else [])\<rparr>) \<and> es_banco u = es_banco s"
proof -
  have rel: "fold (relatar r) es z = z\<lparr>es_relato := es_relato z @ (if rn_report r then es else [])\<rparr>" for z
    by (induction es arbitrary: z) (simp_all add: relatar_def)
  have "tentar am r w n k s =
      (desfecho (fold (consumir_evento (nd_id n)) es coleta_vazia), fold (relatar r) es (u\<lparr>es_mundo := m'\<rparr>))"
    by (simp only: tentar_def m e prod.case sum.case)
  with montar_banco [OF m] show ?thesis by (simp only: desfecho_dos_eventos rel) simp
qed

theorem tentar_resultado_witness:
  "\<exists>es. fst (tentar ambiente_de_exemplo (runner_de_exemplo ''a'') workflow_vazio (no_vazio\<lparr>nd_id := ''a''\<rparr>) 0 estado_de_exemplo)
     = (janela_String (janela_de (linhas_do_fluxo (\<lambda>_. True) es)),
        Some (ErroPasso \<lparr>ep_node = ''a'', ep_exit = 2, ep_mensagem = ''saiu com codigo 2'', ep_saida = contexto_da_falha es\<rparr>))"
proof -
  let ?n = "no_vazio\<lparr>nd_id := ''a''\<rparr>" and ?r = "runner_de_exemplo ''a''" and ?s = estado_de_exemplo
  let ?p = "primeiraExecucao ambiente_de_exemplo ?r (wf_slug workflow_vazio) (nd_id ?n) ?s"
  let ?t = "tarefa_de ambiente_de_exemplo ?r workflow_vazio ?n 0 ?p"
  have m: "montar ambiente_de_exemplo ?r workflow_vazio ?n 0 ?p ?s = (Inr (executor_de_exemplo ''a'', ?t\<lparr>te_command := []\<rparr>), ?s)"
    by (rule montar_de_exemplo) (simp_all add: no_vazio_def ImagemDe_def workflow_vazio_def runner_de_exemplo_def)
  obtain es where e: "executor_de_exemplo ''a'' (?t\<lparr>te_command := []\<rparr>) (es_mundo ?s) = (Inr es, 1)"
    and f: "falha_final ''a'' es = Some \<lparr>ep_node = ''a'', ep_exit = 2, ep_mensagem = ''saiu com codigo 2'', ep_saida = []\<rparr>"
    by (simp add: executor_de_exemplo_def falha_final_def evento_de_def log_de_def)
  from tentar_resultado [OF m e] f show ?thesis by (intro exI [of _ es]) simp
qed

lemma ambiente_do_passo:
  assumes "montar am r w n k p s = (Inr (exec, t), s')" and "mapa_ok (rn_env r)" and "mapa_ok (wf_env w)" and "mapa_ok (nd_env n)"
  shows "map_of (te_env t) = map_of (contextoDoRun am r (nd_id n) p k) ++ map_of (rn_env r) ++ map_of (wf_env w) ++ map_of (nd_env n)"
proof -
  have "te_env t = te_env (tarefa_de am r w n k p)" using montar_casos [OF assms(1)] by (auto split: if_splits)
  then show ?thesis using assms(2-4) by (simp add: tarefa_de_def Let_def map_of_mesclarEnv EnvDe_def map_of_sobrepor)
qed

text \<open>
  The environment of a step. Whatever executor is chosen, the task carries the secrets of
  the step by reference and, as environment, the context of the run, overridden by the
  environment of the engine, overridden by \<open>env:\<close> of the workflow, overridden by \<open>env:\<close> of the
  step; an action goes to the Go executor with its arguments, a command is rendered and goes
  to a pod when the step has an image and pods are configured, else to a process.
\<close>

theorem montar_escolhe:
  assumes m: "montar am r w n k p s = (Inr (exec, t), s')"
    and ok: "mapa_ok (rn_env r)" "mapa_ok (wf_env w)" "mapa_ok (nd_env n)"
  shows "map_of (te_env t) = map_of (contextoDoRun am r (nd_id n) p k) ++ map_of (rn_env r) ++ map_of (wf_env w) ++ map_of (nd_env n) \<and>
    te_secrets t = SecretsDe w n \<and> te_node t = nd_id n \<and> te_tentativa t = k \<and>
    (if nd_action n \<noteq> [] then rn_go r = Some exec \<and> te_action t = nd_action n \<and> te_command t = []
     else Renderizar (am_tmpl am) (nd_run n) (rn_params r) = Inr (te_command t) \<and> te_action t = [] \<and>
       (if ImagemDe w n \<noteq> [] \<and> rn_pods r \<noteq> None then rn_pods r = Some exec else rn_processo r = Some exec))"
  using ambiente_do_passo [OF m ok] montar_casos [OF m] by (auto split: if_splits)

theorem montar_escolhe_witness:
  "\<exists>t. montar ambiente_de_exemplo ((runner_de_exemplo [])\<lparr>rn_env := [(''A'', ''motor''), (''B'', ''motor'')]\<rparr>)
        (workflow_vazio\<lparr>wf_env := [(''A'', ''workflow'')]\<rparr>) (no_vazio\<lparr>nd_env := [(''C'', ''passo'')]\<rparr>) 0 True estado_de_exemplo
      = (Inr (executor_de_exemplo [], t), estado_de_exemplo) \<and>
    map_of (te_env t) ''A'' = Some ''workflow'' \<and> map_of (te_env t) ''B'' = Some ''motor'' \<and>
    map_of (te_env t) ''C'' = Some ''passo''"
proof -
  let ?r = "(runner_de_exemplo [])\<lparr>rn_env := [(''A'', ''motor''), (''B'', ''motor'')]\<rparr>"
  let ?w = "workflow_vazio\<lparr>wf_env := [(''A'', ''workflow'')]\<rparr>" and ?n = "no_vazio\<lparr>nd_env := [(''C'', ''passo'')]\<rparr>"
  let ?t = "(tarefa_de ambiente_de_exemplo ?r ?w ?n 0 True)\<lparr>te_command := []\<rparr>"
  have m: "montar ambiente_de_exemplo ?r ?w ?n 0 True estado_de_exemplo = (Inr (executor_de_exemplo [], ?t), estado_de_exemplo)"
    by (rule montar_de_exemplo) (simp_all add: no_vazio_def ImagemDe_def workflow_vazio_def runner_de_exemplo_def)
  have "mapa_ok (rn_env ?r)" "mapa_ok (wf_env ?w)" "mapa_ok (nd_env ?n)" by (simp_all add: mapa_ok_def)
  note e = montar_escolhe [OF m this, THEN conjunct1]
  have "map_of (te_env ?t) ''A'' = Some ''workflow''" "map_of (te_env ?t) ''B'' = Some ''motor''"
    "map_of (te_env ?t) ''C'' = Some ''passo''"
    unfolding e by (simp_all add: map_add_nao_esta)
  with m show ?thesis by blast
qed

text \<open>
  The first execution is asked of the other runs only. What the steps of this run did
  does not change the answer, so a step that succeeded in an earlier attempt of the same run
  is told again that it runs for the first time.
\<close>

theorem primeira_ignora_a_propria_run:
  assumes "es_mundo s = es_mundo s'" and "fora_da_run (rn_run r) (es_banco s) = fora_da_run (rn_run r) (es_banco s')"
  shows "primeiraExecucao am r slug nid s = primeiraExecucao am r slug nid s'"
proof -
  have f: "db_runs (fora_da_run x b) = db_runs b" "db_tasks (fora_da_run x b) = filter (\<lambda>t. t_run t \<noteq> x) (db_tasks b)" for x b
    by (simp_all add: fora_da_run_def)
  have "PassoJaTeveSucesso slug nid (rn_run r) b = PassoJaTeveSucesso slug nid (rn_run r) (fora_da_run (rn_run r) b)" for b
    by (auto simp: PassoJaTeveSucesso_def f buscar_run_def list_ex_iff split: option.splits)
  from this [of "es_banco s"] this [of "es_banco s'"] assms show ?thesis by (simp add: primeiraExecucao_def)
qed

theorem primeira_ignora_a_propria_run_witness:
  "primeiraExecucao ambiente_de_exemplo (runner_de_exemplo []) ''w'' ''a''
     (estado_de_exemplo\<lparr>es_banco := (banco_com_run StatusRunning)\<lparr>db_tasks :=
        [\<lparr>t_run = 1, t_node = ''a'', t_status = StatusSuccess, t_attempt = 0, t_exit = None, t_iniciado = None,
          t_terminado = None, t_erro = [], t_log = []\<rparr>]\<rparr>\<rparr>)"
proof -
  have "primeiraExecucao ambiente_de_exemplo (runner_de_exemplo []) ''w'' ''a'' estado_de_exemplo" by code_simp
  then show ?thesis
    by (subst primeira_ignora_a_propria_run [where s' = estado_de_exemplo])
       (simp_all add: estado_de_exemplo_def fora_da_run_def banco_com_run_def banco_vazio_def runner_de_exemplo_def)
qed

end
