(* ===== verification/Destino.thy ===== *)
theory Destino
  imports Registro
begin

text \<open>
  What a destination is and what may be written to it: locations (\<open>sdk/internal/core/path.go\<close>), the
  declared schema (\<open>schema.go\<close>), the declaration against the rows (\<open>metadata.go\<close>) and against the table
  (\<open>sdk/load/columns.go\<close>, \<open>reconcile.go\<close>), and the \<open>MERGE\<close> statement (\<open>sdk/load/merge_sql.go\<close>).
\<close>

section \<open>Locations\<close>

text \<open>\<open>strings.Index\<close> with the two parts around the first occurrence.\<close>

fun cut_sub :: "string \<Rightarrow> string \<Rightarrow> (string \<times> string) option" where
  "cut_sub sep [] = (if sep = [] then Some ([], []) else None)"
| "cut_sub sep (c # s) =
     (if prefix sep (c # s) then Some ([], drop (length sep) (c # s))
      else (case cut_sub sep s of None \<Rightarrow> None | Some (a, b) \<Rightarrow> Some (c # a, b)))"

record local_de =
  lc_scheme :: string
  lc_bucket :: string
  lc_prefix :: string
  lc_pattern :: string

datatype erro_path = PathVazio | EsquemaDesconhecido string string | SemBucket string

text \<open>\<open>path.Split\<close>: the directory with its slash, and the name.\<close>

definition path_split :: "string \<Rightarrow> string \<times> string" where
  "path_split s = (case cut_last (CHR ''/'') s of None \<Rightarrow> ([], s) | Some (a, b) \<Rightarrow> (a @ ''/'', b))"

definition esquema_de :: "string \<Rightarrow> erro_path + string \<times> string" where
  "esquema_de p =
     (case cut_sub ''://'' p of
        None \<Rightarrow> Inr ([], p)
      | Some (scheme, rest) \<Rightarrow>
          if scheme = ''s3'' \<or> scheme = ''gs'' then Inr (scheme, rest)
          else if scheme = ''file'' then Inr ([], rest)
          else Inl (EsquemaDesconhecido scheme p))"

definition ParseLocation :: "string \<Rightarrow> erro_path + local_de" where
  "ParseLocation p =
     (if p = [] then Inl PathVazio
      else (case esquema_de p of
              Inl e \<Rightarrow> Inl e
            | Inr (scheme, rest) \<Rightarrow>
                (case (if scheme = [] then Inr ([], rest)
                       else (case cut (CHR ''/'') rest of
                               None \<Rightarrow> if rest = [] then Inl (SemBucket p) else Inr (rest, [])
                             | Some (bucket, after) \<Rightarrow> if bucket = [] then Inl (SemBucket p) else Inr (bucket, after))) of
                   Inl e \<Rightarrow> Inl e
                 | Inr (bucket, rest) \<Rightarrow>
                     if suffix ''/'' rest \<or> rest = [] then
                       Inr \<lparr>lc_scheme = scheme, lc_bucket = bucket, lc_prefix = rest, lc_pattern = []\<rparr>
                     else (case path_split rest of (dir, file) \<Rightarrow>
                       Inr \<lparr>lc_scheme = scheme, lc_bucket = bucket, lc_prefix = dir, lc_pattern = file\<rparr>))))"

text \<open>\<open>casa\<close> is \<open>path.Match\<close>, \<open>None\<close> for a bad pattern; the name is \<open>path.Base\<close> of the key.\<close>

fun path_base_de :: "nat \<Rightarrow> string \<Rightarrow> string" where
  "path_base_de 0 s = s"
| "path_base_de (Suc n) s = (if suffix ''/'' s then path_base_de n (butlast s) else snd (path_split s))"

definition path_Base :: "string \<Rightarrow> string" where
  "path_Base s =
     (if s = [] then ''.'' else (let b = path_base_de (Suc (length s)) s in if b = [] then ''/'' else b))"

definition Matches :: "(string \<Rightarrow> string \<Rightarrow> bool option) \<Rightarrow> local_de \<Rightarrow> string \<Rightarrow> bool" where
  "Matches casa l key \<longleftrightarrow> lc_pattern l = [] \<or> casa (lc_pattern l) (path_Base key) = Some True"

definition location_String :: "local_de \<Rightarrow> string" where
  "location_String l =
     (if lc_scheme l = [] then [] else lc_scheme l @ ''://'' @ lc_bucket l @ ''/'') @ lc_prefix l @ lc_pattern l"

section \<open>Declared columns\<close>

text \<open>A column type is a string in the code; the ones that exist are listed.\<close>

record coluna_decl =
  cd_name :: string
  cd_type :: string
  cd_required :: bool

type_synonym schema = "coluna_decl list"

definition tipos_de_coluna :: "string list" where
  "tipos_de_coluna = [''string'', ''int64'', ''float64'', ''numeric'', ''bool'', ''timestamp'', ''date'', ''json'', ''bytes'']"

definition Names :: "schema \<Rightarrow> string list" where
  "Names s = map cd_name s"

definition Has :: "schema \<Rightarrow> string \<Rightarrow> bool" where
  "Has s nome \<longleftrightarrow> list_ex (\<lambda>c. cd_name c = nome) s"

datatype erro_schema =
    ColunaSemNome "nat list" | ColunasRepetidas "string list" | ColunasSemTipo "string list" | TiposInvalidos "string list"

record achados =
  ac_vistos :: "string list"
  ac_sem_nome :: "nat list"
  ac_duplicadas :: "string list"
  ac_sem_tipo :: "string list"
  ac_invalidos :: "string list"

definition conferir_coluna :: "nat \<times> coluna_decl \<Rightarrow> achados \<Rightarrow> achados" where
  "conferir_coluna = (\<lambda>(i, c) a.
     (let nome = trim_space (cd_name c) in
      if nome = [] then a\<lparr>ac_sem_nome := ac_sem_nome a @ [i]\<rparr>
      else (let a = (if nome \<in> set (ac_vistos a) then a\<lparr>ac_duplicadas := ac_duplicadas a @ [nome]\<rparr> else a);
                a = a\<lparr>ac_vistos := nome # ac_vistos a\<rparr> in
            if cd_type c = [] then a\<lparr>ac_sem_tipo := ac_sem_tipo a @ [nome]\<rparr>
            else if cd_type c \<in> set tipos_de_coluna then a
            else a\<lparr>ac_invalidos := ac_invalidos a @ [nome]\<rparr>)))"

definition sem_achados :: achados where
  "sem_achados = \<lparr>ac_vistos = [], ac_sem_nome = [], ac_duplicadas = [], ac_sem_tipo = [], ac_invalidos = []\<rparr>"

definition Check :: "schema \<Rightarrow> erro_schema option" where
  "Check s =
     (let a = fold conferir_coluna (enumerate 0 s) sem_achados in
      if ac_sem_nome a \<noteq> [] then Some (ColunaSemNome (ac_sem_nome a))
      else if ac_duplicadas a \<noteq> [] then Some (ColunasRepetidas (sort_strings (ac_duplicadas a)))
      else if ac_sem_tipo a \<noteq> [] then Some (ColunasSemTipo (sort_strings (ac_sem_tipo a)))
      else if ac_invalidos a \<noteq> [] then Some (TiposInvalidos (sort_strings (ac_invalidos a)))
      else None)"

section \<open>The declaration against the rows and the table\<close>

datatype erro_colunas =
    RegistroNaoEObjeto
  | FaltaNoRegistro "string list" string
  | NaoDeclaradas "string list"
  | FaltaNaTabela "string list"
  | ForaDoDestino "string list"
  | NadaEmComum
  | TiposDiferem "(string \<times> string \<times> string) list"

text \<open>\<open>AsObject\<close>: a map of another type is marshalled and read back; \<open>relido\<close> is that detour.\<close>

definition AsObject :: "(qualquer \<Rightarrow> registro option) \<Rightarrow> qualquer \<Rightarrow> registro option" where
  "AsObject relido v = (case v of QMap m \<Rightarrow> Some m | _ \<Rightarrow> relido v)"

definition CheckColumns :: "(qualquer \<Rightarrow> registro option) \<Rightarrow> string list \<Rightarrow> qualquer list \<Rightarrow> erro_colunas option" where
  "CheckColumns relido declared records =
     (case records of
        [] \<Rightarrow> None
      | v # _ \<Rightarrow>
          if declared = [] then None
          else (case AsObject relido v of
                  None \<Rightarrow> Some RegistroNaoEObjeto
                | Some row \<Rightarrow>
                    (let missing = filter (\<lambda>c. map_of row c = None) declared;
                         undeclared = filter (\<lambda>f. f \<notin> set declared) (map fst row) in
                     if missing \<noteq> [] then Some (FaltaNoRegistro (sort_strings missing) (join '', '' (sort_strings (map fst row))))
                     else if undeclared \<noteq> [] then Some (NaoDeclaradas (sort_strings undeclared))
                     else None)))"

definition checkDeclaredAgainstTable :: "string list \<Rightarrow> string list \<Rightarrow> erro_colunas option" where
  "checkDeclaredAgainstTable declared tabela =
     (if declared = [] then None
      else (case filter (\<lambda>c. c \<notin> set tabela) declared of [] \<Rightarrow> None | a # as \<Rightarrow> Some (FaltaNaTabela (sort_strings (a # as)))))"

definition Reconcile :: "string list \<Rightarrow> string list \<Rightarrow> erro_colunas + string list" where
  "Reconcile dest incoming =
     (let sobrando = filter (\<lambda>c. c \<notin> set dest) incoming; cols = filter (\<lambda>c. c \<in> set incoming) dest in
      if sobrando \<noteq> [] then Inl (ForaDoDestino (sort_strings sobrando))
      else if cols = [] then Inl NadaEmComum
      else Inr cols)"

text \<open>A field of a BigQuery schema: name, type, required.\<close>

type_synonym campo_bq = "string \<times> string \<times> bool"

definition compatible :: "string \<Rightarrow> string \<Rightarrow> bool" where
  "compatible dest incoming \<longleftrightarrow> dest = incoming \<or> dest = ''FLOAT'' \<and> incoming = ''INTEGER''"

definition tipos_do_destino :: "campo_bq list \<Rightarrow> string gomap" where
  "tipos_do_destino dest = fold (\<lambda>(n, t, _). poe n t) dest []"

definition reconcile :: "campo_bq list \<Rightarrow> campo_bq list \<Rightarrow> erro_colunas + string list" where
  "reconcile dest incoming =
     (case Reconcile (map fst dest) (map fst incoming) of
        Inl e \<Rightarrow> Inl e
      | Inr cols \<Rightarrow>
          (case List.map_filter (\<lambda>(n, t, _). case map_of (tipos_do_destino dest) n of
                   Some d \<Rightarrow> if \<not> compatible d t then Some (n, d, t) else None | None \<Rightarrow> None) incoming of
             [] \<Rightarrow> Inr cols | m # ms \<Rightarrow> Inl (TiposDiferem (m # ms))))"

section \<open>The MERGE statement\<close>

definition crase :: char where "crase = CHR 0x60"

definition quote :: "string \<Rightarrow> string" where
  "quote name = [crase] @ concat (map (\<lambda>c. if c = crase then [CHR 0x5C, crase] else [c]) name) @ [crase]"

definition tableRef :: "string \<Rightarrow> string \<Rightarrow> string \<Rightarrow> string" where
  "tableRef project dataset tabela = [crase] @ project @ ''.'' @ dataset @ ''.'' @ tabela @ [crase]"

definition nova_linha :: string where "nova_linha = [CHR 0x0A]"

definition mergeSQL :: "string \<Rightarrow> string \<Rightarrow> string list \<Rightarrow> string \<Rightarrow> string" where
  "mergeSQL dest temp cols key =
     ''MERGE '' @ dest @ '' AS target'' @ nova_linha @
     ''USING '' @ temp @ '' AS incoming'' @ nova_linha @
     ''ON target.'' @ quote key @ '' = incoming.'' @ quote key @ nova_linha @
     ''WHEN NOT MATCHED THEN'' @ nova_linha @
     ''  INSERT ('' @ join '', '' (map quote cols) @ '')'' @ nova_linha @
     ''  VALUES ('' @ join '', '' (map (\<lambda>c. ''incoming.'' @ quote c) cols) @ '')''"

section \<open>A location can be read back\<close>

lemma cut_sub_SomeD: "cut_sub sep s = Some (a, b) \<Longrightarrow> s = a @ sep @ b"
  by (induction s arbitrary: a) (auto split: if_splits option.splits simp: prefix_def)

lemma cut_sub_esquema:
  "cut_sub ''://'' (''s3://'' @ r) = Some (''s3'', r)" "cut_sub ''://'' (''gs://'' @ r) = Some (''gs'', r)"
  by simp_all

lemma path_split_append: "path_split s = (d, f) \<Longrightarrow> s = d @ f \<and> (d = [] \<or> suffix ''/'' d) \<and> CHR ''/'' \<notin> set f"
  unfolding path_split_def
  by (auto split: option.splits dest: cut_last_SomeD simp: cut_last_None_iff suffix_def)

text \<open>What follows the bucket.\<close>

definition nomeia :: "string \<Rightarrow> string \<Rightarrow> string \<Rightarrow> local_de" where
  "nomeia scheme bucket rest =
     (if suffix ''/'' rest \<or> rest = [] then \<lparr>lc_scheme = scheme, lc_bucket = bucket, lc_prefix = rest, lc_pattern = []\<rparr>
      else \<lparr>lc_scheme = scheme, lc_bucket = bucket, lc_prefix = fst (path_split rest), lc_pattern = snd (path_split rest)\<rparr>)"

lemma nomeia_resto [simp]: "lc_prefix (nomeia s b r) @ lc_pattern (nomeia s b r) = r"
  using path_split_append [of r "fst (path_split r)" "snd (path_split r)"] by (simp add: nomeia_def)

lemma nomeia_campos [simp]: "lc_scheme (nomeia s b r) = s" "lc_bucket (nomeia s b r) = b"
  by (simp_all add: nomeia_def)

lemma ParseLocation_local: "cut_sub ''://'' p = None \<Longrightarrow> p \<noteq> [] \<Longrightarrow> ParseLocation p = Inr (nomeia [] [] p)"
  by (simp add: ParseLocation_def esquema_de_def nomeia_def split: prod.splits)

lemma ParseLocation_nuvem:
  assumes "s = ''s3'' \<or> s = ''gs''" and "b \<noteq> []" and "CHR ''/'' \<notin> set b"
  shows "ParseLocation (s @ ''://'' @ b @ ''/'' @ r) = Inr (nomeia s b r)"
    and "ParseLocation (s @ ''://'' @ b) = Inr (nomeia s b [])"
proof -
  have e: "esquema_de (s @ ''://'' @ x) = Inr (s, x)" for x
    using assms(1) by (auto simp: esquema_de_def)
  have c: "cut (CHR ''/'') (b @ CHR ''/'' # r) = Some (b, r)" "cut (CHR ''/'') b = None"
    using assms(3) by (simp_all add: cut_append cut_None_iff)
  show "ParseLocation (s @ ''://'' @ b @ ''/'' @ r) = Inr (nomeia s b r)"
    using assms(1,2) c(1) e [of "b @ CHR ''/'' # r"] by (auto simp: ParseLocation_def nomeia_def split: prod.splits)
  show "ParseLocation (s @ ''://'' @ b) = Inr (nomeia s b [])"
    using assms(1,2) c(2) e [of b] by (auto simp: ParseLocation_def nomeia_def)
qed

lemma ParseLocation_casos:
  assumes "ParseLocation p = Inr l"
  obtains "cut_sub ''://'' p = None" "p \<noteq> []" "l = nomeia [] [] p"
    | s b r where "s = ''s3'' \<or> s = ''gs''" "b \<noteq> []" "CHR ''/'' \<notin> set b" "p = s @ ''://'' @ b @ ''/'' @ r \<or> r = [] \<and> p = s @ ''://'' @ b" "l = nomeia s b r"
    | r where "p = ''file://'' @ r" "l = nomeia [] [] r"
proof -
  have p: "p \<noteq> []" using assms by (auto simp: ParseLocation_def)
  consider (sem) "cut_sub ''://'' p = None" | (com) s r where "cut_sub ''://'' p = Some (s, r)"
    by (cases "cut_sub ''://'' p") auto
  then show thesis
  proof cases
    case sem
    then show thesis using assms ParseLocation_local [OF sem p] p that(1) by simp
  next
    case com
    have ps: "p = s @ ''://'' @ r" using cut_sub_SomeD [OF com] by simp
    consider (nuvem) "s = ''s3'' \<or> s = ''gs''" | (arquivo) "s = ''file''"
      using assms com p by (auto simp: ParseLocation_def esquema_de_def split: if_splits)
    then show thesis
    proof cases
      case arquivo
      then have "l = nomeia [] [] r" using assms com p by (auto simp: ParseLocation_def esquema_de_def nomeia_def split: prod.splits if_splits)
      then show thesis using ps arquivo that(3) by simp
    next
      case nuvem
      show thesis
      proof (cases "cut (CHR ''/'') r")
        case None
        then have "r \<noteq> []" "CHR ''/'' \<notin> set r" using assms com p nuvem
          by (auto simp: ParseLocation_def esquema_de_def cut_None_iff split: if_splits)
        then show thesis using assms ParseLocation_nuvem(2) [OF nuvem] ps that(2) [OF nuvem, of r "[]"] by simp
      next
        case (Some br)
        obtain b r' where b: "br = (b, r')" by (cases br) auto
        have "b \<noteq> []" using assms com p nuvem Some b by (auto simp: ParseLocation_def esquema_de_def split: if_splits)
        moreover have r: "r = b @ CHR ''/'' # r'" "CHR ''/'' \<notin> set b" using cut_SomeD Some b by blast+
        ultimately show thesis using assms ParseLocation_nuvem(1) [OF nuvem] ps that(2) [OF nuvem, of b r'] by simp
      qed
    qed
  qed
qed

text \<open>
  A location that was read prints as the path it was read from, but for the slash after a bare bucket,
  and reads back as itself; its directory is empty or ends with a slash and its pattern has none. Paths
  that start with \<open>file://\<close> lose that prefix.
\<close>

theorem ParseLocation_ida_e_volta:
  assumes "ParseLocation p = Inr l" and "\<not> prefix ''file://'' p"
  shows "(location_String l = p \<or> location_String l = p @ ''/'') \<and> ParseLocation (location_String l) = Inr l \<and>
      (lc_prefix l = [] \<or> suffix ''/'' (lc_prefix l)) \<and> CHR ''/'' \<notin> set (lc_pattern l)"
proof -
  have forma: "(lc_prefix (nomeia s b r) = [] \<or> suffix ''/'' (lc_prefix (nomeia s b r))) \<and> CHR ''/'' \<notin> set (lc_pattern (nomeia s b r))" for s b r
    using path_split_append [of r "fst (path_split r)" "snd (path_split r)"] by (simp add: nomeia_def)
  from assms(1) show ?thesis
  proof (cases rule: ParseLocation_casos)
    case 1
    then have "location_String l = p" by (simp add: location_String_def)
    then show ?thesis using forma 1 assms(1) by simp
  next
    case (2 s b r)
    have s: "s \<noteq> []" using 2(1) by auto
    then have "location_String l = s @ ''://'' @ b @ ''/'' @ r" using 2(5) by (simp add: location_String_def)
    then show ?thesis using forma 2 ParseLocation_nuvem(1) [OF 2(1-3), of r] by auto
  next
    case (3 r)
    then show ?thesis using assms(2) by simp
  qed
qed

lemma exemplo_de_path:
  "ParseLocation ''s3://bucket/dia=1/*.ndjson'' =
     Inr \<lparr>lc_scheme = ''s3'', lc_bucket = ''bucket'', lc_prefix = ''dia=1/'', lc_pattern = ''*.ndjson''\<rparr>"
  by code_simp

lemma ParseLocation_ida_e_volta_witness:
  "\<exists>l. ParseLocation ''s3://bucket/dia=1/*.ndjson'' = Inr l \<and> lc_pattern l = ''*.ndjson'' \<and> ParseLocation (location_String l) = Inr l"
  using ParseLocation_ida_e_volta [OF exemplo_de_path] exemplo_de_path by auto

section \<open>What a declaration guarantees\<close>

definition nome_da_coluna :: "coluna_decl \<Rightarrow> string" where
  "nome_da_coluna c = trim_space (cd_name c)"

lemma conferir_passo:
  "ac_sem_nome (conferir_coluna ic a) = (if nome_da_coluna (snd ic) = [] then ac_sem_nome a @ [fst ic] else ac_sem_nome a)"
  "ac_vistos (conferir_coluna ic a) = (if nome_da_coluna (snd ic) = [] then ac_vistos a else nome_da_coluna (snd ic) # ac_vistos a)"
  "ac_duplicadas (conferir_coluna ic a) =
     (if nome_da_coluna (snd ic) \<noteq> [] \<and> nome_da_coluna (snd ic) \<in> set (ac_vistos a) then ac_duplicadas a @ [nome_da_coluna (snd ic)] else ac_duplicadas a)"
  "ac_sem_tipo (conferir_coluna ic a) =
     (if nome_da_coluna (snd ic) \<noteq> [] \<and> cd_type (snd ic) = [] then ac_sem_tipo a @ [nome_da_coluna (snd ic)] else ac_sem_tipo a)"
  "ac_invalidos (conferir_coluna ic a) =
     (if nome_da_coluna (snd ic) \<noteq> [] \<and> cd_type (snd ic) \<noteq> [] \<and> cd_type (snd ic) \<notin> set tipos_de_coluna
      then ac_invalidos a @ [nome_da_coluna (snd ic)] else ac_invalidos a)"
  by (cases ic; simp add: conferir_coluna_def nome_da_coluna_def Let_def)+

lemma conferir_fold:
  "ac_sem_nome (fold conferir_coluna xs a) = [] \<longleftrightarrow> ac_sem_nome a = [] \<and> (\<forall>c \<in> snd ` set xs. nome_da_coluna c \<noteq> [])"
  "ac_sem_tipo (fold conferir_coluna xs a) = [] \<longleftrightarrow>
     ac_sem_tipo a = [] \<and> (\<forall>c \<in> snd ` set xs. nome_da_coluna c \<noteq> [] \<longrightarrow> cd_type c \<noteq> [])"
  "ac_invalidos (fold conferir_coluna xs a) = [] \<longleftrightarrow>
     ac_invalidos a = [] \<and> (\<forall>c \<in> snd ` set xs. nome_da_coluna c \<noteq> [] \<longrightarrow> cd_type c \<noteq> [] \<longrightarrow> cd_type c \<in> set tipos_de_coluna)"
  by (induction xs arbitrary: a) (simp_all add: conferir_passo)

lemma conferir_fold_duplicadas:
  "(\<forall>c \<in> snd ` set xs. nome_da_coluna c \<noteq> []) \<Longrightarrow> ac_duplicadas (fold conferir_coluna xs a) = [] \<longleftrightarrow>
     ac_duplicadas a = [] \<and> distinct (map (nome_da_coluna \<circ> snd) xs) \<and> set (map (nome_da_coluna \<circ> snd) xs) \<inter> set (ac_vistos a) = {}"
proof (induction xs arbitrary: a)
  case (Cons ic xs)
  let ?n = "nome_da_coluna (snd ic)" and ?N = "set (map (nome_da_coluna \<circ> snd) xs)"
  have n: "?n \<noteq> []" using Cons.prems by simp
  have "ac_duplicadas (fold conferir_coluna (ic # xs) a) = [] \<longleftrightarrow>
      ac_duplicadas (conferir_coluna ic a) = [] \<and> distinct (map (nome_da_coluna \<circ> snd) xs) \<and> ?N \<inter> set (?n # ac_vistos a) = {}"
  proof -
    have "\<forall>c \<in> snd ` set xs. nome_da_coluna c \<noteq> []" using Cons.prems by simp
    moreover have "ac_vistos (conferir_coluna ic a) = ?n # ac_vistos a" using n by (simp add: conferir_passo)
    ultimately show ?thesis using Cons.IH [of "conferir_coluna ic a"] by (simp only: fold_simps)
  qed
  moreover have "ac_duplicadas (conferir_coluna ic a) = [] \<longleftrightarrow> ac_duplicadas a = [] \<and> ?n \<notin> set (ac_vistos a)"
    using n by (simp add: conferir_passo)
  moreover have "?N \<inter> set (?n # ac_vistos a) = {} \<longleftrightarrow> ?n \<notin> ?N \<and> ?N \<inter> set (ac_vistos a) = {}" by auto
  moreover have "distinct (map (nome_da_coluna \<circ> snd) (ic # xs)) \<longleftrightarrow> ?n \<notin> ?N \<and> distinct (map (nome_da_coluna \<circ> snd) xs)"
    by (simp only: list.map distinct.simps comp_def)
  moreover have "set (map (nome_da_coluna \<circ> snd) (ic # xs)) \<inter> set (ac_vistos a) = {} \<longleftrightarrow> ?n \<notin> set (ac_vistos a) \<and> ?N \<inter> set (ac_vistos a) = {}"
    by auto
  ultimately show ?case by blast
qed simp

lemma Check_None:
  "Check s = None \<longleftrightarrow> (\<forall>c \<in> set s. nome_da_coluna c \<noteq> [] \<and> cd_type c \<in> set tipos_de_coluna) \<and> distinct (map nome_da_coluna s)"
proof -
  let ?xs = "enumerate 0 s"
  have s: "snd ` set ?xs = set s" "map (nome_da_coluna \<circ> snd) ?xs = map nome_da_coluna s"
    by (simp_all flip: set_map map_map)
  have t: "[] \<notin> set tipos_de_coluna" by (simp add: tipos_de_coluna_def)
  have "Check s = None \<longleftrightarrow> ac_sem_nome (fold conferir_coluna ?xs sem_achados) = [] \<and> ac_duplicadas (fold conferir_coluna ?xs sem_achados) = [] \<and>
      ac_sem_tipo (fold conferir_coluna ?xs sem_achados) = [] \<and> ac_invalidos (fold conferir_coluna ?xs sem_achados) = []"
    by (simp add: Check_def Let_def)
  moreover have "ac_sem_nome (fold conferir_coluna ?xs sem_achados) = [] \<longleftrightarrow> (\<forall>c \<in> set s. nome_da_coluna c \<noteq> [])"
    using conferir_fold(1) [of ?xs sem_achados] unfolding s by (simp add: sem_achados_def)
  moreover have "ac_sem_tipo (fold conferir_coluna ?xs sem_achados) = [] \<longleftrightarrow>
      (\<forall>c \<in> set s. nome_da_coluna c \<noteq> [] \<longrightarrow> cd_type c \<noteq> [])"
    using conferir_fold(2) [of ?xs sem_achados] unfolding s by (simp add: sem_achados_def)
  moreover have "ac_invalidos (fold conferir_coluna ?xs sem_achados) = [] \<longleftrightarrow>
      (\<forall>c \<in> set s. nome_da_coluna c \<noteq> [] \<longrightarrow> cd_type c \<noteq> [] \<longrightarrow> cd_type c \<in> set tipos_de_coluna)"
    using conferir_fold(3) [of ?xs sem_achados] unfolding s by (simp add: sem_achados_def)
  moreover have "ac_duplicadas (fold conferir_coluna ?xs sem_achados) = [] \<longleftrightarrow> distinct (map nome_da_coluna s)"
    if "\<forall>c \<in> set s. nome_da_coluna c \<noteq> []"
    using conferir_fold_duplicadas [of ?xs sem_achados] that unfolding s by (simp add: sem_achados_def)
  ultimately show ?thesis using t by metis
qed

lemma ex_eq_linha: "(\<exists>x. y = x \<and> P x) \<longleftrightarrow> P y"
  by blast

lemma CheckColumns_None:
  "CheckColumns relido declared (v # vs) = None \<longleftrightarrow>
     declared = [] \<or> (\<exists>row. AsObject relido v = Some row \<and> set (map fst row) = set declared)"
proof (cases "AsObject relido v")
  case (Some row)
  have "filter (\<lambda>c. map_of row c = None) declared = [] \<longleftrightarrow> set declared \<subseteq> set (map fst row)"
    by (auto simp: filter_empty_conv map_of_eq_None_iff)
  moreover have "filter (\<lambda>f. f \<notin> set declared) (map fst row) = [] \<longleftrightarrow> set (map fst row) \<subseteq> set declared"
    by (auto simp: filter_empty_conv)
  ultimately have "CheckColumns relido declared (v # vs) = None \<longleftrightarrow>
      declared = [] \<or> set declared \<subseteq> set (map fst row) \<and> set (map fst row) \<subseteq> set declared"
    unfolding CheckColumns_def by (simp only: list.case option.case Some Let_def) (simp del: set_map)
  then show ?thesis using Some by (simp only: set_eq_subset option.inject ex_simps ex_eq_linha) blast
qed (simp add: CheckColumns_def)

text \<open>
  A batch whose first row fits the declaration, into a table that has every declared column, is
  written with exactly the declared columns, in the order of the table, and no field of the row is lost.
\<close>

theorem declaracao_garante_colunas:
  assumes "CheckColumns relido declared (v # vs) = None" and "checkDeclaredAgainstTable declared dest = None" and "declared \<noteq> []"
  shows "\<exists>row cols. AsObject relido v = Some row \<and> Reconcile dest (map fst row) = Inr cols \<and> subseq cols dest \<and>
      set cols = set declared \<and> set cols = set (map fst row)"
proof -
  obtain row where row: "AsObject relido v = Some row" "set (map fst row) = set declared"
    using assms(1,3) by (auto simp: CheckColumns_None)
  have d: "set declared \<subseteq> set dest"
    using assms(2,3) by (auto simp: checkDeclaredAgainstTable_def filter_empty_conv split: list.splits)
  let ?cols = "filter (\<lambda>c. c \<in> set (map fst row)) dest"
  have "set ?cols = set declared" using row(2) d by auto
  moreover from this have "?cols \<noteq> []" using assms(3) by (metis set_empty2)
  moreover have "filter (\<lambda>c. c \<notin> set dest) (map fst row) = []" using row(2) d by (auto simp: filter_empty_conv)
  ultimately have "Reconcile dest (map fst row) = Inr ?cols" by (simp add: Reconcile_def Let_def)
  then show ?thesis using row \<open>set ?cols = set declared\<close> by (intro exI [of _ row] exI [of _ ?cols]) simp
qed

lemma declaracao_garante_colunas_witness:
  "\<exists>cols. Reconcile [''c'', ''b'', ''a''] [''a'', ''b''] = Inr cols \<and> set cols = {''a'', ''b''}"
  using declaracao_garante_colunas [of "\<lambda>_. None" "[''b'', ''a'']" "QMap [(''a'', QInt 1), (''b'', QInt 2)]" "[]" "[''c'', ''b'', ''a'']"]
  by (auto simp: CheckColumns_def checkDeclaredAgainstTable_def AsObject_def)

section \<open>Quoting\<close>

text \<open>
  A quoted identifier as GoogleSQL reads it, after the opening backtick: it ends at the first backtick, and
  a backslash escapes the next character. Only escapes of the two characters themselves are read.
\<close>

fun le_citado :: "string \<Rightarrow> (string \<times> string) option" where
  "le_citado [] = None"
| "le_citado (c # s) =
     (if c = crase then Some ([], s)
      else if c = CHR 0x5C then
        (case s of [] \<Rightarrow> None
         | d # s' \<Rightarrow> if d = crase \<or> d = CHR 0x5C then map_option (\<lambda>(n, r). (d # n, r)) (le_citado s') else None)
      else map_option (\<lambda>(n, r). (c # n, r)) (le_citado s))"

definition citado :: "string \<Rightarrow> (string \<times> string) option" where
  "citado s = (case s of [] \<Rightarrow> None | c # r \<Rightarrow> if c = crase then le_citado r else None)"

lemma le_citado_quote:
  "CHR 0x5C \<notin> set n \<Longrightarrow> le_citado (concat (map (\<lambda>c. if c = crase then [CHR 0x5C, crase] else [c]) n) @ crase # r) = Some (n, r)"
  by (induction n) (auto simp: crase_def)

text \<open>
  A quoted column name is read back whole, backticks included, when it has no backslash; one that
  has a backslash before a backtick ends the quoting early, and what follows is read as SQL.
\<close>

theorem quote_lida:
  shows "CHR 0x5C \<notin> set n \<Longrightarrow> citado (quote n @ r) = Some (n, r)"
    and "citado (quote ([CHR 0x5C, crase] @ n) @ r) = Some ([CHR 0x5C], concat (map (\<lambda>c. if c = crase then [CHR 0x5C, crase] else [c]) n) @ crase # r)"
proof -
  show "citado (quote n @ r) = Some (n, r)" if "CHR 0x5C \<notin> set n"
    using le_citado_quote [OF that] by (simp add: citado_def quote_def)
  show "citado (quote ([CHR 0x5C, crase] @ n) @ r) = Some ([CHR 0x5C], concat (map (\<lambda>c. if c = crase then [CHR 0x5C, crase] else [c]) n) @ crase # r)"
    by (simp add: citado_def quote_def crase_def)
qed

lemma quote_lida_witness: "citado (quote ''range'' @ '' AS x'') = Some (''range'', '' AS x'')"
  using quote_lida(1) [of "''range''" "'' AS x''"] by simp

end
