(* ===== verification/Carga.thy ===== *)
theory Carga
  imports Destino
begin

text \<open>
  The loader (\<open>sdk/load/load.go\<close>, \<open>dedup.go\<close>, \<open>table.go\<close>, \<open>columns.go\<close>, options of
  \<open>sdk/internal/core/types.go\<close>): how a configuration is resolved, how a table is created, and how a batch is
  written, plainly or with a merge. The warehouse and the object storage are the functions of a record over
  their own state; the JSON encoder is an argument. Durations and logs are left out.
\<close>

section \<open>Configuration\<close>

record load_config =
  lo_project :: string
  lo_dataset :: string
  lo_table :: string
  lo_staging_bucket :: string
  lo_staging_prefix :: string
  lo_threshold :: int
  lo_format :: string
  lo_keep :: bool
  lo_dedup :: string
  lo_create_table :: bool
  lo_create_sql :: string
  lo_expiration :: int
  lo_require_filter :: bool
  lo_columns :: "string list"
  lo_schema :: schema
  lo_partition_by :: string
  lo_cluster_by :: "string list"

type_synonym load_option = "load_config \<Rightarrow> load_config"

definition WithSchema :: "schema \<Rightarrow> load_option" where
  "WithSchema s cfg = cfg\<lparr>lo_schema := s, lo_columns := Names s\<rparr>"

definition WithColumns :: "string list \<Rightarrow> load_option" where
  "WithColumns columns cfg = cfg\<lparr>lo_columns := columns\<rparr>"

definition DedupNone :: string where "DedupNone = ''none''"
definition DedupMerge :: string where "DedupMerge = ''merge''"
definition MetadataID :: string where "MetadataID = ''ingestion_id''"
definition MetadataLoadedAt :: string where "MetadataLoadedAt = ''ingestion_loaded_at''"

datatype erro_load =
    ProjetoObrigatorio | DatasetObrigatorio | TabelaObrigatoria
  | FormatoNaoImplementado string | FormatoDesconhecido string
  | FiltroComMerge | MergeSemId | ParticaoSemLoadedAt
  | Colunas erro_colunas
  | NaoCodifica nat string | LinhaNaoEObjeto nat string
  | Procurando string | TabelaNaoExiste | SemTipos | Criando string
  | RodandoSQL string | SQLNaoCriou | ConferindoSQL string
  | TipoSemEquivalente string string
  | LendoColunas string | ClusterAusente "string list" string
  | LendoDestino string | CriandoTemporaria string | CarregandoTemporaria string | LendoTemporaria string
  | NaoCabe erro_colunas | FalhaNoMerge string
  | FalhaNaCarga string | Estagiando string
  | ConferindoDestino string | ColunasAntes erro_colunas

definition sourceFormat :: "string \<Rightarrow> erro_load option" where
  "sourceFormat f =
     (if f = [] \<or> f = ''ndjson'' then None
      else if f = ''csv'' \<or> f = ''parquet'' then Some (FormatoNaoImplementado f)
      else Some (FormatoDesconhecido f))"

definition declares :: "string list \<Rightarrow> string \<Rightarrow> bool" where
  "declares columns nome \<longleftrightarrow> list_ex (\<lambda>c. c = nome) columns"

definition vazio_para :: "string \<Rightarrow> string \<Rightarrow> string" where
  "vazio_para padrao v = (if v = [] then padrao else v)"

text \<open>\<open>resolveConfig\<close>; a nil option does nothing.\<close>

definition aplicar_opcoes :: "load_option option list \<Rightarrow> load_option" where
  "aplicar_opcoes opts c = fold (\<lambda>f c. case f of None \<Rightarrow> c | Some f \<Rightarrow> f c) opts c"

definition padroes_da_carga :: "load_config \<Rightarrow> load_config" where
  "padroes_da_carga c =
     c\<lparr>lo_staging_bucket := vazio_para (lo_project c @ ''-brevis-staging'') (lo_staging_bucket c),
       lo_staging_prefix := vazio_para ''extracts/'' (lo_staging_prefix c),
       lo_threshold := (if lo_threshold c = 0 then 5000 else lo_threshold c),
       lo_format := vazio_para ''ndjson'' (lo_format c)\<rparr>"

definition recusas :: "load_config \<Rightarrow> erro_load option" where
  "recusas c =
     entao (sourceFormat (lo_format c))
      (if lo_require_filter c \<and> lo_dedup c = DedupMerge then Some FiltroComMerge
       else if lo_dedup c = DedupMerge \<and> lo_columns c \<noteq> [] \<and> \<not> declares (lo_columns c) MetadataID then Some MergeSemId
       else if (0 < lo_expiration c \<or> lo_require_filter c) \<and> lo_columns c \<noteq> [] \<and> \<not> declares (lo_columns c) MetadataLoadedAt
         then Some ParticaoSemLoadedAt
       else None)"

definition resolveConfig :: "load_config \<Rightarrow> load_option option list \<Rightarrow> erro_load + load_config" where
  "resolveConfig cfg opts =
     (let c = aplicar_opcoes opts cfg in
      if lo_project c = [] then Inl ProjetoObrigatorio
      else if lo_dataset c = [] then Inl DatasetObrigatorio
      else if lo_table c = [] then Inl TabelaObrigatoria
      else (let c = padroes_da_carga c in case recusas c of Some e \<Rightarrow> Inl e | None \<Rightarrow> Inr c))"

definition strategyFor :: "int \<Rightarrow> int \<Rightarrow> string" where
  "strategyFor n threshold = (if threshold < n then ''gcs'' else ''inline'')"

section \<open>Creating a table\<close>

record tabela_bq =
  tq_schema :: "campo_bq list"
  tq_description :: string
  tq_labels :: "string gomap"

record tabela_nova = tabela_bq +
  tn_particao :: string
  tn_expiration :: int
  tn_require_filter :: bool
  tn_cluster :: "string list"

datatype como_criar = CriarPorSQL | CriarPorSchema

definition PlanoDeCriacao :: "load_config \<Rightarrow> erro_load + como_criar" where
  "PlanoDeCriacao cfg =
     (if lo_create_sql cfg \<noteq> [] then Inr CriarPorSQL
      else if lo_schema cfg \<noteq> [] then Inr CriarPorSchema
      else Inl SemTipos)"

definition tipos_bq :: "string gomap" where
  "tipos_bq = [(''string'', ''STRING''), (''int64'', ''INTEGER''), (''float64'', ''FLOAT''), (''numeric'', ''NUMERIC''),
               (''bool'', ''BOOLEAN''), (''timestamp'', ''TIMESTAMP''), (''date'', ''DATE''), (''json'', ''JSON''), (''bytes'', ''BYTES'')]"

definition metadataSchema :: "campo_bq gomap" where
  "metadataSchema = [(MetadataID, (MetadataID, ''STRING'', True)), (MetadataLoadedAt, (MetadataLoadedAt, ''TIMESTAMP'', True))]"

fun bigquerySchema :: "schema \<Rightarrow> erro_load + campo_bq list" where
  "bigquerySchema [] = Inr []"
| "bigquerySchema (c # cs) =
     (case (case map_of metadataSchema (cd_name c) of
              Some propria \<Rightarrow> Inr propria
            | None \<Rightarrow> (case map_of tipos_bq (cd_type c) of
                         None \<Rightarrow> Inl (TipoSemEquivalente (cd_name c) (cd_type c))
                       | Some t \<Rightarrow> Inr (cd_name c, t, cd_required c))) of
        Inl e \<Rightarrow> Inl e
      | Inr f \<Rightarrow> (case bigquerySchema cs of Inl e \<Rightarrow> Inl e | Inr fs \<Rightarrow> Inr (f # fs)))"

definition typesAnything :: "string list \<Rightarrow> bool" where
  "typesAnything columns \<longleftrightarrow> list_ex (\<lambda>c. map_of metadataSchema c \<noteq> None) columns"

definition particaoDe :: "load_config \<Rightarrow> string" where
  "particaoDe cfg = (if lo_partition_by cfg \<noteq> [] then lo_partition_by cfg else MetadataLoadedAt)"

record provenance =
  pv_provider :: string
  pv_entity :: string

definition texto_de :: "qualquer option \<Rightarrow> string" where
  "texto_de v = (case v of Some (QText s) \<Rightarrow> s | _ \<Rightarrow> [])"

text \<open>The records carry their own provider and entity, of the low-level API.\<close>

definition provenanceOf :: "(qualquer \<Rightarrow> registro option) \<Rightarrow> envelope list \<Rightarrow> provenance" where
  "provenanceOf relido records =
     (case records of
        [] \<Rightarrow> \<lparr>pv_provider = [], pv_entity = []\<rparr>
      | r # _ \<Rightarrow>
          (case AsObject relido (ev_payload r) of
             Some row \<Rightarrow>
               (let p = texto_de (map_of row ''provider''); e = texto_de (map_of row ''entity'') in
                if p \<noteq> [] \<or> e \<noteq> [] then \<lparr>pv_provider = p, pv_entity = e\<rparr>
                else \<lparr>pv_provider = ev_provider r, pv_entity = ev_entity r\<rparr>)
           | None \<Rightarrow> \<lparr>pv_provider = ev_provider r, pv_entity = ev_entity r\<rparr>))"

definition permitido_no_rotulo :: "char \<Rightarrow> bool" where
  "permitido_no_rotulo c \<longleftrightarrow> minuscula c \<or> digito c \<or> c = CHR ''_'' \<or> c = CHR ''-''"

fun sublinhar :: "bool \<Rightarrow> string \<Rightarrow> string" where
  "sublinhar dentro [] = []"
| "sublinhar dentro (c # cs) =
     (if permitido_no_rotulo c then c # sublinhar False cs
      else if dentro then sublinhar True cs
      else CHR ''_'' # sublinhar True cs)"

definition aparar_de :: "(char \<Rightarrow> bool) \<Rightarrow> string \<Rightarrow> string" where
  "aparar_de p s = rev (dropWhile p (rev (dropWhile p s)))"

text \<open>\<open>lower\<close> is \<open>strings.ToLower\<close>.\<close>

definition sanitiseLabel :: "(string \<Rightarrow> string) \<Rightarrow> string \<Rightarrow> string" where
  "sanitiseLabel lower v =
     (let v = aparar_de (\<lambda>c. c = CHR ''_'' \<or> c = CHR ''-'') (sublinhar False (lower v));
          v = (if 63 < length v then take 63 v else v) in
      if v = [] \<or> \<not> minuscula (hd v) then [] else v)"

definition tableLabels :: "(string \<Rightarrow> string) \<Rightarrow> provenance \<Rightarrow> string gomap" where
  "tableLabels lower prov =
     List.map_filter (\<lambda>(k, raw). if sanitiseLabel lower raw \<noteq> [] then Some (k, sanitiseLabel lower raw) else None)
       [(''provider'', pv_provider prov), (''entity'', pv_entity prov)]"

definition tableDescription :: "string \<Rightarrow> load_config \<Rightarrow> provenance \<Rightarrow> string" where
  "tableDescription hoje cfg prov =
     (let who = (if pv_provider prov \<noteq> [] \<and> pv_entity prov \<noteq> [] then pv_provider prov @ ''/'' @ pv_entity prov @ '' via the Brevis SDK''
                 else ''the Brevis SDK'') in
      ''Written by '' @ who @ '' since '' @ hoje @ ''. '' @
      (if declares (lo_columns cfg) MetadataID then ''Rows carry ingestion_id; deduplicate on it downstream. '' else []) @
      ''The SDK never alters this table.'')"

definition typedTable :: "(string \<Rightarrow> string) \<Rightarrow> string \<Rightarrow> load_config \<Rightarrow> campo_bq list \<Rightarrow> provenance \<Rightarrow> tabela_nova" where
  "typedTable lower hoje cfg inferred prov =
     \<lparr>tq_schema = map (\<lambda>f. case map_of metadataSchema (fst f) of Some own \<Rightarrow> own | None \<Rightarrow> f) inferred,
      tq_description = tableDescription hoje cfg prov, tq_labels = tableLabels lower prov,
      tn_particao = particaoDe cfg, tn_expiration = lo_expiration cfg, tn_require_filter = lo_require_filter cfg,
      tn_cluster = lo_cluster_by cfg\<rparr>"

section \<open>The services\<close>

datatype metadata_bq = MetaErro string | MetaAusente | MetaOk tabela_bq

text \<open>The layout of a load job: whether it may create the table, whether it infers the schema, the clustering.\<close>

record layout =
  ly_cria :: bool
  ly_autodetect :: bool
  ly_cluster :: "string list"

text \<open>
  What the loader asks of the warehouse and of the object storage, about the table of the configuration
  and one temporary table. A failed job gives its message and the diagnostics of its rows.
\<close>

type_synonym falha_de_job = "string \<times> string list"

record 's nuvem =
  nv_meta :: "'s \<Rightarrow> metadata_bq"
  nv_cria :: "tabela_nova \<Rightarrow> 's \<Rightarrow> string option \<times> 's"
  nv_sql :: "string \<Rightarrow> 's \<Rightarrow> string option \<times> 's"
  nv_descreve :: "string \<Rightarrow> string gomap \<Rightarrow> 's \<Rightarrow> 's"
  nv_carrega :: "layout \<Rightarrow> string \<Rightarrow> 's \<Rightarrow> falha_de_job option \<times> 's"
  nv_carrega_de :: "layout \<Rightarrow> string \<Rightarrow> 's \<Rightarrow> falha_de_job option \<times> 's"
  nv_poe :: "string \<Rightarrow> string \<Rightarrow> 's \<Rightarrow> string option \<times> 's"
  nv_apaga :: "string \<Rightarrow> 's \<Rightarrow> string option \<times> 's"
  nv_temp_cria :: "campo_bq list \<Rightarrow> 's \<Rightarrow> string option \<times> 's"
  nv_temp_carrega :: "string \<Rightarrow> 's \<Rightarrow> falha_de_job option \<times> 's"
  nv_temp_meta :: "'s \<Rightarrow> string + campo_bq list"
  nv_temp_apaga :: "'s \<Rightarrow> 's"
  nv_consulta :: "string \<Rightarrow> 's \<Rightarrow> (falha_de_job + nat option) \<times> 's"
  nv_temp_nome :: "'s \<Rightarrow> string"
  nv_objeto :: "'s \<Rightarrow> string"                \<comment> \<open>day and nanoseconds of the staged object\<close>
  nv_hoje :: string
  nv_lower :: "string \<Rightarrow> string"
  nv_codifica :: "qualquer \<Rightarrow> string + string"
  nv_e_objeto :: "string \<Rightarrow> bool"
  nv_relido :: "qualquer \<Rightarrow> registro option"

section \<open>Preparing the table\<close>

definition createFromSchema :: "'s nuvem \<Rightarrow> load_config \<Rightarrow> provenance \<Rightarrow> 's \<Rightarrow> erro_load option \<times> 's" where
  "createFromSchema nv cfg prov s =
     (case bigquerySchema (lo_schema cfg) of
        Inl e \<Rightarrow> (Some e, s)
      | Inr esquema \<Rightarrow>
          (case nv_cria nv (typedTable (nv_lower nv) (nv_hoje nv) cfg esquema prov) s of
             (None, s) \<Rightarrow> (None, s) | (Some e, s) \<Rightarrow> (Some (Criando e), s)))"

definition createFromSQL :: "'s nuvem \<Rightarrow> load_config \<Rightarrow> 's \<Rightarrow> erro_load option \<times> 's" where
  "createFromSQL nv cfg s =
     (case nv_sql nv (lo_create_sql cfg) s of
        (Some e, s) \<Rightarrow> (Some (RodandoSQL e), s)
      | (None, s) \<Rightarrow>
          (case nv_meta nv s of
             MetaErro e \<Rightarrow> (Some (ConferindoSQL e), s) | MetaAusente \<Rightarrow> (Some SQLNaoCriou, s) | MetaOk _ \<Rightarrow> (None, s)))"

definition prepareTable :: "'s nuvem \<Rightarrow> load_config \<Rightarrow> provenance \<Rightarrow> 's \<Rightarrow> (erro_load + bool) \<times> 's" where
  "prepareTable nv cfg prov s =
     (case nv_meta nv s of
        MetaOk _ \<Rightarrow> (Inr True, s)
      | MetaErro e \<Rightarrow> (Inl (Procurando e), s)
      | MetaAusente \<Rightarrow>
          if \<not> lo_create_table cfg then (Inl TabelaNaoExiste, s)
          else (case PlanoDeCriacao cfg of
                  Inl e \<Rightarrow> (Inl e, s)
                | Inr como \<Rightarrow>
                    (case (if como = CriarPorSQL then createFromSQL nv cfg s else createFromSchema nv cfg prov s) of
                       (Some e, s) \<Rightarrow> (Inl e, s) | (None, s) \<Rightarrow> (Inr False, s))))"

definition applyLayout :: "load_config \<Rightarrow> layout" where
  "applyLayout cfg =
     (if \<not> lo_create_table cfg \<or> lo_create_sql cfg \<noteq> [] \<or> typesAnything (lo_columns cfg)
      then \<lparr>ly_cria = False, ly_autodetect = False, ly_cluster = []\<rparr>
      else \<lparr>ly_cria = True, ly_autodetect = True, ly_cluster = lo_cluster_by cfg\<rparr>)"

definition describeTable :: "'s nuvem \<Rightarrow> load_config \<Rightarrow> provenance \<Rightarrow> 's \<Rightarrow> 's" where
  "describeTable nv cfg prov s =
     (case nv_meta nv s of
        MetaOk md \<Rightarrow> if tq_description md \<noteq> [] \<or> tq_labels md \<noteq> [] then s
                     else nv_descreve nv (tableDescription (nv_hoje nv) cfg prov) (tableLabels (nv_lower nv) prov) s
      | _ \<Rightarrow> s)"

section \<open>Writing a batch\<close>

fun encodeRows :: "'s nuvem \<Rightarrow> nat \<Rightarrow> envelope list \<Rightarrow> erro_load + string" where
  "encodeRows nv i [] = Inr []"
| "encodeRows nv i (e # es) =
     (case nv_codifica nv (ev_payload e) of
        Inl x \<Rightarrow> Inl (NaoCodifica i x)
      | Inr d \<Rightarrow> if \<not> nv_e_objeto nv d then Inl (LinhaNaoEObjeto i d)
                  else (case encodeRows nv (Suc i) es of Inl x \<Rightarrow> Inl x | Inr ds \<Rightarrow> Inr (d @ nova_linha @ ds)))"

definition checkClusterFields :: "string list \<Rightarrow> envelope list \<Rightarrow> erro_load option" where
  "checkClusterFields cs envelopes =
     (case envelopes of
        [] \<Rightarrow> None
      | e # _ \<Rightarrow>
          (case ev_payload e of
             QMap first \<Rightarrow>
               (case filter (\<lambda>f. map_of first f = None) cs of
                  [] \<Rightarrow> None
                | m # ms \<Rightarrow> Some (ClusterAusente (sort_strings (m # ms)) (join '', '' (sort_strings (map fst first)))))
           | _ \<Rightarrow> None))"

record load_result =
  lr_rows :: int
  lr_bytes :: nat
  lr_strategy :: string
  lr_format :: string
  lr_dedup :: string
  lr_ignored :: int
  lr_created :: bool
  lr_errors :: "string list"
  lr_objects :: "string list"

definition loadInline :: "'s nuvem \<Rightarrow> load_config \<Rightarrow> string \<Rightarrow> 's \<Rightarrow> (nat \<times> string list \<times> erro_load option) \<times> 's" where
  "loadInline nv cfg data s =
     (case sourceFormat (lo_format cfg) of
        Some e \<Rightarrow> ((0, [], Some e), s)
      | None \<Rightarrow> (case nv_carrega nv (applyLayout cfg) data s of
                   (Some (e, rows), s) \<Rightarrow> ((0, rows, Some (FalhaNaCarga e)), s)
                 | (None, s) \<Rightarrow> ((length data, [], None), s)))"

definition loadViaGCS :: "'s nuvem \<Rightarrow> load_config \<Rightarrow> string \<Rightarrow> 's \<Rightarrow> (nat \<times> string \<times> string list \<times> erro_load option) \<times> 's" where
  "loadViaGCS nv cfg data s =
     (case sourceFormat (lo_format cfg) of
        Some e \<Rightarrow> ((0, [], [], Some e), s)
      | None \<Rightarrow>
          (let obj = lo_staging_prefix cfg @ nv_objeto nv s @ ''.ndjson''; ref = ''gs://'' @ lo_staging_bucket cfg @ ''/'' @ obj in
           case nv_poe nv obj data s of
             (Some e, s) \<Rightarrow> ((0, [], [], Some (Estagiando e)), snd (nv_apaga nv obj s))
           | (None, s) \<Rightarrow>
               (case nv_carrega_de nv (applyLayout cfg) ref s of
                  (Some (e, rows), s) \<Rightarrow> ((0, [], rows, Some (FalhaNaCarga e)), snd (nv_apaga nv obj s))
                | (None, s) \<Rightarrow>
                    if lo_keep cfg then ((length data, ref, [], None), s)
                    else ((length data, [], [], None), snd (nv_apaga nv obj s)))))"

definition nome_completo :: "load_config \<Rightarrow> string \<Rightarrow> string" where
  "nome_completo cfg t = tableRef (lo_project cfg) (lo_dataset cfg) t"

text \<open>From the temporary table on: load it, check the columns, merge. The deferred deletion follows in every case.\<close>

definition mesclar_temporaria ::
    "'s nuvem \<Rightarrow> load_config \<Rightarrow> string \<Rightarrow> campo_bq list \<Rightarrow> string \<Rightarrow> int \<Rightarrow> 's \<Rightarrow> (int \<times> int \<times> string list \<times> erro_load option) \<times> 's" where
  "mesclar_temporaria nv cfg temp destino data tot s =
     (case nv_temp_carrega nv data s of
        (Some (e, rows), s) \<Rightarrow> ((0, 0, rows, Some (CarregandoTemporaria e)), s)
      | (None, s) \<Rightarrow>
          (case nv_temp_meta nv s of
             Inl e \<Rightarrow> ((0, 0, [], Some (LendoTemporaria e)), s)
           | Inr esquema \<Rightarrow>
               (case reconcile destino esquema of
                  Inl e \<Rightarrow> ((0, 0, [], Some (NaoCabe e)), s)
                | Inr cols \<Rightarrow>
                    (case nv_consulta nv (mergeSQL (nome_completo cfg (lo_table cfg)) (nome_completo cfg temp) cols MetadataID) s of
                       (Inl (e, rows), s) \<Rightarrow> ((0, 0, rows, Some (FalhaNoMerge e)), s)
                     | (Inr n, s) \<Rightarrow>
                         (let inserted = (case n of None \<Rightarrow> tot | Some k \<Rightarrow> int k);
                              inserted = (if tot < inserted then tot else inserted) in
                          ((inserted, tot - inserted, [], None), s))))))"

definition loadWithMerge ::
    "'s nuvem \<Rightarrow> load_config \<Rightarrow> string \<Rightarrow> int \<Rightarrow> 's \<Rightarrow> (int \<times> int \<times> string list \<times> erro_load option) \<times> 's" where
  "loadWithMerge nv cfg data tot s =
     (case sourceFormat (lo_format cfg) of
        Some e \<Rightarrow> ((0, 0, [], Some e), s)
      | None \<Rightarrow>
          (case nv_meta nv s of
             MetaErro e \<Rightarrow> ((0, 0, [], Some (LendoDestino e)), s)
           | MetaAusente \<Rightarrow> ((0, 0, [], Some (LendoDestino ''notFound'')), s)
           | MetaOk md \<Rightarrow>
               (let temp = nv_temp_nome nv s in
                case nv_temp_cria nv (tq_schema md) s of
                  (Some e, s) \<Rightarrow> ((0, 0, [], Some (CriandoTemporaria e)), s)
                | (None, s) \<Rightarrow>
                    (case mesclar_temporaria nv cfg temp (tq_schema md) data tot s of (x, s) \<Rightarrow> (x, nv_temp_apaga nv s)))))"

text \<open>The writing itself: with a merge, through the object storage, or inline.\<close>

definition escrever_lote ::
    "'s nuvem \<Rightarrow> load_config \<Rightarrow> string \<Rightarrow> string \<Rightarrow> int \<Rightarrow> load_result \<Rightarrow> 's \<Rightarrow> (load_result \<times> erro_load option) \<times> 's" where
  "escrever_lote nv cfg dedup data n r s =
     (if dedup = DedupMerge then
        (case loadWithMerge nv cfg data n s of
           ((inserted, ignored, errs, err), s) \<Rightarrow>
             (let r = r\<lparr>lr_bytes := length data, lr_errors := errs\<rparr> in
              ((if err = None then r\<lparr>lr_rows := inserted, lr_ignored := ignored\<rparr> else r, err), s)))
      else if lr_strategy r = ''gcs'' then
        (case loadViaGCS nv cfg data s of
           ((bytes, objeto, errs, err), s) \<Rightarrow>
             (let r = (if objeto \<noteq> [] then r\<lparr>lr_objects := [objeto]\<rparr> else r)\<lparr>lr_bytes := bytes, lr_errors := errs\<rparr> in
              ((if err = None then r\<lparr>lr_rows := n\<rparr> else r, err), s)))
      else
        (case loadInline nv cfg data s of
           ((bytes, errs, err), s) \<Rightarrow>
             (let r = r\<lparr>lr_bytes := bytes, lr_errors := errs\<rparr> in
              ((if err = None then r\<lparr>lr_rows := n\<rparr> else r, err), s))))"

definition conferir_tabela :: "'s nuvem \<Rightarrow> load_config \<Rightarrow> bool \<Rightarrow> envelope list \<Rightarrow> 's \<Rightarrow> erro_load option" where
  "conferir_tabela nv cfg existed envelopes s =
     (if existed \<and> lo_columns cfg \<noteq> [] then
        (case nv_meta nv s of
           MetaOk md \<Rightarrow> map_option Colunas (checkDeclaredAgainstTable (lo_columns cfg) (map fst (tq_schema md)))
         | MetaErro e \<Rightarrow> Some (LendoColunas e)
         | MetaAusente \<Rightarrow> Some (LendoColunas ''notFound''))
      else if \<not> existed \<and> lo_create_table cfg then checkClusterFields (lo_cluster_by cfg) envelopes
      else None)"

text \<open>A merge into a table that was just created has nothing to match: the batch is appended.\<close>

definition dedup_efetiva :: "load_config \<Rightarrow> bool \<Rightarrow> string" where
  "dedup_efetiva cfg existed =
     (if vazio_para DedupNone (lo_dedup cfg) = DedupMerge \<and> \<not> existed \<and> lo_create_table cfg then DedupNone
      else vazio_para DedupNone (lo_dedup cfg))"

definition concluir_carga ::
    "'s nuvem \<Rightarrow> load_config \<Rightarrow> envelope list \<Rightarrow> string \<Rightarrow> bool \<Rightarrow> load_result \<Rightarrow> 's \<Rightarrow> (load_result \<times> erro_load option) \<times> 's" where
  "concluir_carga nv cfg envelopes data existed r s =
     (case escrever_lote nv cfg (dedup_efetiva cfg existed) data (int (length envelopes)) (r\<lparr>lr_dedup := dedup_efetiva cfg existed\<rparr>) s of
        ((r, Some e), s) \<Rightarrow> ((r, Some e), s)
      | ((r, None), s) \<Rightarrow>
          if lo_create_table cfg \<and> \<not> existed
          then ((r\<lparr>lr_created := True\<rparr>, None), describeTable nv cfg (provenanceOf (nv_relido nv) envelopes) s)
          else ((r, None), s))"

definition Load :: "'s nuvem \<Rightarrow> load_config \<Rightarrow> envelope list \<Rightarrow> 's \<Rightarrow> (load_result \<times> erro_load option) \<times> 's" where
  "Load nv cfg envelopes s =
     (let r = \<lparr>lr_rows = 0, lr_bytes = 0, lr_strategy = strategyFor (int (length envelopes)) (lo_threshold cfg), lr_format = lo_format cfg,
               lr_dedup = vazio_para DedupNone (lo_dedup cfg), lr_ignored = 0, lr_created = False, lr_errors = [], lr_objects = []\<rparr> in
      if envelopes = [] then ((r, None), s)
      else
        (case CheckColumns (nv_relido nv) (lo_columns cfg) (map ev_payload envelopes) of
           Some e \<Rightarrow> ((r, Some (Colunas e)), s)
         | None \<Rightarrow>
             (case encodeRows nv 0 envelopes of
                Inl e \<Rightarrow> ((r, Some e), s)
              | Inr data \<Rightarrow>
                  (case prepareTable nv cfg (provenanceOf (nv_relido nv) envelopes) s of
                     (Inl e, s) \<Rightarrow> ((r, Some e), s)
                   | (Inr existed, s) \<Rightarrow>
                       (case conferir_tabela nv cfg existed envelopes s of
                          Some e \<Rightarrow> ((r, Some e), s)
                        | None \<Rightarrow> concluir_carga nv cfg envelopes data existed r s)))))"

definition CheckDestination :: "'s nuvem \<Rightarrow> string list \<Rightarrow> 's \<Rightarrow> erro_load option" where
  "CheckDestination nv columns s =
     (if columns = [] then None
      else (case nv_meta nv s of
              MetaAusente \<Rightarrow> None
            | MetaErro e \<Rightarrow> Some (ConferindoDestino e)
            | MetaOk md \<Rightarrow> map_option ColunasAntes (checkDeclaredAgainstTable columns (map fst (tq_schema md)))))"

text \<open>\<open>rowErrors\<close>: at most ten diagnostics, each with its location; a nil one is left out.\<close>

definition maxReportedErrors :: nat where "maxReportedErrors = 10"

definition rowErrors :: "(string \<times> string) option list \<Rightarrow> string list" where
  "rowErrors errs =
     List.map_filter (map_option (\<lambda>(loc, msg). if loc \<noteq> [] then loc @ '': '' @ msg else msg)) (take maxReportedErrors errs) @
     (if maxReportedErrors < length errs then [''... and '' @ show_int (int (length errs - maxReportedErrors)) @ '' more''] else [])"

section \<open>What the services promise\<close>

text \<open>
  A view of the warehouse: the columns and the rows of the destination, and the rows of the temporary
  table. \<open>le\<close> is what the warehouse reads in a text of rows. A null identifier equals nothing.
\<close>

record 's visao =
  vi_tabela :: "'s \<Rightarrow> (string list \<times> registro list) option"
  vi_temp :: "'s \<Rightarrow> registro list"

definition casa_id :: "registro \<Rightarrow> registro \<Rightarrow> bool" where
  "casa_id r t \<longleftrightarrow> (case map_of r MetadataID of Some v \<Rightarrow> v \<noteq> QNil \<and> map_of t MetadataID = Some v | None \<Rightarrow> False)"

definition novas :: "registro list \<Rightarrow> registro list \<Rightarrow> registro list" where
  "novas rs ts = filter (\<lambda>t. \<not> list_ex (\<lambda>r. casa_id r t) rs) ts"

text \<open>\<open>WHEN NOT MATCHED THEN INSERT\<close> of the named columns.\<close>

definition mescla :: "string list \<Rightarrow> registro list \<Rightarrow> registro list \<Rightarrow> registro list" where
  "mescla cols rs ts = rs @ map (filter (\<lambda>(k, _). k \<in> set cols)) (novas rs ts)"

definition tabela_ok :: "'s nuvem \<Rightarrow> 's visao \<Rightarrow> bool" where
  "tabela_ok nv vi \<longleftrightarrow>
     (\<forall>s md. nv_meta nv s = MetaOk md \<longrightarrow> distinct (map fst (tq_schema md)) \<and> (\<exists>rs. vi_tabela vi s = Some (map fst (tq_schema md), rs))) \<and>
     (\<forall>s. nv_meta nv s = MetaAusente \<longrightarrow> vi_tabela vi s = None) \<and>
     (\<forall>t s s'. nv_cria nv t s = (None, s') \<longrightarrow> vi_tabela vi s = None \<longrightarrow> vi_tabela vi s' = Some (map fst (tq_schema t), [])) \<and>
     (\<forall>d ls s. vi_tabela vi (nv_descreve nv d ls s) = vi_tabela vi s)"

definition cargas_ok :: "'s nuvem \<Rightarrow> 's visao \<Rightarrow> (string \<Rightarrow> registro list) \<Rightarrow> bool" where
  "cargas_ok nv vi le \<longleftrightarrow>
     (\<forall>ly d s s' cs rs. nv_carrega nv ly d s = (None, s') \<longrightarrow> vi_tabela vi s = Some (cs, rs) \<longrightarrow> vi_tabela vi s' = Some (cs, rs @ le d)) \<and>
     (\<forall>ly b o' d s s1 s2 cs rs. nv_poe nv o' d s = (None, s1) \<longrightarrow> nv_carrega_de nv ly (''gs://'' @ b @ ''/'' @ o') s1 = (None, s2) \<longrightarrow>
        vi_tabela vi s = Some (cs, rs) \<longrightarrow> vi_tabela vi s2 = Some (cs, rs @ le d)) \<and>
     (\<forall>o' s. vi_tabela vi (snd (nv_apaga nv o' s)) = vi_tabela vi s)"

definition temporaria_ok :: "'s nuvem \<Rightarrow> 's visao \<Rightarrow> (string \<Rightarrow> registro list) \<Rightarrow> bool" where
  "temporaria_ok nv vi le \<longleftrightarrow>
     (\<forall>es s s'. nv_temp_cria nv es s = (None, s') \<longrightarrow> vi_tabela vi s' = vi_tabela vi s \<and> vi_temp vi s' = []) \<and>
     (\<forall>d s s'. nv_temp_carrega nv d s = (None, s') \<longrightarrow> vi_tabela vi s' = vi_tabela vi s \<and> vi_temp vi s' = vi_temp vi s @ le d) \<and>
     (\<forall>s. vi_tabela vi (nv_temp_apaga nv s) = vi_tabela vi s) \<and>
     (\<forall>d t cols s n s' cs rs es. nv_consulta nv (mergeSQL d t cols MetadataID) s = (Inr n, s') \<longrightarrow> vi_tabela vi s = Some (cs, rs) \<longrightarrow>
        nv_temp_meta nv s = Inr es \<longrightarrow> distinct cols \<longrightarrow> cols \<noteq> [] \<longrightarrow> set cols \<subseteq> set cs \<longrightarrow>
        MetadataID \<in> set cs \<and> MetadataID \<in> set (map fst es) \<and>
        vi_tabela vi s' = Some (cs, mescla cols rs (vi_temp vi s)) \<and> n = Some (length (novas rs (vi_temp vi s))))"

definition nuvem_ok :: "'s nuvem \<Rightarrow> 's visao \<Rightarrow> (string \<Rightarrow> registro list) \<Rightarrow> bool" where
  "nuvem_ok nv vi le \<longleftrightarrow> tabela_ok nv vi \<and> cargas_ok nv vi le \<and> temporaria_ok nv vi le"

section \<open>What a load writes\<close>

lemma prepareTable_ok:
  assumes "tabela_ok nv vi" and "prepareTable nv cfg prov s = (Inr existed, s1)"
  shows "(\<exists>cs rs. vi_tabela vi s1 = Some (cs, rs)) \<and> (existed \<longrightarrow> s1 = s) \<and> (\<not> existed \<longrightarrow> lo_create_table cfg \<and> vi_tabela vi s = None)"
proof (cases "nv_meta nv s")
  case (MetaErro e)
  then show ?thesis using assms(2) by (simp add: prepareTable_def)
next
  case (MetaOk md)
  then have "existed" "s1 = s" using assms(2) by (simp_all add: prepareTable_def)
  then show ?thesis using assms(1) MetaOk unfolding tabela_ok_def by blast
next
  case MetaAusente
  then have sem: "vi_tabela vi s = None" using assms(1) unfolding tabela_ok_def by blast
  from MetaAusente assms(2) have ct: "lo_create_table cfg" "\<not> existed"
    by (auto simp: prepareTable_def split: if_splits sum.splits prod.splits option.splits)
  obtain como where como: "PlanoDeCriacao cfg = Inr como"
    and r: "(if como = CriarPorSQL then createFromSQL nv cfg s else createFromSchema nv cfg prov s) = (None, s1)"
    using MetaAusente assms(2) ct by (auto simp: prepareTable_def split: sum.splits prod.splits option.splits)
  have "\<exists>cs rs. vi_tabela vi s1 = Some (cs, rs)"
  proof (cases como)
    case CriarPorSQL
    then obtain md where "nv_meta nv s1 = MetaOk md"
      using r by (auto simp: createFromSQL_def split: prod.splits option.splits metadata_bq.splits)
    then show ?thesis using assms(1) unfolding tabela_ok_def by blast
  next
    case CriarPorSchema
    then obtain t where "nv_cria nv t s = (None, s1)"
      using r by (auto simp: createFromSchema_def split: prod.splits option.splits sum.splits)
    then show ?thesis using assms(1) sem unfolding tabela_ok_def by blast
  qed
  then show ?thesis using sem ct by blast
qed

lemma escrever_simples:
  assumes "cargas_ok nv vi le" and "dedup \<noteq> DedupMerge" and "vi_tabela vi s = Some (cs, rs)"
    and "escrever_lote nv cfg dedup data n r s = ((r', None), s')"
  shows "vi_tabela vi s' = Some (cs, rs @ le data) \<and> lr_rows r' = n \<and> lr_ignored r' = lr_ignored r"
proof (cases "lr_strategy r = ''gcs''")
  case True
  obtain b ob es s1 where v: "loadViaGCS nv cfg data s = ((b, ob, es, None), s1)" "s1 = s'" "lr_rows r' = n" "lr_ignored r' = lr_ignored r"
    using assms(2,4) True by (auto simp: escrever_lote_def Let_def split: prod.splits if_splits)
  obtain o' s2 s3 ly where g: "nv_poe nv o' data s = (None, s2)" "nv_carrega_de nv ly (''gs://'' @ lo_staging_bucket cfg @ ''/'' @ o') s2 = (None, s3)"
      "s1 = s3 \<or> s1 = snd (nv_apaga nv o' s3)"
    using v(1) by (auto simp: loadViaGCS_def Let_def split: option.splits prod.splits if_splits)
  have "vi_tabela vi s3 = Some (cs, rs @ le data)" using assms(1,3) g(1,2) unfolding cargas_ok_def by blast
  moreover have "vi_tabela vi s1 = vi_tabela vi s3" using g(3) assms(1) unfolding cargas_ok_def by auto
  ultimately show ?thesis using v by simp
next
  case False
  obtain b es where v: "loadInline nv cfg data s = ((b, es, None), s')" "lr_rows r' = n" "lr_ignored r' = lr_ignored r"
    using assms(2,4) False by (auto simp: escrever_lote_def Let_def split: prod.splits if_splits)
  then have "nv_carrega nv (applyLayout cfg) data s = (None, s')"
    by (auto simp: loadInline_def split: option.splits prod.splits)
  then show ?thesis using assms(1,3) v unfolding cargas_ok_def by blast
qed

lemma Reconcile_Inr: "Reconcile d i = Inr cols \<Longrightarrow> cols = filter (\<lambda>c. c \<in> set i) d \<and> cols \<noteq> []"
  by (auto simp: Reconcile_def Let_def split: if_splits)

lemma reconcile_Inr: "reconcile d i = Inr cols \<Longrightarrow> cols = filter (\<lambda>c. c \<in> set (map fst i)) (map fst d) \<and> cols \<noteq> []"
  by (auto simp: reconcile_def dest!: Reconcile_Inr split: sum.splits list.splits)

lemma temporaria_consulta:
  assumes "temporaria_ok nv vi le" and "nv_consulta nv (mergeSQL d t cols MetadataID) s = (Inr n, s')" and "vi_tabela vi s = Some (cs, rs)"
    and "nv_temp_meta nv s = Inr es" and "distinct cols" and "cols \<noteq> []" and "set cols \<subseteq> set cs"
  shows "MetadataID \<in> set cs \<and> MetadataID \<in> set (map fst es) \<and>
        vi_tabela vi s' = Some (cs, mescla cols rs (vi_temp vi s)) \<and> n = Some (length (novas rs (vi_temp vi s)))"
  using assms unfolding temporaria_ok_def by blast

lemma loadWithMerge_ok:
  assumes "nuvem_ok nv vi le" and "vi_tabela vi s = Some (cs, rs)" and "loadWithMerge nv cfg data n s = ((ins, ign, errs, None), s')"
  shows "\<exists>cols. MetadataID \<in> set cols \<and> vi_tabela vi s' = Some (cs, mescla cols rs (le data)) \<and>
      ins = min n (int (length (novas rs (le data)))) \<and> ign = n - ins"
proof -
  note ok = assms(1) [unfolded nuvem_ok_def]
  obtain md s1 s2 where m: "nv_meta nv s = MetaOk md" "nv_temp_cria nv (tq_schema md) s = (None, s1)"
      "mesclar_temporaria nv cfg (nv_temp_nome nv s) (tq_schema md) data n s1 = ((ins, ign, errs, None), s2)" "s' = nv_temp_apaga nv s2"
    using assms(3) by (auto simp: loadWithMerge_def Let_def split: option.splits metadata_bq.splits prod.splits)
  have cs: "cs = map fst (tq_schema md)" "distinct cs" using ok m(1) assms(2) unfolding tabela_ok_def by fastforce+
  have v1: "vi_tabela vi s1 = Some (cs, rs)" "vi_temp vi s1 = []" using ok m(2) assms(2) unfolding temporaria_ok_def by simp_all
  obtain s3 es cols k where p: "nv_temp_carrega nv data s1 = (None, s3)" "nv_temp_meta nv s3 = Inr es" "reconcile (tq_schema md) es = Inr cols"
      "nv_consulta nv (mergeSQL (nome_completo cfg (lo_table cfg)) (nome_completo cfg (nv_temp_nome nv s)) cols MetadataID) s3 = (Inr k, s2)"
      "ins = (let i = (case k of None \<Rightarrow> n | Some k \<Rightarrow> int k) in if n < i then n else i)" "ign = n - ins"
    using m(3) by (auto simp: mesclar_temporaria_def Let_def split: option.splits sum.splits prod.splits)
  have v3: "vi_tabela vi s3 = Some (cs, rs)" "vi_temp vi s3 = le data" using ok p(1) v1 unfolding temporaria_ok_def by fastforce+
  have cols: "cols = filter (\<lambda>c. c \<in> set (map fst es)) cs" "cols \<noteq> []" using reconcile_Inr [OF p(3)] unfolding cs(1) by blast+
  have dc: "distinct cols" "set cols \<subseteq> set cs" using cols(1) cs(2) by auto
  have t: "temporaria_ok nv vi le" using ok by blast
  have q: "MetadataID \<in> set cs" "MetadataID \<in> set (map fst es)" "vi_tabela vi s2 = Some (cs, mescla cols rs (le data))"
      "k = Some (length (novas rs (le data)))"
    using temporaria_consulta [OF t p(4) v3(1) p(2) dc(1) cols(2) dc(2)] v3(2) by simp_all
  then have "MetadataID \<in> set cols" using cols(1) by simp
  moreover have "vi_tabela vi s' = vi_tabela vi s2" using ok m(4) unfolding temporaria_ok_def by simp
  moreover have "ins = min n (int (length (novas rs (le data))))" using p(5) q(4) by (simp add: Let_def min_def)
  ultimately show ?thesis using q(3) p(6) by auto
qed

lemma dedup_efetiva:
  "lo_dedup cfg \<noteq> DedupMerge \<Longrightarrow> dedup_efetiva cfg existed \<noteq> DedupMerge"
  "lo_dedup cfg = DedupMerge \<Longrightarrow> dedup_efetiva cfg True = DedupMerge"
  "lo_create_table cfg \<Longrightarrow> dedup_efetiva cfg False \<noteq> DedupMerge"
  by (simp_all add: dedup_efetiva_def vazio_para_def DedupNone_def DedupMerge_def)

lemma Load_passos:
  assumes "tabela_ok nv vi" and "envs \<noteq> []" and "Load nv cfg envs s = ((r, None), s')"
  obtains data existed s1 s2 r0 r1 where
    "encodeRows nv 0 envs = Inr data" "prepareTable nv cfg (provenanceOf (nv_relido nv) envs) s = (Inr existed, s1)"
    "escrever_lote nv cfg (dedup_efetiva cfg existed) data (int (length envs)) r0 s1 = ((r1, None), s2)"
    "vi_tabela vi s' = vi_tabela vi s2" "lr_rows r = lr_rows r1" "lr_ignored r = lr_ignored r1" "lr_ignored r0 = 0"
proof -
  have c: "CheckColumns (nv_relido nv) (lo_columns cfg) (map ev_payload envs) = None"
    using assms(2,3) by (auto simp: Load_def Let_def split: option.splits)
  obtain data where data: "encodeRows nv 0 envs = Inr data"
    using assms(2,3) c by (auto simp: Load_def Let_def split: sum.splits)
  obtain existed s1 where p: "prepareTable nv cfg (provenanceOf (nv_relido nv) envs) s = (Inr existed, s1)"
    using assms(2,3) c data by (auto simp: Load_def Let_def split: sum.splits prod.splits)
  obtain r0 where l: "concluir_carga nv cfg envs data existed r0 s1 = ((r, None), s')" and r0: "lr_ignored r0 = 0"
    using assms(2,3) c data p by (auto simp: Load_def Let_def split: option.splits)
  let ?r = "r0\<lparr>lr_dedup := dedup_efetiva cfg existed\<rparr>"
  obtain r1 x s2 where e: "escrever_lote nv cfg (dedup_efetiva cfg existed) data (int (length envs)) ?r s1 = ((r1, x), s2)"
    by (cases "escrever_lote nv cfg (dedup_efetiva cfg existed) data (int (length envs)) ?r s1") auto
  have x: "x = None" using l e by (cases x) (auto simp: concluir_carga_def)
  have d: "vi_tabela vi (describeTable nv cfg prov s2) = vi_tabela vi s2" for prov
    using assms(1) by (auto simp: describeTable_def tabela_ok_def split: metadata_bq.splits)
  have "vi_tabela vi s' = vi_tabela vi s2" "lr_rows r = lr_rows r1" "lr_ignored r = lr_ignored r1"
    using l e x d by (auto simp: concluir_carga_def split: if_splits)
  then show thesis using that [OF data p, of ?r r1 s2] e x r0 by simp
qed

lemma Load_acrescenta_linhas:
  assumes "nuvem_ok nv vi le" and "lo_dedup cfg \<noteq> DedupMerge" and "envs \<noteq> []" and "Load nv cfg envs s = ((r, None), s')"
  shows "\<exists>data s1 cs rs. encodeRows nv 0 envs = Inr data \<and> vi_tabela vi s1 = Some (cs, rs) \<and> (vi_tabela vi s \<noteq> None \<longrightarrow> s1 = s) \<and>
      vi_tabela vi s' = Some (cs, rs @ le data) \<and> lr_rows r = int (length envs) \<and> lr_ignored r = 0"
proof -
  have t: "tabela_ok nv vi" and c: "cargas_ok nv vi le" using assms(1) by (simp_all add: nuvem_ok_def)
  obtain data existed s1 s2 r0 r1 where p: "encodeRows nv 0 envs = Inr data"
      "prepareTable nv cfg (provenanceOf (nv_relido nv) envs) s = (Inr existed, s1)"
      "escrever_lote nv cfg (dedup_efetiva cfg existed) data (int (length envs)) r0 s1 = ((r1, None), s2)"
      "vi_tabela vi s' = vi_tabela vi s2" "lr_rows r = lr_rows r1" "lr_ignored r = lr_ignored r1" "lr_ignored r0 = 0"
    by (rule Load_passos [OF t assms(3,4)])
  obtain cs rs where v: "vi_tabela vi s1 = Some (cs, rs)" "existed \<longrightarrow> s1 = s" "\<not> existed \<longrightarrow> vi_tabela vi s = None"
    using prepareTable_ok [OF t p(2)] by blast
  from escrever_simples [OF c dedup_efetiva(1) [OF assms(2)] v(1) p(3)] show ?thesis using p v by (intro exI [of _ data] exI [of _ s1] exI [of _ cs] exI [of _ rs]) auto
qed

text \<open>
  Without a merge a load that reports success has appended its rows to the table and nothing else,
  counts them all, and it makes no difference whether the batch went inline or through the object storage.
\<close>

theorem Load_acrescenta:
  assumes "nuvem_ok nv vi le" and "lo_dedup cfg \<noteq> DedupMerge" and "envs \<noteq> []" and "Load nv cfg envs s = ((r, None), s')"
  shows "\<exists>data s1 cs rs. encodeRows nv 0 envs = Inr data \<and> vi_tabela vi s1 = Some (cs, rs) \<and> (vi_tabela vi s \<noteq> None \<longrightarrow> s1 = s) \<and>
      vi_tabela vi s' = Some (cs, rs @ le data) \<and> lr_rows r = int (length envs) \<and> lr_ignored r = 0"
  by (rule Load_acrescenta_linhas [OF assms])

lemma novas_vazia: "novas rs ts = [] \<longleftrightarrow> (\<forall>t \<in> set ts. \<exists>r \<in> set rs. casa_id r t)"
  by (auto simp: novas_def filter_empty_conv list_ex_iff)

lemma map_of_colunas: "map_of (filter (\<lambda>(k, _). k \<in> C) t) k = (if k \<in> C then map_of t k else None)"
  by (induction t) auto

lemma mescla_contem:
  assumes "MetadataID \<in> set cols" and "t \<in> set ts" and "map_of t MetadataID = Some v" and "v \<noteq> QNil"
  shows "\<exists>r \<in> set (mescla cols rs ts). casa_id r t"
proof (cases "\<exists>r \<in> set rs. casa_id r t")
  case True
  then show ?thesis by (auto simp: mescla_def)
next
  case False
  let ?r = "filter (\<lambda>(k, _). k \<in> set cols) t"
  have "t \<in> set (novas rs ts)" using False assms(2) by (auto simp: novas_def list_ex_iff)
  then have "?r \<in> set (mescla cols rs ts)" by (simp add: mescla_def)
  moreover have "casa_id ?r t" using assms by (simp add: casa_id_def map_of_colunas)
  ultimately show ?thesis by blast
qed

lemma Load_grava_ids:
  assumes "nuvem_ok nv vi le" and "lo_dedup cfg = DedupMerge" and "envs \<noteq> []" and "encodeRows nv 0 envs = Inr data"
    and "\<forall>t \<in> set (le data). \<exists>v. map_of t MetadataID = Some v \<and> v \<noteq> QNil"
    and "Load nv cfg envs s = ((r, None), s')"
  shows "\<exists>cs rs. vi_tabela vi s' = Some (cs, rs) \<and> (\<forall>t \<in> set (le data). \<exists>r \<in> set rs. casa_id r t)"
proof -
  have t: "tabela_ok nv vi" and c: "cargas_ok nv vi le" using assms(1) by (simp_all add: nuvem_ok_def)
  obtain data' existed s1 s2 r0 r1 where p: "encodeRows nv 0 envs = Inr data'"
      "prepareTable nv cfg (provenanceOf (nv_relido nv) envs) s = (Inr existed, s1)"
      "escrever_lote nv cfg (dedup_efetiva cfg existed) data' (int (length envs)) r0 s1 = ((r1, None), s2)"
      "vi_tabela vi s' = vi_tabela vi s2"
    by (rule Load_passos [OF t assms(3,6)])
  have data: "data' = data" using p(1) assms(4) by simp
  obtain cs rs where v: "vi_tabela vi s1 = Some (cs, rs)" "\<not> existed \<longrightarrow> lo_create_table cfg"
    using prepareTable_ok [OF t p(2)] by blast
  show ?thesis
  proof (cases existed)
    case False
    then have e: "escrever_lote nv cfg (dedup_efetiva cfg False) data (int (length envs)) r0 s1 = ((r1, None), s2)" using p(3) data by simp
    have "vi_tabela vi s' = Some (cs, rs @ le data)"
      using escrever_simples [OF c dedup_efetiva(3) v(1) e] v(2) False p(4) by simp
    moreover have "\<forall>t \<in> set (le data). casa_id t t" using assms(5) by (auto simp: casa_id_def)
    ultimately show ?thesis by (intro exI [of _ cs] exI [of _ "rs @ le data"]) auto
  next
    case True
    then obtain ins ign errs where m: "loadWithMerge nv cfg data (int (length envs)) s1 = ((ins, ign, errs, None), s2)"
      using p(3) data dedup_efetiva(2) [OF assms(2)] by (auto simp: escrever_lote_def Let_def split: prod.splits if_splits)
    then obtain cols where "MetadataID \<in> set cols" "vi_tabela vi s2 = Some (cs, mescla cols rs (le data))"
      using loadWithMerge_ok [OF assms(1) v(1)] by blast
    then show ?thesis using mescla_contem assms(5) p(4) by (metis (no_types, lifting))
  qed
qed


section \<open>A warehouse\<close>

text \<open>One destination with the column of the identifier; a text of rows has one identifier per line, empty for none.\<close>

type_synonym armazem = "registro list option \<times> registro list"

definition linha_de :: "string \<Rightarrow> registro" where
  "linha_de t = (if t = [] then [] else [(MetadataID, QText t)])"

definition le_de :: "string \<Rightarrow> registro list" where
  "le_de d = map linha_de (butlast (split_on (CHR 0x0A) d))"

definition esquema_id :: "campo_bq list" where
  "esquema_id = [(MetadataID, ''STRING'', True)]"

definition nuvem_de_exemplo :: "armazem nuvem" where
  "nuvem_de_exemplo =
     \<lparr>nv_meta = (\<lambda>(tab, _). case tab of None \<Rightarrow> MetaAusente | Some _ \<Rightarrow> MetaOk \<lparr>tq_schema = esquema_id, tq_description = [], tq_labels = []\<rparr>),
      nv_cria = (\<lambda>t (tab, tmp). if tab = None \<and> map fst (tq_schema t) = [MetadataID] then (None, (Some [], tmp)) else (Some ''invalid'', (tab, tmp))),
      nv_sql = (\<lambda>_ s. (Some ''invalid'', s)),
      nv_descreve = (\<lambda>_ _ s. s),
      nv_carrega = (\<lambda>_ d (tab, tmp). case tab of None \<Rightarrow> (Some (''notFound'', []), (tab, tmp)) | Some rs \<Rightarrow> (None, (Some (rs @ le_de d), tmp))),
      nv_carrega_de = (\<lambda>_ _ s. (Some (''notFound'', []), s)),
      nv_poe = (\<lambda>_ _ s. (Some ''notFound'', s)),
      nv_apaga = (\<lambda>_ s. (None, s)),
      nv_temp_cria = (\<lambda>_ (tab, _). (None, (tab, []))),
      nv_temp_carrega = (\<lambda>d (tab, tmp). (None, (tab, tmp @ le_de d))),
      nv_temp_meta = (\<lambda>_. Inr esquema_id),
      nv_temp_apaga = (\<lambda>s. s),
      nv_consulta = (\<lambda>_ (tab, tmp). case tab of None \<Rightarrow> (Inl (''notFound'', []), (tab, tmp))
         | Some rs \<Rightarrow> (Inr (Some (length (novas rs tmp))), (Some (mescla [MetadataID] rs tmp), tmp))),
      nv_temp_nome = (\<lambda>_. ''_brevis_merge_1''), nv_objeto = (\<lambda>_. ''1''), nv_hoje = ''2026-01-01'', nv_lower = map to_lower,
      nv_codifica = (\<lambda>v. case v of QMap m \<Rightarrow> Inr (case map_of m MetadataID of Some (QText t) \<Rightarrow> t | _ \<Rightarrow> []) | _ \<Rightarrow> Inl []),
      nv_e_objeto = (\<lambda>_. True), nv_relido = (\<lambda>_. None)\<rparr>"

definition visao_de_exemplo :: "armazem visao" where
  "visao_de_exemplo = \<lparr>vi_tabela = (\<lambda>(tab, _). map_option (\<lambda>rs. ([MetadataID], rs)) tab), vi_temp = snd\<rparr>"

lemma so_o_id: "distinct cols \<Longrightarrow> cols \<noteq> [] \<Longrightarrow> set cols \<subseteq> {k} \<Longrightarrow> cols = [k]"
  by (cases cols) (auto simp: subset_singleton_iff)

lemma nuvem_de_exemplo_ok: "nuvem_ok nuvem_de_exemplo visao_de_exemplo le_de"
proof -
  have "tabela_ok nuvem_de_exemplo visao_de_exemplo"
    unfolding tabela_ok_def
    by (auto simp: nuvem_de_exemplo_def visao_de_exemplo_def esquema_id_def split: option.splits if_splits prod.splits)
  moreover have "cargas_ok nuvem_de_exemplo visao_de_exemplo le_de"
    unfolding cargas_ok_def
    by (auto simp: nuvem_de_exemplo_def visao_de_exemplo_def split: option.splits prod.splits)
  moreover have "temporaria_ok nuvem_de_exemplo visao_de_exemplo le_de"
    unfolding temporaria_ok_def
    by (auto simp: nuvem_de_exemplo_def visao_de_exemplo_def esquema_id_def dest!: so_o_id split: option.splits prod.splits)
  ultimately show ?thesis by (simp add: nuvem_ok_def)
qed

definition cfg_de_exemplo :: "string \<Rightarrow> load_config" where
  "cfg_de_exemplo dedup =
     \<lparr>lo_project = ''p'', lo_dataset = ''d'', lo_table = ''t'', lo_staging_bucket = ''b'', lo_staging_prefix = ''extracts/'', lo_threshold = 5000,
      lo_format = ''ndjson'', lo_keep = False, lo_dedup = dedup, lo_create_table = True, lo_create_sql = [], lo_expiration = 0,
      lo_require_filter = False, lo_columns = [], lo_schema = [\<lparr>cd_name = MetadataID, cd_type = ''string'', cd_required = True\<rparr>],
      lo_partition_by = [], lo_cluster_by = []\<rparr>"

definition registro_de :: "string \<Rightarrow> envelope" where
  "registro_de t = \<lparr>ev_provider = [], ev_entity = [], ev_source_key = [], ev_record_ts = [], ev_payload = QMap (linha_de t)\<rparr>"

lemma exemplo_cargas:
  "Load nuvem_de_exemplo (cfg_de_exemplo DedupMerge) [registro_de ''a''] (None, []) =
     ((\<lparr>lr_rows = 1, lr_bytes = 2, lr_strategy = ''inline'', lr_format = ''ndjson'', lr_dedup = DedupNone, lr_ignored = 0, lr_created = True,
       lr_errors = [], lr_objects = []\<rparr>, None), (Some [linha_de ''a''], []))"
  "snd (fst (Load nuvem_de_exemplo (cfg_de_exemplo DedupMerge) [registro_de ''a''] (Some [linha_de ''a''], []))) = None"
  "snd (fst (Load nuvem_de_exemplo (cfg_de_exemplo DedupNone) [registro_de ''a''] (Some [], []))) = None"
  "encodeRows nuvem_de_exemplo 0 [registro_de ''a''] = Inr (''a'' @ [CHR 0x0A])"
  "le_de (''a'' @ [CHR 0x0A]) = [[(MetadataID, QText ''a'')]]"
  by code_simp+

lemma Load_acrescenta_witness:
  "\<exists>r s. Load nuvem_de_exemplo (cfg_de_exemplo DedupNone) [registro_de ''a''] (Some [], []) = ((r, None), s) \<and> lr_rows r = 1"
proof -
  obtain r s where l: "Load nuvem_de_exemplo (cfg_de_exemplo DedupNone) [registro_de ''a''] (Some [], []) = ((r, None), s)"
    using exemplo_cargas(3) by (metis prod.collapse)
  have d: "lo_dedup (cfg_de_exemplo DedupNone) \<noteq> DedupMerge" by (simp add: cfg_de_exemplo_def DedupNone_def DedupMerge_def)
  show ?thesis using l Load_acrescenta [OF nuvem_de_exemplo_ok d _ l] by auto
qed


section \<open>Where the merge does not help\<close>

text \<open>
  The merge only compares with what the table had: two rows of one batch with the same identifier are
  both written; and without declared columns nothing checks that there is an identifier, so rows without
  one are written again by every load.
\<close>

theorem Load_duplica:
  "snd (Load nuvem_de_exemplo (cfg_de_exemplo DedupMerge) [registro_de ''a'', registro_de ''a''] (Some [], [])) =
     (Some [linha_de ''a'', linha_de ''a''], [linha_de ''a'', linha_de ''a''])"
  "fst (snd (Load nuvem_de_exemplo (cfg_de_exemplo DedupMerge) [registro_de []] (Some [[]], []))) = Some [[], []]"
  by code_simp+

section \<open>The table that is created\<close>

lemma bigquerySchema_ok:
  assumes "\<forall>c \<in> set sch. cd_type c \<in> set tipos_de_coluna"
  shows "\<exists>fs. bigquerySchema sch = Inr fs \<and> map fst fs = Names sch \<and>
    (\<forall>f \<in> set fs. fst (snd f) \<in> snd ` set tipos_bq \<and> (\<forall>own. map_of metadataSchema (fst f) = Some own \<longrightarrow> f = own))"
  using assms
proof (induction sch)
  case (Cons c cs)
  then obtain fs where fs: "bigquerySchema cs = Inr fs" "map fst fs = Names cs"
      "\<forall>f \<in> set fs. fst (snd f) \<in> snd ` set tipos_bq \<and> (\<forall>own. map_of metadataSchema (fst f) = Some own \<longrightarrow> f = own)" by auto
  show ?case
  proof (cases "map_of metadataSchema (cd_name c)")
    case (Some own)
    then have "fst own = cd_name c \<and> fst (snd own) \<in> snd ` set tipos_bq"
      by (auto simp: metadataSchema_def tipos_bq_def split: if_splits)
    then show ?thesis using fs Some by (simp add: Names_def)
  next
    case None
    have "cd_type c \<in> set (map fst tipos_bq)" using Cons.prems by (simp add: tipos_bq_def tipos_de_coluna_def)
    then obtain t where t: "map_of tipos_bq (cd_type c) = Some t" by (metis map_of_eq_None_iff not_Some_eq set_map)
    then have "t \<in> snd ` set tipos_bq" by (force dest: map_of_SomeD)
    then show ?thesis using fs None t by (simp add: Names_def)
  qed
qed (simp add: Names_def)



text \<open>
  An accepted configuration can create a table that BigQuery refuses: without \<open>PartitionBy\<close> the table
  is partitioned on \<open>ingestion_loaded_at\<close> whether or not the schema has it; and a schema without the two
  columns of the kit makes the load infer the types of a table that was just created.
\<close>

theorem schema_sem_colunas_do_kit:
  "resolveConfig (cfg_de_exemplo DedupNone) [Some (WithSchema [\<lparr>cd_name = ''valor'', cd_type = ''float64'', cd_required = False\<rparr>])] = Inr c \<Longrightarrow>
     bigquerySchema (lo_schema c) = Inr fs \<Longrightarrow>
     tn_particao (typedTable lower hoje c fs prov) \<notin> set (map fst fs) \<and> ly_autodetect (applyLayout c)"
  by (auto simp: resolveConfig_def aplicar_opcoes_def WithSchema_def cfg_de_exemplo_def padroes_da_carga_def recusas_def Let_def vazio_para_def
      sourceFormat_def DedupNone_def DedupMerge_def Names_def metadataSchema_def tipos_bq_def MetadataID_def MetadataLoadedAt_def
      typedTable_def particaoDe_def applyLayout_def typesAnything_def declares_def split: if_splits)

lemma schema_sem_colunas_do_kit_witness:
  "\<exists>c. resolveConfig (cfg_de_exemplo DedupNone) [Some (WithSchema [\<lparr>cd_name = ''valor'', cd_type = ''float64'', cd_required = False\<rparr>])] = Inr c \<and>
     ly_autodetect (applyLayout c)"
proof -
  let ?r = "resolveConfig (cfg_de_exemplo DedupNone) [Some (WithSchema [\<lparr>cd_name = ''valor'', cd_type = ''float64'', cd_required = False\<rparr>])]"
  obtain c where c: "?r = Inr c"
    by (simp add: resolveConfig_def aplicar_opcoes_def WithSchema_def cfg_de_exemplo_def padroes_da_carga_def recusas_def Let_def vazio_para_def
      sourceFormat_def DedupNone_def DedupMerge_def)
  then have "lo_schema c = [\<lparr>cd_name = ''valor'', cd_type = ''float64'', cd_required = False\<rparr>]"
    by (auto simp: resolveConfig_def aplicar_opcoes_def WithSchema_def cfg_de_exemplo_def padroes_da_carga_def recusas_def Let_def split: if_splits option.splits)
  then obtain fs where fs: "bigquerySchema (lo_schema c) = Inr fs"
    by (simp add: metadataSchema_def tipos_bq_def MetadataID_def MetadataLoadedAt_def)
  show ?thesis using c schema_sem_colunas_do_kit [OF c fs] by blast
qed

section \<open>Labels and diagnostics\<close>

lemma sublinhar_permitido: "list_all permitido_no_rotulo (sublinhar dentro s)"
  by (induction dentro s rule: sublinhar.induct) (auto simp: permitido_no_rotulo_def)

lemma list_all_aparar: "list_all P s \<Longrightarrow> list_all P (aparar_de p s)"
  unfolding aparar_de_def by (metis list_all_rev list_all_iff set_dropWhileD)

text \<open>A label of a table is empty or one that BigQuery takes, whatever the source is called; and at most eleven diagnostics are kept of a failed job.\<close>

theorem sanitiseLabel_valida:
  "(sanitiseLabel lower v = [] \<or>
     length (sanitiseLabel lower v) \<le> 63 \<and> minuscula (hd (sanitiseLabel lower v)) \<and> list_all permitido_no_rotulo (sanitiseLabel lower v)) \<and>
   length (rowErrors errs) \<le> 11"
proof
  let ?t = "aparar_de (\<lambda>c. c = CHR ''_'' \<or> c = CHR ''-'') (sublinhar False (lower v))"
  have "list_all permitido_no_rotulo ?t" by (rule list_all_aparar [OF sublinhar_permitido])
  then have "list_all permitido_no_rotulo (take 63 ?t)" by (metis append_take_drop_id list_all_append)
  with \<open>list_all permitido_no_rotulo ?t\<close>
  show "sanitiseLabel lower v = [] \<or>
     length (sanitiseLabel lower v) \<le> 63 \<and> minuscula (hd (sanitiseLabel lower v)) \<and> list_all permitido_no_rotulo (sanitiseLabel lower v)"
    unfolding sanitiseLabel_def Let_def by simp
  have "length (List.map_filter f xs) \<le> length xs" for f :: "(string \<times> string) option \<Rightarrow> string option" and xs
    by (induction xs) (auto simp: List.map_filter_simps split: option.split)
  then have "length (List.map_filter f (take 10 errs)) \<le> 10" for f :: "(string \<times> string) option \<Rightarrow> string option"
    by (rule order_trans) simp
  moreover have "length (if P then [x] else []) \<le> 1" for P and x :: string by simp
  ultimately have "length (rowErrors errs) \<le> 10 + 1"
    unfolding rowErrors_def maxReportedErrors_def length_append by (intro add_mono)
  then show "length (rowErrors errs) \<le> 11" by simp
qed

end
