(* ===== verification/Contexto.thy ===== *)
theory Contexto
  imports Runner Carga
begin

text \<open>
  Between the engine and the kit: the run context the engine puts in the environment of a step
  (\<open>internal/application/execution/runner.go\<close>, modelled in \<open>Runner\<close>) as the kit reads it back
  (\<open>sdk/internal/core/runcontext.go\<close>), how a setting is resolved (\<open>sdk/internal/core/config.go\<close>), and the
  configuration of the BigQuery destination (\<open>sdk/to/bigquery/bigquery.go\<close>). Parsing a date and decoding
  JSON are arguments; the environment of the process is a map.
\<close>

section \<open>The context of a run\<close>

record run_context =
  ctx_id :: string
  ctx_first :: bool
  ctx_attempt :: int
  ctx_trigger :: string
  ctx_logical :: time
  ctx_params :: "string gomap"

text \<open>\<open>os.Getenv\<close>, which finds nothing under the empty name.\<close>

definition Getenv :: "string gomap \<Rightarrow> string \<Rightarrow> string" where
  "Getenv amb k = (if k = [] then [] else case map_of amb k of None \<Rightarrow> [] | Some v \<Rightarrow> v)"

text \<open>\<open>data\<close> is \<open>time.Parse\<close> with RFC 3339, \<open>json\<close> the decoder into a map of strings.\<close>

definition RunContextFromEnv :: "(string \<Rightarrow> time option) \<Rightarrow> (string \<Rightarrow> string gomap option) \<Rightarrow> string gomap \<Rightarrow> run_context" where
  "RunContextFromEnv data json amb =
     (let rc = \<lparr>ctx_id = Getenv amb ''BREVIS_RUN_ID'', ctx_first = (Getenv amb ''BREVIS_RUN_FIRST'' = ''true''), ctx_attempt = 0,
                ctx_trigger = Getenv amb ''BREVIS_RUN_TRIGGER'', ctx_logical = tempo_zero, ctx_params = []\<rparr>;
          v = Getenv amb ''BREVIS_RUN_ATTEMPT'';
          rc = (if v = [] then rc else case atoi v of None \<Rightarrow> rc | Some n \<Rightarrow> rc\<lparr>ctx_attempt := n\<rparr>);
          v = Getenv amb ''BREVIS_RUN_LOGICAL_DATE'';
          rc = (if v = [] then rc else case data v of None \<Rightarrow> rc | Some t \<Rightarrow> rc\<lparr>ctx_logical := t\<rparr>);
          v = Getenv amb ''BREVIS_RUN_PARAMS'' in
      if v = [] then rc else case json v of None \<Rightarrow> rc | Some ps \<Rightarrow> rc\<lparr>ctx_params := ps\<rparr>)"

definition FromEngine :: "run_context \<Rightarrow> bool" where
  "FromEngine rc \<longleftrightarrow> ctx_id rc \<noteq> []"

section \<open>Settings\<close>

record origin =
  og_value :: string
  og_where :: string

definition Resolve :: "string gomap \<Rightarrow> string \<Rightarrow> string \<Rightarrow> string \<Rightarrow> origin" where
  "Resolve amb explicit envVar fallback =
     (if explicit \<noteq> [] then \<lparr>og_value = explicit, og_where = ''explicit''\<rparr>
      else if Getenv amb envVar \<noteq> [] then \<lparr>og_value = Getenv amb envVar, og_where = envVar\<rparr>
      else \<lparr>og_value = fallback, og_where = ''default''\<rparr>)"

definition EnvInt :: "string gomap \<Rightarrow> string \<Rightarrow> int \<Rightarrow> int" where
  "EnvInt amb key fallback = (case atoi (Getenv amb key) of None \<Rightarrow> fallback | Some n \<Rightarrow> n)"

section \<open>The BigQuery destination\<close>

record bq_table =
  bt_project :: string
  bt_dataset :: string
  bt_name :: string
  bt_staging_bucket :: string
  bt_inline_limit :: int
  bt_create_table :: "bool option"
  bt_create_sql :: string
  bt_cluster_by :: "string list"
  bt_expiration :: int
  bt_require_filter :: bool
  bt_staging_prefix :: string
  bt_keep :: bool

record write_options =
  wo_columns :: "string list"
  wo_schema :: schema
  wo_partition_by :: string
  wo_dedup :: string
  wo_run :: run_context

definition resolveCreate :: "bq_table \<Rightarrow> run_context \<Rightarrow> bool \<times> origin" where
  "resolveCreate b run =
     (case bt_create_table b of
        Some c \<Rightarrow> (c, \<lparr>og_value = (if c then ''true'' else ''false''), og_where = ''explicit''\<rparr>)
      | None \<Rightarrow>
          if ctx_first run then (True, \<lparr>og_value = ''true'', og_where = ''the engine: first run of this step''\<rparr>)
          else if Getenv (ctx_params run) ''create_table'' = ''true''
            then (True, \<lparr>og_value = ''true'', og_where = ''the engine: create_table=true''\<rparr>)
          else (False, \<lparr>og_value = ''false'', og_where = ''default''\<rparr>))"

datatype erro_bq = ProjetoAusente | NomeAusente

definition config :: "string gomap \<Rightarrow> bq_table \<Rightarrow> write_options \<Rightarrow> erro_bq + load_config" where
  "config amb b opt =
     (let project = og_value (Resolve amb (bt_project b) ''GOOGLE_PROJECT_ID'' []);
          tabela = og_value (Resolve amb (bt_name b) [] []) in
      if project = [] then Inl ProjetoAusente
      else if tabela = [] then Inl NomeAusente
      else Inr \<lparr>lo_project = project, lo_dataset = og_value (Resolve amb (bt_dataset b) ''BREVIS_SDK_DATASET'' ''landing''), lo_table = tabela,
                lo_staging_bucket = og_value (Resolve amb (bt_staging_bucket b) ''BREVIS_SDK_STAGING_BUCKET'' (project @ ''-brevis-staging'')),
                lo_staging_prefix = bt_staging_prefix b,
                lo_threshold = (if bt_inline_limit b = 0 then EnvInt amb ''BREVIS_SDK_LIMITE_INLINE'' 5000 else bt_inline_limit b),
                lo_format = ''ndjson'', lo_keep = bt_keep b, lo_dedup = wo_dedup opt, lo_create_table = fst (resolveCreate b (wo_run opt)),
                lo_create_sql = bt_create_sql b, lo_expiration = bt_expiration b, lo_require_filter = bt_require_filter b,
                lo_columns = wo_columns opt, lo_schema = wo_schema opt, lo_partition_by = wo_partition_by opt, lo_cluster_by = bt_cluster_by b\<rparr>)"

section \<open>What the engine says is what the kit reads\<close>

definition nomes_do_contexto :: "string list" where
  "nomes_do_contexto = [''BREVIS_RUN_ID'', ''BREVIS_RUN_FIRST'', ''BREVIS_RUN_ATTEMPT'', ''BREVIS_RUN_TRIGGER'', ''BREVIS_RUN_LOGICAL_DATE'', ''BREVIS_RUN_PARAMS'']"

text \<open>
  What the two ends rely on, for the values of one run: the texts of its identifier, slot and parameters
  are not empty, and the last two are read back (a slot has no fraction of a second).
\<close>

definition textos_ok :: "'s ambiente \<Rightarrow> (string \<Rightarrow> time option) \<Rightarrow> (string \<Rightarrow> string gomap option) \<Rightarrow> 's runner \<Rightarrow> bool" where
  "textos_ok am data json r \<longleftrightarrow>
     am_uuid am (rn_run r) \<noteq> [] \<and>
     (\<forall>d. rn_logical r = Some d \<longrightarrow> am_rfc am d \<noteq> [] \<and> data (am_rfc am d) = Some d) \<and>
     am_json am (rn_params r) \<noteq> [] \<and> (\<exists>ps. json (am_json am (rn_params r)) = Some ps \<and> map_of ps = map_of (rn_params r))"

lemma Getenv_tarefa:
  assumes "map_of env = map_of c ++ map_of a ++ map_of b ++ map_of d" and "map_of a k = None" and "map_of b k = None" and "map_of d k = None"
  shows "Getenv env k = Getenv c k"
  unfolding Getenv_def assms(1) using assms(2-4) by (simp add: map_add_def)

lemma Getenv_contexto:
  "rn_run r \<noteq> 0 \<Longrightarrow> Getenv (contextoDoRun am r nid p k) ''BREVIS_RUN_ID'' = am_uuid am (rn_run r)"
  "rn_run r \<noteq> 0 \<Longrightarrow> Getenv (contextoDoRun am r nid p k) ''BREVIS_RUN_FIRST'' = (if p then ''true'' else ''false'')"
  "rn_run r \<noteq> 0 \<Longrightarrow> Getenv (contextoDoRun am r nid p k) ''BREVIS_RUN_ATTEMPT'' = show_int k"
  "Getenv (contextoDoRun am r nid p k) ''BREVIS_RUN_TRIGGER'' = rn_trigger r"
  "Getenv (contextoDoRun am r nid p k) ''BREVIS_RUN_LOGICAL_DATE'' = (case rn_logical r of None \<Rightarrow> [] | Some d \<Rightarrow> am_rfc am d)"
  "Getenv (contextoDoRun am r nid p k) ''BREVIS_RUN_PARAMS'' = (if rn_params r = [] then [] else am_json am (rn_params r))"
  unfolding contextoDoRun_def Let_def Getenv_def by (simp_all split: option.split)

text \<open>
  C18: a step of a managed run reads the context the engine decided: the identifier of the run, whether
  it is the first execution, the attempt, the trigger, the slot and the parameters, when no
  environment of the engine, of the workflow or of the step uses those names.
\<close>

theorem contexto_ida_e_volta:
  assumes "montar am r w n k p s = (Inr (exec, t), s')" and "mapa_ok (rn_env r)" and "mapa_ok (wf_env w)" and "mapa_ok (nd_env n)"
    and "textos_ok am data json r" and "rn_run r \<noteq> 0" and "- (2 ^ 63) \<le> k" and "k < 2 ^ 63"
    and "\<forall>v \<in> set nomes_do_contexto. map_of (rn_env r) v = None \<and> map_of (wf_env w) v = None \<and> map_of (nd_env n) v = None"
  shows "\<exists>ps. map_of ps = map_of (rn_params r) \<and> RunContextFromEnv data json (te_env t) =
      \<lparr>ctx_id = am_uuid am (rn_run r), ctx_first = p, ctx_attempt = k, ctx_trigger = rn_trigger r,
       ctx_logical = (case rn_logical r of None \<Rightarrow> tempo_zero | Some d \<Rightarrow> d), ctx_params = ps\<rparr> \<and>
     FromEngine (RunContextFromEnv data json (te_env t))"
proof -
  let ?c = "contextoDoRun am r (nd_id n) p k"
  have e: "map_of (te_env t) = map_of ?c ++ map_of (rn_env r) ++ map_of (wf_env w) ++ map_of (nd_env n)"
    by (rule ambiente_do_passo [OF assms(1-4)])
  have g: "Getenv (te_env t) v = Getenv ?c v" if "v \<in> set nomes_do_contexto" for v
    using Getenv_tarefa [OF e] assms(9) that by blast
  have gs: "Getenv (te_env t) ''BREVIS_RUN_ID'' = am_uuid am (rn_run r)"
      "Getenv (te_env t) ''BREVIS_RUN_FIRST'' = (if p then ''true'' else ''false'')"
      "Getenv (te_env t) ''BREVIS_RUN_ATTEMPT'' = show_int k" "Getenv (te_env t) ''BREVIS_RUN_TRIGGER'' = rn_trigger r"
      "Getenv (te_env t) ''BREVIS_RUN_LOGICAL_DATE'' = (case rn_logical r of None \<Rightarrow> [] | Some d \<Rightarrow> am_rfc am d)"
      "Getenv (te_env t) ''BREVIS_RUN_PARAMS'' = (if rn_params r = [] then [] else am_json am (rn_params r))"
    using g [unfolded nomes_do_contexto_def] Getenv_contexto [where am = am and r = r and nid = "nd_id n" and p = p and k = k] assms(6) by simp_all
  have "show_int k \<noteq> []" by (simp add: show_int_def)
  moreover have "atoi (show_int k) = Some k" using assms(7,8) by (rule atoi_show_int)
  moreover obtain ps where ps: "json (am_json am (rn_params r)) = Some ps" "map_of ps = map_of (rn_params r)"
    using assms(5) unfolding textos_ok_def by blast
  moreover have "am_uuid am (rn_run r) \<noteq> []" "am_json am (rn_params r) \<noteq> []"
      "\<And>d. rn_logical r = Some d \<Longrightarrow> am_rfc am d \<noteq> [] \<and> data (am_rfc am d) = Some d"
    using assms(5) unfolding textos_ok_def by blast+
  ultimately have "RunContextFromEnv data json (te_env t) =
      \<lparr>ctx_id = am_uuid am (rn_run r), ctx_first = p, ctx_attempt = k, ctx_trigger = rn_trigger r,
       ctx_logical = (case rn_logical r of None \<Rightarrow> tempo_zero | Some d \<Rightarrow> d),
       ctx_params = (if rn_params r = [] then [] else ps)\<rparr> \<and> am_uuid am (rn_run r) \<noteq> []"
    unfolding RunContextFromEnv_def gs Let_def by (simp split: option.split)
  then show ?thesis using ps(2) by (intro exI [of _ "if rn_params r = [] then [] else ps"]) (simp add: FromEngine_def)
qed

definition ambiente_escrito :: "nat ambiente" where
  "ambiente_escrito = ambiente_de_exemplo\<lparr>am_uuid := (\<lambda>_. ''u''), am_json := (\<lambda>_. ''{}''), am_rfc := (\<lambda>_. ''d'')\<rparr>"

lemma contexto_ida_e_volta_witness:
  "\<exists>t. montar ambiente_escrito (runner_de_exemplo []) workflow_vazio no_vazio 2 True estado_de_exemplo = (Inr (executor_de_exemplo [], t), estado_de_exemplo) \<and>
     ctx_attempt (RunContextFromEnv (\<lambda>_. None) (\<lambda>_. Some []) (te_env t)) = 2 \<and> ctx_first (RunContextFromEnv (\<lambda>_. None) (\<lambda>_. Some []) (te_env t))"
proof -
  let ?r = "runner_de_exemplo []"
  let ?t = "(tarefa_de ambiente_escrito ?r workflow_vazio no_vazio 2 True)\<lparr>te_command := []\<rparr>"
  have m: "montar ambiente_escrito ?r workflow_vazio no_vazio 2 True estado_de_exemplo = (Inr (executor_de_exemplo [], ?t), estado_de_exemplo)"
    by (rule montar_de_exemplo) (simp_all add: no_vazio_def ImagemDe_def workflow_vazio_def runner_de_exemplo_def)
  have "textos_ok ambiente_escrito (\<lambda>_. None) (\<lambda>_. Some []) ?r"
    by (simp add: textos_ok_def ambiente_escrito_def runner_de_exemplo_def)
  then have "\<exists>ps. map_of ps = map_of (rn_params ?r) \<and> RunContextFromEnv (\<lambda>_. None) (\<lambda>_. Some []) (te_env ?t) =
      \<lparr>ctx_id = am_uuid ambiente_escrito (rn_run ?r), ctx_first = True, ctx_attempt = 2, ctx_trigger = rn_trigger ?r,
       ctx_logical = (case rn_logical ?r of None \<Rightarrow> tempo_zero | Some d \<Rightarrow> d), ctx_params = ps\<rparr> \<and>
     FromEngine (RunContextFromEnv (\<lambda>_. None) (\<lambda>_. Some []) (te_env ?t))"
    by (intro contexto_ida_e_volta [OF m])
       (simp_all add: runner_de_exemplo_def workflow_vazio_def no_vazio_def mapa_ok_def)
  then show ?thesis using m by auto
qed

section \<open>The destination of a step\<close>

text \<open>
  The configuration of a BigQuery destination is the one it was given: it names a project, a data set
  and a table, the loader accepts its required fields, explicit settings win over the environment, and the
  table is created exactly when the target says so or, when it says nothing, on the first execution of the
  step or on request.
\<close>

theorem config_do_destino:
  assumes "config amb b opt = Inr c"
  shows "lo_project c \<noteq> [] \<and> lo_dataset c \<noteq> [] \<and> lo_table c = bt_name b \<and> bt_name b \<noteq> [] \<and>
      (bt_project b \<noteq> [] \<longrightarrow> lo_project c = bt_project b) \<and> (bt_dataset b \<noteq> [] \<longrightarrow> lo_dataset c = bt_dataset b) \<and>
      (lo_create_table c \<longleftrightarrow> (case bt_create_table b of Some x \<Rightarrow> x
         | None \<Rightarrow> ctx_first (wo_run opt) \<or> Getenv (ctx_params (wo_run opt)) ''create_table'' = ''true'')) \<and>
      (\<exists>r. resolveConfig c [] = r \<and> r \<notin> {Inl ProjetoObrigatorio, Inl DatasetObrigatorio, Inl TabelaObrigatoria} \<and>
        (\<forall>c'. r = Inr c' \<longrightarrow> lo_create_table c' = lo_create_table c \<and> lo_threshold c' \<noteq> 0 \<and> lo_staging_prefix c' \<noteq> []))"
proof -
  have cria: "fst (resolveCreate b (wo_run opt)) \<longleftrightarrow> (case bt_create_table b of Some x \<Rightarrow> x
         | None \<Rightarrow> ctx_first (wo_run opt) \<or> Getenv (ctx_params (wo_run opt)) ''create_table'' = ''true'')"
    by (simp add: resolveCreate_def split: option.split)
  have campos: "lo_project c = og_value (Resolve amb (bt_project b) ''GOOGLE_PROJECT_ID'' [])" "lo_project c \<noteq> []"
      "lo_dataset c = og_value (Resolve amb (bt_dataset b) ''BREVIS_SDK_DATASET'' ''landing'')"
      "lo_table c = bt_name b" "bt_name b \<noteq> []" "lo_create_table c \<longleftrightarrow> fst (resolveCreate b (wo_run opt))"
  proof -
    have n: "og_value (Resolve amb (bt_name b) [] []) = bt_name b" by (simp add: Resolve_def Getenv_def)
    have p: "og_value (Resolve amb (bt_project b) ''GOOGLE_PROJECT_ID'' []) \<noteq> []" and m: "bt_name b \<noteq> []"
      using assms unfolding config_def Let_def n by (metis sum.distinct(1))+
    show "lo_project c = og_value (Resolve amb (bt_project b) ''GOOGLE_PROJECT_ID'' [])" "lo_project c \<noteq> []"
      "lo_dataset c = og_value (Resolve amb (bt_dataset b) ''BREVIS_SDK_DATASET'' ''landing'')"
      "lo_table c = bt_name b" "bt_name b \<noteq> []" "lo_create_table c \<longleftrightarrow> fst (resolveCreate b (wo_run opt))"
      using assms p m unfolding config_def Let_def n by auto
  qed
  have d: "lo_dataset c \<noteq> []" "bt_project b \<noteq> [] \<longrightarrow> lo_project c = bt_project b" "bt_dataset b \<noteq> [] \<longrightarrow> lo_dataset c = bt_dataset b"
    unfolding campos(1,3) by (simp_all add: Resolve_def)
  have r: "resolveConfig c [] = (case recusas (padroes_da_carga c) of Some e \<Rightarrow> Inl e | None \<Rightarrow> Inr (padroes_da_carga c))"
    using campos d by (simp add: resolveConfig_def aplicar_opcoes_def Let_def)
  have nunca: "recusas c' \<noteq> Some ProjetoObrigatorio" "recusas c' \<noteq> Some DatasetObrigatorio" "recusas c' \<noteq> Some TabelaObrigatoria" for c'
    by (auto simp: recusas_def entao_def sourceFormat_def split: option.splits)
  have p: "lo_create_table (padroes_da_carga c) = lo_create_table c" "lo_threshold (padroes_da_carga c) \<noteq> 0" "lo_staging_prefix (padroes_da_carga c) \<noteq> []"
    by (simp_all add: padroes_da_carga_def vazio_para_def)
  have "resolveConfig c [] \<notin> {Inl ProjetoObrigatorio, Inl DatasetObrigatorio, Inl TabelaObrigatoria}"
    using nunca [of "padroes_da_carga c"] unfolding r by (cases "recusas (padroes_da_carga c)") auto
  moreover have "c' = padroes_da_carga c" if "resolveConfig c [] = Inr c'" for c'
    using that unfolding r by (cases "recusas (padroes_da_carga c)") auto
  ultimately show ?thesis using campos d p cria by (intro conjI exI [of _ "resolveConfig c []"]) auto
qed

definition bq_de_exemplo :: bq_table where
  "bq_de_exemplo =
     \<lparr>bt_project = ''p'', bt_dataset = [], bt_name = ''t'', bt_staging_bucket = [], bt_inline_limit = 0, bt_create_table = None, bt_create_sql = [],
      bt_cluster_by = [], bt_expiration = 0, bt_require_filter = False, bt_staging_prefix = [], bt_keep = False\<rparr>"

definition opcoes_de_exemplo :: "bool \<Rightarrow> write_options" where
  "opcoes_de_exemplo primeira =
     \<lparr>wo_columns = [], wo_schema = [\<lparr>cd_name = MetadataID, cd_type = ''string'', cd_required = True\<rparr>], wo_partition_by = [], wo_dedup = [],
      wo_run = \<lparr>ctx_id = ''u'', ctx_first = primeira, ctx_attempt = 0, ctx_trigger = [], ctx_logical = tempo_zero, ctx_params = []\<rparr>\<rparr>"

lemma config_do_destino_witness:
  "\<exists>c. config [] bq_de_exemplo (opcoes_de_exemplo True) = Inr c \<and> lo_create_table c \<and> lo_project c = ''p''"
proof -
  obtain c where c: "config [] bq_de_exemplo (opcoes_de_exemplo True) = Inr c"
    by (simp add: config_def Resolve_def bq_de_exemplo_def Let_def)
  then show ?thesis using config_do_destino [OF c] by (auto simp: bq_de_exemplo_def opcoes_de_exemplo_def)
qed

end
