(* ===== verification/Expansao.thy ===== *)
theory Expansao
  imports Registro
begin

text \<open>
  What a fetcher does with a response: \<open>sdk/expand.go\<close> (the helpers that slice a document into records and
  those that refuse a response) over \<open>sdk/internal/core/response.go\<close>. The JSON decoder is an argument.
\<close>

section \<open>Slicing a document\<close>

datatype erro_exp =
    ExpSemCampos
  | ExpNaoEObjeto qualquer
  | BlocoAusente string string
  | NoBloco string erro_exp
  | ExpCampoAusente string string string
  | CampoNaoEArray string qualquer
  | TamanhosDiferentes string nat nat
  | CaminhoRuim "string list" erro_exp
  | CaminhoAusente "string list" string string
  | CaminhoNaoEArray "string list" qualquer

definition asObject :: "qualquer \<Rightarrow> erro_exp + registro" where
  "asObject v = (case v of QMap obj \<Rightarrow> Inr obj | _ \<Rightarrow> Inl (ExpNaoEObjeto v))"

text \<open>The arrays of the fields and their common size; \<open>None\<close> is the size -1 before the first.\<close>

fun ler_colunas :: "string \<Rightarrow> registro \<Rightarrow> string list \<Rightarrow> nat option \<Rightarrow> qualquer list gomap \<Rightarrow> erro_exp + nat option \<times> qualquer list gomap" where
  "ler_colunas block src [] tam arrays = Inr (tam, arrays)"
| "ler_colunas block src (col # cs) tam arrays =
     (case map_of src col of
        None \<Rightarrow> Inl (ExpCampoAusente col block (availableKeys src))
      | Some v \<Rightarrow>
          (case v of
             QList arr \<Rightarrow>
               (case tam of
                  None \<Rightarrow> ler_colunas block src cs (Some (length arr)) (poe col arr arrays)
                | Some n \<Rightarrow> if length arr \<noteq> n then Inl (TamanhosDiferentes col (length arr) n)
                            else ler_colunas block src cs tam (poe col arr arrays))
           | _ \<Rightarrow> Inl (CampoNaoEArray col v)))"

definition aninhado :: "qualquer \<Rightarrow> bool" where
  "aninhado v \<longleftrightarrow> (case v of QMap _ \<Rightarrow> True | _ \<Rightarrow> False)"

definition comuns :: "string \<Rightarrow> registro \<Rightarrow> registro" where
  "comuns block doc = (if block = [] then [] else filter (\<lambda>(k, v). k \<noteq> block \<and> \<not> aninhado v) doc)"

definition registro_da_linha :: "registro \<Rightarrow> string list \<Rightarrow> qualquer list gomap \<Rightarrow> nat \<Rightarrow> registro" where
  "registro_da_linha common fs arrays i =
     fold (\<lambda>col r. case map_of arrays col of Some arr \<Rightarrow> poe col (arr ! i) r | None \<Rightarrow> r) fs common"

definition ParallelArrays :: "string \<Rightarrow> string list \<Rightarrow> qualquer \<Rightarrow> erro_exp + qualquer list" where
  "ParallelArrays block fs payload =
     (if fs = [] then Inl ExpSemCampos
      else (case asObject payload of
              Inl e \<Rightarrow> Inl e
            | Inr doc \<Rightarrow>
                (case (if block = [] then Inr doc
                       else case map_of doc block of
                              None \<Rightarrow> Inl (BlocoAusente block (availableKeys doc))
                            | Some b \<Rightarrow> (case asObject b of Inl e \<Rightarrow> Inl (NoBloco block e) | Inr src \<Rightarrow> Inr src)) of
                   Inl e \<Rightarrow> Inl e
                 | Inr src \<Rightarrow>
                     (case ler_colunas block src fs None [] of
                        Inl e \<Rightarrow> Inl e
                      | Inr (tam, arrays) \<Rightarrow>
                          Inr (map (\<lambda>i. QMap (registro_da_linha (comuns block doc) fs arrays i))
                                 [0..<(case tam of None \<Rightarrow> 0 | Some n \<Rightarrow> n)])))))"

fun caminhar :: "string list \<Rightarrow> string list \<Rightarrow> qualquer \<Rightarrow> erro_exp + qualquer" where
  "caminhar path [] v = Inr v"
| "caminhar path (p # ps) v =
     (case asObject v of
        Inl e \<Rightarrow> Inl (CaminhoRuim path e)
      | Inr obj \<Rightarrow> (case map_of obj p of None \<Rightarrow> Inl (CaminhoAusente path p (availableKeys obj)) | Some w \<Rightarrow> caminhar path ps w))"

definition ArrayAt :: "string list \<Rightarrow> qualquer \<Rightarrow> erro_exp + qualquer list" where
  "ArrayAt path payload =
     (case caminhar path path payload of
        Inl e \<Rightarrow> Inl e
      | Inr (QList arr) \<Rightarrow> Inr arr
      | Inr v \<Rightarrow> Inl (CaminhoNaoEArray path v))"

section \<open>The response\<close>

text \<open>
  \<open>json\<close> is the decoder into \<open>any\<close>, told whether numbers keep their literal. Decoding into a map takes an
  object, and leaves the map nil for \<open>null\<close>.
\<close>

record resposta =
  rs_status :: int
  rs_body :: string
  rs_preservar :: bool

type_synonym decodificador = "bool \<Rightarrow> string \<Rightarrow> string + qualquer"

datatype rejeicao =
    NaoEObjetoJSON int string
  | Marcada int string string
  | MarcadaSemMotivo int string qualquer
  | FaltaCampo int string string

definition Object :: "decodificador \<Rightarrow> resposta \<Rightarrow> rejeicao + registro" where
  "Object json r =
     (case json (rs_preservar r) (rs_body r) of
        Inl e \<Rightarrow> Inl (NaoEObjetoJSON (rs_status r) e)
      | Inr QNil \<Rightarrow> Inr []
      | Inr (QMap doc) \<Rightarrow> Inr doc
      | Inr _ \<Rightarrow> Inl (NaoEObjetoJSON (rs_status r) ''cannot unmarshal into map''))"

definition truthy :: "qualquer \<Rightarrow> bool" where
  "truthy v \<longleftrightarrow>
     (case v of
        QBool b \<Rightarrow> b
      | QText s \<Rightarrow> s \<noteq> [] \<and> s \<noteq> ''false'' \<and> s \<noteq> ''0''
      | QFloat f \<Rightarrow> f \<noteq> FFin 0 \<and> f \<noteq> FNegZero
      | QNil \<Rightarrow> False
      | _ \<Rightarrow> True)"

definition motivos :: "string list" where
  "motivos = [''reason'', ''message'', ''detail'', ''error_description'']"

definition motivo :: "registro \<Rightarrow> string option" where
  "motivo doc =
     (case List.map_filter (\<lambda>k. case map_of doc k of Some (QText m) \<Rightarrow> if m \<noteq> [] then Some m else None | _ \<Rightarrow> None) motivos of
        [] \<Rightarrow> None | m # _ \<Rightarrow> Some m)"

definition marcada :: "registro \<Rightarrow> string \<Rightarrow> (string \<times> qualquer) option" where
  "marcada doc c = (case map_of doc c of Some v \<Rightarrow> if truthy v then Some (c, v) else None | None \<Rightarrow> None)"

definition RejectIf :: "decodificador \<Rightarrow> string list \<Rightarrow> resposta \<Rightarrow> rejeicao option" where
  "RejectIf json fs r =
     (case Object json r of
        Inl e \<Rightarrow> Some e
      | Inr doc \<Rightarrow>
          (case List.map_filter (marcada doc) fs of
             [] \<Rightarrow> None
           | (c, v) # _ \<Rightarrow> Some (case motivo doc of Some m \<Rightarrow> Marcada (rs_status r) c m | None \<Rightarrow> MarcadaSemMotivo (rs_status r) c v)))"

definition RequireFields :: "decodificador \<Rightarrow> string list \<Rightarrow> resposta \<Rightarrow> rejeicao option" where
  "RequireFields json fs r =
     (case Object json r of
        Inl e \<Rightarrow> Some e
      | Inr doc \<Rightarrow>
          (case filter (\<lambda>c. map_of doc c = None) fs of
             [] \<Rightarrow> None | c # _ \<Rightarrow> Some (FaltaCampo (rs_status r) c (availableKeys doc))))"

section \<open>Parallel arrays and records\<close>

lemma ler_colunas_ok:
  assumes "ler_colunas b src cs tam arrays = Inr (tam', arrays')"
  shows "\<forall>c \<in> set cs. \<exists>arr. map_of src c = Some (QList arr) \<and> map_of arrays' c = Some arr \<and> tam' = Some (length arr)"
    and "\<forall>c. c \<notin> set cs \<longrightarrow> map_of arrays' c = map_of arrays c"
    and "tam = Some n \<Longrightarrow> tam' = Some n"
proof -
  have "(\<forall>c \<in> set cs. \<exists>arr. map_of src c = Some (QList arr) \<and> map_of arrays' c = Some arr \<and> tam' = Some (length arr)) \<and>
      (\<forall>c. c \<notin> set cs \<longrightarrow> map_of arrays' c = map_of arrays c) \<and> (\<forall>n. tam = Some n \<longrightarrow> tam' = Some n)"
    using assms
  proof (induction cs arbitrary: tam arrays)
    case (Cons c cs)
    obtain arr where arr: "map_of src c = Some (QList arr)"
      using Cons.prems by (auto split: option.splits qualquer.splits)
    have r: "ler_colunas b src cs (Some (length arr)) (poe c arr arrays) = Inr (tam', arrays')" "tam = None \<or> tam = Some (length arr)"
      using Cons.prems arr by (auto split: option.splits if_splits)
    note ih = Cons.IH [OF r(1)]
    have c: "map_of arrays' c = Some arr" if "c \<notin> set cs" using ih that by simp
    have n: "tam' = Some (length arr)" using ih by simp
    have "\<exists>a. map_of src c = Some (QList a) \<and> map_of arrays' c = Some a \<and> tam' = Some (length a)"
      using ih c n arr by (cases "c \<in> set cs") blast+
    moreover have "\<forall>d. d \<notin> set (c # cs) \<longrightarrow> map_of arrays' d = map_of arrays d" using ih by simp
    ultimately show ?case using ih n r(2) by (simp only: list.set ball_simps) auto
  qed simp
  then show "\<forall>c \<in> set cs. \<exists>arr. map_of src c = Some (QList arr) \<and> map_of arrays' c = Some arr \<and> tam' = Some (length arr)"
    and "\<forall>c. c \<notin> set cs \<longrightarrow> map_of arrays' c = map_of arrays c" and "tam = Some n \<Longrightarrow> tam' = Some n" by blast+
qed

lemma ler_colunas_total:
  assumes "\<forall>c \<in> set cs. \<exists>arr. map_of src c = Some (QList arr) \<and> length arr = n" and "tam = None \<or> tam = Some n"
  shows "\<exists>x. ler_colunas b src cs tam arrays = Inr x"
  using assms
proof (induction cs arbitrary: tam arrays)
  case (Cons c cs)
  then obtain arr where "map_of src c = Some (QList arr)" "length arr = n" by auto
  then show ?case using Cons.prems Cons.IH [of "Some n" "poe c arr arrays"] by auto
qed simp

lemma registro_da_linha_campo:
  assumes "\<forall>c \<in> set fs. map_of arrays c \<noteq> None"
  shows "map_of (registro_da_linha common fs arrays i) k =
    (if k \<in> set fs then Some (the (map_of arrays k) ! i) else map_of common k)"
  using assms unfolding registro_da_linha_def
  by (induction fs arbitrary: common) (auto split: option.splits)

lemma map_of_filtro:
  "mapa_ok m \<Longrightarrow> map_of (filter (\<lambda>(k, v). P k v) m) k =
    (case map_of m k of Some v \<Rightarrow> if P k v then Some v else None | None \<Rightarrow> None)"
proof (induction m)
  case (Cons kv m)
  obtain k' v where kv: "kv = (k', v)" by (cases kv) auto
  then have "mapa_ok m" "map_of m k' = None" using Cons.prems by (simp_all add: mapa_ok_def map_of_eq_None_iff)
  then show ?case using Cons.IH kv by (cases "k = k'") auto
qed simp

lemma map_of_comuns:
  "mapa_ok doc \<Longrightarrow> map_of (comuns b doc) k =
    (if b = [] then None else case map_of doc k of Some v \<Rightarrow> if k \<noteq> b \<and> \<not> aninhado v then Some v else None | None \<Rightarrow> None)"
  by (simp add: comuns_def map_of_filtro)

text \<open>The document where the columns are.\<close>

definition fonte_do_bloco :: "string \<Rightarrow> registro \<Rightarrow> registro option" where
  "fonte_do_bloco b doc = (if b = [] then Some doc else case map_of doc b of Some (QMap src) \<Rightarrow> Some src | _ \<Rightarrow> None)"

lemma ParallelArrays_transpoe_partes:
  assumes "fs \<noteq> []" and "mapa_ok doc"
  shows "(\<exists>rs. ParallelArrays b fs (QMap doc) = Inr rs) \<longleftrightarrow>
      (\<exists>src n. fonte_do_bloco b doc = Some src \<and> (\<forall>c \<in> set fs. \<exists>arr. map_of src c = Some (QList arr) \<and> length arr = n))"
    and "ParallelArrays b fs (QMap doc) = Inr rs \<Longrightarrow>
      \<exists>src objs. fonte_do_bloco b doc = Some src \<and> rs = map QMap objs \<and>
        (\<forall>c \<in> set fs. map_of src c = Some (QList (map (\<lambda>obj. the (map_of obj c)) objs))) \<and>
        (\<forall>obj \<in> set objs. \<forall>k. k \<notin> set fs \<longrightarrow> map_of obj k =
          (if b = [] then None else case map_of doc k of Some v \<Rightarrow> if k \<noteq> b \<and> \<not> aninhado v then Some v else None | None \<Rightarrow> None))"
proof -
  have e: "ParallelArrays b fs (QMap doc) =
      (case fonte_do_bloco b doc of
         None \<Rightarrow> Inl (if map_of doc b = None then BlocoAusente b (availableKeys doc) else NoBloco b (ExpNaoEObjeto (the (map_of doc b))))
       | Some src \<Rightarrow> (case ler_colunas b src fs None [] of
                        Inl e \<Rightarrow> Inl e
                      | Inr (tam, arrays) \<Rightarrow> Inr (map (\<lambda>i. QMap (registro_da_linha (comuns b doc) fs arrays i))
                                 [0..<(case tam of None \<Rightarrow> 0 | Some n \<Rightarrow> n)])))"
    using assms(1) by (simp add: ParallelArrays_def fonte_do_bloco_def asObject_def split: option.splits qualquer.splits)
  have cols: "\<exists>src n. fonte_do_bloco b doc = Some src \<and> (\<forall>c \<in> set fs. \<exists>arr. map_of src c = Some (QList arr) \<and> length arr = n) \<and>
      (\<exists>arrays. rs = map (\<lambda>i. QMap (registro_da_linha (comuns b doc) fs arrays i)) [0..<n] \<and>
         (\<forall>c \<in> set fs. \<exists>arr. map_of arrays c = Some arr \<and> map_of src c = Some (QList arr) \<and> length arr = n))"
    if p: "ParallelArrays b fs (QMap doc) = Inr rs" for rs
  proof -
    obtain src tam arrays where s: "fonte_do_bloco b doc = Some src" "ler_colunas b src fs None [] = Inr (tam, arrays)"
        "rs = map (\<lambda>i. QMap (registro_da_linha (comuns b doc) fs arrays i)) [0..<(case tam of None \<Rightarrow> 0 | Some n \<Rightarrow> n)]"
      using p e by (auto split: option.splits sum.splits)
    note l = ler_colunas_ok(1) [OF s(2)]
    obtain c0 where "c0 \<in> set fs" using assms(1) by (cases fs) auto
    then obtain n where "tam = Some n" using l by blast
    then have n: "tam = Some n" .
    have "\<forall>c \<in> set fs. \<exists>arr. map_of arrays c = Some arr \<and> map_of src c = Some (QList arr) \<and> length arr = n"
    proof
      fix c assume "c \<in> set fs"
      then obtain arr where "map_of src c = Some (QList arr)" "map_of arrays c = Some arr" "tam = Some (length arr)" using l by blast
      then show "\<exists>arr. map_of arrays c = Some arr \<and> map_of src c = Some (QList arr) \<and> length arr = n" using n by simp
    qed
    moreover from this have "\<forall>c \<in> set fs. \<exists>arr. map_of src c = Some (QList arr) \<and> length arr = n" by blast
    moreover have "rs = map (\<lambda>i. QMap (registro_da_linha (comuns b doc) fs arrays i)) [0..<n]" using s(3) n by simp
    ultimately show ?thesis using s(1) by blast
  qed
  show "(\<exists>rs. ParallelArrays b fs (QMap doc) = Inr rs) \<longleftrightarrow>
      (\<exists>src n. fonte_do_bloco b doc = Some src \<and> (\<forall>c \<in> set fs. \<exists>arr. map_of src c = Some (QList arr) \<and> length arr = n))"
  proof
    assume "\<exists>rs. ParallelArrays b fs (QMap doc) = Inr rs"
    then show "\<exists>src n. fonte_do_bloco b doc = Some src \<and> (\<forall>c \<in> set fs. \<exists>arr. map_of src c = Some (QList arr) \<and> length arr = n)"
      using cols by blast
  next
    assume "\<exists>src n. fonte_do_bloco b doc = Some src \<and> (\<forall>c \<in> set fs. \<exists>arr. map_of src c = Some (QList arr) \<and> length arr = n)"
    then obtain src n where "fonte_do_bloco b doc = Some src" "\<forall>c \<in> set fs. \<exists>arr. map_of src c = Some (QList arr) \<and> length arr = n" by blast
    then show "\<exists>rs. ParallelArrays b fs (QMap doc) = Inr rs"
      using ler_colunas_total [of fs src n None b "[]"] e by (auto split: sum.splits)
  qed
  assume p: "ParallelArrays b fs (QMap doc) = Inr rs"
  obtain src n arrays where s: "fonte_do_bloco b doc = Some src" "rs = map (\<lambda>i. QMap (registro_da_linha (comuns b doc) fs arrays i)) [0..<n]"
      "\<forall>c \<in> set fs. \<exists>arr. map_of arrays c = Some arr \<and> map_of src c = Some (QList arr) \<and> length arr = n"
    using cols [OF p] by blast
  let ?objs = "map (registro_da_linha (comuns b doc) fs arrays) [0..<n]"
  have dom: "\<forall>c \<in> set fs. map_of arrays c \<noteq> None" using s(3) by auto
  have "map_of src c = Some (QList (map (\<lambda>obj. the (map_of obj c)) ?objs))" if "c \<in> set fs" for c
  proof -
    obtain arr where arr: "map_of arrays c = Some arr" "map_of src c = Some (QList arr)" "length arr = n" using s(3) \<open>c \<in> set fs\<close> by blast
    have "map (\<lambda>obj. the (map_of obj c)) ?objs = map (\<lambda>i. arr ! i) [0..<n]"
      using arr(1) that by (simp add: registro_da_linha_campo [OF dom])
    also have "\<dots> = arr" using arr(3) map_nth by blast
    finally show ?thesis using arr(2) by simp
  qed
  moreover have "rs = map QMap ?objs" using s(2) by simp
  moreover have "\<forall>obj \<in> set ?objs. \<forall>k. k \<notin> set fs \<longrightarrow> map_of obj k =
      (if b = [] then None else case map_of doc k of Some v \<Rightarrow> if k \<noteq> b \<and> \<not> aninhado v then Some v else None | None \<Rightarrow> None)"
    by (simp add: registro_da_linha_campo [OF dom] map_of_comuns [OF assms(2)])
  ultimately show "\<exists>src objs. fonte_do_bloco b doc = Some src \<and> rs = map QMap objs \<and>
        (\<forall>c \<in> set fs. map_of src c = Some (QList (map (\<lambda>obj. the (map_of obj c)) objs))) \<and>
        (\<forall>obj \<in> set objs. \<forall>k. k \<notin> set fs \<longrightarrow> map_of obj k =
          (if b = [] then None else case map_of doc k of Some v \<Rightarrow> if k \<noteq> b \<and> \<not> aninhado v then Some v else None | None \<Rightarrow> None))"
    using s(1) by blast
qed

text \<open>
  A document is sliced exactly when each named column is an array and all have one length; then there
  is one record per index, the columns of the records are the arrays again, and what else a record
  carries are the fields outside the block that are not objects.
\<close>

theorem ParallelArrays_transpoe:
  assumes "fs \<noteq> []" and "mapa_ok doc"
  shows "((\<exists>rs. ParallelArrays b fs (QMap doc) = Inr rs) \<longleftrightarrow>
      (\<exists>src n. fonte_do_bloco b doc = Some src \<and> (\<forall>c \<in> set fs. \<exists>arr. map_of src c = Some (QList arr) \<and> length arr = n))) \<and>
    (\<forall>rs. ParallelArrays b fs (QMap doc) = Inr rs \<longrightarrow>
      (\<exists>src objs. fonte_do_bloco b doc = Some src \<and> rs = map QMap objs \<and>
        (\<forall>c \<in> set fs. map_of src c = Some (QList (map (\<lambda>obj. the (map_of obj c)) objs))) \<and>
        (\<forall>obj \<in> set objs. \<forall>k. k \<notin> set fs \<longrightarrow> map_of obj k =
          (if b = [] then None else case map_of doc k of Some v \<Rightarrow> if k \<noteq> b \<and> \<not> aninhado v then Some v else None | None \<Rightarrow> None))))"
  by (intro conjI allI impI ParallelArrays_transpoe_partes(1) [OF assms]) (rule ParallelArrays_transpoe_partes(2) [OF assms])

definition previsao :: registro where
  "previsao = [(''lat'', QInt 7), (''units'', QMap []), (''hourly'', QMap [(''time'', QList [QInt 1, QInt 2]), (''temp'', QList [QInt 30, QInt 31])])]"

lemma ParallelArrays_transpoe_witness:
  "\<exists>objs. ParallelArrays ''hourly'' [''time'', ''temp''] (QMap previsao) = Inr (map QMap objs) \<and>
     map (\<lambda>obj. the (map_of obj ''temp'')) objs = [QInt 30, QInt 31]"
proof -
  have ok: "[''time'', ''temp''] \<noteq> []" "mapa_ok previsao" by (simp_all add: previsao_def mapa_ok_def)
  have src: "fonte_do_bloco ''hourly'' previsao = Some [(''time'', QList [QInt 1, QInt 2]), (''temp'', QList [QInt 30, QInt 31])]"
    by (simp add: fonte_do_bloco_def previsao_def)
  then obtain rs where "ParallelArrays ''hourly'' [''time'', ''temp''] (QMap previsao) = Inr rs"
    using conjunct1 [OF ParallelArrays_transpoe [OF ok, of "''hourly''"]] by auto
  from this conjunct2 [OF ParallelArrays_transpoe [OF ok, of "''hourly''"], rule_format, OF this] src show ?thesis by auto
qed

text \<open>
  An object outside the block does not reach the records, although the contract copies every field
  outside the block.
\<close>

theorem ParallelArrays_perde_objetos:
  "ParallelArrays ''hourly'' [''time''] (QMap previsao) = Inr [QMap [(''lat'', QInt 7), (''time'', QInt 1)], QMap [(''lat'', QInt 7), (''time'', QInt 2)]]"
  by code_simp

section \<open>Refusing a response\<close>

lemma map_filter_Nil: "List.map_filter f xs = [] \<longleftrightarrow> (\<forall>x \<in> set xs. f x = None)"
  by (induction xs) (auto simp: List.map_filter_simps split: option.splits)

lemma ex_eq: "(\<exists>doc'. doc = doc' \<and> P doc') \<longleftrightarrow> P doc" "(\<exists>doc'. doc' = doc \<and> P doc') \<longleftrightarrow> P doc"
  by auto

lemma case_primeiro: "(case xs of [] \<Rightarrow> None | x # ys \<Rightarrow> Some (f x ys)) = None \<longleftrightarrow> xs = []"
  by (cases xs) simp_all

lemma marcada_None: "marcada doc c = None \<longleftrightarrow> (\<forall>v. map_of doc c = Some v \<longrightarrow> \<not> truthy v)"
  by (auto simp: marcada_def split: option.splits)

lemma RejectIf_None: "Object json r = Inr doc \<Longrightarrow> RejectIf json fs r = None \<longleftrightarrow> List.map_filter (marcada doc) fs = []"
  by (cases "List.map_filter (marcada doc) fs") (auto simp: RejectIf_def)

text \<open>
  \<open>RejectIf\<close> and \<open>RequireFields\<close> together let a response through exactly when its body is an object or
  \<open>null\<close>, in which every required field is present and no flag is set; \<open>null\<close> passes only when nothing is required.
\<close>

theorem guardas_deixam_passar:
  "RejectIf json flags r = None \<and> RequireFields json campos r = None \<longleftrightarrow>
     (\<exists>doc. (json (rs_preservar r) (rs_body r) = Inr (QMap doc) \<or> doc = [] \<and> json (rs_preservar r) (rs_body r) = Inr QNil) \<and>
       (\<forall>c \<in> set campos. c \<in> dom (map_of doc)) \<and> (\<forall>c \<in> set flags. \<forall>v. map_of doc c = Some v \<longrightarrow> \<not> truthy v))"
proof (cases "Object json r")
  case (Inl e)
  then have "\<And>doc. json (rs_preservar r) (rs_body r) \<noteq> Inr (QMap doc)" "json (rs_preservar r) (rs_body r) \<noteq> Inr QNil"
    by (auto simp: Object_def)
  then show ?thesis using Inl by (auto simp: RejectIf_def)
next
  case (Inr doc)
  then have d: "json (rs_preservar r) (rs_body r) = Inr (QMap doc) \<or> doc = [] \<and> json (rs_preservar r) (rs_body r) = Inr QNil"
    by (auto simp: Object_def split: sum.splits qualquer.splits)
  have "RejectIf json flags r = None \<longleftrightarrow> (\<forall>c \<in> set flags. \<forall>v. map_of doc c = Some v \<longrightarrow> \<not> truthy v)"
    by (simp add: RejectIf_None [OF Inr] map_filter_Nil marcada_None)
  moreover have "RequireFields json campos r = None \<longleftrightarrow> (\<forall>c \<in> set campos. c \<in> dom (map_of doc))"
    by (simp add: RequireFields_def Inr case_primeiro filter_empty_conv dom_def)
  ultimately have "RejectIf json flags r = None \<and> RequireFields json campos r = None \<longleftrightarrow>
      (\<forall>c \<in> set campos. c \<in> dom (map_of doc)) \<and> (\<forall>c \<in> set flags. \<forall>v. map_of doc c = Some v \<longrightarrow> \<not> truthy v)" by blast
  then show ?thesis using d by (elim disjE conjE) (simp_all only: sum.inject qualquer.inject qualquer.distinct simp_thms ex_simps ex_eq)
qed

lemma guardas_deixam_passar_witness:
  "RejectIf (\<lambda>_ _. Inr (QMap [(''id'', QInt 1), (''error'', QBool False)])) [''error''] \<lparr>rs_status = 200, rs_body = [], rs_preservar = True\<rparr> = None \<and>
   RequireFields (\<lambda>_ _. Inr (QMap [(''id'', QInt 1), (''error'', QBool False)])) [''id''] \<lparr>rs_status = 200, rs_body = [], rs_preservar = True\<rparr> = None"
  unfolding guardas_deixam_passar
  by (intro exI [of _ "[(''id'', QInt 1), (''error'', QBool False)]"]) (simp add: truthy_def)

text \<open>
  An error flag of zero is no error, except when the source keeps its numbers: then the same body is
  refused.
\<close>

theorem RejectIf_zero:
  assumes "json False body = Inr (QMap [(''error'', QFloat (FFin 0))])" and "json True body = Inr (QMap [(''error'', QNum ''0'')])"
  shows "RejectIf json [''error''] \<lparr>rs_status = 200, rs_body = body, rs_preservar = False\<rparr> = None"
    and "RejectIf json [''error''] \<lparr>rs_status = 200, rs_body = body, rs_preservar = True\<rparr> = Some (MarcadaSemMotivo 200 ''error'' (QNum ''0''))"
  using assms by (simp_all add: RejectIf_def Object_def truthy_def marcada_def motivo_def motivos_def List.map_filter_simps)

lemma RejectIf_zero_witness:
  "RejectIf (\<lambda>p _. Inr (QMap [(''error'', if p then QNum ''0'' else QFloat (FFin 0))])) [''error'']
     \<lparr>rs_status = 200, rs_body = [], rs_preservar = True\<rparr> \<noteq> None"
  using RejectIf_zero(2) [of "\<lambda>p _. Inr (QMap [(''error'', if p then QNum ''0'' else QFloat (FFin 0))])" "[]"] by simp

end
