(* ===== verification/Fachada.thy ===== *)
theory Fachada
  imports Contexto Expansao Extracao
begin

text \<open>
  The front door of the kit: \<open>sdk/sdk.go\<close> (the snapshot, the load of a whole stream or by batches, the
  result), \<open>sdk/target.go\<close> (what a target declares) and \<open>sdk/pipeline.go\<close> (\<open>runPipeline\<close>). A stream is
  the list of what it yields; a destination is a record of functions over its own state. Times are left out.
\<close>

section \<open>The snapshot of the source\<close>

type_synonym lidos = "(string + qualquer) list"

text \<open>\<open>comRetrato\<close> only looks at the payload of a record.\<close>

definition erro_do_retrato :: "string \<Rightarrow> string" where
  "erro_do_retrato nome = ''Source.Snapshot: '' @ nome"

fun comRetrato :: "string \<Rightarrow> lidos \<Rightarrow> lidos" where
  "comRetrato nome [] = []"
| "comRetrato nome (Inl e # xs) = Inl e # comRetrato nome xs"
| "comRetrato nome (Inr v # xs) =
     (case v of
        QMap obj \<Rightarrow>
          if map_of obj nome \<noteq> None then [Inl (erro_do_retrato nome)]
          else Inr (QMap (poe nome (QMap obj) obj)) # comRetrato nome xs
      | _ \<Rightarrow> Inr v # comRetrato nome xs)"

type_synonym fluxo = "(string + envelope) list"

section \<open>The target\<close>

text \<open>\<open>wr_check\<close> is the optional \<open>DestinationChecker\<close>; \<open>Write\<close> may give a result together with an error.\<close>

record 's destino =
  wr_write :: "envelope list \<Rightarrow> write_options \<Rightarrow> 's \<Rightarrow> (load_result option \<times> string option) \<times> 's"
  wr_describe :: string
  wr_check :: "(string list \<Rightarrow> 's \<Rightarrow> string option) option"

record 's target =
  ta_to :: "'s destino option"
  ta_columns :: "string list"
  ta_schema :: schema
  ta_partition_by :: string
  ta_dedup :: string
  ta_flush_every :: int

datatype erro_alvo =
    SemDestino | ColumnsESchema | SchemaRuim erro_schema | ParticaoForaDoSchema string
  | DadosNulos | DoFluxo string | Recusou string "string list" string | DestinoNaoConfere string | NaoLeu string

definition validate :: "'s target \<Rightarrow> erro_alvo option" where
  "validate t =
     (if ta_to t = None then Some SemDestino
      else if ta_columns t \<noteq> [] \<and> ta_schema t \<noteq> [] then Some ColumnsESchema
      else entao (map_option SchemaRuim (if ta_schema t = [] then None else Check (ta_schema t)))
        (if ta_partition_by t \<noteq> [] \<and> ta_schema t \<noteq> [] \<and> \<not> Has (ta_schema t) (ta_partition_by t)
         then Some (ParticaoForaDoSchema (ta_partition_by t)) else None))"

definition colunas :: "'s target \<Rightarrow> string list" where
  "colunas t = (if ta_schema t \<noteq> [] then Names (ta_schema t) else ta_columns t)"

definition options :: "'s target \<Rightarrow> run_context \<Rightarrow> write_options" where
  "options t run = \<lparr>wo_columns = colunas t, wo_schema = ta_schema t, wo_partition_by = ta_partition_by t, wo_dedup = ta_dedup t, wo_run = run\<rparr>"

section \<open>The result\<close>

record estatisticas =
  st_pages :: int
  st_attempts :: int
  st_bytes :: int
  st_failed :: "(string \<times> string) list"

record resultado =
  rs_records :: int
  rs_pages :: int
  rs_attempts :: int
  rs_extract_bytes :: int
  rs_failed :: "(string \<times> string) list"
  rs_rows :: int
  rs_ignored :: int
  rs_bytes :: nat
  rs_strategy :: string
  rs_format :: string
  rs_dedup :: string
  rs_created :: bool
  rs_table :: string
  rs_objects :: "string list"
  rs_row_errors :: "string list"

definition resultado_vazio :: "string \<Rightarrow> resultado" where
  "resultado_vazio tabela =
     \<lparr>rs_records = 0, rs_pages = 0, rs_attempts = 0, rs_extract_bytes = 0, rs_failed = [], rs_rows = 0, rs_ignored = 0, rs_bytes = 0,
      rs_strategy = [], rs_format = [], rs_dedup = [], rs_created = False, rs_table = tabela, rs_objects = [], rs_row_errors = []\<rparr>"

definition com_estatisticas :: "estatisticas \<Rightarrow> resultado \<Rightarrow> resultado" where
  "com_estatisticas st r =
     r\<lparr>rs_pages := st_pages st, rs_attempts := st_attempts st, rs_extract_bytes := st_bytes st, rs_failed := st_failed st\<rparr>"

definition somar :: "load_result \<Rightarrow> resultado \<Rightarrow> resultado" where
  "somar lr r =
     r\<lparr>rs_rows := int64 (rs_rows r + lr_rows lr), rs_ignored := int64 (rs_ignored r + lr_ignored lr), rs_bytes := rs_bytes r + lr_bytes lr,
       rs_strategy := lr_strategy lr, rs_format := lr_format lr, rs_dedup := lr_dedup lr, rs_created := rs_created r \<or> lr_created lr,
       rs_row_errors := rs_row_errors r @ lr_errors lr, rs_objects := rs_objects r @ lr_objects lr\<rparr>"

definition aplica :: "load_result \<Rightarrow> resultado \<Rightarrow> resultado" where
  "aplica lr r =
     r\<lparr>rs_rows := lr_rows lr, rs_ignored := lr_ignored lr, rs_bytes := lr_bytes lr, rs_strategy := lr_strategy lr, rs_format := lr_format lr,
       rs_dedup := lr_dedup lr, rs_created := lr_created lr, rs_row_errors := lr_errors lr, rs_objects := lr_objects lr\<rparr>"

section \<open>Loading a stream\<close>

fun collect :: "fluxo \<Rightarrow> string + envelope list" where
  "collect [] = Inr []"
| "collect (Inl e # xs) = Inl e"
| "collect (Inr env # xs) = (case collect xs of Inl e \<Rightarrow> Inl e | Inr es \<Rightarrow> Inr (env # es))"

text \<open>\<open>escrever\<close>: an empty batch is not written.\<close>

definition escrever_leva ::
    "'s destino \<Rightarrow> write_options \<Rightarrow> envelope list \<Rightarrow> resultado \<Rightarrow> 's \<Rightarrow> (resultado \<times> string option) \<times> 's" where
  "escrever_leva d opt leva r s =
     (if leva = [] then ((r, None), s)
      else (case wr_write d leva opt s of
              ((lr, err), s) \<Rightarrow> (((case lr of None \<Rightarrow> r | Some lr \<Rightarrow> somar lr r), err), s)))"

text \<open>The loop over the stream, with the batch that is being gathered; its last batch is written after it.\<close>

fun levar ::
    "'s destino \<Rightarrow> write_options \<Rightarrow> nat \<Rightarrow> estatisticas \<Rightarrow> fluxo \<Rightarrow> envelope list \<Rightarrow> resultado \<Rightarrow> 's
     \<Rightarrow> (resultado \<times> erro_alvo option) \<times> 's" where
  "levar d opt n st [] leva r s =
     (case escrever_leva d opt leva r s of
        ((r, err), s) \<Rightarrow>
          (let r = com_estatisticas st r in ((r, map_option (\<lambda>e. Recusou (rs_table r) (rs_row_errors r) e) err), s)))"
| "levar d opt n st (Inl e # xs) leva r s = ((r, Some (DoFluxo e)), s)"
| "levar d opt n st (Inr env # xs) leva r s =
     (let r = r\<lparr>rs_records := rs_records r + 1\<rparr>; leva = leva @ [env] in
      if n \<le> length leva then
        (case escrever_leva d opt leva r s of
           ((r, Some e), s) \<Rightarrow> ((r, Some (Recusou (rs_table r) (rs_row_errors r) e)), s)
         | ((r, None), s) \<Rightarrow> levar d opt n st xs [] r s)
      else levar d opt n st xs leva r s)"

definition loadEmLevas ::
    "'s destino \<Rightarrow> 's target \<Rightarrow> run_context \<Rightarrow> estatisticas \<Rightarrow> fluxo \<Rightarrow> 's \<Rightarrow> (resultado \<times> erro_alvo option) \<times> 's" where
  "loadEmLevas d t run st xs s = levar d (options t run) (nat (ta_flush_every t)) st xs [] (resultado_vazio (wr_describe d)) s"

text \<open>\<open>loadWith\<close>; \<open>st\<close> are the counters once the stream is drained.\<close>

definition loadWith ::
    "'s target \<Rightarrow> run_context \<Rightarrow> estatisticas \<Rightarrow> fluxo option \<Rightarrow> 's \<Rightarrow> (resultado option \<times> erro_alvo option) \<times> 's" where
  "loadWith t run st dados s =
     (case dados of
        None \<Rightarrow> ((None, Some DadosNulos), s)
      | Some xs \<Rightarrow>
          (case validate t of
             Some e \<Rightarrow> ((None, Some e), s)
           | None \<Rightarrow>
               (let d = the (ta_to t) in
                if 0 < ta_flush_every t then
                  (case loadEmLevas d t run st xs s of ((r, err), s) \<Rightarrow> ((Some r, err), s))
                else
                  (case collect xs of
                     Inl e \<Rightarrow> ((None, Some (DoFluxo e)), s)
                   | Inr envs \<Rightarrow>
                       (let r = com_estatisticas st ((resultado_vazio (wr_describe d))\<lparr>rs_records := int (length envs)\<rparr>) in
                        if envs = [] then ((Some r, None), s)
                        else (case wr_write d envs (options t run) s of
                                ((lr, err), s) \<Rightarrow>
                                  (let r = (case lr of None \<Rightarrow> r | Some lr \<Rightarrow> aplica lr r) in
                                   ((Some r, map_option (\<lambda>e. Recusou (rs_table r) (rs_row_errors r) e) err), s))))))))"

section \<open>The pipeline\<close>

definition checkDestination :: "'s target \<Rightarrow> 's \<Rightarrow> erro_alvo option" where
  "checkDestination t s =
     entao (validate t)
       (case wr_check (the (ta_to t)) of None \<Rightarrow> None | Some c \<Rightarrow> map_option DestinoNaoConfere (c (colunas t) s))"

text \<open>
  \<open>runPipeline\<close>: \<open>lido\<close> is what opening the source gives, an error or its stream with the counters it
  will have; \<open>fns\<close> is the chain. What the chain refuses is an error of the stream, worded by \<open>texto\<close>.
\<close>

definition envelope_de :: "qualquer \<Rightarrow> envelope" where
  "envelope_de v = \<lparr>ev_provider = [], ev_entity = [], ev_source_key = [], ev_record_ts = [], ev_payload = v\<rparr>"

definition do_item :: "(nat \<Rightarrow> string erro_reg \<Rightarrow> string) \<Rightarrow> string item \<Rightarrow> string + envelope" where
  "do_item texto i = (case i of Item v \<Rightarrow> Inr (envelope_de v) | ErroDaFonte e \<Rightarrow> Inl e | ErroDeFormato n e \<Rightarrow> Inl (texto n e))"

definition runPipeline ::
    "(nat \<Rightarrow> string erro_reg \<Rightarrow> string) \<Rightarrow> string \<Rightarrow> string transformador option list \<Rightarrow> 's target \<Rightarrow> run_context
     \<Rightarrow> string + (lidos \<times> estatisticas) \<Rightarrow> 's \<Rightarrow> (resultado option \<times> erro_alvo option) \<times> 's" where
  "runPipeline texto snapshot fns t run lido s =
     (case checkDestination t s of
        Some e \<Rightarrow> ((None, Some e), s)
      | None \<Rightarrow>
          (case lido of
             Inl e \<Rightarrow> ((None, Some (NaoLeu e)), s)
           | Inr (xs, st) \<Rightarrow>
               loadWith t run st (Some (map (do_item texto) (Transform fns (if snapshot \<noteq> [] then comRetrato snapshot xs else xs)))) s))"

section \<open>The BigQuery destination\<close>

text \<open>\<open>bigquery.Table\<close> as a destination: the configuration, then the loader. The client is already open.\<close>

definition destino_bq :: "'s nuvem \<Rightarrow> string gomap \<Rightarrow> bq_table \<Rightarrow> 's destino" where
  "destino_bq nv amb b =
     \<lparr>wr_write = (\<lambda>envs opt s.
        case config amb b opt of
          Inl e \<Rightarrow> ((None, Some ''config''), s)
        | Inr c \<Rightarrow>
            (case resolveConfig c [] of
               Inl e \<Rightarrow> ((None, Some ''config''), s)
             | Inr c \<Rightarrow> (case Load nv c envs s of ((r, err), s) \<Rightarrow> ((Some r, map_option (\<lambda>e. ''load'') err), s)))),
      wr_describe = og_value (Resolve amb (bt_dataset b) ''BREVIS_SDK_DATASET'' ''landing'') @ ''.'' @ bt_name b,
      wr_check = Some (\<lambda>columns s.
        if columns = [] then None
        else (case config amb b \<lparr>wo_columns = columns, wo_schema = [], wo_partition_by = [], wo_dedup = [],
                wo_run = \<lparr>ctx_id = [], ctx_first = False, ctx_attempt = 0, ctx_trigger = [], ctx_logical = tempo_zero, ctx_params = []\<rparr>\<rparr> of
                Inl e \<Rightarrow> Some ''config''
              | Inr c \<Rightarrow>
                  (case resolveConfig c [] of
                     Inl e \<Rightarrow> Some ''config''
                   | Inr c \<Rightarrow> map_option (\<lambda>e. ''columns'') (CheckDestination nv columns s))))\<rparr>"

section \<open>Batches\<close>

fun fatiar :: "nat \<Rightarrow> 'a list \<Rightarrow> 'a list list" where
  "fatiar n [] = []"
| "fatiar n (x # xs) = (if n = 0 then [] else take n (x # xs) # fatiar n (drop n (x # xs)))"

text \<open>Every batch written in turn, up to the first that fails.\<close>

fun escrever_todas :: "'s destino \<Rightarrow> write_options \<Rightarrow> envelope list list \<Rightarrow> resultado \<Rightarrow> 's \<Rightarrow> (resultado \<times> string option) \<times> 's" where
  "escrever_todas d opt [] r s = ((r, None), s)"
| "escrever_todas d opt (l # ls) r s =
     (case escrever_leva d opt l r s of
        ((r, Some e), s) \<Rightarrow> ((r, Some e), s)
      | ((r, None), s) \<Rightarrow> escrever_todas d opt ls r s)"

text \<open>The part of a result that comes from the destination.\<close>

definition da_carga :: "resultado \<Rightarrow> resultado" where
  "da_carga r = r\<lparr>rs_records := 0, rs_pages := 0, rs_attempts := 0, rs_extract_bytes := 0, rs_failed := []\<rparr>"

lemma fatiar_junta: "0 < n \<Longrightarrow> concat (fatiar n xs) = xs"
  by (induction n xs rule: fatiar.induct) auto

lemma fatiar_tamanho: "l \<in> set (fatiar n xs) \<Longrightarrow> l \<noteq> [] \<and> length l \<le> n"
  by (induction n xs rule: fatiar.induct) (auto split: if_splits)

lemma fatiar_cheia: "length l = n \<Longrightarrow> 0 < n \<Longrightarrow> fatiar n (l @ xs) = l # fatiar n xs"
  by (cases l) auto

lemma fatiar_cheias: "0 < n \<Longrightarrow> \<forall>l \<in> set (butlast (fatiar n xs)). length l = n"
proof (induction n xs rule: fatiar.induct)
  case (2 n x xs)
  show ?case
  proof (cases "fatiar n (drop n (x # xs)) = []")
    case False
    then have "drop n (x # xs) \<noteq> []" by auto
    then have "length (take n (x # xs)) = n" by simp
    then show ?thesis using 2 False by auto
  qed (use 2 in auto)
qed simp

lemma fatiar_curta: "length l < n \<Longrightarrow> fatiar n l = (if l = [] then [] else [l])"
  by (cases l) auto

lemma da_carga_somar [simp]: "da_carga (somar lr (r\<lparr>rs_records := k\<rparr>)) = da_carga (somar lr r)"
  "da_carga (com_estatisticas st r) = da_carga r" "da_carga (r\<lparr>rs_records := k\<rparr>) = da_carga r"
  by (simp_all add: da_carga_def somar_def com_estatisticas_def)

lemma da_carga_somar_cong: "da_carga r = da_carga r' \<Longrightarrow> da_carga (somar lr r) = da_carga (somar lr r')"
  by (cases r; cases r') (simp add: da_carga_def somar_def)

lemma escrever_leva_cong:
  assumes "da_carga r = da_carga r'"
  obtains q q' err s' where "escrever_leva d opt l r s = ((q, err), s')" "escrever_leva d opt l r' s = ((q', err), s')" "da_carga q = da_carga q'"
    "rs_records q = rs_records r"
proof (cases "l = []")
  case True
  then show thesis using that assms by (simp add: escrever_leva_def)
next
  case False
  obtain lr err s' where w: "wr_write d l opt s = ((lr, err), s')" by (cases "wr_write d l opt s") auto
  show thesis
  proof (cases lr)
    case None
    then show thesis using that [of r err s' r'] w False assms by (simp add: escrever_leva_def)
  next
    case (Some x)
    then show thesis using that [of "somar x r" err s' "somar x r'"] w False da_carga_somar_cong [OF assms]
      by (simp add: escrever_leva_def somar_def)
  qed
qed

lemma escrever_todas_cong:
  assumes "da_carga r = da_carga r'" and "escrever_todas d opt ls r s = ((q, err), s')"
  shows "\<exists>q'. escrever_todas d opt ls r' s = ((q', err), s') \<and> da_carga q' = da_carga q"
  using assms
proof (induction ls arbitrary: r r' s)
  case (Cons l ls)
  obtain p p' e s1 where w: "escrever_leva d opt l r s = ((p, e), s1)" "escrever_leva d opt l r' s = ((p', e), s1)" "da_carga p = da_carga p'"
    using escrever_leva_cong [OF Cons.prems(1)] by metis
  show ?case
  proof (cases e)
    case None
    then show ?thesis using Cons.IH [OF w(3)] Cons.prems(2) w by simp
  next
    case (Some x)
    then show ?thesis using Cons.prems(2) w by auto
  qed
qed simp

lemma levar_fatias:
  assumes "length leva < n" and "levar d opt n st (map Inr envs) leva r s = ((q, err), s')"
  shows "\<exists>q' e. escrever_todas d opt (fatiar n (leva @ envs)) r s = ((q', e), s') \<and> da_carga q = da_carga q' \<and> (e = None \<longleftrightarrow> err = None) \<and>
    (err = None \<longrightarrow> rs_records q = rs_records r + int (length envs))"
  using assms
proof (induction envs arbitrary: leva r s)
  case Nil
  obtain p e s1 where w: "escrever_leva d opt leva r s = ((p, e), s1)" by (cases "escrever_leva d opt leva r s") auto
  have rec: "rs_records p = rs_records r" using escrever_leva_cong [of r r d opt leva s] w by (metis Pair_inject)
  have "escrever_todas d opt (fatiar n leva) r s = ((p, e), s1)"
    using w fatiar_curta [OF Nil.prems(1)] by (cases e) (auto simp: escrever_leva_def)
  then show ?case using Nil.prems(2) w rec by (auto simp: Let_def com_estatisticas_def da_carga_def)
next
  case (Cons env envs)
  let ?r = "r\<lparr>rs_records := rs_records r + 1\<rparr>" and ?l = "leva @ [env]"
  have rr: "da_carga ?r = da_carga r" by simp
  show ?case
  proof (cases "n \<le> length ?l")
    case True
    then have len: "length ?l = n" "0 < n" using Cons.prems(1) by auto
    have f: "fatiar n (leva @ env # envs) = ?l # fatiar n envs" using fatiar_cheia [OF len, of envs] by simp
    obtain p p' e s1 where w: "escrever_leva d opt ?l ?r s = ((p, e), s1)" "escrever_leva d opt ?l r s = ((p', e), s1)" "da_carga p = da_carga p'"
        "rs_records p = rs_records ?r"
      using escrever_leva_cong [OF rr] by metis
    show ?thesis
    proof (cases e)
      case (Some x)
      then show ?thesis using Cons.prems(2) w f True by (auto simp: Let_def)
    next
      case None
      then have l: "levar d opt n st (map Inr envs) [] p s1 = ((q, err), s')" using Cons.prems(2) w True by (simp add: Let_def)
      obtain q' e' where t: "escrever_todas d opt (fatiar n envs) p s1 = ((q', e'), s')" "da_carga q = da_carga q'" "e' = None \<longleftrightarrow> err = None"
          "err = None \<longrightarrow> rs_records q = rs_records p + int (length envs)"
        using Cons.IH [of "[]" p s1] l len(2) by auto
      obtain q'' where "escrever_todas d opt (fatiar n envs) p' s1 = ((q'', e'), s')" "da_carga q'' = da_carga q'"
        using escrever_todas_cong [OF w(3) t(1)] by blast
      then show ?thesis using t w f None by auto
    qed
  next
    case False
    then have l: "levar d opt n st (map Inr envs) ?l ?r s = ((q, err), s')" using Cons.prems(2) by (simp add: Let_def)
    obtain q' e' where t: "escrever_todas d opt (fatiar n (?l @ envs)) ?r s = ((q', e'), s')" "da_carga q = da_carga q'" "e' = None \<longleftrightarrow> err = None"
        "err = None \<longrightarrow> rs_records q = rs_records ?r + int (length envs)"
      using Cons.IH [of ?l ?r s] l False by auto
    obtain q'' where "escrever_todas d opt (fatiar n (?l @ envs)) r s = ((q'', e'), s')" "da_carga q'' = da_carga q'"
      using escrever_todas_cong [OF rr t(1)] by blast
    then show ?thesis using t by auto
  qed
qed

text \<open>
  Loading by batches is writing the stream cut in batches of \<open>FlushEvery\<close>, one after the other, up
  to the first the destination refuses; every record is in exactly one batch, in order, no batch is
  empty, and the result of a load that ends well counts all of them.
\<close>

theorem loadEmLevas_fatia:
  assumes "0 < ta_flush_every t" and "loadEmLevas d t run st (map Inr envs) s = ((q, err), s')"
  shows "\<exists>ls q' e. concat ls = envs \<and> (\<forall>l \<in> set ls. l \<noteq> [] \<and> int (length l) \<le> ta_flush_every t) \<and>
      (\<forall>l \<in> set (butlast ls). int (length l) = ta_flush_every t) \<and>
      escrever_todas d (options t run) ls (resultado_vazio (wr_describe d)) s = ((q', e), s') \<and>
      da_carga q = da_carga q' \<and> (e = None \<longleftrightarrow> err = None) \<and> (err = None \<longrightarrow> rs_records q = int (length envs))"
proof -
  let ?n = "nat (ta_flush_every t)"
  have n: "0 < ?n" using assms(1) by simp
  obtain q' e where w: "escrever_todas d (options t run) (fatiar ?n envs) (resultado_vazio (wr_describe d)) s = ((q', e), s')"
      "da_carga q = da_carga q'" "e = None \<longleftrightarrow> err = None" "err = None \<longrightarrow> rs_records q = int (length envs)"
    using levar_fatias [of "[]" ?n d "options t run" st envs "resultado_vazio (wr_describe d)" s q err s'] assms(2) n
    by (auto simp: loadEmLevas_def resultado_vazio_def)
  have "\<forall>l \<in> set (fatiar ?n envs). l \<noteq> [] \<and> int (length l) \<le> ta_flush_every t" 
  proof
    fix l assume "l \<in> set (fatiar ?n envs)"
    from fatiar_tamanho [OF this] assms(1) show "l \<noteq> [] \<and> int (length l) \<le> ta_flush_every t" by linarith
  qed
  moreover have "\<forall>l \<in> set (butlast (fatiar ?n envs)). int (length l) = ta_flush_every t" using fatiar_cheias [OF n, of envs] n by auto
  ultimately show ?thesis using w fatiar_junta [OF n, of envs] by (intro exI [of _ "fatiar ?n envs"] exI [of _ q'] exI [of _ e]) simp
qed

section \<open>From the source to the table\<close>

text \<open>A text of rows that ends its last line reads as itself before any other.\<close>

definition linhas_ok :: "(string \<Rightarrow> registro list) \<Rightarrow> bool" where
  "linhas_ok le \<longleftrightarrow> le [] = [] \<and> (\<forall>a b. a \<noteq> [] \<longrightarrow> last a = CHR 0x0A \<longrightarrow> le (a @ b) = le a @ le b)"

lemma encodeRows_indice: "encodeRows nv i es = Inr d \<Longrightarrow> encodeRows nv j es = Inr d"
proof (induction es arbitrary: i j d)
  case (Cons e es)
  obtain x y where x: "nv_codifica nv (ev_payload e) = Inr x" "nv_e_objeto nv x" "encodeRows nv (Suc i) es = Inr y" "d = x @ nova_linha @ y"
    using Cons.prems by (auto split: sum.splits if_splits)
  then show ?case using Cons.IH [OF x(3), of "Suc j"] by simp
qed simp

lemma encodeRows_append:
  "encodeRows nv i a = Inr x \<Longrightarrow> encodeRows nv j b = Inr y \<Longrightarrow> encodeRows nv i (a @ b) = Inr (x @ y)"
proof (induction a arbitrary: i x)
  case (Cons e es)
  obtain u v where u: "nv_codifica nv (ev_payload e) = Inr u" "nv_e_objeto nv u" "encodeRows nv (Suc i) es = Inr v" "x = u @ nova_linha @ v"
    using Cons.prems(1) by (auto split: sum.splits if_splits)
  then show ?case using Cons.IH [OF u(3) Cons.prems(2)] by simp
qed (auto intro: encodeRows_indice)

lemma encodeRows_termina: "encodeRows nv i es = Inr x \<Longrightarrow> es \<noteq> [] \<Longrightarrow> x \<noteq> [] \<and> last x = CHR 0x0A"
proof (induction es arbitrary: i x)
  case (Cons e es)
  obtain u v where u: "encodeRows nv (Suc i) es = Inr v" "x = u @ nova_linha @ v"
    using Cons.prems(1) by (auto split: sum.splits if_splits)
  then show ?case using Cons.IH [OF u(1)] by (cases es) (auto simp: nova_linha_def)
qed simp

lemma destino_bq_escreve:
  assumes "wr_write (destino_bq nv amb b) envs opt s = ((lr, None), s')"
  shows "\<exists>c r. lr = Some r \<and> Load nv c envs s = ((r, None), s') \<and> lo_dedup c = wo_dedup opt"
proof -
  obtain c0 where c0: "config amb b opt = Inr c0" using assms by (auto simp: destino_bq_def split: sum.splits)
  obtain c where c: "resolveConfig c0 [] = Inr c" using assms c0 by (auto simp: destino_bq_def split: sum.splits)
  have "lo_dedup c0 = wo_dedup opt" using c0 unfolding config_def Let_def by (auto split: if_splits)
  moreover have "lo_dedup c = lo_dedup c0"
    using c by (auto simp: resolveConfig_def aplicar_opcoes_def padroes_da_carga_def Let_def split: if_splits option.splits)
  moreover obtain r e s1 where l: "Load nv c envs s = ((r, e), s1)" by (cases "Load nv c envs s") auto
  ultimately show ?thesis using assms c0 c by (auto simp: destino_bq_def)
qed

lemma destino_bq_acrescenta:
  assumes "nuvem_ok nv vi le" and "wo_dedup opt \<noteq> DedupMerge" and "envs \<noteq> []" and "vi_tabela vi s = Some (cs, rs)"
    and "wr_write (destino_bq nv amb b) envs opt s = ((lr, None), s')"
  shows "\<exists>r data. lr = Some r \<and> encodeRows nv 0 envs = Inr data \<and> vi_tabela vi s' = Some (cs, rs @ le data) \<and> lr_rows r = int (length envs)"
proof -
  obtain c r where c: "lr = Some r" "Load nv c envs s = ((r, None), s')" "lo_dedup c = wo_dedup opt"
    using destino_bq_escreve [OF assms(5)] by blast
  then show ?thesis using Load_acrescenta_linhas [OF assms(1) _ assms(3) c(2)] assms(2,4) by auto
qed

lemma escrever_todas_grava:
  assumes "nuvem_ok nv vi le" and "linhas_ok le" and "wo_dedup opt \<noteq> DedupMerge"
    and "\<forall>l \<in> set ls. l \<noteq> []" and "vi_tabela vi s = Some (cs, rs)" and "0 \<le> rs_rows r" and "rs_rows r + int (length (concat ls)) < 2 ^ 63"
    and "escrever_todas (destino_bq nv amb b) opt ls r s = ((q, None), s')"
  shows "\<exists>data. encodeRows nv 0 (concat ls) = Inr data \<and> vi_tabela vi s' = Some (cs, rs @ le data) \<and> rs_rows q = rs_rows r + int (length (concat ls))"
  using assms(4-)
proof (induction ls arbitrary: r s rs)
  case Nil
  then show ?case using assms(2) by (simp add: linhas_ok_def)
next
  case (Cons l ls)
  have l: "l \<noteq> []" using Cons.prems(1) by simp
  obtain p s1 where p: "escrever_leva (destino_bq nv amb b) opt l r s = ((p, None), s1)" "escrever_todas (destino_bq nv amb b) opt ls p s1 = ((q, None), s')"
    using Cons.prems(5) by (auto split: prod.splits option.splits)
  obtain lr where lr: "wr_write (destino_bq nv amb b) l opt s = ((lr, None), s1)" "p = (case lr of None \<Rightarrow> r | Some x \<Rightarrow> somar x r)"
    using p(1) l by (auto simp: escrever_leva_def split: prod.splits)
  obtain x d1 where x: "lr = Some x" "encodeRows nv 0 l = Inr d1" "vi_tabela vi s1 = Some (cs, rs @ le d1)" "lr_rows x = int (length l)"
    using destino_bq_acrescenta [OF assms(1,3) l Cons.prems(2) lr(1)] by blast
  have rows: "rs_rows p = rs_rows r + int (length l)"
    using lr(2) x(1,4) Cons.prems(3,4) by (simp add: somar_def int64_cabe)
  obtain d2 where d2: "encodeRows nv 0 (concat ls) = Inr d2" "vi_tabela vi s' = Some (cs, (rs @ le d1) @ le d2)"
      "rs_rows q = rs_rows p + int (length (concat ls))"
    using Cons.IH [OF _ x(3) _ _ p(2)] Cons.prems(1,3,4) rows by auto
  have "le (d1 @ d2) = le d1 @ le d2" using assms(2) encodeRows_termina [OF x(2) l] by (simp add: linhas_ok_def)
  then show ?case using d2 rows encodeRows_append [OF x(2) d2(1)] by auto
qed

lemma collect_Inr: "collect xs = Inr envs \<Longrightarrow> xs = map Inr envs"
  by (induction xs arbitrary: envs rule: collect.induct) (auto split: sum.splits)

lemma levar_sem_erro: "levar d opt n st xs leva r s = ((q, None), s') \<Longrightarrow> \<exists>envs. xs = map Inr envs"
proof (induction d opt n st xs leva r s rule: levar.induct)
  case (3 d opt n st env xs leva r s)
  show ?case
  proof (cases "n \<le> length (leva @ [env])")
    case True
    obtain p e s1 where p: "escrever_leva d opt (leva @ [env]) (r\<lparr>rs_records := rs_records r + 1\<rparr>) s = ((p, e), s1)"
      by (cases "escrever_leva d opt (leva @ [env]) (r\<lparr>rs_records := rs_records r + 1\<rparr>) s") auto
    then have "e = None" "levar d opt n st xs [] p s1 = ((q, None), s')" using 3 True by (cases e; simp add: Let_def)+
    then obtain envs where "xs = map Inr envs" using 3(1) [OF refl refl True p [symmetric]] p by auto
    then show ?thesis by (intro exI [of _ "env # envs"]) simp
  next
    case False
    then obtain envs where "xs = map Inr envs" using 3 by (auto simp: Let_def)
    then show ?thesis by (intro exI [of _ "env # envs"]) simp
  qed
qed auto

lemma loadWith_grava:
  assumes "nuvem_ok nv vi le" and "linhas_ok le" and "ta_to t = Some (destino_bq nv amb b)" and "ta_dedup t \<noteq> DedupMerge"
    and "vi_tabela vi s = Some (cs, rs)" and "int (length xs) < 2 ^ 63" and "loadWith t run st (Some xs) s = ((r, None), s')"
  shows "\<exists>envs data r'. xs = map Inr envs \<and> r = Some r' \<and> encodeRows nv 0 envs = Inr data \<and> vi_tabela vi s' = Some (cs, rs @ le data) \<and>
      rs_records r' = int (length envs) \<and> rs_rows r' = int (length envs)"
proof -
  let ?d = "destino_bq nv amb b" and ?opt = "options t run"
  have v: "validate t = None" using assms(7) by (auto simp: loadWith_def split: option.splits)
  have op: "wo_dedup ?opt \<noteq> DedupMerge" using assms(4) by (simp add: options_def)
  show ?thesis
  proof (cases "0 < ta_flush_every t")
    case True
    obtain q where q: "levar ?d ?opt (nat (ta_flush_every t)) st xs [] (resultado_vazio (wr_describe ?d)) s = ((q, None), s')" "r = Some q"
      using assms(3,7) v True by (auto simp: loadWith_def loadEmLevas_def Let_def split: prod.splits)
    obtain envs where xs: "xs = map Inr envs" using levar_sem_erro [OF q(1)] by blast
    have n: "0 < nat (ta_flush_every t)" using True by simp
    obtain q' where w: "escrever_todas ?d ?opt (fatiar (nat (ta_flush_every t)) envs) (resultado_vazio (wr_describe ?d)) s = ((q', None), s')"
        "da_carga q = da_carga q'" "rs_records q = int (length envs)"
      using levar_fatias [of "[]" _ _ _ _ envs, OF _ q(1) [unfolded xs]] n by (auto simp: resultado_vazio_def)
    have c: "concat (fatiar (nat (ta_flush_every t)) envs) = envs" using fatiar_junta [OF n] .
    have "\<forall>l \<in> set (fatiar (nat (ta_flush_every t)) envs). l \<noteq> []" using fatiar_tamanho by blast
    from escrever_todas_grava [OF assms(1,2) op this assms(5) _ _ w(1)]
    obtain data where d: "encodeRows nv 0 envs = Inr data" "vi_tabela vi s' = Some (cs, rs @ le data)" "rs_rows q' = int (length envs)"
      using assms(6) xs by (auto simp: c resultado_vazio_def)
    have "rs_rows q = rs_rows q'" using w(2) by (cases q; cases q') (simp add: da_carga_def)
    then show ?thesis using xs q(2) w(3) d by auto
  next
    case False
    then obtain envs where e: "collect xs = Inr envs"
      using assms(7) v by (auto simp: loadWith_def Let_def split: sum.splits)
    show ?thesis
    proof (cases "envs = []")
      case True
      then show ?thesis using assms(2,3,5,7) v False e collect_Inr [OF e]
        by (auto simp: loadWith_def Let_def linhas_ok_def com_estatisticas_def resultado_vazio_def)
    next
      case ne: False
      obtain lr s1 where w: "wr_write ?d envs ?opt s = ((lr, None), s1)" "s1 = s'"
          "r = Some (case lr of None \<Rightarrow> com_estatisticas st ((resultado_vazio (wr_describe ?d))\<lparr>rs_records := int (length envs)\<rparr>)
             | Some lr \<Rightarrow> aplica lr (com_estatisticas st ((resultado_vazio (wr_describe ?d))\<lparr>rs_records := int (length envs)\<rparr>)))"
        using assms(3,7) v False e ne by (auto simp: loadWith_def Let_def split: prod.splits)
      obtain x data where x: "lr = Some x" "encodeRows nv 0 envs = Inr data" "vi_tabela vi s1 = Some (cs, rs @ le data)" "lr_rows x = int (length envs)"
        using destino_bq_acrescenta [OF assms(1) op ne assms(5) w(1)] by blast
      then show ?thesis using w collect_Inr [OF e]
        by (intro exI [of _ envs] exI [of _ data] exI [of _ "the r"]) (simp add: aplica_def com_estatisticas_def)
    qed
  qed
qed

text \<open>
  C4: from the source to the table. A pipeline into BigQuery without a merge that ends without an error
  had a source without errors, whose records all went through the chain or were skipped by it, and the
  table has grown by exactly the rows of what came out of the chain, in order, whatever the size of the
  batches; the result counts them.
\<close>

theorem pipeline_ponta_a_ponta:
  assumes "nuvem_ok nv vi le" and "linhas_ok le" and "ta_to t = Some (destino_bq nv amb b)" and "ta_dedup t \<noteq> DedupMerge"
    and "vi_tabela vi s = Some (cs, rs)" and "runPipeline texto [] fns t run (Inr (xs, st)) s = ((r, None), s')"
    and "int (length (Transform fns xs)) < 2 ^ 63"
  shows "\<exists>vs data r'. Transform fns xs = map Item vs \<and> encodeRows nv 0 (map envelope_de vs) = Inr data \<and>
      vi_tabela vi s' = Some (cs, rs @ le data) \<and> r = Some r' \<and> rs_records r' = int (length vs) \<and> rs_rows r' = int (length vs)"
proof -
  have l: "loadWith t run st (Some (map (do_item texto) (Transform fns xs))) s = ((r, None), s')"
    using assms(6) by (auto simp: runPipeline_def split: option.splits)
  obtain envs data r' where e: "map (do_item texto) (Transform fns xs) = map Inr envs" "r = Some r'" "encodeRows nv 0 envs = Inr data"
      "vi_tabela vi s' = Some (cs, rs @ le data)" "rs_records r' = int (length envs)" "rs_rows r' = int (length envs)"
    using loadWith_grava [OF assms(1-5) _ l] assms(7) by auto
  have "ys = map Item (map ev_payload envs) \<and> envs = map envelope_de (map ev_payload envs)"
    if "map (do_item texto) ys = map Inr envs" for ys :: "string item list" and envs
    using that
  proof (induction ys arbitrary: envs)
    case (Cons y ys)
    then obtain env envs' where e: "envs = env # envs'" "do_item texto y = Inr env" "map (do_item texto) ys = map Inr envs'" by auto
    from Cons.IH [OF e(3)] have ih: "ys = map Item (map ev_payload envs')" "envs' = map envelope_de (map ev_payload envs')" by blast+
    have h: "y = Item (ev_payload env)" "env = envelope_de (ev_payload env)"
      using e(2) by (auto simp: do_item_def envelope_de_def split: item.splits)
    show ?case using ih h unfolding e(1) list.map by blast
  qed simp
  then have vs: "Transform fns xs = map Item (map ev_payload envs)" "envs = map envelope_de (map ev_payload envs)" using e(1) by blast+
  show ?thesis
    using e vs by (intro exI [of _ "map ev_payload envs"] exI [of _ data] exI [of _ r']) simp
qed

definition alvo_de_exemplo :: "int \<Rightarrow> armazem target" where
  "alvo_de_exemplo n =
     \<lparr>ta_to = Some (destino_bq nuvem_de_exemplo [] bq_de_exemplo), ta_columns = [], ta_schema = [], ta_partition_by = [], ta_dedup = [], ta_flush_every = n\<rparr>"

definition contexto_vazio :: run_context where
  "contexto_vazio = \<lparr>ctx_id = [], ctx_first = False, ctx_attempt = 0, ctx_trigger = [], ctx_logical = tempo_zero, ctx_params = []\<rparr>"

definition sem_leituras :: estatisticas where
  "sem_leituras = \<lparr>st_pages = 0, st_attempts = 0, st_bytes = 0, st_failed = []\<rparr>"

lemma le_de_ok: "linhas_ok le_de"
proof -
  have "split_on c (a @ [c]) = split_on c a @ [[]]" for c a by (induction a) (auto split: list.splits)
  moreover have "split_on c (a @ [c] @ b) = split_on c a @ split_on c b" for c a b by (induction a) (auto split: list.splits)
  ultimately have "split_on c (a @ [c] @ b) = butlast (split_on c (a @ [c])) @ split_on c b" for c a b by simp
  then have "le_de (a @ [CHR 0x0A] @ b) = le_de (a @ [CHR 0x0A]) @ le_de b" for a b
    by (simp add: le_de_def butlast_append del: append_Cons)
  then have "le_de (a @ b) = le_de a @ le_de b" if "a \<noteq> []" "last a = CHR 0x0A" for a b
    using that append_butlast_last_id [of a] by (metis append.assoc)
  then show ?thesis by (simp add: linhas_ok_def le_de_def)
qed

lemma exemplo_de_pipeline:
  "snd (fst (runPipeline (\<lambda>_ _. []) [] [] (alvo_de_exemplo 2) contexto_vazio
     (Inr (map Inr [QMap (linha_de ''a''), QMap (linha_de ''b''), QMap (linha_de ''c'')], sem_leituras)) (Some [], []))) = None"
  by code_simp

lemma pipeline_ponta_a_ponta_witness:
  "\<exists>r s. runPipeline (\<lambda>_ _. []) [] [] (alvo_de_exemplo 2) contexto_vazio
     (Inr (map Inr [QMap (linha_de ''a''), QMap (linha_de ''b''), QMap (linha_de ''c'')], sem_leituras)) (Some [], []) = ((r, None), s) \<and>
     rs_rows (the r) = 3"
proof -
  let ?xs = "map Inr [QMap (linha_de ''a''), QMap (linha_de ''b''), QMap (linha_de ''c'')] :: lidos"
  obtain r s where p: "runPipeline (\<lambda>_ _. []) [] [] (alvo_de_exemplo 2) contexto_vazio (Inr (?xs, sem_leituras)) (Some [], []) = ((r, None), s)"
    using exemplo_de_pipeline by (metis prod.collapse)
  have "ta_dedup (alvo_de_exemplo 2) \<noteq> DedupMerge" by (simp add: alvo_de_exemplo_def DedupMerge_def)
  from pipeline_ponta_a_ponta [OF nuvem_de_exemplo_ok le_de_ok _ this _ p]
  show ?thesis using p by (force simp: alvo_de_exemplo_def visao_de_exemplo_def Transform_def)
qed

lemma loadEmLevas_fatia_witness:
  "\<exists>q s. loadEmLevas (destino_bq nuvem_de_exemplo [] bq_de_exemplo) (alvo_de_exemplo 2) contexto_vazio sem_leituras
     (map Inr [registro_de ''a'', registro_de ''b'', registro_de ''c'']) (Some [], []) = ((q, None), s) \<and> rs_records q = 3"
proof -
  have "snd (fst (loadEmLevas (destino_bq nuvem_de_exemplo [] bq_de_exemplo) (alvo_de_exemplo 2) contexto_vazio sem_leituras
     (map Inr [registro_de ''a'', registro_de ''b'', registro_de ''c'']) (Some [], []))) = None" by code_simp
  then obtain q s where l: "loadEmLevas (destino_bq nuvem_de_exemplo [] bq_de_exemplo) (alvo_de_exemplo 2) contexto_vazio sem_leituras
     (map Inr [registro_de ''a'', registro_de ''b'', registro_de ''c'']) (Some [], []) = ((q, None), s)" by (metis prod.collapse)
  have "0 < ta_flush_every (alvo_de_exemplo 2)" by (simp add: alvo_de_exemplo_def)
  from loadEmLevas_fatia [OF this l] show ?thesis using l by auto
qed

end
