(* ===== verification/Muitas.thy ===== *)
theory Muitas
  imports Fachada
begin

text \<open>
  Reading many sources as one (\<open>sdk/from/many.go\<close>): workers take the indices of the sources from a channel and
  send what they read over another, to the one loop that yields. Both channels are unbuffered, so a step of
  the relation is one exchange over a channel, or one goroutine leaving. What a source gives is a parameter.
\<close>

section \<open>The sources and their readers\<close>

datatype politica = AbortOnError | ContinueOnError

text \<open>What opening a source gives, and what it counts when it was read to its end.\<close>

record 'a origem =
  or_descreve :: string
  or_le :: "string + (string + 'a) list"
  or_conta :: "int \<times> int \<times> int"        \<comment> \<open>pages, attempts, bytes\<close>

datatype erro_muitas = SourcesEDiscover | Descobrindo string | DiscoverVazio | SemOrigens | OrigemNil nat

record 'a many =
  my_sources :: "'a origem option list"
  my_discover :: "(string + 'a origem option list) option"
  my_workers :: int
  my_on_error :: politica

fun primeira_nil :: "nat \<Rightarrow> 'b option list \<Rightarrow> nat option" where
  "primeira_nil i [] = None"
| "primeira_nil i (None # os) = Some i"
| "primeira_nil i (Some _ # os) = primeira_nil (Suc i) os"

definition trabalhadores :: "int \<Rightarrow> nat \<Rightarrow> nat" where
  "trabalhadores workers n = (let t = (if workers < 1 then 1 else workers) in if int n < t then n else nat t)"

text \<open>What \<open>Read\<close> checks before the first goroutine: the sources, and how many workers read them.\<close>

definition preparar_muitas :: "'a many \<Rightarrow> erro_muitas + 'a origem list \<times> nat" where
  "preparar_muitas m =
     (if my_sources m \<noteq> [] \<and> my_discover m \<noteq> None then Inl SourcesEDiscover
      else
        (case (case my_discover m of None \<Rightarrow> Inr (my_sources m) | Some (Inl e) \<Rightarrow> Inl (Descobrindo e) | Some (Inr os) \<Rightarrow> Inr os) of
           Inl e \<Rightarrow> Inl e
         | Inr os \<Rightarrow>
             if os = [] then Inl (if my_discover m \<noteq> None then DiscoverVazio else SemOrigens)
             else (case primeira_nil 0 os of
                     Some i \<Rightarrow> Inl (OrigemNil i)
                   | None \<Rightarrow> Inr (map the os, trabalhadores (my_workers m) (length os)))))"

section \<open>The goroutines\<close>

text \<open>A worker that waits for an index, has an opening error to send, has the rest of a source to send, or left.\<close>

datatype 'a trabalhador = Livre | Abriu nat string | Lendo nat "(string + 'a) list" | Saiu

datatype fase = Ouvindo | Drenando | Acabou

text \<open>
  \<open>mu_linhas\<close> is what was yielded, each with the source it came from; \<open>mu_erro\<close> is the error yielded by an
  abort.
\<close>

record 'a muitas =
  mu_prox :: nat
  mu_fechada :: bool
  mu_trab :: "'a trabalhador list"
  mu_cancelado :: bool
  mu_fase :: fase
  mu_linhas :: "(nat \<times> 'a) list"
  mu_falhas :: "(nat \<times> string) list"
  mu_erro :: "(nat \<times> string) option"
  mu_total :: "int \<times> int \<times> int"

definition soma3 :: "int \<times> int \<times> int \<Rightarrow> int \<times> int \<times> int \<Rightarrow> int \<times> int \<times> int" where
  "soma3 a b = (case (a, b) of ((p, t, y), (p', t', y')) \<Rightarrow> (p + p', t + t', y + y'))"

text \<open>Reading stops at the first error of a source.\<close>

fun ate_erro :: "(string + 'a) list \<Rightarrow> (string + 'a) list" where
  "ate_erro [] = []"
| "ate_erro (Inl e # ls) = [Inl e]"
| "ate_erro (Inr x # ls) = Inr x # ate_erro ls"

definition abrir_origem :: "'a origem list \<Rightarrow> nat \<Rightarrow> 'a trabalhador" where
  "abrir_origem os i = (case or_le (os ! i) of Inl e \<Rightarrow> Abriu i e | Inr ls \<Rightarrow> Lendo i (ate_erro ls))"

text \<open>The consumer; \<open>para\<close> tells when the caller of the sequence breaks out of it.\<close>

definition receber :: "politica \<Rightarrow> ('a list \<Rightarrow> bool) \<Rightarrow> nat \<Rightarrow> string + 'a \<Rightarrow> 'a muitas \<Rightarrow> 'a muitas" where
  "receber pol para i r s =
     (if mu_fase s \<noteq> Ouvindo then s
      else (case r of
              Inl e \<Rightarrow>
                if pol \<noteq> ContinueOnError then s\<lparr>mu_erro := Some (i, e), mu_cancelado := True, mu_fase := Drenando\<rparr>
                else s\<lparr>mu_falhas := mu_falhas s @ [(i, e)]\<rparr>
            | Inr x \<Rightarrow>
                (let ls = mu_linhas s @ [(i, x)] in
                 if para (map snd ls) then s\<lparr>mu_linhas := ls, mu_cancelado := True, mu_fase := Drenando\<rparr> else s\<lparr>mu_linhas := ls\<rparr>)))"

definition inicio_muitas :: "nat \<Rightarrow> 'a muitas" where
  "inicio_muitas t =
     \<lparr>mu_prox = 0, mu_fechada = False, mu_trab = replicate t Livre, mu_cancelado = False, mu_fase = Ouvindo,
      mu_linhas = [], mu_falhas = [], mu_erro = None, mu_total = (0, 0, 0)\<rparr>"

definition poe_trab :: "nat \<Rightarrow> 'a trabalhador \<Rightarrow> 'a muitas \<Rightarrow> 'a muitas" where
  "poe_trab w t s = s\<lparr>mu_trab := (mu_trab s)[w := t]\<rparr>"

text \<open>
  One exchange or one departure. A \<open>select\<close> with a cancelled context may go either way; the last loop drains
  the channel until every worker has left.
\<close>

inductive passo_muitas :: "'a origem list \<Rightarrow> politica \<Rightarrow> ('a list \<Rightarrow> bool) \<Rightarrow> 'a muitas \<Rightarrow> 'a muitas \<Rightarrow> bool"
  for os :: "'a origem list" and pol :: politica and para :: "'a list \<Rightarrow> bool" where
  pega: "w < length (mu_trab s) \<Longrightarrow> mu_trab s ! w = Livre \<Longrightarrow> \<not> mu_fechada s \<Longrightarrow> mu_prox s < length os \<Longrightarrow>
    passo_muitas os pol para s ((poe_trab w (abrir_origem os (mu_prox s)) s)\<lparr>mu_prox := Suc (mu_prox s)\<rparr>)"
| envia_abertura: "w < length (mu_trab s) \<Longrightarrow> mu_trab s ! w = Abriu i e \<Longrightarrow>
    passo_muitas os pol para s (receber pol para i (Inl e) (poe_trab w Livre s))"
| desiste_abertura: "w < length (mu_trab s) \<Longrightarrow> mu_trab s ! w = Abriu i e \<Longrightarrow> mu_cancelado s \<Longrightarrow>
    passo_muitas os pol para s (poe_trab w Livre s)"
| envia: "w < length (mu_trab s) \<Longrightarrow> mu_trab s ! w = Lendo i (r # rs) \<Longrightarrow>
    passo_muitas os pol para s (receber pol para i r (poe_trab w (Lendo i rs) s))"
| desiste: "w < length (mu_trab s) \<Longrightarrow> mu_trab s ! w = Lendo i (r # rs) \<Longrightarrow> mu_cancelado s \<Longrightarrow>
    passo_muitas os pol para s (poe_trab w Saiu s)"
| fim_da_origem: "w < length (mu_trab s) \<Longrightarrow> mu_trab s ! w = Lendo i [] \<Longrightarrow>
    passo_muitas os pol para s ((poe_trab w Livre s)\<lparr>mu_total := soma3 (mu_total s) (or_conta (os ! i))\<rparr>)"
| fecha: "\<not> mu_fechada s \<Longrightarrow> mu_prox s = length os \<or> mu_cancelado s \<Longrightarrow> passo_muitas os pol para s (s\<lparr>mu_fechada := True\<rparr>)"
| sai: "w < length (mu_trab s) \<Longrightarrow> mu_trab s ! w = Livre \<Longrightarrow> mu_fechada s \<Longrightarrow> passo_muitas os pol para s (poe_trab w Saiu s)"
| acaba: "mu_fase s \<noteq> Acabou \<Longrightarrow> \<forall>t \<in> set (mu_trab s). t = Saiu \<Longrightarrow>
    passo_muitas os pol para s (s\<lparr>mu_fase := Acabou, mu_cancelado := True\<rparr>)"

definition alcanca :: "'a origem list \<Rightarrow> politica \<Rightarrow> ('a list \<Rightarrow> bool) \<Rightarrow> nat \<Rightarrow> 'a muitas \<Rightarrow> bool" where
  "alcanca os pol para t = (passo_muitas os pol para)\<^sup>*\<^sup>* (inicio_muitas t)"

section \<open>What is published at the end\<close>

definition por_nome :: "'a origem list \<Rightarrow> (nat \<times> string) list \<Rightarrow> (string \<times> string) list" where
  "por_nome os fs = sort_key fst (map (\<lambda>(i, e). (or_descreve (os ! i), e)) fs)"

definition publicar :: "'a origem list \<Rightarrow> 'a muitas \<Rightarrow> estatisticas \<Rightarrow> estatisticas" where
  "publicar os s st =
     (if mu_erro s \<noteq> None then st
      else (case mu_total s of (p, t, b) \<Rightarrow>
              st\<lparr>st_pages := st_pages st + p, st_attempts := st_attempts st + t, st_bytes := st_bytes st + b,
                 st_failed := por_nome os (mu_falhas s)\<rparr>))"

datatype erro_final = FonteFalhou string string | TodasFalharam nat string string

text \<open>The error that is yielded last, if any.\<close>

definition erro_da_leitura :: "'a origem list \<Rightarrow> 'a muitas \<Rightarrow> erro_final option" where
  "erro_da_leitura os s =
     (case mu_erro s of
        Some (i, e) \<Rightarrow> Some (FonteFalhou (or_descreve (os ! i)) e)
      | None \<Rightarrow>
          if mu_linhas s = [] \<and> length (mu_falhas s) = length os
          then (case mu_falhas s of (i, e) # _ \<Rightarrow> Some (TodasFalharam (length os) (or_descreve (os ! i)) e) | [] \<Rightarrow> None)
          else None)"

section \<open>The invariant\<close>

definition saidas :: "'a origem \<Rightarrow> (string + 'a) list" where
  "saidas o' = (case or_le o' of Inl e \<Rightarrow> [Inl e] | Inr ls \<Rightarrow> ate_erro ls)"

definition linhas_de :: "(string + 'a) list \<Rightarrow> 'a list" where
  "linhas_de = List.map_filter (\<lambda>r. case r of Inl _ \<Rightarrow> None | Inr x \<Rightarrow> Some x)"

definition erros_de :: "(string + 'a) list \<Rightarrow> string list" where
  "erros_de = List.map_filter (\<lambda>r. case r of Inl e \<Rightarrow> Some e | Inr _ \<Rightarrow> None)"

lemma linhas_de_simps [simp]:
  "linhas_de [] = []" "linhas_de (Inl e # rs) = linhas_de rs" "linhas_de (Inr x # rs) = x # linhas_de rs"
  "erros_de [] = []" "erros_de (Inl e # rs) = e # erros_de rs" "erros_de (Inr x # rs) = erros_de rs"
  by (simp_all add: linhas_de_def erros_de_def map_filter_simps)

fun dono :: "'a trabalhador \<Rightarrow> nat option" where
  "dono (Abriu i _) = Some i"
| "dono (Lendo i _) = Some i"
| "dono _ = None"

fun falta :: "'a trabalhador \<Rightarrow> (string + 'a) list" where
  "falta (Abriu i e) = [Inl e]"
| "falta (Lendo i rs) = rs"
| "falta _ = []"

definition da_origem :: "nat \<Rightarrow> (nat \<times> 'b) list \<Rightarrow> 'b list" where
  "da_origem i ps = map snd (filter (\<lambda>p. fst p = i) ps)"

lemma da_origem_simps [simp]: "da_origem i [] = []" "da_origem i (ps @ [(j, x)]) = da_origem i ps @ (if j = i then [x] else [])"
  by (simp_all add: da_origem_def)

lemma abrir_origem_dono [simp]: "dono (abrir_origem os i) = Some i" "falta (abrir_origem os i) = saidas (os ! i)"
  by (simp_all add: abrir_origem_def saidas_def split: sum.splits)

text \<open>Where a source is: with one worker at most, and what was received of it plus what that worker has is all it gives.\<close>

definition dono_de :: "'a muitas \<Rightarrow> nat \<Rightarrow> nat option" where
  "dono_de s w = (if w < length (mu_trab s) then dono (mu_trab s ! w) else None)"

definition falta_de :: "'a muitas \<Rightarrow> nat \<Rightarrow> (string + 'a) list" where
  "falta_de s w = falta (mu_trab s ! w)"

definition posse_ok :: "'a muitas \<Rightarrow> bool" where
  "posse_ok s \<longleftrightarrow> (\<forall>w i. dono_de s w = Some i \<longrightarrow> i < mu_prox s) \<and> (\<forall>w v i. dono_de s w = Some i \<longrightarrow> dono_de s v = Some i \<longrightarrow> w = v)"

definition recebido_ok :: "'a origem list \<Rightarrow> 'a muitas \<Rightarrow> bool" where
  "recebido_ok os s \<longleftrightarrow>
     (\<forall>w i. dono_de s w = Some i \<longrightarrow>
        da_origem i (mu_linhas s) @ linhas_de (falta_de s w) = linhas_de (saidas (os ! i)) \<and>
        da_origem i (mu_falhas s) @ erros_de (falta_de s w) = erros_de (saidas (os ! i))) \<and>
     (\<forall>i < mu_prox s. (\<forall>w. dono_de s w \<noteq> Some i) \<longrightarrow>
        da_origem i (mu_linhas s) = linhas_de (saidas (os ! i)) \<and> da_origem i (mu_falhas s) = erros_de (saidas (os ! i))) \<and>
     (\<forall>i \<ge> mu_prox s. da_origem i (mu_linhas s) = [] \<and> da_origem i (mu_falhas s) = [])"

definition parte_recebida :: "'a origem list \<Rightarrow> 'a muitas \<Rightarrow> bool" where
  "parte_recebida os s \<longleftrightarrow>
     (\<forall>i. prefix (da_origem i (mu_linhas s)) (if i < length os then linhas_de (saidas (os ! i)) else []) \<and>
          prefix (da_origem i (mu_falhas s)) (if i < length os then erros_de (saidas (os ! i)) else []))"

lemma recebido_parte:
  assumes "recebido_ok os s" and "mu_prox s \<le> length os"
  shows "parte_recebida os s"
proof -
  have "prefix (da_origem i (mu_linhas s)) (if i < length os then linhas_de (saidas (os ! i)) else []) \<and>
        prefix (da_origem i (mu_falhas s)) (if i < length os then erros_de (saidas (os ! i)) else [])" for i
  proof (cases "i < mu_prox s")
    case True
    show ?thesis
    proof (cases "\<forall>w. dono_de s w \<noteq> Some i")
      case False
      then obtain w where "dono_de s w = Some i" by blast
      then have "prefix (da_origem i (mu_linhas s)) (linhas_de (saidas (os ! i))) \<and> prefix (da_origem i (mu_falhas s)) (erros_de (saidas (os ! i)))"
        using assms(1) unfolding recebido_ok_def by (metis prefixI)
      then show ?thesis using True assms(2) by simp
    qed (use True assms in \<open>simp add: recebido_ok_def\<close>)
  qed (use assms(1) in \<open>simp add: recebido_ok_def\<close>)
  then show ?thesis by (simp add: parte_recebida_def)
qed

text \<open>What a worker at \<open>w\<close> does to the ownership.\<close>

lemma dono_de_poe:
  assumes "w < length (mu_trab s)"
  shows "dono_de (poe_trab w t s) = (dono_de s)(w := dono t)" "falta_de (poe_trab w t s) = (falta_de s)(w := falta t)"
  using assms by (auto simp: dono_de_def falta_de_def poe_trab_def fun_eq_iff nth_list_update)

lemma campos_poe [simp]:
  "mu_prox (poe_trab w t s) = mu_prox s" "mu_linhas (poe_trab w t s) = mu_linhas s" "mu_falhas (poe_trab w t s) = mu_falhas s"
  "mu_fase (poe_trab w t s) = mu_fase s" "mu_fechada (poe_trab w t s) = mu_fechada s" "mu_cancelado (poe_trab w t s) = mu_cancelado s"
  "mu_erro (poe_trab w t s) = mu_erro s" "mu_total (poe_trab w t s) = mu_total s" "length (mu_trab (poe_trab w t s)) = length (mu_trab s)"
  by (simp_all add: poe_trab_def)

lemma dono_de_campos [simp]:
  "dono_de (s\<lparr>mu_prox := n\<rparr>) = dono_de s" "dono_de (s\<lparr>mu_total := x\<rparr>) = dono_de s" "dono_de (s\<lparr>mu_fechada := b\<rparr>) = dono_de s"
  "dono_de (s\<lparr>mu_fase := f, mu_cancelado := b\<rparr>) = dono_de s"
  "falta_de (s\<lparr>mu_prox := n\<rparr>) = falta_de s" "falta_de (s\<lparr>mu_total := x\<rparr>) = falta_de s" "falta_de (s\<lparr>mu_fechada := b\<rparr>) = falta_de s"
  "falta_de (s\<lparr>mu_fase := f, mu_cancelado := b\<rparr>) = falta_de s"
  by (auto simp: dono_de_def falta_de_def fun_eq_iff)

lemma receber_campos [simp]:
  "dono_de (receber pol para i r s) = dono_de s" "falta_de (receber pol para i r s) = falta_de s"
  "mu_prox (receber pol para i r s) = mu_prox s" "mu_trab (receber pol para i r s) = mu_trab s"
  "mu_fechada (receber pol para i r s) = mu_fechada s" "mu_total (receber pol para i r s) = mu_total s"
  by (auto simp: receber_def Let_def dono_de_def falta_de_def fun_eq_iff split: sum.splits)

lemma posse_pega:
  assumes "posse_ok s" and "w < length (mu_trab s)" and "dono t = Some (mu_prox s)"
  shows "posse_ok ((poe_trab w t s)\<lparr>mu_prox := Suc (mu_prox s)\<rparr>)"
  using assms unfolding posse_ok_def by (auto simp: dono_de_poe less_Suc_eq)

lemma posse_mantem:
  assumes "posse_ok s" and "w < length (mu_trab s)" and "dono t = None \<or> dono t = dono_de s w"
  shows "posse_ok (poe_trab w t s)"
proof (cases "dono t")
  case None
  then show ?thesis using assms(1,2) by (simp add: posse_ok_def dono_de_poe)
next
  case (Some i)
  then have "(dono_de s)(w := dono t) = dono_de s" using assms(3) by auto
  then show ?thesis using assms(1,2) by (simp add: posse_ok_def dono_de_poe)
qed

text \<open>One lemma per exchange.\<close>

lemma pega_recebido:
  assumes "recebido_ok os s" and "posse_ok s" and "w < length (mu_trab s)" and "dono_de s w = None"
  shows "recebido_ok os ((poe_trab w (abrir_origem os (mu_prox s)) s)\<lparr>mu_prox := Suc (mu_prox s)\<rparr>)"
proof -
  let ?s = "(poe_trab w (abrir_origem os (mu_prox s)) s)\<lparr>mu_prox := Suc (mu_prox s)\<rparr>"
  have d: "dono_de ?s = (dono_de s)(w := Some (mu_prox s))" "falta_de ?s = (falta_de s)(w := saidas (os ! mu_prox s))"
    using assms(3) by (simp_all add: dono_de_poe)
  have m: "mu_linhas ?s = mu_linhas s" "mu_falhas ?s = mu_falhas s" "mu_prox ?s = Suc (mu_prox s)" by simp_all
  note r = assms(1) [unfolded recebido_ok_def]
  show ?thesis unfolding recebido_ok_def m
  proof (intro conjI)
    show "\<forall>v i. dono_de ?s v = Some i \<longrightarrow>
        da_origem i (mu_linhas s) @ linhas_de (falta_de ?s v) = linhas_de (saidas (os ! i)) \<and>
        da_origem i (mu_falhas s) @ erros_de (falta_de ?s v) = erros_de (saidas (os ! i))"
      using r unfolding d by auto
    show "\<forall>i < Suc (mu_prox s). (\<forall>v. dono_de ?s v \<noteq> Some i) \<longrightarrow>
        da_origem i (mu_linhas s) = linhas_de (saidas (os ! i)) \<and> da_origem i (mu_falhas s) = erros_de (saidas (os ! i))"
    proof (intro allI impI)
      fix i
      assume i: "i < Suc (mu_prox s)" "\<forall>v. dono_de ?s v \<noteq> Some i"
      then have "i \<noteq> mu_prox s" unfolding d by (metis fun_upd_same)
      moreover have "\<forall>v. dono_de s v \<noteq> Some i" using i(2) assms(4) unfolding d by (metis fun_upd_apply option.distinct(1))
      ultimately show "da_origem i (mu_linhas s) = linhas_de (saidas (os ! i)) \<and> da_origem i (mu_falhas s) = erros_de (saidas (os ! i))"
        using r i(1) by simp
    qed
    show "\<forall>i \<ge> Suc (mu_prox s). da_origem i (mu_linhas s) = [] \<and> da_origem i (mu_falhas s) = []" using r by simp
  qed
qed

lemma fim_recebido:
  assumes "recebido_ok os s" and "posse_ok s" and "w < length (mu_trab s)" and "dono_de s w = Some i" and "falta_de s w = []" and "dono t = None"
  shows "recebido_ok os ((poe_trab w t s)\<lparr>mu_total := x\<rparr>)"
proof -
  let ?d = "(dono_de s)(w := None)"
  have l: "(\<forall>v. ?d v \<noteq> Some k) \<longleftrightarrow> (\<forall>v. dono_de s v \<noteq> Some k) \<or> k = i" for k
    using assms(2,4) unfolding posse_ok_def by (metis fun_upd_apply option.distinct(1) option.inject)
  have "da_origem i (mu_linhas s) = linhas_de (saidas (os ! i)) \<and> da_origem i (mu_falhas s) = erros_de (saidas (os ! i))"
    using assms(1,4,5) unfolding recebido_ok_def by (metis append.right_neutral linhas_de_simps(1,4))
  note i = this
  note r = assms(1) [unfolded recebido_ok_def]
  have d: "dono_de (poe_trab w t s) = ?d" "falta_de (poe_trab w t s) = (falta_de s)(w := falta t)"
    using dono_de_poe [OF assms(3)] assms(6) by simp_all
  show ?thesis unfolding recebido_ok_def dono_de_campos d
  proof (intro conjI)
    show "\<forall>k < mu_prox ((poe_trab w t s)\<lparr>mu_total := x\<rparr>). (\<forall>v. ?d v \<noteq> Some k) \<longrightarrow>
        da_origem k (mu_linhas ((poe_trab w t s)\<lparr>mu_total := x\<rparr>)) = linhas_de (saidas (os ! k)) \<and>
        da_origem k (mu_falhas ((poe_trab w t s)\<lparr>mu_total := x\<rparr>)) = erros_de (saidas (os ! k))"
      unfolding l using r i by auto
  qed (use r in \<open>simp_all\<close>)
qed

lemma poe_poe [simp]: "poe_trab w t (poe_trab w u s) = poe_trab w t s"
  by (simp add: poe_trab_def)

lemma receber_poe: "receber pol para i r (poe_trab w t s) = poe_trab w t (receber pol para i r s)"
  by (simp add: receber_def poe_trab_def Let_def split: sum.split)

lemma recebe_recebido:
  assumes "recebido_ok os s" and "posse_ok s" and "w < length (mu_trab s)" and "dono_de s w = Some i" and "falta_de s w = r # rs"
    and "s' = poe_trab w (Lendo i rs) (s\<lparr>mu_linhas := mu_linhas s @ (case r of Inl _ \<Rightarrow> [] | Inr x \<Rightarrow> [(i, x)]),
                  mu_falhas := mu_falhas s @ (case r of Inl e \<Rightarrow> [(i, e)] | Inr _ \<Rightarrow> [])\<rparr>)"
  shows "recebido_ok os s'"
proof -
  note r = assms(1) [unfolded recebido_ok_def]
  have d: "dono_de s' = dono_de s" "falta_de s' = (falta_de s)(w := rs)"
    using assms(3,4) unfolding assms(6) by (auto simp: dono_de_def falta_de_def poe_trab_def fun_eq_iff nth_list_update)
  have o': "da_origem k (mu_linhas s') = da_origem k (mu_linhas s) @ (if k = i then linhas_de [r] else [])"
    "da_origem k (mu_falhas s') = da_origem k (mu_falhas s) @ (if k = i then erros_de [r] else [])" for k
    unfolding assms(6) by (auto split: sum.split)
  have w: "dono_de s v = Some i \<longleftrightarrow> v = w" for v using assms(2,4) unfolding posse_ok_def by blast
  have i: "i < mu_prox s" using assms(2,4) unfolding posse_ok_def by blast
  have p: "mu_prox s' = mu_prox s" by (simp add: assms(6))
  have a: "linhas_de (r # rs) = linhas_de [r] @ linhas_de rs" "erros_de (r # rs) = erros_de [r] @ erros_de rs"
    by (cases r; simp)+
  show ?thesis unfolding recebido_ok_def p d(1)
  proof (intro conjI allI impI)
    fix v k
    assume v: "dono_de s v = Some k"
    have "da_origem k (mu_linhas s') @ linhas_de (falta_de s' v) = linhas_de (saidas (os ! k)) \<and>
      da_origem k (mu_falhas s') @ erros_de (falta_de s' v) = erros_de (saidas (os ! k))"
    proof (cases "k = i")
      case True
      then have f: "falta_de s' v = rs" using v w by (simp add: d)
      have "da_origem i (mu_linhas s) @ linhas_de (r # rs) = linhas_de (saidas (os ! i))"
        "da_origem i (mu_falhas s) @ erros_de (r # rs) = erros_de (saidas (os ! i))" using r assms(4,5) by metis+
      then show ?thesis using True a f by (simp add: o')
    next
      case False
      then have "falta_de s' v = falta_de s v" using v assms(4) by (auto simp: d)
      moreover have "da_origem k (mu_linhas s) @ linhas_de (falta_de s v) = linhas_de (saidas (os ! k))"
        "da_origem k (mu_falhas s) @ erros_de (falta_de s v) = erros_de (saidas (os ! k))" using r v by blast+
      ultimately show ?thesis using False by (simp add: o')
    qed
    then show "da_origem k (mu_linhas s') @ linhas_de (falta_de s' v) = linhas_de (saidas (os ! k))"
      "da_origem k (mu_falhas s') @ erros_de (falta_de s' v) = erros_de (saidas (os ! k))" by simp_all
  next
    fix k
    assume k: "k < mu_prox s" "\<forall>v. dono_de s v \<noteq> Some k"
    then have "k \<noteq> i" using assms(4) by metis
    then show "da_origem k (mu_linhas s') = linhas_de (saidas (os ! k))" "da_origem k (mu_falhas s') = erros_de (saidas (os ! k))"
      using r k by (simp_all add: o')
  next
    fix k
    assume "mu_prox s \<le> k"
    then show "da_origem k (mu_linhas s') = []" "da_origem k (mu_falhas s') = []" using r i by (auto simp: o')
  qed
qed

text \<open>What was counted: the sources that opened and that no worker holds any more.\<close>

definition lidas :: "'a origem list \<Rightarrow> 'a muitas \<Rightarrow> nat set" where
  "lidas os s = {i. i < mu_prox s \<and> (\<exists>ls. or_le (os ! i) = Inr ls) \<and> (\<forall>w. dono_de s w \<noteq> Some i)}"

definition contagem :: "'a origem list \<Rightarrow> nat set \<Rightarrow> int \<times> int \<times> int" where
  "contagem os A = (\<Sum>i\<in>A. fst (or_conta (os ! i)), \<Sum>i\<in>A. fst (snd (or_conta (os ! i))), \<Sum>i\<in>A. snd (snd (or_conta (os ! i))))"

lemma contagem_insert: "finite A \<Longrightarrow> i \<notin> A \<Longrightarrow> contagem os (insert i A) = soma3 (contagem os A) (or_conta (os ! i))"
  by (simp add: contagem_def soma3_def split: prod.split)

lemma finite_lidas [simp]: "finite (lidas os s)"
  by (rule finite_subset [of _ "{..<mu_prox s}"]) (auto simp: lidas_def)

lemma lidas_campos [simp]:
  "lidas os (s\<lparr>mu_total := x\<rparr>) = lidas os s" "lidas os (s\<lparr>mu_fechada := b\<rparr>) = lidas os s"
  "lidas os (s\<lparr>mu_fase := f, mu_cancelado := b\<rparr>) = lidas os s" "lidas os (receber pol para i r s) = lidas os s"
  by (simp_all add: lidas_def)

lemma lidas_pega:
  assumes "w < length (mu_trab s)" and "dono_de s w = None" and "dono t = Some (mu_prox s)"
  shows "lidas os ((poe_trab w t s)\<lparr>mu_prox := Suc (mu_prox s)\<rparr>) = lidas os s"
proof -
  have "(\<forall>v. ((dono_de s)(w := Some (mu_prox s))) v \<noteq> Some i) \<longleftrightarrow> (\<forall>v. dono_de s v \<noteq> Some i) \<and> i \<noteq> mu_prox s" for i
    using assms(2) by (metis fun_upd_apply option.distinct(1) option.inject)
  then show ?thesis using assms(1,3) by (auto simp: lidas_def dono_de_poe less_Suc_eq)
qed

lemma lidas_larga:
  assumes "posse_ok s" and "w < length (mu_trab s)" and "dono_de s w = Some i" and "dono t = None"
  shows "lidas os (poe_trab w t s) = (if \<exists>ls. or_le (os ! i) = Inr ls then insert i (lidas os s) else lidas os s)" "i \<notin> lidas os s"
proof -
  have l: "(\<forall>v. ((dono_de s)(w := None)) v \<noteq> Some k) \<longleftrightarrow> (\<forall>v. dono_de s v \<noteq> Some k) \<or> k = i" for k
    using assms(1,3) unfolding posse_ok_def by (metis fun_upd_apply option.distinct(1) option.inject)
  have "i < mu_prox s" using assms(1,3) by (simp add: posse_ok_def)
  then show "lidas os (poe_trab w t s) = (if \<exists>ls. or_le (os ! i) = Inr ls then insert i (lidas os s) else lidas os s)"
    using assms(2,4) l by (auto simp: lidas_def dono_de_poe)
  show "i \<notin> lidas os s" using assms(3) by (auto simp: lidas_def)
qed

lemma lidas_segura:
  assumes "w < length (mu_trab s)" and "dono t = dono_de s w"
  shows "lidas os (poe_trab w t s) = lidas os s"
proof -
  have "(dono_de s)(w := dono t) = dono_de s" using assms(2) by auto
  then show ?thesis using assms(1) by (simp add: lidas_def dono_de_poe)
qed

definition tudo_recebido :: "'a origem list \<Rightarrow> 'a muitas \<Rightarrow> bool" where
  "tudo_recebido os s \<longleftrightarrow>
     (\<forall>i < length os. da_origem i (mu_linhas s) = linhas_de (saidas (os ! i)) \<and> da_origem i (mu_falhas s) = erros_de (saidas (os ! i))) \<and>
     mu_total s = contagem os {i. i < length os \<and> (\<exists>ls. or_le (os ! i) = Inr ls)}"

definition base_ok :: "'a origem list \<Rightarrow> politica \<Rightarrow> nat \<Rightarrow> 'a muitas \<Rightarrow> bool" where
  "base_ok os pol t s \<longleftrightarrow>
     length (mu_trab s) = t \<and> mu_prox s \<le> length os \<and> parte_recebida os s \<and> (pol = AbortOnError \<longrightarrow> mu_falhas s = []) \<and>
     (\<forall>i e. mu_erro s = Some (i, e) \<longrightarrow> pol = AbortOnError \<and> i < length os \<and> e \<in> set (erros_de (saidas (os ! i))))"

definition ouvindo_ok :: "'a origem list \<Rightarrow> 'a muitas \<Rightarrow> bool" where
  "ouvindo_ok os s \<longleftrightarrow>
     \<not> mu_cancelado s \<and> mu_erro s = None \<and> posse_ok s \<and> recebido_ok os s \<and> mu_total s = contagem os (lidas os s) \<and>
     (mu_fechada s \<longrightarrow> mu_prox s = length os) \<and> (Saiu \<in> set (mu_trab s) \<longrightarrow> mu_fechada s)"

definition fechando_ok :: "'a origem list \<Rightarrow> ('a list \<Rightarrow> bool) \<Rightarrow> 'a muitas \<Rightarrow> bool" where
  "fechando_ok os para s \<longleftrightarrow>
     mu_cancelado s \<and> (mu_fase s = Acabou \<longrightarrow> (\<forall>x \<in> set (mu_trab s). x = Saiu)) \<and>
     (mu_fase s = Acabou \<and> tudo_recebido os s \<or> mu_erro s \<noteq> None \<or> para (map snd (mu_linhas s)))"

definition muitas_ok :: "'a origem list \<Rightarrow> politica \<Rightarrow> ('a list \<Rightarrow> bool) \<Rightarrow> nat \<Rightarrow> 'a muitas \<Rightarrow> bool" where
  "muitas_ok os pol para t s \<longleftrightarrow> base_ok os pol t s \<and> (if mu_fase s = Ouvindo then ouvindo_ok os s else fechando_ok os para s)"

lemma base_ok_congela:
  assumes "base_ok os pol t s" and "length (mu_trab s') = length (mu_trab s)" and "mu_prox s' \<le> length os"
    and "mu_linhas s' = mu_linhas s" and "mu_falhas s' = mu_falhas s" and "mu_erro s' = mu_erro s"
  shows "base_ok os pol t s'"
  using assms by (simp add: base_ok_def parte_recebida_def)

lemma acabou_passo:
  assumes "passo_muitas os pol para s s'" and "mu_fase s = Acabou" and "\<forall>x \<in> set (mu_trab s). x = Saiu"
  shows "s' = s\<lparr>mu_fechada := True\<rparr>"
proof -
  have "mu_trab s ! w = Saiu" if "w < length (mu_trab s)" for w using assms(3) that by simp
  then have "\<And>w t. w < length (mu_trab s) \<Longrightarrow> mu_trab s ! w = t \<Longrightarrow> t = Saiu" by simp
  with assms(1) assms(2) show ?thesis by cases auto
qed

lemma drenando_passo:
  assumes "passo_muitas os pol para s s'" and "mu_fase s = Drenando" and "mu_prox s \<le> length os" and "mu_cancelado s"
  shows "(mu_fase s' = Drenando \<or> mu_fase s' = Acabou \<and> (\<forall>x \<in> set (mu_trab s'). x = Saiu)) \<and> mu_cancelado s' \<and>
    length (mu_trab s') = length (mu_trab s) \<and> mu_prox s' \<le> length os \<and>
    mu_linhas s' = mu_linhas s \<and> mu_falhas s' = mu_falhas s \<and> mu_erro s' = mu_erro s"
proof -
  have r: "receber pol para i r x = x" if "mu_fase x = Drenando" for i r and x :: "'a muitas" using that by (simp add: receber_def)
  show ?thesis using assms by cases (simp_all add: r)
qed

text \<open>Once the loop has ended nothing is delivered any more.\<close>

lemma fechando_mantem:
  assumes "passo_muitas os pol para s s'" and "mu_fase s \<noteq> Ouvindo" and "base_ok os pol t s" and "fechando_ok os para s"
  shows "mu_fase s' \<noteq> Ouvindo \<and> base_ok os pol t s' \<and> fechando_ok os para s'"
proof (cases "mu_fase s")
  case Drenando
  have "mu_prox s \<le> length os" "mu_cancelado s" using assms(3,4) by (simp_all add: base_ok_def fechando_ok_def)
  note d = drenando_passo [OF assms(1) Drenando this]
  then have "base_ok os pol t s'" using base_ok_congela [OF assms(3)] by blast
  then show ?thesis using d assms(4) Drenando by (auto simp: fechando_ok_def)
next
  case Acabou
  then have "s' = s\<lparr>mu_fechada := True\<rparr>" using acabou_passo [OF assms(1)] assms(4) by (simp add: fechando_ok_def)
  then show ?thesis using assms base_ok_congela [OF assms(3), of s'] by (auto simp: fechando_ok_def base_ok_def tudo_recebido_def)
qed (use assms(2) in simp)

lemma parte_listas: "mu_linhas s' = mu_linhas s \<Longrightarrow> mu_falhas s' = mu_falhas s \<Longrightarrow> parte_recebida os s' = parte_recebida os s"
  by (simp add: parte_recebida_def)

text \<open>One message, while the loop listens.\<close>

lemma receber_mantem:
  assumes "base_ok os pol t s" and "ouvindo_ok os s" and "mu_fase s = Ouvindo"
    and "w < length (mu_trab s)" and "dono_de s w = Some i" and "falta_de s w = r # rs" and "s' = receber pol para i r (poe_trab w (Lendo i rs) s)"
    and "mu_trab s ! w \<noteq> Saiu"
  shows "base_ok os pol t s' \<and> (if mu_fase s' = Ouvindo then ouvindo_ok os s' else fechando_ok os para s')"
proof -
  let ?u = "poe_trab w (Lendo i rs) (s\<lparr>mu_linhas := mu_linhas s @ (case r of Inl _ \<Rightarrow> [] | Inr x \<Rightarrow> [(i, x)]),
                  mu_falhas := mu_falhas s @ (case r of Inl e \<Rightarrow> [(i, e)] | Inr _ \<Rightarrow> [])\<rparr>)"
  have o': "\<not> mu_cancelado s" "mu_erro s = None" "posse_ok s" "recebido_ok os s" "mu_total s = contagem os (lidas os s)"
    "mu_fechada s \<longrightarrow> mu_prox s = length os" "Saiu \<in> set (mu_trab s) \<longrightarrow> mu_fechada s"
    using assms(2) by (simp_all add: ouvindo_ok_def)
  have b: "length (mu_trab s) = t" "mu_prox s \<le> length os" "parte_recebida os s" "pol = AbortOnError \<longrightarrow> mu_falhas s = []"
    using assms(1) by (simp_all add: base_ok_def)
  have u: "recebido_ok os ?u" by (rule recebe_recebido [OF o'(4,3) assms(4-6)]) simp
  have up: "parte_recebida os ?u" using recebido_parte [OF u] b(2) by simp
  have i: "i < length os" using o'(3) assms(5) b(2) unfolding posse_ok_def by fastforce
  have d: "dono_de (poe_trab w (Lendo i rs) s) = dono_de s" using assms(4,5) by (auto simp: dono_de_poe)
  have po: "posse_ok (poe_trab w (Lendo i rs) s)" using posse_mantem [OF o'(3) assms(4)] assms(5) by simp
  have saiu: "Saiu \<in> set (mu_trab (poe_trab w (Lendo i rs) s)) \<longrightarrow> mu_fechada s"
    using o'(7) set_update_subset_insert [of "mu_trab s" w "Lendo i rs"] by (auto simp: poe_trab_def)
  have l: "mu_fechada ?u = mu_fechada s" "mu_trab ?u = mu_trab (poe_trab w (Lendo i rs) s)" "mu_total ?u = mu_total s"
    "mu_prox ?u = mu_prox s" "mu_cancelado ?u = mu_cancelado s" "mu_erro ?u = mu_erro s" "mu_fase ?u = Ouvindo"
    using assms(3) by (simp_all add: poe_trab_def)
  have "dono_de ?u = dono_de (poe_trab w (Lendo i rs) s)" by (simp add: dono_de_def fun_eq_iff poe_trab_def)
  then have "posse_ok ?u" "mu_total s = contagem os (lidas os ?u)" using po d o'(5) by (simp_all add: posse_ok_def lidas_def)
  then have ouve: "ouvindo_ok os s' \<and> mu_fase s' = Ouvindo" if "s' = ?u"
    unfolding that ouvindo_ok_def l using o' u saiu by blast
  show ?thesis
  proof (cases r)
    case (Inl e)
    have e: "e \<in> set (erros_de (saidas (os ! i)))"
      using o'(4) assms(5,6) Inl unfolding recebido_ok_def by (metis in_set_conv_decomp linhas_de_simps(5) append_Cons)
    show ?thesis
    proof (cases "pol = AbortOnError")
      case True
      then have "s' = (poe_trab w (Lendo i rs) s)\<lparr>mu_erro := Some (i, e), mu_cancelado := True, mu_fase := Drenando\<rparr>"
        using assms(3,7) Inl by (simp add: receber_def)
      then show ?thesis using b e i True parte_listas [of s' s os] by (simp add: base_ok_def fechando_ok_def)
    next
      case False
      then have p: "pol = ContinueOnError" by (cases pol) auto
      then have s': "s' = ?u" using assms(3,7) Inl by (simp add: receber_def poe_trab_def)
      then show ?thesis using ouve [OF s'] b p o'(2) up by (simp add: base_ok_def s')
    qed
  next
    case (Inr x)
    show ?thesis
    proof (cases "para (map snd (mu_linhas s @ [(i, x)]))")
      case True
      then have s': "s' = ?u\<lparr>mu_cancelado := True, mu_fase := Drenando\<rparr>"
        using assms(3,7) Inr by (simp add: receber_def poe_trab_def Let_def)
      have "parte_recebida os s'" using up s' by (simp add: parte_recebida_def)
      then show ?thesis using b True Inr s' o'(2) by (simp add: base_ok_def fechando_ok_def)
    next
      case False
      then have s': "s' = ?u" using assms(3,7) Inr by (simp add: receber_def poe_trab_def Let_def)
      then show ?thesis using ouve [OF s'] b Inr o'(2) up by (simp add: base_ok_def s')
    qed
  qed
qed

definition abriu_ok :: "'a origem list \<Rightarrow> 'a muitas \<Rightarrow> bool" where
  "abriu_ok os s \<longleftrightarrow>
     (\<forall>t \<in> set (mu_trab s). case t of Abriu i e \<Rightarrow> or_le (os ! i) = Inl e | Lendo i rs \<Rightarrow> (\<exists>ls. or_le (os ! i) = Inr ls) | _ \<Rightarrow> True)"

lemma abriu_ok_poe:
  assumes "abriu_ok os s" and "case t of Abriu i e \<Rightarrow> or_le (os ! i) = Inl e | Lendo i rs \<Rightarrow> (\<exists>ls. or_le (os ! i) = Inr ls) | _ \<Rightarrow> True"
    and "mu_trab s' = (mu_trab s)[w := t]"
  shows "abriu_ok os s'"
  using assms set_update_subset_insert [of "mu_trab s" w t] unfolding abriu_ok_def by auto

lemma abriu_ok_nth:
  assumes "abriu_ok os s" and "w < length (mu_trab s)"
  shows "mu_trab s ! w = Abriu i e \<Longrightarrow> or_le (os ! i) = Inl e" and "mu_trab s ! w = Lendo i rs \<Longrightarrow> \<exists>ls. or_le (os ! i) = Inr ls"
  using assms nth_mem [of w "mu_trab s"] unfolding abriu_ok_def by force+

lemma abriu_ok_passo:
  assumes "passo_muitas os pol para s s'" and "abriu_ok os s"
  shows "abriu_ok os s'"
  using assms(1)
proof cases
  case (pega w)
  have "case abrir_origem os (mu_prox s) of Abriu i e \<Rightarrow> or_le (os ! i) = Inl e | Lendo i rs \<Rightarrow> (\<exists>ls. or_le (os ! i) = Inr ls) | _ \<Rightarrow> True"
    by (simp add: abrir_origem_def split: sum.split)
  then show ?thesis using abriu_ok_poe [OF assms(2)] pega(1) by (simp add: poe_trab_def)
next
  case (envia w i r rs)
  then have "\<exists>ls. or_le (os ! i) = Inr ls" using abriu_ok_nth(2) [OF assms(2)] by blast
  then show ?thesis using abriu_ok_poe [OF assms(2), of "Lendo i rs" s' w] envia(1) by (simp add: poe_trab_def)
next
  case (envia_abertura w i e)
  then show ?thesis using abriu_ok_poe [OF assms(2), of Livre s' w] by (simp add: poe_trab_def)
next
  case (desiste_abertura w i e)
  then show ?thesis using abriu_ok_poe [OF assms(2), of Livre s' w] by (simp add: poe_trab_def)
next
  case (desiste w i r rs)
  then show ?thesis using abriu_ok_poe [OF assms(2), of Saiu s' w] by (simp add: poe_trab_def)
next
  case (fim_da_origem w i)
  then show ?thesis using abriu_ok_poe [OF assms(2), of Livre s' w] by (simp add: poe_trab_def)
next
  case (sai w)
  then show ?thesis using abriu_ok_poe [OF assms(2), of Saiu s' w] by (simp add: poe_trab_def)
qed (use assms(2) in \<open>simp_all add: abriu_ok_def\<close>)

lemma ouvindo_partes:
  assumes "ouvindo_ok os s"
  shows "\<not> mu_cancelado s" "mu_erro s = None" "posse_ok s" "recebido_ok os s" "mu_total s = contagem os (lidas os s)"
    "mu_fechada s \<Longrightarrow> mu_prox s = length os" "Saiu \<in> set (mu_trab s) \<Longrightarrow> mu_fechada s"
  using assms by (simp_all add: ouvindo_ok_def)

lemma Saiu_poe: "Saiu \<in> set (mu_trab (poe_trab w t s)) \<Longrightarrow> t \<noteq> Saiu \<Longrightarrow> Saiu \<in> set (mu_trab s)"
  using set_update_subset_insert [of "mu_trab s" w t] by (auto simp: poe_trab_def)

text \<open>A worker that leaves a source of which nothing is missing.\<close>

lemma larga_mantem:
  assumes "ouvindo_ok os s" and "w < length (mu_trab s)" and "dono_de s w = Some i" and "falta_de s w = []"
    and "s' = (poe_trab w Livre s)\<lparr>mu_total := (if \<exists>ls. or_le (os ! i) = Inr ls then soma3 (mu_total s) (or_conta (os ! i)) else mu_total s)\<rparr>"
  shows "ouvindo_ok os s'"
proof -
  note o' = ouvindo_partes [OF assms(1)]
  have "posse_ok s'" using posse_mantem [OF o'(3) assms(2), of Livre] by (simp add: assms(5) posse_ok_def)
  moreover have "recebido_ok os s'" unfolding assms(5) by (rule fim_recebido [OF o'(4,3) assms(2-4)]) simp
  moreover have "mu_total s' = contagem os (lidas os s')"
    using lidas_larga [OF o'(3) assms(2,3), of Livre os] o'(5) contagem_insert [of "lidas os s" i os] by (simp add: assms(5))
  ultimately show ?thesis using o' Saiu_poe [of w Livre s] by (auto simp: ouvindo_ok_def assms(5))
qed

lemma base_ok_ouvindo:
  assumes "base_ok os pol t s" and "length (mu_trab s') = length (mu_trab s)" and "mu_prox s' \<le> length os"
    and "mu_linhas s' = mu_linhas s" and "mu_falhas s' = mu_falhas s" and "mu_erro s' = mu_erro s" and "mu_fase s' = Ouvindo" and "ouvindo_ok os s'"
  shows "muitas_ok os pol para t s'"
  using base_ok_congela [OF assms(1-6)] assms(7,8) by (simp add: muitas_ok_def)

lemma dono_de_nth: "w < length (mu_trab s) \<Longrightarrow> dono_de s w = dono (mu_trab s ! w) \<and> falta_de s w = falta (mu_trab s ! w)"
  by (simp add: dono_de_def falta_de_def)

lemma ouvindo_passo:
  assumes "passo_muitas os pol para s s'" and "base_ok os pol t s" and "ouvindo_ok os s" and "mu_fase s = Ouvindo" and "abriu_ok os s" and "0 < t"
  shows "muitas_ok os pol para t s'"
proof -
  note o' = ouvindo_partes [OF assms(3)]
  have b: "length (mu_trab s) = t" "mu_prox s \<le> length os" using assms(2) by (simp_all add: base_ok_def)
  show ?thesis using assms(1)
  proof cases
    case (pega w)
    let ?t = "abrir_origem os (mu_prox s)"
    have n: "dono_de s w = None" using dono_de_nth [of w s] pega by simp
    have "?t \<noteq> Saiu" by (simp add: abrir_origem_def split: sum.split)
    then have "ouvindo_ok os s'"
      using posse_pega [OF o'(3) pega(2), of ?t] pega_recebido [OF o'(4,3) pega(2) n] lidas_pega [OF pega(2) n, of ?t os]
        o' Saiu_poe [of w ?t s] pega(1,4) by (auto simp: ouvindo_ok_def)
    then show ?thesis using base_ok_ouvindo [OF assms(2), of s' para] pega assms(4) by simp
  next
    case (envia_abertura w i e)
    let ?u = "receber pol para i (Inl e) (poe_trab w (Lendo i []) s)"
    have d: "dono_de s w = Some i" "falta_de s w = [Inl e]" using dono_de_nth [of w s] envia_abertura by simp_all
    have u: "base_ok os pol t ?u" "mu_fase ?u = Ouvindo \<Longrightarrow> ouvindo_ok os ?u" "mu_fase ?u \<noteq> Ouvindo \<Longrightarrow> fechando_ok os para ?u"
      using receber_mantem [OF assms(2,3,4) envia_abertura(2) d, of ?u] envia_abertura(3) by (auto split: if_splits)
    have s': "s' = poe_trab w Livre ?u" unfolding envia_abertura(1) receber_poe by simp
    have w: "w < length (mu_trab ?u)" using envia_abertura(2) by simp
    have base: "base_ok os pol t s'" using base_ok_congela [OF u(1), of s'] u(1) s' by (simp add: base_ok_def)
    show ?thesis
    proof (cases "mu_fase ?u = Ouvindo")
      case True
      have "dono_de ?u w = Some i" "falta_de ?u w = []" using w by (simp_all add: dono_de_def falta_de_def poe_trab_def)
      moreover have "or_le (os ! i) = Inl e" using abriu_ok_nth(1) [OF assms(5)] envia_abertura by blast
      ultimately have "ouvindo_ok os s'" using larga_mantem [OF u(2) w, of i s'] True s' by (simp add: poe_trab_def)
      then show ?thesis using base s' True by (simp add: muitas_ok_def)
    next
      case False
      have "mu_fase ?u = Drenando" using False assms(4) by (simp add: receber_def split: if_splits)
      then show ?thesis using u(3) base s' by (simp add: muitas_ok_def fechando_ok_def)
    qed
  next
    case (envia w i r rs)
    then have d: "dono_de s w = Some i" "falta_de s w = r # rs" using dono_de_nth [of w s] by simp_all
    show ?thesis using receber_mantem [OF assms(2,3,4) envia(2) d envia(1)] envia(3) by (simp add: muitas_ok_def)
  next
    case (fim_da_origem w i)
    have d: "dono_de s w = Some i" "falta_de s w = []" using dono_de_nth [of w s] fim_da_origem by simp_all
    have "\<exists>ls. or_le (os ! i) = Inr ls" using abriu_ok_nth(2) [OF assms(5)] fim_da_origem by blast
    then have "ouvindo_ok os s'" using larga_mantem [OF assms(3) fim_da_origem(2) d] fim_da_origem(1) by simp
    then show ?thesis using base_ok_ouvindo [OF assms(2), of s' para] fim_da_origem(1) b assms(4) by simp
  next
    case fecha
    then have "ouvindo_ok os s'" using o' by (simp add: ouvindo_ok_def posse_ok_def recebido_ok_def)
    then show ?thesis using base_ok_ouvindo [OF assms(2), of s' para] fecha(1) b assms(4) by simp
  next
    case (sai w)
    have d: "dono_de s' = dono_de s" "falta_de s' = falta_de s" using dono_de_poe [OF sai(2), of Saiu] dono_de_nth [OF sai(2)] sai by auto
    have "posse_ok s'" "recebido_ok os s'" "lidas os s' = lidas os s"
      using o'(3,4) d by (simp_all add: posse_ok_def recebido_ok_def lidas_def sai(1))
    then have "ouvindo_ok os s'" using o' sai(1,4) by (simp add: ouvindo_ok_def)
    then show ?thesis using base_ok_ouvindo [OF assms(2), of s' para] sai(1) b assms(4) by simp
  next
    case acaba
    have "mu_trab s \<noteq> []" using b assms(6) by auto
    then have "Saiu \<in> set (mu_trab s)" using acaba(3) by (metis last_in_set)
    then have p: "mu_prox s = length os" using o'(6,7) by blast
    have "mu_trab s ! w = Saiu" if "w < length (mu_trab s)" for w using acaba(3) that by simp
    then have n: "dono_de s w = None" for w by (simp add: dono_de_def)
    have "lidas os s = {i. i < length os \<and> (\<exists>ls. or_le (os ! i) = Inr ls)}" by (simp add: lidas_def n p)
    then have "tudo_recebido os s'" using o'(4,5) acaba(1) n p by (simp add: tudo_recebido_def recebido_ok_def)
    then show ?thesis using base_ok_congela [OF assms(2), of s'] b acaba by (simp add: muitas_ok_def fechando_ok_def)
  qed (use o'(1) in simp_all)
qed

lemma inicio_ok:
  fixes os :: "'a origem list"
  shows "muitas_ok os pol para t (inicio_muitas t) \<and> abriu_ok os (inicio_muitas t)"
proof -
  let ?s = "inicio_muitas t :: 'a muitas"
  have n: "dono_de ?s w = None" for w by (simp add: dono_de_def inicio_muitas_def)
  have "mu_prox ?s = 0" "\<not> mu_fechada ?s" "mu_trab ?s = replicate t Livre"
    "\<not> mu_cancelado ?s" "mu_fase ?s = Ouvindo" "mu_linhas ?s = []"
    "mu_falhas ?s = []" "mu_erro ?s = None" "mu_total ?s = (0, 0, 0)"
    by (simp_all add: inicio_muitas_def)
  then show ?thesis
    by (simp add: muitas_ok_def base_ok_def ouvindo_ok_def abriu_ok_def posse_ok_def recebido_ok_def parte_recebida_def lidas_def contagem_def n)
qed

lemma alcanca_ok:
  assumes "alcanca os pol para t s" and "0 < t"
  shows "muitas_ok os pol para t s \<and> abriu_ok os s"
  using assms(1) unfolding alcanca_def
proof (induction rule: rtranclp_induct)
  case base
  then show ?case by (rule inicio_ok)
next
  case (step s s')
  then have "muitas_ok os pol para t s'"
    using ouvindo_passo [OF step(2) _ _ _ _ assms(2)] fechando_mantem [OF step(2)]
    by (cases "mu_fase s = Ouvindo") (auto simp: muitas_ok_def)
  then show ?case using abriu_ok_passo [OF step(2)] step.IH by blast
qed

section \<open>It ends\<close>

fun custo :: "'a trabalhador \<Rightarrow> nat" where
  "custo Livre = 1"
| "custo (Abriu _ _) = 2"
| "custo (Lendo _ rs) = 2 + length rs"
| "custo Saiu = 0"

definition medida_muitas :: "'a origem list \<Rightarrow> 'a muitas \<Rightarrow> nat" where
  "medida_muitas os s =
     (\<Sum>i = mu_prox s..<length os. 2 + length (saidas (os ! i))) + sum_list (map custo (mu_trab s)) +
     (if mu_fechada s then 0 else 1) + (if mu_fase s = Acabou then 0 else 1)"

lemma custo_poe:
  assumes "w < length (mu_trab s)"
  shows "sum_list (map custo (mu_trab (poe_trab w t s))) + custo (mu_trab s ! w) = sum_list (map custo (mu_trab s)) + custo t"
proof -
  have "custo (mu_trab s ! w) \<le> sum_list (map custo (mu_trab s))"
    using assms member_le_sum_list [of "custo (mu_trab s ! w)" "map custo (mu_trab s)"] by simp
  then show ?thesis using assms sum_list_update [of w "map custo (mu_trab s)" "custo t"] by (simp add: poe_trab_def map_update)
qed

lemma receber_fase: "(mu_fase (receber pol para i r s) = Acabou) = (mu_fase s = Acabou)"
  by (auto simp: receber_def Let_def split: sum.splits)

lemma medida_desce:
  assumes "passo_muitas os pol para s s'"
  shows "medida_muitas os s' < medida_muitas os s"
  using assms
proof cases
  case (pega w)
  have "custo (abrir_origem os (mu_prox s)) \<le> 2 + length (saidas (os ! mu_prox s))"
    by (simp add: abrir_origem_def saidas_def split: sum.split)
  then show ?thesis
    using pega custo_poe [of w s "abrir_origem os (mu_prox s)"] sum.atLeast_Suc_lessThan [of "mu_prox s" "length os" "\<lambda>i. 2 + length (saidas (os ! i))"]
    by (simp add: medida_muitas_def)
next
  case (envia_abertura w i e)
  then show ?thesis using custo_poe [of w s Livre] by (simp add: medida_muitas_def receber_fase)
next
  case (desiste_abertura w i e)
  then show ?thesis using custo_poe [of w s Livre] by (simp add: medida_muitas_def)
next
  case (envia w i r rs)
  then show ?thesis using custo_poe [of w s "Lendo i rs"] by (simp add: medida_muitas_def receber_fase)
next
  case (desiste w i r rs)
  then show ?thesis using custo_poe [of w s Saiu] by (simp add: medida_muitas_def)
next
  case (fim_da_origem w i)
  then show ?thesis using custo_poe [of w s Livre] by (simp add: medida_muitas_def)
next
  case (sai w)
  then show ?thesis using custo_poe [of w s Saiu] by (simp add: medida_muitas_def)
qed (simp_all add: medida_muitas_def)

text \<open>While something is left, somebody can move.\<close>

lemma alguem_anda:
  assumes "muitas_ok os pol para t s" and "\<not> (mu_fase s = Acabou \<and> mu_fechada s)"
  shows "\<exists>s'. passo_muitas os pol para s s'"
proof (cases "\<forall>x \<in> set (mu_trab s). x = Saiu")
  case True
  show ?thesis
  proof (cases "mu_fase s = Acabou")
    case False
    then show ?thesis using True passo_muitas.acaba by blast
  next
    case acabou: True
    then have "mu_cancelado s" using assms(1) by (simp add: muitas_ok_def fechando_ok_def)
    then show ?thesis using acabou assms(2) passo_muitas.fecha by blast
  qed
next
  case False
  then obtain w where w: "w < length (mu_trab s)" "mu_trab s ! w \<noteq> Saiu" by (metis in_set_conv_nth)
  have p: "mu_prox s \<le> length os" using assms(1) by (simp add: muitas_ok_def base_ok_def)
  show ?thesis
  proof (cases "mu_trab s ! w")
    case Livre
    then show ?thesis using w p passo_muitas.sai passo_muitas.pega passo_muitas.fecha
      by (metis le_neq_implies_less)
  next
    case (Abriu i e)
    then show ?thesis using w passo_muitas.envia_abertura by blast
  next
    case (Lendo i rs)
    then show ?thesis using w passo_muitas.envia passo_muitas.fim_da_origem by (cases rs) blast+
  qed (use w in simp)
qed

lemma chega_ao_fim:
  assumes "alcanca os pol para t s" and "0 < t"
  shows "\<exists>f. (passo_muitas os pol para)\<^sup>*\<^sup>* s f \<and> mu_fase f = Acabou \<and> mu_fechada f \<and> (\<forall>x \<in> set (mu_trab f). x = Saiu)"
  using assms(1)
proof (induction "medida_muitas os s" arbitrary: s rule: less_induct)
  case less
  have k: "muitas_ok os pol para t s" using alcanca_ok [OF less.prems assms(2)] by blast
  show ?case
  proof (cases "mu_fase s = Acabou \<and> mu_fechada s")
    case True
    then show ?thesis using k by (auto simp: muitas_ok_def fechando_ok_def)
  next
    case False
    then obtain s' where s': "passo_muitas os pol para s s'" using alguem_anda [OF k] by blast
    then have "alcanca os pol para t s'" using less.prems by (simp add: alcanca_def)
    then obtain f where "(passo_muitas os pol para)\<^sup>*\<^sup>* s' f" "mu_fase f = Acabou \<and> mu_fechada f \<and> (\<forall>x \<in> set (mu_trab f). x = Saiu)"
      using less.hyps [OF medida_desce [OF s']] by blast
    then show ?thesis using s' by (meson converse_rtranclp_into_rtranclp)
  qed
qed

section \<open>In order\<close>

definition em_ordem_das_origens :: "'a origem list \<Rightarrow> nat \<Rightarrow> (nat \<times> 'a) list" where
  "em_ordem_das_origens os n = concat (map (\<lambda>i. map (Pair i) (linhas_de (saidas (os ! i)))) [0..<n])"

lemma em_ordem_Suc: "em_ordem_das_origens os (Suc n) = em_ordem_das_origens os n @ map (Pair n) (linhas_de (saidas (os ! n)))"
  by (simp add: em_ordem_das_origens_def)

lemma em_ordem_prefixo: "m \<le> n \<Longrightarrow> prefix (em_ordem_das_origens os m) (em_ordem_das_origens os n)"
  by (induction n) (auto simp: em_ordem_Suc le_Suc_eq prefix_def)

text \<open>What a single worker still has, as it will be received.\<close>

definition resto_um :: "'a muitas \<Rightarrow> (nat \<times> 'a) list" where
  "resto_um s = (case mu_trab s of [t] \<Rightarrow> (case dono t of None \<Rightarrow> [] | Some i \<Rightarrow> map (Pair i) (linhas_de (falta t))) | _ \<Rightarrow> [])"

definition seguido_ok :: "'a origem list \<Rightarrow> 'a muitas \<Rightarrow> bool" where
  "seguido_ok os s \<longleftrightarrow> (\<exists>t. mu_trab s = [t]) \<and>
     (if mu_fase s = Ouvindo then mu_linhas s @ resto_um s = em_ordem_das_origens os (mu_prox s)
      else prefix (mu_linhas s) (em_ordem_das_origens os (length os)))"

lemma seguido_passo:
  assumes "passo_muitas os pol para s s'" and "seguido_ok os s" and "mu_prox s \<le> length os" and "mu_fase s = Ouvindo \<longrightarrow> \<not> mu_cancelado s"
  shows "seguido_ok os s'"
proof -
  obtain t where t: "mu_trab s = [t]" using assms(2) by (auto simp: seguido_ok_def)
  have q: "mu_trab (poe_trab w u s) = [u]" if "w < length (mu_trab s)" for w u using that t by (simp add: poe_trab_def)
  have z: "w = 0" if "w < length (mu_trab s)" for w using that t by simp
  have r: "mu_linhas (receber pol para i r u) = mu_linhas u \<and> mu_fase (receber pol para i r u) = mu_fase u" if "mu_fase u \<noteq> Ouvindo" for i r and u :: "'a muitas"
    using that by (simp add: receber_def)
  have p: "prefix (mu_linhas s) (em_ordem_das_origens os (length os))"
    using assms(2) em_ordem_prefixo [OF assms(3), of os] append_prefixD [of "mu_linhas s" "resto_um s"]
    by (auto simp: seguido_ok_def split: if_splits)
  show ?thesis
  proof (cases "mu_fase s = Ouvindo")
    case False
    have "(\<exists>u. mu_trab s' = [u]) \<and> mu_linhas s' = mu_linhas s \<and> mu_fase s' \<noteq> Ouvindo"
      using assms(1) False by cases (simp_all add: q r t)
    then show ?thesis using p by (simp add: seguido_ok_def)
  next
    case True
    then have e: "mu_linhas s @ resto_um s = em_ordem_das_origens os (mu_prox s)" using assms(2) by (simp add: seguido_ok_def)
    note d = resto_um_def seguido_ok_def
    show ?thesis using assms(1)
    proof cases
      case (pega w)
      then show ?thesis using e True t z by (simp add: d q em_ordem_Suc)
    next
      case (envia_abertura w i er)
      then have "mu_linhas s = em_ordem_das_origens os (mu_prox s)" "mu_linhas s' = mu_linhas s" using e t z by (simp_all add: d receber_def)
      then show ?thesis using envia_abertura True p by (simp add: d q)
    next
      case (envia w i x rs)
      have tt: "t = Lendo i (x # rs)" using envia t z by simp
      show ?thesis
      proof (cases x)
        case (Inl er)
        then have "mu_linhas s' = mu_linhas s" using envia by (simp add: receber_def)
        then show ?thesis using envia True p e tt t Inl by (simp add: d q)
      next
        case (Inr v)
        then have l: "mu_linhas s' = mu_linhas s @ [(i, v)]" using envia True by (simp add: receber_def Let_def)
        have e': "mu_linhas s @ (i, v) # map (Pair i) (linhas_de rs) = em_ordem_das_origens os (mu_prox s)" using e tt t Inr by (simp add: d)
        then have "prefix (mu_linhas s') (em_ordem_das_origens os (mu_prox s))" unfolding l prefix_def by (metis append.assoc append_Cons append_Nil)
        then have "prefix (mu_linhas s') (em_ordem_das_origens os (length os))" using em_ordem_prefixo [OF assms(3)] prefix_order.trans by blast
        then show ?thesis using envia True l e' by (simp add: d q)
      qed
    next
      case (fim_da_origem w i)
      then show ?thesis using e True t z by (simp add: d q)
    next
      case (sai w)
      then show ?thesis using e True t z by (simp add: d q)
    next
      case acaba
      then show ?thesis using p t by (simp add: d)
    next
      case fecha
      then show ?thesis using e True t by (simp add: d)
    qed (use True assms(4) in simp_all)
  qed
qed

lemma alcanca_seguido:
  assumes "alcanca os pol para 1 s"
  shows "seguido_ok os s"
  using assms unfolding alcanca_def
proof (induction rule: rtranclp_induct)
  case base
  then show ?case by (simp add: seguido_ok_def inicio_muitas_def resto_um_def em_ordem_das_origens_def)
next
  case (step s s')
  then have "muitas_ok os pol para 1 s" using alcanca_ok [of os pol para 1 s] by (simp add: alcanca_def)
  then have "mu_prox s \<le> length os" "mu_fase s = Ouvindo \<longrightarrow> \<not> mu_cancelado s"
    by (auto simp: muitas_ok_def base_ok_def ouvindo_ok_def)
  then show ?case using seguido_passo [OF step(2) step(3)] by blast
qed

section \<open>Every record once\<close>

definition por_origem :: "(nat \<Rightarrow> 'b list) \<Rightarrow> nat \<Rightarrow> (nat \<times> 'b) list" where
  "por_origem f n = concat (map (\<lambda>i. map (Pair i) (f i)) [0..<n])"

lemma por_origem_cong: "(\<And>i. i < n \<Longrightarrow> f i = g i) \<Longrightarrow> por_origem f n = por_origem g n"
  by (induction n) (simp_all add: por_origem_def)

lemma por_origem_Suc: "por_origem f (Suc n) = por_origem f n @ map (Pair n) (f n)"
  by (simp add: por_origem_def)

lemma por_origem_acrescenta:
  "i < n \<Longrightarrow> mset (por_origem (\<lambda>k. f k @ (if k = i then [x] else [])) n) = add_mset (i, x) (mset (por_origem f n))"
proof (induction n)
  case (Suc n)
  show ?case
  proof (cases "i = n")
    case True
    then have "por_origem (\<lambda>k. f k @ (if k = i then [x] else [])) n = por_origem f n" by (intro por_origem_cong) simp
    then show ?thesis using True by (simp add: por_origem_Suc)
  next
    case False
    then show ?thesis using Suc by (simp add: por_origem_Suc)
  qed
qed simp

lemma mset_por_origem: "\<forall>p \<in> set ps. fst p < n \<Longrightarrow> mset ps = mset (por_origem (\<lambda>i. da_origem i ps) n)"
proof (induction ps rule: rev_induct)
  case Nil
  then show ?case by (simp add: por_origem_def)
next
  case (snoc p ps)
  obtain i x where p: "p = (i, x)" by (cases p) auto
  have "(\<lambda>k. da_origem k (ps @ [p])) = (\<lambda>k. da_origem k ps @ (if k = i then [x] else []))" by (auto simp: p)
  then show ?case using snoc por_origem_acrescenta [of i n "\<lambda>k. da_origem k ps" x] p by simp
qed

lemma da_origem_Nil: "da_origem i ps = [] \<longleftrightarrow> i \<notin> fst ` set ps"
  by (force simp: da_origem_def filter_empty_conv)

lemma parte_indices:
  assumes "parte_recebida os s"
  shows "\<forall>p \<in> set (mu_linhas s). fst p < length os" "\<forall>p \<in> set (mu_falhas s). fst p < length os"
proof -
  have "da_origem i (mu_linhas s) = [] \<and> da_origem i (mu_falhas s) = []" if "length os \<le> i" for i
    using assms that unfolding parte_recebida_def by (metis linorder_not_less prefix_Nil)
  then show "\<forall>p \<in> set (mu_linhas s). fst p < length os" "\<forall>p \<in> set (mu_falhas s). fst p < length os"
    unfolding da_origem_Nil by (metis image_eqI linorder_not_less)+
qed

lemma tudo_mset:
  assumes "parte_recebida os s" and "tudo_recebido os s"
  shows "mset (mu_linhas s) = mset (em_ordem_das_origens os (length os))"
    and "mset (mu_falhas s) = mset (por_origem (\<lambda>i. erros_de (saidas (os ! i))) (length os))"
proof -
  note i = parte_indices [OF assms(1)]
  have "por_origem (\<lambda>i. da_origem i (mu_linhas s)) (length os) = por_origem (\<lambda>i. linhas_de (saidas (os ! i))) (length os)"
    "por_origem (\<lambda>i. da_origem i (mu_falhas s)) (length os) = por_origem (\<lambda>i. erros_de (saidas (os ! i))) (length os)"
    by (rule por_origem_cong; use assms(2) in \<open>simp add: tudo_recebido_def\<close>)+
  then show "mset (mu_linhas s) = mset (em_ordem_das_origens os (length os))"
    "mset (mu_falhas s) = mset (por_origem (\<lambda>i. erros_de (saidas (os ! i))) (length os))"
    using mset_por_origem [OF i(1)] mset_por_origem [OF i(2)] by (simp_all add: em_ordem_das_origens_def por_origem_def)
qed

text \<open>A source fails once at most.\<close>

lemma erros_ate_erro: "length (erros_de (ate_erro ls)) \<le> 1"
  by (induction ls rule: ate_erro.induct) simp_all

lemma um_erro: "length (erros_de (saidas o')) \<le> 1"
  using erros_ate_erro by (auto simp: saidas_def split: sum.split)

lemma conta_falhas: "length (por_origem (\<lambda>i. erros_de (saidas (os ! i))) n) = n \<longleftrightarrow> (\<forall>i < n. erros_de (saidas (os ! i)) \<noteq> [])"
proof -
  have le: "length (por_origem (\<lambda>i. erros_de (saidas (os ! i))) m) \<le> m" for m
  proof (induction m)
    case (Suc m)
    then show ?case using um_erro [of "os ! m"] by (simp add: por_origem_Suc)
  qed (simp add: por_origem_def)
  show ?thesis
  proof (induction n)
    case (Suc n)
    have "length (erros_de (saidas (os ! n))) = (if erros_de (saidas (os ! n)) = [] then 0 else 1)"
      using um_erro [of "os ! n"] by (cases "erros_de (saidas (os ! n))") auto
    then show ?case using Suc le [of n] by (auto simp: por_origem_Suc less_Suc_eq)
  qed (simp add: por_origem_def)
qed

section \<open>A schedule\<close>

text \<open>One worker, always moved: enough to see the states of the examples.\<close>

definition proximo :: "'a origem list \<Rightarrow> politica \<Rightarrow> ('a list \<Rightarrow> bool) \<Rightarrow> 'a muitas \<Rightarrow> 'a muitas" where
  "proximo os pol para s =
     (case mu_trab s of
        [t] \<Rightarrow>
          (case t of
             Livre \<Rightarrow>
               if mu_fechada s then poe_trab 0 Saiu s
               else if mu_prox s < length os then (poe_trab 0 (abrir_origem os (mu_prox s)) s)\<lparr>mu_prox := Suc (mu_prox s)\<rparr>
               else if mu_prox s = length os then s\<lparr>mu_fechada := True\<rparr> else s
           | Abriu i e \<Rightarrow> receber pol para i (Inl e) (poe_trab 0 Livre s)
           | Lendo i rs \<Rightarrow>
               (case rs of
                  [] \<Rightarrow> (poe_trab 0 Livre s)\<lparr>mu_total := soma3 (mu_total s) (or_conta (os ! i))\<rparr>
                | r # rs \<Rightarrow> receber pol para i r (poe_trab 0 (Lendo i rs) s))
           | Saiu \<Rightarrow> if mu_fase s \<noteq> Acabou then s\<lparr>mu_fase := Acabou, mu_cancelado := True\<rparr> else s)
      | _ \<Rightarrow> s)"

lemma proximo_passo: "proximo os pol para s = s \<or> passo_muitas os pol para s (proximo os pol para s)"
proof (cases "\<exists>t. mu_trab s = [t]")
  case True
  then obtain t where t: "mu_trab s = [t]" by blast
  show ?thesis
  proof (cases t)
    case (Lendo i rs)
    then show ?thesis using t passo_muitas.envia [of 0 s] passo_muitas.fim_da_origem [of 0 s]
      by (cases rs) (auto simp: proximo_def)
  qed (use t passo_muitas.pega [of 0 s] passo_muitas.fecha [of s] passo_muitas.sai [of 0 s] passo_muitas.acaba [of s] passo_muitas.envia_abertura [of 0 s]
        in \<open>auto simp: proximo_def\<close>)
next
  case False
  then show ?thesis by (auto simp: proximo_def split: list.split)
qed

lemma proximo_alcanca: "alcanca os pol para t ((proximo os pol para ^^ n) (inicio_muitas t))"
proof (induction n)
  case (Suc n)
  then show ?case using proximo_passo [of os pol para "(proximo os pol para ^^ n) (inicio_muitas t)"]
    by (auto simp: alcanca_def intro: rtranclp.rtrancl_into_rtrancl)
qed (simp add: alcanca_def)

definition origens_de_exemplo :: "nat origem list" where
  "origens_de_exemplo =
     [\<lparr>or_descreve = ''a'', or_le = Inr [Inr 1, Inr 2], or_conta = (1, 1, 10)\<rparr>, \<lparr>or_descreve = ''b'', or_le = Inl ''404'', or_conta = (0, 0, 0)\<rparr>,
      \<lparr>or_descreve = ''c'', or_le = Inr [Inr 3, Inl ''eof'', Inr 4], or_conta = (2, 3, 30)\<rparr>]"

definition fim_de_exemplo :: "politica \<Rightarrow> nat muitas" where
  "fim_de_exemplo pol = (proximo origens_de_exemplo pol (\<lambda>_. False) ^^ 14) (inicio_muitas 1)"

lemma fim_continua:
  "fim_de_exemplo ContinueOnError =
     \<lparr>mu_prox = 3, mu_fechada = True, mu_trab = [Saiu], mu_cancelado = True, mu_fase = Acabou,
      mu_linhas = [(0, 1), (0, 2), (2, 3)], mu_falhas = [(1, ''404''), (2, ''eof'')], mu_erro = None, mu_total = (3, 4, 40)\<rparr>"
  by (simp add: fim_de_exemplo_def origens_de_exemplo_def inicio_muitas_def proximo_def receber_def poe_trab_def abrir_origem_def soma3_def
      eval_nat_numeral)

lemma fim_aborta:
  "fim_de_exemplo AbortOnError =
     \<lparr>mu_prox = 3, mu_fechada = True, mu_trab = [Saiu], mu_cancelado = True, mu_fase = Acabou,
      mu_linhas = [(0, 1), (0, 2)], mu_falhas = [], mu_erro = Some (1, ''404''), mu_total = (3, 4, 40)\<rparr>"
  by (simp add: fim_de_exemplo_def origens_de_exemplo_def inicio_muitas_def proximo_def receber_def poe_trab_def abrir_origem_def soma3_def
      eval_nat_numeral)

lemma fim_alcanca: "alcanca origens_de_exemplo pol (\<lambda>_. False) 1 (fim_de_exemplo pol)"
  unfolding fim_de_exemplo_def by (rule proximo_alcanca)

section \<open>Properties\<close>

text \<open>C29: with \<open>ContinueOnError\<close> a fan-out loses nothing: however the workers interleave, a reading that its
caller takes to the end has yielded every record that precedes the first error of its source, once, those of one
source in order; the failures reported are those of the sources that failed; the counters are the sum over the
sources that opened; and the reading is an error exactly when there is no record and every source failed.\<close>

theorem muitas_entrega_tudo:
  assumes "alcanca os ContinueOnError (\<lambda>_. False) t s" and "0 < t" and "mu_fase s = Acabou"
  shows "(\<forall>i < length os. da_origem i (mu_linhas s) = linhas_de (saidas (os ! i))) \<and>
    mset (mu_linhas s) = mset (em_ordem_das_origens os (length os)) \<and>
    mset (mu_falhas s) = mset (por_origem (\<lambda>i. erros_de (saidas (os ! i))) (length os)) \<and>
    mu_total s = contagem os {i. i < length os \<and> (\<exists>ls. or_le (os ! i) = Inr ls)} \<and>
    (erro_da_leitura os s \<noteq> None \<longleftrightarrow> os \<noteq> [] \<and> mu_linhas s = [] \<and> (\<forall>i < length os. erros_de (saidas (os ! i)) \<noteq> []))"
proof -
  have k: "muitas_ok os ContinueOnError (\<lambda>_. False) t s" using alcanca_ok [OF assms(1,2)] by blast
  then have e: "mu_erro s = None" by (cases "mu_erro s") (auto simp: muitas_ok_def base_ok_def)
  then have r: "tudo_recebido os s" using k assms(3) by (simp add: muitas_ok_def fechando_ok_def)
  have "parte_recebida os s" using k by (simp add: muitas_ok_def base_ok_def)
  note l = tudo_mset(1) [OF this r] and f = tudo_mset(2) [OF this r]
  have "length (mu_falhas s) = length os \<longleftrightarrow> (\<forall>i < length os. erros_de (saidas (os ! i)) \<noteq> [])"
    using mset_eq_length [OF f] conta_falhas by simp
  then show ?thesis using r l f e by (auto simp: tudo_recebido_def erro_da_leitura_def split: list.split)
qed

lemma muitas_entrega_tudo_witness:
  "mset (mu_falhas (fim_de_exemplo ContinueOnError)) = {#(1, ''404''), (2, ''eof'')#} \<and> mu_total (fim_de_exemplo ContinueOnError) = (3, 4, 40)"
proof -
  have "mu_fase (fim_de_exemplo ContinueOnError) = Acabou" by (simp add: fim_continua)
  from muitas_entrega_tudo [OF fim_alcanca zero_less_one this]
  have "mset (mu_falhas (fim_de_exemplo ContinueOnError)) = mset (por_origem (\<lambda>i. erros_de (saidas (origens_de_exemplo ! i))) (length origens_de_exemplo))"
    by blast
  then show ?thesis by (simp add: fim_continua por_origem_def origens_de_exemplo_def saidas_def)
qed

text \<open>With \<open>AbortOnError\<close> a reading that its caller takes to the end tells a failure exactly when some source
fails, and then of a source that failed; without one every record of every source was yielded.\<close>

theorem muitas_aborta:
  assumes "alcanca os AbortOnError (\<lambda>_. False) t s" and "0 < t" and "mu_fase s = Acabou" and "os \<noteq> []"
  shows "(erro_da_leitura os s = None \<longleftrightarrow> (\<forall>i < length os. erros_de (saidas (os ! i)) = [])) \<and>
    (erro_da_leitura os s = None \<longrightarrow> mset (mu_linhas s) = mset (em_ordem_das_origens os (length os))) \<and>
    (\<forall>i e. mu_erro s = Some (i, e) \<longrightarrow> i < length os \<and> e \<in> set (erros_de (saidas (os ! i))))"
proof -
  have k: "muitas_ok os AbortOnError (\<lambda>_. False) t s" using alcanca_ok [OF assms(1,2)] by blast
  then have f: "mu_falhas s = []" and e: "\<forall>i e. mu_erro s = Some (i, e) \<longrightarrow> i < length os \<and> e \<in> set (erros_de (saidas (os ! i)))"
    by (simp_all add: muitas_ok_def base_ok_def)
  have r: "mu_erro s = None \<Longrightarrow> tudo_recebido os s" using k assms(3) by (simp add: muitas_ok_def fechando_ok_def)
  have n: "erro_da_leitura os s = None \<longleftrightarrow> mu_erro s = None" using assms(4) f by (auto simp: erro_da_leitura_def split: option.split)
  have "mset (mu_linhas s) = mset (em_ordem_das_origens os (length os))" if "mu_erro s = None"
    using tudo_mset(1) [OF _ r [OF that]] k by (simp add: muitas_ok_def base_ok_def)
  moreover have "mu_erro s = None \<longleftrightarrow> (\<forall>i < length os. erros_de (saidas (os ! i)) = [])"
  proof
    assume "mu_erro s = None"
    then show "\<forall>i < length os. erros_de (saidas (os ! i)) = []" using r f by (auto simp: tudo_recebido_def)
  next
    assume "\<forall>i < length os. erros_de (saidas (os ! i)) = []"
    then show "mu_erro s = None" using e by (cases "mu_erro s") force+
  qed
  ultimately show ?thesis using n e by simp
qed

lemma muitas_aborta_witness:
  "erro_da_leitura origens_de_exemplo (fim_de_exemplo AbortOnError) = Some (FonteFalhou ''b'' ''404'')"
proof -
  have f: "mu_fase (fim_de_exemplo AbortOnError) = Acabou" "origens_de_exemplo \<noteq> []" by (simp_all add: fim_aborta origens_de_exemplo_def)
  have "1 < length origens_de_exemplo" "erros_de (saidas (origens_de_exemplo ! 1)) \<noteq> []" by (simp_all add: origens_de_exemplo_def saidas_def)
  then have "erro_da_leitura origens_de_exemplo (fim_de_exemplo AbortOnError) \<noteq> None"
    using muitas_aborta [OF fim_alcanca zero_less_one f] by blast
  then show ?thesis by (simp add: fim_aborta erro_da_leitura_def origens_de_exemplo_def)
qed

lemma passos_limitados: "(passo_muitas os pol para ^^ n) s s' \<Longrightarrow> n + medida_muitas os s' \<le> medida_muitas os s"
proof (induction n arbitrary: s')
  case (Suc n)
  then obtain u where "(passo_muitas os pol para ^^ n) s u" "passo_muitas os pol para u s'" by auto
  then show ?case using Suc.IH [of u] medida_desce [of os pol para u s'] by simp
qed simp

text \<open>C33: no goroutine is left behind. From any state that is reached, whatever failed and wherever the caller
stopped, some sequence of exchanges ends the reading with every worker gone and the channel of the indices closed;
a state without an exchange left is such an end, and there is a bound on the number of exchanges.\<close>

theorem muitas_termina:
  assumes "alcanca os pol para t s" and "0 < t"
  shows "(\<exists>f. (passo_muitas os pol para)\<^sup>*\<^sup>* s f \<and> mu_fase f = Acabou \<and> mu_fechada f \<and> (\<forall>x \<in> set (mu_trab f). x = Saiu)) \<and>
    ((\<forall>s'. \<not> passo_muitas os pol para s s') \<longrightarrow> mu_fase s = Acabou \<and> mu_fechada s) \<and>
    (\<forall>n s'. (passo_muitas os pol para ^^ n) s s' \<longrightarrow> n \<le> medida_muitas os s)"
  using chega_ao_fim [OF assms] alguem_anda [of os pol para t s] alcanca_ok [OF assms] passos_limitados [of _ os pol para s] by (metis add_leD1)

lemma muitas_termina_witness:
  "\<exists>f. (passo_muitas origens_de_exemplo AbortOnError (\<lambda>_. True))\<^sup>*\<^sup>* (inicio_muitas 2) f \<and> mu_fase f = Acabou \<and> mu_fechada f \<and>
     (\<forall>x \<in> set (mu_trab f). x = Saiu)"
  using muitas_termina [of origens_de_exemplo AbortOnError "\<lambda>_. True" 2 "inicio_muitas 2"] by (simp add: alcanca_def)

text \<open>With one worker the reading is in the order of the sources, and stops at the place where it was stopped:
what was yielded is a prefix of all the records in that order, and all of them once the last source was read.\<close>

theorem muitas_em_ordem:
  assumes "preparar_muitas m = Inr (os, t)" and "my_workers m \<le> 1" and "alcanca os pol para t s"
  shows "prefix (mu_linhas s) (em_ordem_das_origens os (length os)) \<and>
    (mu_fase s = Acabou \<and> mu_erro s = None \<and> \<not> para (map snd (mu_linhas s)) \<longrightarrow> mu_linhas s = em_ordem_das_origens os (length os))"
proof -
  have os: "os \<noteq> []" and t: "t = 1"
    using assms(1,2) by (auto simp: preparar_muitas_def trabalhadores_def Let_def split: if_splits sum.splits option.splits)
  have k: "muitas_ok os pol para t s" using alcanca_ok [OF assms(3)] t by simp
  have q: "seguido_ok os s" using alcanca_seguido assms(3) t by simp
  have "mu_prox s \<le> length os" using k by (simp add: muitas_ok_def base_ok_def)
  then have p: "prefix (mu_linhas s) (em_ordem_das_origens os (length os))"
    using q em_ordem_prefixo [of "mu_prox s" "length os" os] append_prefixD [of "mu_linhas s" "resto_um s"]
    by (auto simp: seguido_ok_def split: if_splits)
  moreover have "mu_linhas s = em_ordem_das_origens os (length os)" if "mu_fase s = Acabou \<and> mu_erro s = None \<and> \<not> para (map snd (mu_linhas s))"
  proof -
    have r: "tudo_recebido os s" using k that by (auto simp: muitas_ok_def fechando_ok_def)
    have "mset (mu_linhas s) = mset (em_ordem_das_origens os (length os))"
      using tudo_mset(1) [OF _ r] k by (simp add: muitas_ok_def base_ok_def)
    then have "length (mu_linhas s) = length (em_ordem_das_origens os (length os))" by (rule mset_eq_length)
    then show ?thesis using p by (auto simp: prefix_def)
  qed
  ultimately show ?thesis by blast
qed

lemma muitas_em_ordem_witness:
  "mu_linhas (fim_de_exemplo ContinueOnError) = em_ordem_das_origens origens_de_exemplo (length origens_de_exemplo)"
proof -
  let ?m = "\<lparr>my_sources = map Some origens_de_exemplo, my_discover = None, my_workers = 0, my_on_error = ContinueOnError\<rparr>"
  have p: "preparar_muitas ?m = Inr (origens_de_exemplo, 1)" "my_workers ?m \<le> 1"
    by (simp_all add: preparar_muitas_def trabalhadores_def origens_de_exemplo_def)
  show ?thesis using muitas_em_ordem [OF p fim_alcanca [of ContinueOnError]] by (simp add: fim_continua)
qed

end
