(* ===== verification/Arquivos.thy ===== *)
theory Arquivos
  imports Fachada
begin

text \<open>
  Files of records, on disk or in object storage: the destination \<open>sdk/to/files.go\<close> and the source
  \<open>sdk/from/files.go\<close>. The file system, the store and the decoders of the formats other than CSV are
  records of functions; CSV is written by the code itself and read by \<open>encoding/csv\<close>. The preview and the
  count of bytes are left out.
\<close>

section \<open>Paths\<close>

text \<open>\<open>filepath.Clean\<close>, \<open>Join\<close> and \<open>Dir\<close>.\<close>

definition elemento :: "bool \<Rightarrow> string \<Rightarrow> string list \<Rightarrow> string list" where
  "elemento rooted e st =
     (if e = [] \<or> e = ''.'' then st
      else if e = ''..'' then (if st \<noteq> [] \<and> last st \<noteq> ''..'' then butlast st else if rooted then st else st @ [''..''])
      else st @ [e])"

definition Clean :: "string \<Rightarrow> string" where
  "Clean p =
     (let rooted = prefix ''/'' p; q = join ''/'' (fold (elemento rooted) (split_on (CHR ''/'') p) []) in
      if rooted then CHR ''/'' # q else if q = [] then ''.'' else q)"

definition Join :: "string list \<Rightarrow> string" where
  "Join es = (let ks = filter (\<lambda>e. e \<noteq> []) es in if ks = [] then [] else Clean (join ''/'' ks))"

definition path_Dir :: "string \<Rightarrow> string" where
  "path_Dir p = Clean (fst (path_split p))"

section \<open>Backends\<close>

text \<open>\<open>core.Store\<close>, and the part of \<open>os\<close> that is used. A directory entry is a name and whether it is a directory.\<close>

record 'r loja =
  lj_scheme :: string
  lj_list :: "string \<Rightarrow> string \<Rightarrow> 'r \<Rightarrow> string + string list"
  lj_open :: "string \<Rightarrow> string \<Rightarrow> 'r \<Rightarrow> string + string"
  lj_create :: "string \<Rightarrow> string \<Rightarrow> string \<Rightarrow> 'r \<Rightarrow> string option \<times> 'r"

record 'r pasta =
  ps_mkdir :: "string \<Rightarrow> 'r \<Rightarrow> string option \<times> 'r"
  ps_temp :: "string \<Rightarrow> string \<Rightarrow> 'r \<Rightarrow> (string + string) \<times> 'r"
  ps_escreve :: "string \<Rightarrow> string \<Rightarrow> 'r \<Rightarrow> string option \<times> 'r"
  ps_fecha :: "string \<Rightarrow> 'r \<Rightarrow> string option \<times> 'r"
  ps_renomeia :: "string \<Rightarrow> string \<Rightarrow> 'r \<Rightarrow> string option \<times> 'r"
  ps_remove :: "string \<Rightarrow> 'r \<Rightarrow> 'r"
  ps_readdir :: "string \<Rightarrow> 'r \<Rightarrow> string + (string \<times> bool) list"
  ps_open :: "string \<Rightarrow> 'r \<Rightarrow> string + string"

datatype erro_arquivos =
    MergeNaoExiste | FormatoNaoExiste string | CaminhoRuim erro_path
  | StoreDemais string string | FaltaStore string string | StoreErrado string string string
  | ColunasNaoConferem erro_colunas | RegistroRuim nat string | NaoComprimiu string
  | Escrevendo string string | CriandoDir string string | CriandoTemp string | FechandoArq string string | Renomeando string string
  | Listando string string

definition checkStore :: "string \<Rightarrow> local_de \<Rightarrow> 'r loja option \<Rightarrow> erro_arquivos option" where
  "checkStore p loc store =
     (case store of
        Some st \<Rightarrow>
          if lc_scheme loc = [] then Some (StoreDemais p (lj_scheme st))
          else if lj_scheme st \<noteq> lc_scheme loc then Some (StoreErrado p (lc_scheme loc) (lj_scheme st))
          else None
      | None \<Rightarrow> if lc_scheme loc \<noteq> [] then Some (FaltaStore p (lc_scheme loc)) else None)"

section \<open>Writing\<close>

record 'r to_files =
  tf_path :: string
  tf_format :: string
  tf_partition :: string
  tf_compress :: bool
  tf_store :: "'r loja option"

definition comoDiretorio :: "string \<Rightarrow> string" where
  "comoDiretorio p = (if p = [] \<or> suffix ''/'' p then p else p @ ''/'')"

definition referencia :: "local_de \<Rightarrow> string \<Rightarrow> string" where
  "referencia loc key = (if lc_scheme loc = [] then key else lc_scheme loc @ ''://'' @ lc_bucket loc @ ''/'' @ key)"

definition refuseUnsupported :: "'r to_files \<Rightarrow> write_options \<Rightarrow> erro_arquivos option" where
  "refuseUnsupported f opt =
     (if wo_dedup opt = DedupMerge then Some MergeNaoExiste
      else if tf_format f \<in> {[], ''ndjson'', ''csv''} then None else Some (FormatoNaoExiste (tf_format f)))"

definition particao :: "'r to_files \<Rightarrow> envelope list \<Rightarrow> string" where
  "particao f records =
     (case records of
        [] \<Rightarrow> []
      | e # _ \<Rightarrow>
          if tf_partition f = [] then []
          else (case ev_payload e of
                  QMap row \<Rightarrow>
                    (case map_of row (tf_partition f) of
                       Some (QText v) \<Rightarrow> if length v < 10 then [] else tf_partition f @ ''='' @ take 10 v
                     | _ \<Rightarrow> [])
                | _ \<Rightarrow> []))"

definition TrimSuffix_barra :: "string \<Rightarrow> string" where
  "TrimSuffix_barra s = (if suffix ''/'' s then butlast s else s)"

definition nome_do_objeto :: "'r to_files \<Rightarrow> local_de \<Rightarrow> envelope list \<Rightarrow> string \<Rightarrow> int \<Rightarrow> string" where
  "nome_do_objeto f loc records format agora =
     (let ext = ''.'' @ format @ (if tf_compress f then ''.gz'' else []);
          kept = filter (\<lambda>p. p \<noteq> []) [TrimSuffix_barra (lc_prefix loc), particao f records, ''parte-'' @ show_int agora @ ext] in
      if lc_scheme loc = [] then Join kept else join ''/'' kept)"

text \<open>The file appears by its rename.\<close>

definition gravar_e_renomear :: "'r pasta \<Rightarrow> string \<Rightarrow> string \<Rightarrow> string \<Rightarrow> 'r \<Rightarrow> erro_arquivos option \<times> 'r" where
  "gravar_e_renomear d tmp key data s =
     (case ps_escreve d tmp data s of
        (Some e, s) \<Rightarrow> (Some (Escrevendo key e), snd (ps_fecha d tmp s))
      | (None, s) \<Rightarrow>
          (case ps_fecha d tmp s of
             (Some e, s) \<Rightarrow> (Some (FechandoArq key e), s)
           | (None, s) \<Rightarrow> (case ps_renomeia d tmp key s of (e, s) \<Rightarrow> (map_option (Renomeando key) e, s))))"

definition put :: "'r pasta \<Rightarrow> 'r loja option \<Rightarrow> local_de \<Rightarrow> string \<Rightarrow> string \<Rightarrow> 'r \<Rightarrow> erro_arquivos option \<times> 'r" where
  "put d store loc key data s =
     (if lc_scheme loc \<noteq> [] then
        (case lj_create (the store) (lc_bucket loc) key data s of (e, s) \<Rightarrow> (map_option (Escrevendo key) e, s))
      else
        (case ps_mkdir d (path_Dir key) s of
           (Some e, s) \<Rightarrow> (Some (CriandoDir (path_Dir key) e), s)
         | (None, s) \<Rightarrow>
             (case ps_temp d (path_Dir key) ''.brevis-*'' s of
                (Inl e, s) \<Rightarrow> (Some (CriandoTemp e), s)
              | (Inr tmp, s) \<Rightarrow> (case gravar_e_renomear d tmp key data s of (e, s) \<Rightarrow> (e, ps_remove d tmp s)))))"

text \<open>The texts: \<open>cf_json\<close> is \<open>json.Marshal\<close>, \<open>cf_relido\<close> the detour of \<open>AsObject\<close>, \<open>cf_sprint\<close> is \<open>fmt.Sprint\<close>.\<close>

record codifica =
  cf_json :: "qualquer \<Rightarrow> string + string"
  cf_relido :: "qualquer \<Rightarrow> registro option"
  cf_sprint :: "qualquer \<Rightarrow> string"
  cf_gzip :: "string \<Rightarrow> string + string"

definition LF :: char where "LF = CHR 0x0A"
definition CR :: char where "CR = CHR 0x0D"
definition aspas :: char where "aspas = CHR 0x22"

fun encodeNDJSON :: "codifica \<Rightarrow> nat \<Rightarrow> envelope list \<Rightarrow> erro_arquivos + string" where
  "encodeNDJSON cf i [] = Inr []"
| "encodeNDJSON cf i (e # es) =
     (case cf_json cf (ev_payload e) of
        Inl x \<Rightarrow> Inl (RegistroRuim i x)
      | Inr t \<Rightarrow> (case encodeNDJSON cf (Suc i) es of Inl x \<Rightarrow> Inl x | Inr r \<Rightarrow> Inr (t @ [LF] @ r)))"

definition cell :: "codifica \<Rightarrow> qualquer option \<Rightarrow> string" where
  "cell cf v =
     (case v of
        None \<Rightarrow> []
      | Some QNil \<Rightarrow> []
      | Some (QText t) \<Rightarrow> t
      | Some w \<Rightarrow> (case cf_json cf w of Inl _ \<Rightarrow> cf_sprint cf w | Inr t \<Rightarrow> trim_left_of aspas (trim_right_of aspas t)))"

definition cita :: "string \<Rightarrow> string" where
  "cita c =
     (if aspas \<in> set c \<or> CHR '','' \<in> set c \<or> LF \<in> set c
      then [aspas] @ concat (map (\<lambda>x. if x = aspas then [aspas, aspas] else [x]) c) @ [aspas] else c)"

definition csv_row :: "string list \<Rightarrow> string" where
  "csv_row cells = join '','' (map cita cells) @ [LF]"

fun linhas_objeto :: "codifica \<Rightarrow> nat \<Rightarrow> envelope list \<Rightarrow> erro_arquivos + registro list" where
  "linhas_objeto cf i [] = Inr []"
| "linhas_objeto cf i (e # es) =
     (case AsObject (cf_relido cf) (ev_payload e) of
        None \<Rightarrow> Inl (RegistroRuim i ''not an object'')
      | Some row \<Rightarrow> (case linhas_objeto cf (Suc i) es of Inl x \<Rightarrow> Inl x | Inr rs \<Rightarrow> Inr (row # rs)))"

definition colunas_csv :: "registro list \<Rightarrow> string list" where
  "colunas_csv rows = sort_strings (remdups (concat (map (map fst) rows)))"

definition encodeCSV :: "codifica \<Rightarrow> envelope list \<Rightarrow> erro_arquivos + string" where
  "encodeCSV cf records =
     (case linhas_objeto cf 0 records of
        Inl e \<Rightarrow> Inl e
      | Inr rows \<Rightarrow>
          (let cols = colunas_csv rows in
           Inr (csv_row cols @ concat (map (\<lambda>row. csv_row (map (\<lambda>c. cell cf (map_of row c)) cols)) rows))))"

definition encode :: "codifica \<Rightarrow> string \<Rightarrow> envelope list \<Rightarrow> erro_arquivos + string" where
  "encode cf format records = (if format = ''csv'' then encodeCSV cf records else encodeNDJSON cf 0 records)"

definition Files_Write ::
    "codifica \<Rightarrow> 'r pasta \<Rightarrow> 'r to_files \<Rightarrow> int \<Rightarrow> envelope list \<Rightarrow> write_options \<Rightarrow> 'r \<Rightarrow> (erro_arquivos + load_result) \<times> 'r" where
  "Files_Write cf d f agora records opt s =
     (case refuseUnsupported f opt of
        Some e \<Rightarrow> (Inl e, s)
      | None \<Rightarrow>
          (case ParseLocation (comoDiretorio (tf_path f)) of
             Inl e \<Rightarrow> (Inl (CaminhoRuim e), s)
           | Inr loc \<Rightarrow>
               (case checkStore (tf_path f) loc (tf_store f) of
                  Some e \<Rightarrow> (Inl e, s)
                | None \<Rightarrow>
                    (let format = (if tf_format f = [] then ''ndjson'' else tf_format f) in
                     case CheckColumns (cf_relido cf) (wo_columns opt) (map ev_payload records) of
                       Some e \<Rightarrow> (Inl (ColunasNaoConferem e), s)
                     | None \<Rightarrow>
                         (case encode cf format records of
                            Inl e \<Rightarrow> (Inl e, s)
                          | Inr data \<Rightarrow>
                              (case (if tf_compress f then cf_gzip cf data else Inr data) of
                                 Inl e \<Rightarrow> (Inl (NaoComprimiu e), s)
                               | Inr data \<Rightarrow>
                                   (let key = nome_do_objeto f loc records format agora in
                                    case put d (tf_store f) loc key data s of
                                      (Some e, s) \<Rightarrow> (Inl e, s)
                                    | (None, s) \<Rightarrow>
                                        (Inr \<lparr>lr_rows = int (length records), lr_bytes = length data, lr_strategy = ''file'', lr_format = format,
                                           lr_dedup = DedupNone, lr_ignored = 0, lr_created = False, lr_errors = [],
                                           lr_objects = [referencia loc key]\<rparr>, s))))))))"

text \<open>As a destination of a pipeline.\<close>

definition destino_arquivos :: "codifica \<Rightarrow> 'r pasta \<Rightarrow> 'r to_files \<Rightarrow> ('r \<Rightarrow> int) \<Rightarrow> 'r destino" where
  "destino_arquivos cf d f relogio =
     \<lparr>wr_write = (\<lambda>envs opt s.
        case Files_Write cf d f (relogio s) envs opt s of (Inl e, s) \<Rightarrow> ((None, Some ''files''), s) | (Inr r, s) \<Rightarrow> ((Some r, None), s)),
      wr_describe = tf_path f, wr_check = None\<rparr>"

section \<open>\<open>encoding/csv\<close>\<close>

text \<open>
  \<open>csv.Reader\<close> with its defaults: a line break is LF or CR LF, a CR that ends the text is dropped, empty lines
  are skipped, a quote may only open a field, and every record has as many fields as the first.
\<close>

fun crlf :: "string \<Rightarrow> string" where
  "crlf [] = []"
| "crlf [c] = (if c = CR then [] else [c])"
| "crlf (c # x # s) = (if c = CR \<and> x = LF then crlf (x # s) else c # crlf (x # s))"

datatype estado_csv = Inicio | Fora | Dentro | Aspas
datatype erro_csv = ErrBareQuote | ErrQuote | ErrFieldCount

fun csv_aut :: "estado_csv \<Rightarrow> string \<Rightarrow> string list \<Rightarrow> string \<Rightarrow> string list list \<times> erro_csv option" where
  "csv_aut st texto campos [] =
     (case st of
        Inicio \<Rightarrow> (if campos = [] then ([], None) else ([campos @ [texto]], None))
      | Dentro \<Rightarrow> ([], Some ErrQuote)
      | _ \<Rightarrow> ([campos @ [texto]], None))"
| "csv_aut st texto campos (c # cs) =
     (case st of
        Inicio \<Rightarrow>
          if c = LF then
            (if campos = [] then csv_aut Inicio [] [] cs else (case csv_aut Inicio [] [] cs of (rs, e) \<Rightarrow> ((campos @ [texto]) # rs, e)))
          else if c = aspas then csv_aut Dentro [] campos cs
          else if c = CHR '','' then csv_aut Inicio [] (campos @ [texto]) cs
          else csv_aut Fora [c] campos cs
      | Fora \<Rightarrow>
          if c = LF then (case csv_aut Inicio [] [] cs of (rs, e) \<Rightarrow> ((campos @ [texto]) # rs, e))
          else if c = aspas then ([], Some ErrBareQuote)
          else if c = CHR '','' then csv_aut Inicio [] (campos @ [texto]) cs
          else csv_aut Fora (texto @ [c]) campos cs
      | Dentro \<Rightarrow> if c = aspas then csv_aut Aspas texto campos cs else csv_aut Dentro (texto @ [c]) campos cs
      | Aspas \<Rightarrow>
          if c = LF then (case csv_aut Inicio [] [] cs of (rs, e) \<Rightarrow> ((campos @ [texto]) # rs, e))
          else if c = aspas then csv_aut Dentro (texto @ [aspas]) campos cs
          else if c = CHR '','' then csv_aut Inicio [] (campos @ [texto]) cs
          else ([], Some ErrQuote))"

fun mesma_largura :: "nat \<Rightarrow> string list list \<Rightarrow> erro_csv option \<Rightarrow> string list list \<times> erro_csv option" where
  "mesma_largura n [] e = ([], e)"
| "mesma_largura n (r # rs) e =
     (if length r \<noteq> n then ([], Some ErrFieldCount) else (case mesma_largura n rs e of (xs, e) \<Rightarrow> (r # xs, e)))"

definition csv_ler :: "string \<Rightarrow> string list list \<times> erro_csv option" where
  "csv_ler s =
     (case csv_aut Inicio [] [] (crlf s) of
        ([], e) \<Rightarrow> ([], e)
      | (r # rs, e) \<Rightarrow> mesma_largura (length r) (r # rs) e)"

section \<open>Reading\<close>

record 'r from_files =
  ff_path :: string
  ff_format :: string
  ff_preserve :: bool
  ff_no_header :: bool
  ff_store :: "'r loja option"

text \<open>
  \<open>de_outros\<close>: what \<open>NewDecoder\<close> makes of the other formats, \<open>None\<close> for one it does not have; \<open>de_gzip\<close> may
  fail at the header or later; \<open>de_erro\<close> writes the error of the CSV reader.
\<close>

record decodifica =
  de_outros :: "string \<Rightarrow> bool \<Rightarrow> string \<Rightarrow> (qualquer list \<times> string option) option"
  de_gzip :: "string \<Rightarrow> string + string"
  de_match :: "string \<Rightarrow> string \<Rightarrow> bool option"
  de_erro :: "erro_csv \<Rightarrow> string"

definition csv_linhas :: "bool \<Rightarrow> string list list \<Rightarrow> qualquer list" where
  "csv_linhas no_header rs = (if no_header then map (csv_linha None) rs else (case rs of [] \<Rightarrow> [] | h # rs \<Rightarrow> map (csv_linha (Some h)) rs))"

definition decodificar :: "decodifica \<Rightarrow> 'r from_files \<Rightarrow> string \<Rightarrow> string \<Rightarrow> qualquer list \<times> string option" where
  "decodificar de f format data =
     (if format = ''csv'' then (case csv_ler data of (rs, e) \<Rightarrow> (csv_linhas (ff_no_header f) rs, map_option (de_erro de) e))
      else (case de_outros de format (ff_preserve f) data of None \<Rightarrow> ([], Some (''unsupported format '' @ format)) | Some x \<Rightarrow> x))"

definition dirOf :: "local_de \<Rightarrow> string" where
  "dirOf loc = (if lc_prefix loc = [] then ''.'' else lc_prefix loc)"

definition listar :: "decodifica \<Rightarrow> 'r pasta \<Rightarrow> 'r loja option \<Rightarrow> local_de \<Rightarrow> 'r \<Rightarrow> erro_arquivos + string list" where
  "listar de d store loc s =
     (if lc_scheme loc \<noteq> [] then
        (case lj_list (the store) (lc_bucket loc) (lc_prefix loc) s of
           Inl e \<Rightarrow> Inl (Listando (location_String loc) e)
         | Inr keys \<Rightarrow> Inr (sort_strings (filter (Matches (de_match de) loc) keys)))
      else
        (case ps_readdir d (dirOf loc) s of
           Inl e \<Rightarrow> Inl (Listando (location_String loc) e)
         | Inr es \<Rightarrow>
             Inr (filter (\<lambda>k. lc_pattern loc = [] \<or> Matches (de_match de) loc k)
               (sort_strings (map (\<lambda>(n, _). Join [dirOf loc, n]) (filter (\<lambda>(_, dir). \<not> dir) es))))))"

definition abrir :: "'r pasta \<Rightarrow> 'r loja option \<Rightarrow> local_de \<Rightarrow> string \<Rightarrow> 'r \<Rightarrow> string + string" where
  "abrir d store loc key s = (if lc_scheme loc \<noteq> [] then lj_open (the store) (lc_bucket loc) key s else ps_open d key s)"

definition de_registro :: "qualquer \<Rightarrow> envelope" where
  "de_registro v = \<lparr>ev_provider = [], ev_entity = [], ev_source_key = [], ev_record_ts = [], ev_payload = v\<rparr>"

definition drenar ::
    "decodifica \<Rightarrow> 'r pasta \<Rightarrow> 'r from_files \<Rightarrow> local_de \<Rightarrow> string \<Rightarrow> string \<Rightarrow> 'r \<Rightarrow> qualquer list \<times> string option" where
  "drenar de d f loc format key s =
     (case abrir d (ff_store f) loc key s of
        Inl e \<Rightarrow> ([], Some e)
      | Inr data \<Rightarrow>
          (case (if suffix ''.gz'' key then de_gzip de data else Inr data) of
             Inl e \<Rightarrow> ([], Some (''not gzip: '' @ e))
           | Inr data \<Rightarrow> decodificar de f format data))"

text \<open>The files in turn, up to the first that fails; it counts them.\<close>

fun ler_chaves :: "decodifica \<Rightarrow> 'r pasta \<Rightarrow> 'r from_files \<Rightarrow> local_de \<Rightarrow> string \<Rightarrow> string list \<Rightarrow> 'r \<Rightarrow> fluxo \<times> int" where
  "ler_chaves de d f loc format [] s = ([], 0)"
| "ler_chaves de d f loc format (k # ks) s =
     (case drenar de d f loc format k s of
        (vs, Some e) \<Rightarrow> (map (Inr \<circ> de_registro) vs @ [Inl (k @ '': '' @ e)], 1)
      | (vs, None) \<Rightarrow> (case ler_chaves de d f loc format ks s of (xs, n) \<Rightarrow> (map (Inr \<circ> de_registro) vs @ xs, n + 1)))"

definition Files_Read :: "decodifica \<Rightarrow> 'r pasta \<Rightarrow> 'r from_files \<Rightarrow> 'r \<Rightarrow> erro_arquivos + fluxo \<times> int" where
  "Files_Read de d f s =
     (case ParseLocation (ff_path f) of
        Inl e \<Rightarrow> Inl (CaminhoRuim e)
      | Inr loc \<Rightarrow>
          (case checkStore (ff_path f) loc (ff_store f) of
             Some e \<Rightarrow> Inl e
           | None \<Rightarrow>
               (case listar de d (ff_store f) loc s of
                  Inl e \<Rightarrow> Inl e
                | Inr keys \<Rightarrow> Inr (ler_chaves de d f loc (if ff_format f = [] then ''ndjson'' else ff_format f) keys s))))"

section \<open>What is written as CSV is read as it was\<close>

lemma especiais [simp]: "LF \<noteq> aspas" "aspas \<noteq> LF" "LF \<noteq> CHR '',''" "aspas \<noteq> CHR '',''" "CHR '','' \<noteq> LF" "CHR '','' \<noteq> aspas"
  by (simp_all add: LF_def aspas_def)

lemma aut_dentro:
  "csv_aut Dentro t cs (concat (map (\<lambda>x. if x = aspas then [aspas, aspas] else [x]) c) @ aspas # r) = csv_aut Aspas (t @ c) cs r"
  by (induction c arbitrary: t) simp_all

lemma aut_fora: "aspas \<notin> set c \<Longrightarrow> CHR '','' \<notin> set c \<Longrightarrow> LF \<notin> set c \<Longrightarrow> csv_aut Fora t cs (c @ r) = csv_aut Fora (t @ c) cs r"
  by (induction c arbitrary: t) auto

lemma aut_inicio:
  assumes "aspas \<notin> set c" and "CHR '','' \<notin> set c" and "LF \<notin> set c" and "c \<noteq> []"
  shows "csv_aut Inicio [] cs (c @ r) = csv_aut Fora c cs r"
proof -
  obtain x xs where "c = x # xs" using assms(4) by (cases c) auto
  then show ?thesis using aut_fora [of xs "[x]" cs r] assms(1-3) by auto
qed

lemma aut_cita_virgula: "csv_aut Inicio [] cs (cita c @ CHR '','' # r) = csv_aut Inicio [] (cs @ [c]) r"
proof (cases "aspas \<in> set c \<or> CHR '','' \<in> set c \<or> LF \<in> set c")
  case True
  then show ?thesis using aut_dentro [of "[]" cs c "CHR '','' # r"] by (simp add: cita_def)
next
  case False
  then show ?thesis using aut_inicio [of c cs "CHR '','' # r"] by (cases "c = []") (auto simp: cita_def)
qed

lemma aut_cita_fim:
  assumes "cs \<noteq> [] \<or> c \<noteq> []"
  shows "csv_aut Inicio [] cs (cita c @ LF # r) = apfst (Cons (cs @ [c])) (csv_aut Inicio [] [] r)"
proof (cases "aspas \<in> set c \<or> CHR '','' \<in> set c \<or> LF \<in> set c")
  case True
  then show ?thesis using aut_dentro [of "[]" cs c "LF # r"] by (auto simp: cita_def split: prod.split)
next
  case False
  then show ?thesis using aut_inicio [of c cs "LF # r"] assms by (cases "c = []") (auto simp: cita_def split: prod.split)
qed

lemma aut_linha:
  "row \<noteq> [] \<Longrightarrow> cs \<noteq> [] \<or> row \<noteq> [[]] \<Longrightarrow>
   csv_aut Inicio [] cs (join '','' (map cita row) @ LF # r) = apfst (Cons (cs @ row)) (csv_aut Inicio [] [] r)"
proof (induction row arbitrary: cs)
  case (Cons c row)
  show ?case
  proof (cases row)
    case Nil
    then show ?thesis using aut_cita_fim [of cs c r] Cons.prems by simp
  next
    case (Cons d row')
    then show ?thesis using Cons.IH [of "cs @ [c]"] aut_cita_virgula [of cs c "join '','' (map cita row) @ LF # r"] by simp
  qed
qed simp

lemma aut_linhas:
  "\<forall>row \<in> set rows. row \<noteq> [] \<and> row \<noteq> [[]] \<Longrightarrow> csv_aut Inicio [] [] (concat (map csv_row rows)) = (rows, None)"
  by (induction rows) (simp_all add: csv_row_def aut_linha)

lemma crlf_sem_CR: "CR \<notin> set s \<Longrightarrow> crlf s = s"
  by (induction s rule: crlf.induct) auto

lemma set_join: "set (join sep ps) \<subseteq> set sep \<union> \<Union> (set ` set ps)"
  by (induction sep ps rule: join.induct) auto

lemma set_cita: "set (cita c) \<subseteq> insert aspas (set c)"
  by (auto simp: cita_def)

lemma CR_fora: "\<forall>c \<in> set row. CR \<notin> set c \<Longrightarrow> CR \<notin> set (csv_row row)"
  using set_join [of "'',''" "map cita row"] set_cita by (fastforce simp: csv_row_def CR_def LF_def aspas_def)

lemma mesma_largura_ok: "\<forall>r \<in> set rs. length r = n \<Longrightarrow> mesma_largura n rs e = (rs, e)"
  by (induction rs) simp_all

definition legivel :: "string list \<Rightarrow> bool" where
  "legivel row \<longleftrightarrow> row \<noteq> [] \<and> row \<noteq> [[]] \<and> (\<forall>c \<in> set row. CR \<notin> set c)"

lemma csv_ler_escrito:
  assumes "\<forall>row \<in> set rows. legivel row \<and> length row = n"
  shows "csv_ler (concat (map csv_row rows)) = (rows, None)"
proof -
  have "CR \<notin> set (concat (map csv_row rows))" using assms CR_fora by (auto simp: legivel_def)
  moreover have "csv_aut Inicio [] [] (concat (map csv_row rows)) = (rows, None)" using assms by (intro aut_linhas) (simp add: legivel_def)
  ultimately show ?thesis using assms mesma_largura_ok [of rows n None]
    by (cases rows) (auto simp: csv_ler_def crlf_sem_CR)
qed

lemma csv_linha_zip:
  assumes "distinct hs" and "length rec \<le> length hs"
  shows "csv_linha (Some hs) rec = QMapTexto (zip hs rec)"
proof -
  have "fold (\<lambda>(i, v) m. if i < length hs then poe (hs ! i) v m else m) (enumerate 0 rec) [] = zip hs rec"
    using assms(2)
  proof (induction rec rule: rev_induct)
    case (snoc v rec)
    have n: "map_of (zip hs rec) (hs ! length rec) = None"
      using assms(1) snoc.prems by (auto simp: map_of_eq_None_iff set_zip nth_eq_iff_index_eq)
    have "zip hs (rec @ [v]) = zip hs rec @ [(hs ! length rec, v)]"
      using snoc.prems by (intro nth_equalityI) (auto simp: nth_append less_Suc_eq min_absorb2)
    then show ?case using snoc n poe_novo by (simp add: enumerate_append_eq)
  qed simp
  then show ?thesis by (simp add: csv_linha_def)
qed

section \<open>Names\<close>

lemma path_split_nome:
  assumes "CHR ''/'' \<notin> set n" and "dir = [] \<or> suffix ''/'' dir"
  shows "path_split (dir @ n) = (dir, n)"
proof (cases "dir = []")
  case True
  moreover have "cut_last (CHR ''/'') n = None" using assms(1) by (simp only: cut_last_None_iff not_False_eq_True)
  ultimately show ?thesis by (simp add: path_split_def)
next
  case False
  then obtain a where a: "dir = a @ ''/''" using assms(2) by (auto simp: suffix_def)
  have "cut_last (CHR ''/'') (a @ CHR ''/'' # n) = Some (a, n)" using assms(1) by (rule cut_last_append)
  then show ?thesis by (simp add: path_split_def a)
qed

lemma path_Base_nome:
  assumes "CHR ''/'' \<notin> set n" and "n \<noteq> []" and "dir = [] \<or> suffix ''/'' dir"
  shows "path_Base (dir @ n) = n"
proof -
  have "\<not> suffix ''/'' (dir @ n)" using assms(1,2) by (cases n rule: rev_cases) (auto simp: suffix_def)
  then show ?thesis using path_split_nome [OF assms(1,3)] assms(2) by (simp add: path_Base_def Let_def)
qed

definition nome_da_parte :: "'r to_files \<Rightarrow> string \<Rightarrow> int \<Rightarrow> string" where
  "nome_da_parte f format agora = ''parte-'' @ show_int agora @ ''.'' @ format @ (if tf_compress f then ''.gz'' else [])"

lemma show_int_sem: "x \<in> set (show_int i) \<Longrightarrow> numerico x"
  using show_int_numerico [of i] by (simp add: list_all_iff)

lemma nome_da_parte_sem:
  assumes "format = ''csv'' \<or> format = ''ndjson''"
  shows "set (nome_da_parte f format agora) \<inter> set ''/*?['' = {}" "CHR 0x5C \<notin> set (nome_da_parte f format agora)" "nome_da_parte f format agora \<noteq> []"
proof -
  have p: "c \<in> set ''arte-.csvndjgzo'' \<or> numerico c" if "c \<in> set (nome_da_parte f format agora) - {CHR ''p''}" for c
    using that assms show_int_sem [of c agora] by (auto simp: nome_da_parte_def split: if_splits)
  have q: "c \<notin> set ''arte-.csvndjgzo'' \<and> c \<noteq> CHR ''p'' \<and> \<not> numerico c" if "c \<in> set ''/*?['' \<or> c = CHR 0x5C" for c
    using that by (auto simp: numerico_def byte_classes)
  show "set (nome_da_parte f format agora) \<inter> set ''/*?['' = {}" "CHR 0x5C \<notin> set (nome_da_parte f format agora)"
    using p q by blast+
  show "nome_da_parte f format agora \<noteq> []" by (simp add: nome_da_parte_def)
qed

lemma nome_do_objeto_nuvem:
  assumes "lc_scheme loc \<noteq> []"
  shows "\<exists>dir. nome_do_objeto f loc records format agora = dir @ nome_da_parte f format agora \<and> (dir = [] \<or> suffix ''/'' dir)"
proof -
  let ?n = "nome_da_parte f format agora"
  let ?ks = "filter (\<lambda>p. p \<noteq> []) [TrimSuffix_barra (lc_prefix loc), particao f records]"
  have "nome_do_objeto f loc records format agora = join ''/'' (filter (\<lambda>p. p \<noteq> []) ([TrimSuffix_barra (lc_prefix loc), particao f records] @ [?n]))"
    using assms by (simp add: nome_do_objeto_def nome_da_parte_def Let_def)
  also have "filter (\<lambda>p. p \<noteq> []) ([TrimSuffix_barra (lc_prefix loc), particao f records] @ [?n]) = ?ks @ [?n]"
    unfolding filter_append by (simp add: nome_da_parte_def)
  finally obtain ks where "nome_do_objeto f loc records format agora = join ''/'' (ks @ [?n])" by blast
  then show ?thesis by (cases "ks = []") (auto simp: join_snoc suffix_def)
qed

text \<open>A cleaned path ends with its last element.\<close>

lemma split_on_nome:
  assumes "CHR ''/'' \<notin> set n" and "dir = [] \<or> suffix ''/'' dir"
  shows "\<exists>es. split_on (CHR ''/'') (dir @ n) = es @ [n]"
proof (cases "dir = []")
  case True
  then show ?thesis using split_on_inteiro [OF assms(1)] by simp
next
  case False
  then obtain a where a: "dir = a @ ''/''" using assms(2) by (auto simp: suffix_def)
  have "split_on c (a @ c # n) = split_on c a @ split_on c n" for c :: char
    by (induction a) (auto split: list.split simp: split_on_not_Nil)
  then show ?thesis using assms(1) a split_on_inteiro by auto
qed

lemma Clean_nome:
  assumes "CHR ''/'' \<notin> set n" and "dir = [] \<or> suffix ''/'' dir" and "n \<noteq> []" and "n \<noteq> ''.''" and "n \<noteq> ''..''"
  shows "\<exists>dir'. Clean (dir @ n) = dir' @ n \<and> (dir' = [] \<or> suffix ''/'' dir')"
proof -
  obtain es where es: "split_on (CHR ''/'') (dir @ n) = es @ [n]" using split_on_nome [OF assms(1,2)] by blast
  obtain r where r: "r = prefix ''/'' (dir @ n)" by blast
  obtain st where st: "st = fold (elemento r) es []" by blast
  have q: "fold (elemento r) (split_on (CHR ''/'') (dir @ n)) [] = st @ [n]" using es st assms(3-5) by (simp add: elemento_def)
  have "Clean (dir @ n) = ((if r then ''/'' else []) @ (if st = [] then [] else join ''/'' st @ ''/'')) @ n"
    using assms(3) unfolding Clean_def Let_def r [symmetric] q join_snoc by simp
  moreover have "(if r then ''/'' else []) @ (if st = [] then [] else join ''/'' st @ ''/'') = [] \<or>
     suffix ''/'' ((if r then ''/'' else []) @ (if st = [] then [] else join ''/'' st @ ''/''))" by (auto simp: suffix_def)
  ultimately show ?thesis by blast
qed

section \<open>A store\<close>

text \<open>
  What is promised of object storage, \<open>obj\<close> being the objects, when it answers: it lists the keys under a
  prefix, an object opens as it was written, and creating one changes that one only. \<open>path.Match\<close> with a name
  without wildcards is equality, and what was compressed is what is read.
\<close>

definition loja_ok :: "'r loja \<Rightarrow> ('r \<Rightarrow> string \<Rightarrow> string \<Rightarrow> string option) \<Rightarrow> bool" where
  "loja_ok st obj \<longleftrightarrow>
     (\<forall>b p s. \<exists>ks. lj_list st b p s = Inr ks \<and> distinct ks \<and> set ks = {k. prefix p k \<and> obj s b k \<noteq> None \<and> \<not> suffix ''/'' k}) \<and>
     (\<forall>b k s x. obj s b k = Some x \<longrightarrow> lj_open st b k s = Inr x) \<and>
     (\<forall>b k x s s'. lj_create st b k x s = (None, s') \<longrightarrow> obj s' = (\<lambda>b' k'. if b' = b \<and> k' = k then Some x else obj s b' k'))"

definition match_ok :: "decodifica \<Rightarrow> bool" where
  "match_ok de \<longleftrightarrow> (\<forall>p n. set p \<inter> set ''*?['' = {} \<and> CHR 0x5C \<notin> set p \<longrightarrow> de_match de p n = Some (p = n))"

definition gzip_ok :: "codifica \<Rightarrow> decodifica \<Rightarrow> bool" where
  "gzip_ok cf de \<longleftrightarrow> (\<forall>x z. cf_gzip cf x = Inr z \<longrightarrow> de_gzip de z = Inr x)"

lemma ParseLocation_esquema:
  assumes "ParseLocation p = Inr loc" and "lc_scheme loc \<noteq> []"
  shows "lc_scheme loc = ''s3'' \<or> lc_scheme loc = ''gs''" "lc_bucket loc \<noteq> []" "CHR ''/'' \<notin> set (lc_bucket loc)"
  using assms(1) by (cases rule: ParseLocation_casos; use assms(2) in auto)+

text \<open>The reference names the object that was written, and no other.\<close>

lemma referencia_le:
  assumes "ParseLocation p = Inr loc" and "lc_scheme loc \<noteq> []"
    and "CHR ''/'' \<notin> set n" and "n \<noteq> []" and "dir = [] \<or> suffix ''/'' dir"
  shows "ParseLocation (referencia loc (dir @ n)) =
    Inr \<lparr>lc_scheme = lc_scheme loc, lc_bucket = lc_bucket loc, lc_prefix = dir, lc_pattern = n\<rparr>"
proof -
  note e = ParseLocation_esquema [OF assms(1,2)]
  have "\<not> suffix ''/'' (dir @ n)" using assms(3,4) by (cases n rule: rev_cases) (auto simp: suffix_def)
  then show ?thesis
    using ParseLocation_nuvem(1) [OF e, of "dir @ n"] path_split_nome [OF assms(3,5)] assms(2,4) by (simp add: referencia_def nomeia_def)
qed

lemma um_so: "distinct xs \<Longrightarrow> set xs = {a} \<Longrightarrow> xs = [a]"
  by (cases xs; cases "tl xs") auto

lemma listar_um:
  assumes "loja_ok st obj" and "match_ok de" and "set n \<inter> set ''/*?['' = {}" and "CHR 0x5C \<notin> set n" and "n \<noteq> []" and "dir = [] \<or> suffix ''/'' dir"
    and "obj s b (dir @ n) \<noteq> None" and "\<forall>k. obj s b k \<noteq> None \<longrightarrow> path_Base k = n \<longrightarrow> k = dir @ n" and "sch \<noteq> []"
  shows "listar de d (Some st) \<lparr>lc_scheme = sch, lc_bucket = b, lc_prefix = dir, lc_pattern = n\<rparr> s = Inr [dir @ n]"
proof -
  let ?loc = "\<lparr>lc_scheme = sch, lc_bucket = b, lc_prefix = dir, lc_pattern = n\<rparr>"
  obtain ks where ks: "lj_list st b dir s = Inr ks" "distinct ks" "set ks = {k. prefix dir k \<and> obj s b k \<noteq> None \<and> \<not> suffix ''/'' k}"
    using assms(1) unfolding loja_ok_def by meson
  have n: "CHR ''/'' \<notin> set n" "set n \<inter> set ''*?['' = {}" using assms(3) by auto
  have m: "Matches (de_match de) ?loc k \<longleftrightarrow> path_Base k = n" for k
    using assms(2,4,5) n(2) by (auto simp: Matches_def match_ok_def)
  have "\<not> suffix ''/'' (dir @ n)" using n(1) assms(5) by (cases n rule: rev_cases) (auto simp: suffix_def)
  then have "set (filter (Matches (de_match de) ?loc) ks) = {dir @ n}"
  proof (intro set_eqI iffI)
    fix k
    assume "k \<in> set (filter (Matches (de_match de) ?loc) ks)"
    then have "obj s b k \<noteq> None" "path_Base k = n" unfolding set_filter ks(3) m by blast+
    then show "k \<in> {dir @ n}" using assms(8) by blast
  next
    fix k
    assume "k \<in> {dir @ n}"
    then have k: "k = dir @ n" by simp
    then have "k \<in> set ks" unfolding ks(3) using assms(7) \<open>\<not> suffix ''/'' (dir @ n)\<close> by simp
    moreover have "path_Base k = n" unfolding k by (rule path_Base_nome [OF n(1) assms(5,6)])
    ultimately show "k \<in> set (filter (Matches (de_match de) ?loc) ks)" unfolding set_filter m by blast
  qed
  then have "filter (Matches (de_match de) ?loc) ks = [dir @ n]" using ks(2) by (intro um_so distinct_filter)
  then show ?thesis using ks(1) assms(9) by (simp add: listar_def sort_strings_def)
qed

text \<open>The records as the CSV file gives them back: every column, as text.\<close>

definition como_texto :: "codifica \<Rightarrow> string list \<Rightarrow> registro \<Rightarrow> qualquer" where
  "como_texto cf cols row = QMapTexto (map (\<lambda>c. (c, cell cf (map_of row c))) cols)"

lemma colunas_csv_distinct: "distinct (colunas_csv rows)"
  by (simp add: colunas_csv_def sort_strings_def)

lemma zip_map_direita: "zip xs (map f xs) = map (\<lambda>x. (x, f x)) xs"
  by (induction xs) simp_all

lemma ler_encodeCSV:
  assumes "linhas_objeto cf 0 records = Inr rows" and "legivel (colunas_csv rows)"
    and "\<forall>row \<in> set rows. legivel (map (\<lambda>c. cell cf (map_of row c)) (colunas_csv rows))"
  shows "\<exists>data. encodeCSV cf records = Inr data \<and> csv_ler data = (colunas_csv rows # map (\<lambda>row. map (\<lambda>c. cell cf (map_of row c)) (colunas_csv rows)) rows, None) \<and>
    csv_linhas False (fst (csv_ler data)) = map (como_texto cf (colunas_csv rows)) rows"
proof -
  let ?cols = "colunas_csv rows"
  let ?rs = "?cols # map (\<lambda>row. map (\<lambda>c. cell cf (map_of row c)) ?cols) rows"
  have d: "encodeCSV cf records = Inr (concat (map csv_row ?rs))" using assms(1) by (simp add: encodeCSV_def Let_def comp_def)
  have r: "csv_ler (concat (map csv_row ?rs)) = (?rs, None)" using assms(2,3) by (intro csv_ler_escrito [where n = "length ?cols"]) auto
  have "csv_linha (Some ?cols) (map f ?cols) = QMapTexto (map (\<lambda>c. (c, f c)) ?cols)" for f
    using csv_linha_zip [OF colunas_csv_distinct, of "map f ?cols" rows] by (simp add: zip_map_direita)
  then have "csv_linhas False ?rs = map (como_texto cf ?cols) rows" by (simp add: csv_linhas_def como_texto_def comp_def)
  then show ?thesis using d r by (metis fst_conv)
qed

text \<open>What a write into a store that succeeds has done.\<close>

lemma Files_Write_nuvem:
  assumes "Files_Write cf d f agora records opt s = (Inr res, s')" and "tf_store f = Some st"
  shows "\<exists>loc data z. ParseLocation (comoDiretorio (tf_path f)) = Inr loc \<and> lc_scheme loc \<noteq> [] \<and> lj_scheme st = lc_scheme loc \<and>
    encode cf (if tf_format f = [] then ''ndjson'' else tf_format f) records = Inr data \<and>
    (if tf_compress f then cf_gzip cf data = Inr z else z = data) \<and>
    lj_create st (lc_bucket loc) (nome_do_objeto f loc records (if tf_format f = [] then ''ndjson'' else tf_format f) agora) z s = (None, s') \<and>
    lr_objects res = [referencia loc (nome_do_objeto f loc records (if tf_format f = [] then ''ndjson'' else tf_format f) agora)] \<and>
    lr_rows res = int (length records)"
proof -
  let ?fmt = "if tf_format f = [] then ''ndjson'' else tf_format f"
  obtain loc where loc: "ParseLocation (comoDiretorio (tf_path f)) = Inr loc"
    using assms(1) by (auto simp: Files_Write_def split: option.splits sum.splits)
  have st: "lc_scheme loc \<noteq> []" "lj_scheme st = lc_scheme loc"
    using assms loc by (auto simp: Files_Write_def checkStore_def split: option.splits if_splits)
  then have ck: "checkStore (tf_path f) loc (Some st) = None" by (simp add: checkStore_def)
  obtain data where data: "encode cf ?fmt records = Inr data"
    using assms loc ck by (auto simp: Files_Write_def Let_def split: option.splits sum.splits)
  obtain z where z: "(if tf_compress f then cf_gzip cf data else Inr data) = Inr z"
    using assms loc ck data by (cases "if tf_compress f then cf_gzip cf data else Inr data") (auto simp: Files_Write_def Let_def split: option.splits)
  have "put d (Some st) loc (nome_do_objeto f loc records ?fmt agora) z s = (None, s') \<and>
      lr_objects res = [referencia loc (nome_do_objeto f loc records ?fmt agora)] \<and> lr_rows res = int (length records)"
    using assms loc ck data z by (auto simp: Files_Write_def Let_def split: option.splits prod.splits)
  then show ?thesis using loc st data z by (auto simp: put_def split: prod.splits if_splits)
qed

section \<open>A directory\<close>

text \<open>
  What is promised of the file system. A temporary file is new and carries the pattern in its name; a rename
  puts the contents under the new name, or does nothing.
\<close>

definition mesmo :: "'r pasta \<Rightarrow> (string \<Rightarrow> bool) \<Rightarrow> 'r \<Rightarrow> 'r \<Rightarrow> bool" where
  "mesmo d fora s s' \<longleftrightarrow> (\<forall>p. \<not> fora p \<longrightarrow> ps_open d p s' = ps_open d p s)"

definition temporario :: "string \<Rightarrow> bool" where
  "temporario p \<longleftrightarrow> prefix ''.brevis-'' (path_Base p)"

definition pasta_ok :: "'r pasta \<Rightarrow> bool" where
  "pasta_ok d \<longleftrightarrow>
     (\<forall>x s e s'. ps_mkdir d x s = (e, s') \<longrightarrow> mesmo d (\<lambda>_. False) s s') \<and>
     (\<forall>x s e s'. ps_temp d x ''.brevis-*'' s = (Inl e, s') \<longrightarrow> mesmo d (\<lambda>_. False) s s') \<and>
     (\<forall>x s t s'. ps_temp d x ''.brevis-*'' s = (Inr t, s') \<longrightarrow> temporario t \<and> mesmo d (\<lambda>p. p = t) s s' \<and> ps_open d t s' = Inr []) \<and>
     (\<forall>t x s e s'. ps_escreve d t x s = (e, s') \<longrightarrow>
        mesmo d (\<lambda>p. p = t) s s' \<and> (e = None \<longrightarrow> ps_open d t s = Inr [] \<longrightarrow> ps_open d t s' = Inr x)) \<and>
     (\<forall>t s e s'. ps_fecha d t s = (e, s') \<longrightarrow> mesmo d (\<lambda>_. False) s s') \<and>
     (\<forall>t s. mesmo d (\<lambda>p. p = t) s (ps_remove d t s)) \<and>
     (\<forall>t k s e s'. ps_renomeia d t k s = (e, s') \<longrightarrow>
        mesmo d (\<lambda>p. p = t \<or> p = k) s s' \<and> ps_open d k s' = (if e = None then ps_open d t s else ps_open d k s))"

lemma pasta_leis:
  assumes "pasta_ok d"
  shows "ps_mkdir d a s = (e, s') \<Longrightarrow> mesmo d (\<lambda>_. False) s s'"
    and "ps_temp d a ''.brevis-*'' s = (Inl m, s') \<Longrightarrow> mesmo d (\<lambda>_. False) s s'"
    and "ps_temp d a ''.brevis-*'' s = (Inr t, s') \<Longrightarrow> temporario t \<and> mesmo d (\<lambda>p. p = t) s s' \<and> ps_open d t s' = Inr []"
    and "ps_escreve d t x s = (e, s') \<Longrightarrow> mesmo d (\<lambda>p. p = t) s s' \<and> (e = None \<longrightarrow> ps_open d t s = Inr [] \<longrightarrow> ps_open d t s' = Inr x)"
    and "ps_fecha d t s = (e, s') \<Longrightarrow> mesmo d (\<lambda>_. False) s s'"
    and "mesmo d (\<lambda>p. p = t) s (ps_remove d t s)"
    and "ps_renomeia d t k s = (e, s') \<Longrightarrow>
      mesmo d (\<lambda>p. p = t \<or> p = k) s s' \<and> ps_open d k s' = (if e = None then ps_open d t s else ps_open d k s)"
  using assms unfolding pasta_ok_def by simp_all

lemma gravar_e_renomear_ok:
  assumes "pasta_ok d" and "gravar_e_renomear d t k x s = (e, s')" and "ps_open d t s = Inr []" and "t \<noteq> k"
  shows "(\<forall>p. p \<noteq> t \<and> p \<noteq> k \<longrightarrow> ps_open d p s' = ps_open d p s) \<and> ps_open d k s' = (if e = None then Inr x else ps_open d k s)"
proof -
  obtain r1 s1 where 1: "ps_escreve d t x s = (r1, s1)" by (cases "ps_escreve d t x s") auto
  obtain r2 s2 where 2: "ps_fecha d t s1 = (r2, s2)" by (cases "ps_fecha d t s1") auto
  obtain r3 s3 where 3: "ps_renomeia d t k s2 = (r3, s3)" by (cases "ps_renomeia d t k s2") auto
  have a: "mesmo d (\<lambda>p. p = t) s s1" "r1 = None \<Longrightarrow> ps_open d t s1 = Inr x" using pasta_leis(4) [OF assms(1) 1] assms(3) by blast+
  have b: "mesmo d (\<lambda>_. False) s1 s2" using pasta_leis(5) [OF assms(1) 2] .
  have c: "mesmo d (\<lambda>p. p = t \<or> p = k) s2 s3" "ps_open d k s3 = (if r3 = None then ps_open d t s2 else ps_open d k s2)"
    using pasta_leis(7) [OF assms(1) 3] by blast+
  have ab: "r1 = None \<Longrightarrow> ps_open d t s2 = Inr x" using a(2) b by (simp add: mesmo_def)
  show ?thesis
  proof (cases r1)
    case (Some y)
    then have "s' = s2" "e \<noteq> None" using assms(2) 1 2 by (auto simp: gravar_e_renomear_def)
    then show ?thesis using a(1) b assms(4) by (auto simp: mesmo_def)
  next
    case n1: None
    show ?thesis
    proof (cases r2)
      case (Some y)
      then have "s' = s2" "e \<noteq> None" using assms(2) 1 2 n1 by (auto simp: gravar_e_renomear_def)
      then show ?thesis using a(1) b assms(4) by (auto simp: mesmo_def)
    next
      case None
      then have "s' = s3" "e = map_option (Renomeando k) r3" using assms(2) 1 2 3 n1 by (auto simp: gravar_e_renomear_def)
      then show ?thesis using a(1) b c ab [OF n1] assms(4) by (simp add: mesmo_def)
    qed
  qed
qed

lemma put_local:
  assumes "pasta_ok d" and "put d store loc k x s = (e, s')" and "lc_scheme loc = []" and "\<not> temporario k"
  shows "(\<forall>p. p \<noteq> k \<and> \<not> temporario p \<longrightarrow> ps_open d p s' = ps_open d p s) \<and> ps_open d k s' = (if e = None then Inr x else ps_open d k s)"
proof -
  obtain r1 s1 where 1: "ps_mkdir d (path_Dir k) s = (r1, s1)" by (cases "ps_mkdir d (path_Dir k) s") auto
  have a: "mesmo d (\<lambda>_. False) s s1" using pasta_leis(1) [OF assms(1) 1] .
  obtain r2 s2 where 2: "ps_temp d (path_Dir k) ''.brevis-*'' s1 = (r2, s2)" by (cases "ps_temp d (path_Dir k) ''.brevis-*'' s1") auto
  show ?thesis
  proof (cases r1)
    case (Some x)
    then show ?thesis using assms(2,3) 1 a by (auto simp: put_def mesmo_def)
  next
    case None
    show ?thesis
    proof (cases r2)
      case (Inl y)
      then have "mesmo d (\<lambda>_. False) s1 s2" using pasta_leis(2) [OF assms(1)] 2 by blast
      then show ?thesis using assms(2,3) 1 2 a None Inl by (auto simp: put_def mesmo_def)
    next
      case (Inr t)
      then have t: "temporario t" "mesmo d (\<lambda>p. p = t) s1 s2" "ps_open d t s2 = Inr []" using pasta_leis(3) [OF assms(1)] 2 by blast+
      then have n: "t \<noteq> k" using assms(4) by blast
      obtain s3 where g: "gravar_e_renomear d t k x s2 = (e, s3)" "s' = ps_remove d t s3"
        using assms(2,3) 1 2 None Inr by (auto simp: put_def split: prod.splits)
      have "mesmo d (\<lambda>p. p = t) s3 s'" unfolding g(2) by (rule pasta_leis(6) [OF assms(1)])
      then have m: "ps_open d p s' = ps_open d p s3" if "p \<noteq> t" for p using that by (simp add: mesmo_def)
      have o: "ps_open d p s2 = ps_open d p s" if "p \<noteq> t" for p using a t(2) that by (simp add: mesmo_def)
      note g' = gravar_e_renomear_ok [OF assms(1) g(1) t(3) n]
      have "ps_open d k s' = (if e = None then Inr x else ps_open d k s)" using g' m [of k] o [of k] n by metis
      moreover have "ps_open d p s' = ps_open d p s" if "p \<noteq> k" "\<not> temporario p" for p
        using g' m [of p] o [of p] that t(1) by metis
      ultimately show ?thesis by blast
    qed
  qed
qed

lemma nome_do_objeto_local:
  assumes "lc_scheme loc = []" and "format = ''csv'' \<or> format = ''ndjson''"
  shows "path_Base (nome_do_objeto f loc records format agora) = nome_da_parte f format agora"
proof -
  let ?n = "nome_da_parte f format agora"
  have n: "CHR ''/'' \<notin> set ?n" "?n \<noteq> []" "?n \<noteq> ''.''" "?n \<noteq> ''..''"
    using nome_da_parte_sem [OF assms(2), of f agora] by (auto simp: nome_da_parte_def)
  let ?ks = "filter (\<lambda>p. p \<noteq> []) [TrimSuffix_barra (lc_prefix loc), particao f records]"
  have ks: "filter (\<lambda>p. p \<noteq> []) (filter (\<lambda>p. p \<noteq> []) ([TrimSuffix_barra (lc_prefix loc), particao f records] @ [?n])) = ?ks @ [?n]"
    unfolding filter_filter filter_append by (simp add: nome_da_parte_def)
  have "nome_do_objeto f loc records format agora = Join (filter (\<lambda>p. p \<noteq> []) ([TrimSuffix_barra (lc_prefix loc), particao f records] @ [?n]))"
    using assms(1) by (simp add: nome_do_objeto_def nome_da_parte_def Let_def)
  then have "nome_do_objeto f loc records format agora = Clean (join ''/'' (?ks @ [?n]))" unfolding Join_def Let_def ks by simp
  moreover obtain dir where "join ''/'' (?ks @ [?n]) = dir @ ?n" "dir = [] \<or> suffix ''/'' dir"
    by (cases "?ks = []") (auto simp: join_snoc suffix_def)
  ultimately obtain dir' where "nome_do_objeto f loc records format agora = dir' @ ?n" "dir' = [] \<or> suffix ''/'' dir'"
    using Clean_nome [OF n(1) _ n(2-4)] by metis
  then show ?thesis using path_Base_nome [OF n(1,2)] by simp
qed

section \<open>Properties\<close>

text \<open>C35: records written as CSV into object storage come back from the path that the load reports: reading it
gives one record for each, in order, with the union of the columns as text, plain or compressed. It needs a time
stamp that no other object carries, and cells that CSV can hold as it is written here: no carriage return, and no
row that is a single empty cell.\<close>

theorem arquivos_ida_e_volta:
  assumes "loja_ok st obj" and "match_ok de" and "gzip_ok cf de" and "tf_store f = Some st" and "tf_format f = ''csv''"
    and "Files_Write cf d f agora records opt s = (Inr res, s')" and "linhas_objeto cf 0 records = Inr rows"
    and "legivel (colunas_csv rows)" and "\<forall>row \<in> set rows. legivel (map (\<lambda>c. cell cf (map_of row c)) (colunas_csv rows))"
    and "\<forall>b k. obj s b k \<noteq> None \<longrightarrow> path_Base k \<noteq> nome_da_parte f ''csv'' agora"
  shows "\<exists>ref. lr_objects res = [ref] \<and>
    Files_Read de d \<lparr>ff_path = ref, ff_format = ''csv'', ff_preserve = False, ff_no_header = False, ff_store = Some st\<rparr> s' =
      Inr (map (Inr \<circ> de_registro \<circ> como_texto cf (colunas_csv rows)) rows, 1)"
proof -
  let ?n = "nome_da_parte f ''csv'' agora"
  have np: "set ?n \<inter> set ''/*?['' = {}" "CHR 0x5C \<notin> set ?n" "?n \<noteq> []" "CHR ''/'' \<notin> set ?n" using nome_da_parte_sem [of "''csv''" f agora] by auto
  obtain loc data z where w: "ParseLocation (comoDiretorio (tf_path f)) = Inr loc" "lc_scheme loc \<noteq> []" "lj_scheme st = lc_scheme loc"
    "encodeCSV cf records = Inr data" "if tf_compress f then cf_gzip cf data = Inr z else z = data"
    "lj_create st (lc_bucket loc) (nome_do_objeto f loc records ''csv'' agora) z s = (None, s')"
    "lr_objects res = [referencia loc (nome_do_objeto f loc records ''csv'' agora)]"
    using Files_Write_nuvem [OF assms(6,4)] assms(5) by (auto simp: encode_def)
  obtain dir where dir: "nome_do_objeto f loc records ''csv'' agora = dir @ ?n" "dir = [] \<or> suffix ''/'' dir"
    using nome_do_objeto_nuvem [OF w(2)] by blast
  let ?loc = "\<lparr>lc_scheme = lc_scheme loc, lc_bucket = lc_bucket loc, lc_prefix = dir, lc_pattern = ?n\<rparr>"
  let ?f = "\<lparr>ff_path = referencia loc (dir @ ?n), ff_format = ''csv'', ff_preserve = False, ff_no_header = False, ff_store = Some st\<rparr>"
  have o': "obj s' = (\<lambda>b k. if b = lc_bucket loc \<and> k = dir @ ?n then Some z else obj s b k)"
    using assms(1) w(6) unfolding loja_ok_def dir by blast
  have l: "listar de d (Some st) ?loc s' = Inr [dir @ ?n]"
    by (rule listar_um [OF assms(1,2) np(1-3) dir(2)]) (use o' assms(10) w(2) in auto)
  have op: "lj_open st (lc_bucket loc) (dir @ ?n) s' = Inr z" using assms(1) o' unfolding loja_ok_def by simp
  have gz: "suffix ''.gz'' (dir @ ?n) \<longleftrightarrow> tf_compress f"
    by (auto simp: nome_da_parte_def suffix_def append_eq_append_conv2 append_eq_Cons_conv Cons_eq_append_conv)
  have "(if suffix ''.gz'' (dir @ ?n) then de_gzip de z else Inr z) = Inr data"
    using w(5) gz assms(3) by (auto simp: gzip_ok_def)
  moreover obtain e where "csv_ler data = (e, None)" "csv_linhas False e = map (como_texto cf (colunas_csv rows)) rows"
    using ler_encodeCSV [OF assms(7-9)] w(4) by auto
  ultimately have "drenar de d ?f ?loc ''csv'' (dir @ ?n) s' = (map (como_texto cf (colunas_csv rows)) rows, None)"
    using op w(2) by (simp add: drenar_def abrir_def decodificar_def)
  then have "Files_Read de d ?f s' = Inr (map (Inr \<circ> de_registro \<circ> como_texto cf (colunas_csv rows)) rows, 1)"
    using referencia_le [OF w(1,2) np(4,3) dir(2)] l w(2,3) by (simp add: Files_Read_def checkStore_def comp_assoc)
  then show ?thesis using w(7) dir(1) by simp
qed


text \<open>C31: on disk nobody reads half a file under a name that the load reports. Whatever step fails, no file changes but
a temporary one; a write that does not fail has put the whole batch under the one name it reports, and touched no other.\<close>

theorem escrita_atomica:
  assumes "pasta_ok d" and "tf_store f = None" and "Files_Write cf d f agora records opt s = (x, s')"
  shows "case x of
     Inl _ \<Rightarrow> (\<forall>p. \<not> temporario p \<longrightarrow> ps_open d p s' = ps_open d p s)
   | Inr res \<Rightarrow>
       (\<exists>key data z. lr_objects res = [key] \<and> encode cf (if tf_format f = [] then ''ndjson'' else tf_format f) records = Inr data \<and>
          (if tf_compress f then cf_gzip cf data = Inr z else z = data) \<and> ps_open d key s' = Inr z \<and> lr_bytes res = length z \<and>
          (\<forall>p. p \<noteq> key \<and> \<not> temporario p \<longrightarrow> ps_open d p s' = ps_open d p s))"
proof -
  let ?fmt = "if tf_format f = [] then ''ndjson'' else tf_format f"
  consider (cedo) e where "x = Inl e" "s' = s" | (tarde) loc data z e where "ParseLocation (comoDiretorio (tf_path f)) = Inr loc" "lc_scheme loc = []"
      "?fmt = ''csv'' \<or> ?fmt = ''ndjson''" "encode cf ?fmt records = Inr data" "if tf_compress f then cf_gzip cf data = Inr z else z = data"
      "put d None loc (nome_do_objeto f loc records ?fmt agora) z s = (e, s')"
      "x = (case e of Some e \<Rightarrow> Inl e | None \<Rightarrow> Inr \<lparr>lr_rows = int (length records), lr_bytes = length z, lr_strategy = ''file'', lr_format = ?fmt,
         lr_dedup = DedupNone, lr_ignored = 0, lr_created = False, lr_errors = [], lr_objects = [referencia loc (nome_do_objeto f loc records ?fmt agora)]\<rparr>)"
  proof (cases "refuseUnsupported f opt")
    case (Some e)
    then show ?thesis using assms(3) that(1) by (auto simp: Files_Write_def)
  next
    case ok: None
    then have fm: "?fmt = ''csv'' \<or> ?fmt = ''ndjson''" by (auto simp: refuseUnsupported_def split: if_splits)
    show ?thesis
    proof (cases "ParseLocation (comoDiretorio (tf_path f))")
      case (Inl e)
      then show ?thesis using assms(3) ok that(1) by (auto simp: Files_Write_def)
    next
      case loc: (Inr loc)
      show ?thesis
      proof (cases "lc_scheme loc = []")
        case False
        then show ?thesis using assms(2,3) ok loc that(1) by (auto simp: Files_Write_def checkStore_def)
      next
        case True
        then have ck: "checkStore (tf_path f) loc None = None" by (simp add: checkStore_def)
        show ?thesis
        proof (cases "CheckColumns (cf_relido cf) (wo_columns opt) (map ev_payload records)")
          case (Some e)
          have "Files_Write cf d f agora records opt s = (Inl (ColunasNaoConferem e), s)"
            by (simp add: Files_Write_def Let_def assms(2) ok loc ck Some)
          then show ?thesis using assms(3) that(1) by simp
        next
          case cc: None
          show ?thesis
          proof (cases "encode cf ?fmt records")
            case (Inl e)
            have "Files_Write cf d f agora records opt s = (Inl e, s)"
              unfolding Files_Write_def Let_def assms(2) ok loc option.case sum.case ck cc Inl by simp
            then show ?thesis using assms(3) that(1) by simp
          next
            case data: (Inr data)
            show ?thesis
            proof (cases "if tf_compress f then cf_gzip cf data else Inr data")
              case (Inl e)
              have "Files_Write cf d f agora records opt s = (Inl (NaoComprimiu e), s)"
                unfolding Files_Write_def Let_def assms(2) ok loc option.case sum.case ck cc data Inl by simp
              then show ?thesis using assms(3) that(1) by simp
            next
              case z: (Inr z)
              obtain e s1 where p: "put d None loc (nome_do_objeto f loc records ?fmt agora) z s = (e, s1)"
                by (cases "put d None loc (nome_do_objeto f loc records ?fmt agora) z s") auto
              have zz: "if tf_compress f then cf_gzip cf data = Inr z else z = data" using z by (auto split: if_splits)
              have "Files_Write cf d f agora records opt s =
                  (case (e, s1) of (Some e, s) \<Rightarrow> (Inl e, s) | (None, s) \<Rightarrow> (Inr \<lparr>lr_rows = int (length records), lr_bytes = length z, lr_strategy = ''file'',
                     lr_format = ?fmt, lr_dedup = DedupNone, lr_ignored = 0, lr_created = False, lr_errors = [],
                     lr_objects = [referencia loc (nome_do_objeto f loc records ?fmt agora)]\<rparr>, s))"
                unfolding Files_Write_def Let_def assms(2) ok loc option.case sum.case ck cc data z p by simp
              then show ?thesis using assms(3) that(2) [OF loc True fm data zz, of e] p by (cases e) auto
            qed
          qed
        qed
      qed
    qed
  qed
  then show ?thesis
  proof cases
    case cedo
    then show ?thesis by simp
  next
    case (tarde loc data z e)
    let ?k = "nome_do_objeto f loc records ?fmt agora"
    have "path_Base ?k = nome_da_parte f ?fmt agora" by (rule nome_do_objeto_local [OF tarde(2,3)])
    then have k: "\<not> temporario ?k" by (simp add: temporario_def nome_da_parte_def)
    have r: "referencia loc ?k = ?k" using tarde(2) by (simp add: referencia_def)
    note p = put_local [OF assms(1) tarde(6,2) k]
    show ?thesis
    proof (cases e)
      case None
      have "lr_objects (projr x) = [?k]" "lr_bytes (projr x) = length z" "x = Inr (projr x)" using tarde(7) None r by simp_all
      then show ?thesis using p None tarde(4,5) by (cases x) auto
    next
      case (Some e')
      then have "\<forall>p. \<not> temporario p \<longrightarrow> ps_open d p s' = ps_open d p s" using p by (metis option.distinct(1))
      then show ?thesis using Some tarde(7) by simp
    qed
  qed
qed


section \<open>Examples\<close>

text \<open>A store and a directory that keep their promises: lists of objects and of files.\<close>

definition loja_exemplo :: "((string \<times> string) \<times> string) list loja" where
  "loja_exemplo =
     \<lparr>lj_scheme = ''gs'',
      lj_list = (\<lambda>b p s. Inr (filter (\<lambda>k. prefix p k \<and> \<not> suffix ''/'' k) (remdups (map (snd \<circ> fst) (filter (\<lambda>e. fst (fst e) = b) s))))),
      lj_open = (\<lambda>b k s. case map_of s (b, k) of None \<Rightarrow> Inl ''404'' | Some x \<Rightarrow> Inr x),
      lj_create = (\<lambda>b k x s. (None, ((b, k), x) # s))\<rparr>"

lemma loja_exemplo_ok: "loja_ok loja_exemplo (\<lambda>s b k. map_of s (b, k))"
proof -
  have "k \<in> (snd \<circ> fst) ` {e \<in> set s. fst (fst e) = b} \<longleftrightarrow> map_of s (b, k) \<noteq> None" for s :: "((string \<times> string) \<times> string) list" and b k
    by (induction s) (auto simp: image_iff)
  then show ?thesis by (auto simp: loja_ok_def loja_exemplo_def)
qed

definition pasta_exemplo :: "(string \<times> string) list pasta" where
  "pasta_exemplo =
     \<lparr>ps_mkdir = (\<lambda>_ s. (None, s)),
      ps_temp = (\<lambda>a _ s. (Inr (a @ ''/.brevis-1''), (a @ ''/.brevis-1'', []) # s)),
      ps_escreve = (\<lambda>t x s. (None, (t, x) # s)),
      ps_fecha = (\<lambda>_ s. (None, s)),
      ps_renomeia = (\<lambda>t k s. case map_of s t of None \<Rightarrow> (Some ''no such file'', s) | Some x \<Rightarrow> (None, (k, x) # filter (\<lambda>e. fst e \<noteq> t) s)),
      ps_remove = (\<lambda>t s. filter (\<lambda>e. fst e \<noteq> t) s),
      ps_readdir = (\<lambda>a s. Inr (map (\<lambda>e. (path_Base (fst e), False)) (filter (\<lambda>e. path_Dir (fst e) = a) s))),
      ps_open = (\<lambda>p s. case map_of s p of None \<Rightarrow> Inl ''no such file'' | Some x \<Rightarrow> Inr x)\<rparr>"

lemma map_of_sem_arquivo: "map_of (filter (\<lambda>e. fst e \<noteq> t) s) p = (if p = t then None else map_of s p)"
  by (induction s) auto

lemma temporario_exemplo: "temporario (a @ ''/.brevis-1'')"
proof -
  have "path_Base ((a @ ''/'') @ ''.brevis-1'') = ''.brevis-1''" by (rule path_Base_nome) (simp_all add: suffix_def)
  then show ?thesis by (simp add: temporario_def)
qed

lemma pasta_exemplo_ok: "pasta_ok pasta_exemplo"
  unfolding pasta_ok_def mesmo_def
  by (intro conjI allI impI)
    (auto simp: pasta_exemplo_def map_of_sem_arquivo temporario_exemplo split: if_splits option.splits)

definition codifica_exemplo :: codifica where
  "codifica_exemplo = \<lparr>cf_json = (\<lambda>_. Inr ''{}''), cf_relido = (\<lambda>_. None), cf_sprint = (\<lambda>_. []), cf_gzip = (\<lambda>x. Inr (CHR ''z'' # x))\<rparr>"

definition decodifica_exemplo :: decodifica where
  "decodifica_exemplo =
     \<lparr>de_outros = (\<lambda>_ _ _. None), de_gzip = (\<lambda>z. case z of [] \<Rightarrow> Inl ''EOF'' | c # x \<Rightarrow> if c = CHR ''z'' then Inr x else Inl ''magic''),
      de_match = (\<lambda>p n. Some (p = n)), de_erro = (\<lambda>_. ''csv'')\<rparr>"

lemma exemplos_ok: "match_ok decodifica_exemplo" "gzip_ok codifica_exemplo decodifica_exemplo"
  by (simp_all add: match_ok_def gzip_ok_def decodifica_exemplo_def codifica_exemplo_def)

definition dois_registros :: "envelope list" where
  "dois_registros = map de_registro [QMap [(''nome'', QText ''a,b''), (''id'', QText ''1'')], QMap [(''id'', QText [])]]"

definition destino_exemplo :: "string \<Rightarrow> 'r loja option \<Rightarrow> 'r to_files" where
  "destino_exemplo p st = \<lparr>tf_path = p, tf_format = ''csv'', tf_partition = ''nome'', tf_compress = True, tf_store = st\<rparr>"


theorem arquivos_ida_e_volta_witness:
  "\<forall>d. \<exists>res s' ref.
     Files_Write codifica_exemplo d (destino_exemplo ''gs://b/l'' (Some loja_exemplo)) 7 dois_registros (opcoes_de_exemplo True) [] = (Inr res, s') \<and>
     lr_objects res = [ref] \<and>
     Files_Read decodifica_exemplo d \<lparr>ff_path = ref, ff_format = ''csv'', ff_preserve = False, ff_no_header = False, ff_store = Some loja_exemplo\<rparr> s' =
       Inr (map (Inr \<circ> de_registro) [QMapTexto [(''id'', ''1''), (''nome'', ''a,b'')], QMapTexto [(''id'', []), (''nome'', [])]], 1)"
proof
  fix d :: "((string \<times> string) \<times> string) list pasta"
  let ?f = "destino_exemplo ''gs://b/l'' (Some loja_exemplo)"
  let ?rows = "[[(''nome'', QText ''a,b''), (''id'', QText ''1'')], [(''id'', QText [])]]"
  have l: "linhas_objeto codifica_exemplo 0 dois_registros = Inr ?rows" by code_simp
  have c: "colunas_csv ?rows = [''id'', ''nome'']" by code_simp
  have pl: "ParseLocation ''gs://b/l/'' = Inr \<lparr>lc_scheme = ''gs'', lc_bucket = ''b'', lc_prefix = ''l/'', lc_pattern = []\<rparr>" by code_simp
  have dir: "comoDiretorio ''gs://b/l'' = ''gs://b/l/''" by code_simp
  have e: "encodeCSV codifica_exemplo dois_registros = Inr (concat (map csv_row [[''id'', ''nome''], [''1'', ''a,b''], [[], []]]))" by code_simp
  have f: "tf_store ?f = Some loja_exemplo" "tf_format ?f = ''csv''" "tf_path ?f = ''gs://b/l''" "tf_compress ?f" by (simp_all add: destino_exemplo_def)
  have lj: "lj_scheme loja_exemplo = ''gs''" "\<And>b k x s. lj_create loja_exemplo b k x s = (None, ((b, k), x) # s)"
    "\<And>x. cf_gzip codifica_exemplo x = Inr (CHR ''z'' # x)" "wo_columns (opcoes_de_exemplo True) = []"
    by (simp_all add: loja_exemplo_def codifica_exemplo_def opcoes_de_exemplo_def)
  have cc: "CheckColumns relido [] vs = None" for relido vs by (simp add: CheckColumns_def split: list.split)
  have ok: "refuseUnsupported ?f (opcoes_de_exemplo True) = None" by (simp add: refuseUnsupported_def f opcoes_de_exemplo_def DedupMerge_def)
  obtain res s' where w: "Files_Write codifica_exemplo d ?f 7 dois_registros (opcoes_de_exemplo True) [] = (Inr res, s')"
    by (simp add: Files_Write_def Let_def f ok dir pl checkStore_def lj cc encode_def e put_def)
  have t: "map (como_texto codifica_exemplo (colunas_csv ?rows)) ?rows = [QMapTexto [(''id'', ''1''), (''nome'', ''a,b'')], QMapTexto [(''id'', []), (''nome'', [])]]"
    by code_simp
  have leg: "legivel (colunas_csv ?rows)" "\<forall>row \<in> set ?rows. legivel (map (\<lambda>c. cell codifica_exemplo (map_of row c)) (colunas_csv ?rows))"
    by code_simp+
  have v: "\<forall>b k. (\<lambda>s b k. map_of s (b, k)) [] b k \<noteq> None \<longrightarrow> path_Base k \<noteq> nome_da_parte ?f ''csv'' 7" by simp
  show "\<exists>res s' ref. Files_Write codifica_exemplo d ?f 7 dois_registros (opcoes_de_exemplo True) [] = (Inr res, s') \<and>
     lr_objects res = [ref] \<and>
     Files_Read decodifica_exemplo d \<lparr>ff_path = ref, ff_format = ''csv'', ff_preserve = False, ff_no_header = False, ff_store = Some loja_exemplo\<rparr> s' =
       Inr (map (Inr \<circ> de_registro) [QMapTexto [(''id'', ''1''), (''nome'', ''a,b'')], QMapTexto [(''id'', []), (''nome'', [])]], 1)"
    using arquivos_ida_e_volta [OF loja_exemplo_ok exemplos_ok f(1,2) w l leg v] w unfolding t [symmetric] map_map by (auto simp: comp_assoc)
qed

theorem escrita_atomica_witness:
  "\<exists>x s'. Files_Write codifica_exemplo pasta_exemplo (destino_exemplo ''saida'' None) 7 dois_registros (opcoes_de_exemplo True) [] = (Inr x, s') \<and>
     (\<exists>key z. lr_objects x = [key] \<and> ps_open pasta_exemplo key s' = Inr z \<and> lr_bytes x = length z)"
proof -
  let ?r = "Files_Write codifica_exemplo pasta_exemplo (destino_exemplo ''saida'' None) 7 dois_registros (opcoes_de_exemplo True) []"
  have "case fst ?r of Inr _ \<Rightarrow> True | Inl _ \<Rightarrow> False" by code_simp
  then obtain x s' where r: "?r = (Inr x, s')" by (cases ?r) (auto split: sum.splits)
  have f: "tf_store (destino_exemplo ''saida'' None) = None" by (simp add: destino_exemplo_def)
  show ?thesis using escrita_atomica [OF pasta_exemplo_ok f r] r by auto
qed

section \<open>What the comments promise and the code does not do\<close>

text \<open>A directory is read with every file in it, the temporary ones of a write that is under way as well.\<close>

theorem listar_le_temporarios:
  assumes "lc_scheme loc = []" and "lc_pattern loc = []" and "ps_readdir d (dirOf loc) s = Inr es" and "(n, False) \<in> set es"
  shows "\<exists>ks. listar de d store loc s = Inr ks \<and> Join [dirOf loc, n] \<in> set ks"
  using assms by (force simp: listar_def sort_strings_def)

text \<open>The first ten bytes of the column of the partition may lead out of the directory.\<close>

theorem particao_sai_da_pasta:
  "nome_do_objeto \<lparr>tf_path = ''saida'', tf_format = ''csv'', tf_partition = ''nome'', tf_compress = False, tf_store = None\<rparr>
     \<lparr>lc_scheme = [], lc_bucket = [], lc_prefix = ''saida/'', lc_pattern = []\<rparr>
     [de_registro (QMap [(''nome'', QText ''/../../../etc'')])] ''csv'' 7 = ''../parte-7.csv''"
  by code_simp

text \<open>A load into the root of the disk goes to the working directory.\<close>

theorem raiz_e_a_pasta_corrente:
  "ParseLocation (comoDiretorio ''/'') = Inr \<lparr>lc_scheme = [], lc_bucket = [], lc_prefix = ''/'', lc_pattern = []\<rparr> \<and>
   nome_do_objeto \<lparr>tf_path = ''/'', tf_format = ''csv'', tf_partition = [], tf_compress = False, tf_store = None\<rparr>
     \<lparr>lc_scheme = [], lc_bucket = [], lc_prefix = ''/'', lc_pattern = []\<rparr> [] ''csv'' 7 = ''parte-7.csv''"
  by code_simp

text \<open>A prefix with nothing under it is no error: the sequence is empty.\<close>

theorem prefixo_vazio_nao_falha:
  assumes "ParseLocation (ff_path f) = Inr loc" and "lc_scheme loc \<noteq> []" and "ff_store f = Some st" and "lj_scheme st = lc_scheme loc"
    and "lj_list st (lc_bucket loc) (lc_prefix loc) s = Inr []"
  shows "Files_Read de d f s = Inr ([], 0)"
  using assms by (simp add: Files_Read_def checkStore_def listar_def sort_strings_def)

text \<open>A row that is one empty cell is lost, and so is a carriage return at the end of a cell.\<close>

theorem csv_perde:
  "csv_ler (concat (map csv_row [[''a''], [[]], [''1'']])) = ([[''a''], [''1'']], None) \<and>
   csv_ler (concat (map csv_row [[''a''], [''x'' @ [CR]]])) = ([[''a''], [''x'']], None)"
  by code_simp

end
