(* ===== verification/Leitura.thy ===== *)
theory Leitura
  imports Store
begin

text \<open>
  \<open>internal/infrastructure/postgres/leitura.go\<close>: the queries of the user interface. The
  dynamic filter is modelled with its placeholders and its argument list, so that their
  agreement is a theorem; ties of an \<open>ORDER BY\<close>, which SQL leaves open, keep the order of
  the table. The listings that join \<open>projects\<close> are not modelled.
\<close>

section \<open>Projections\<close>

record resumo_run =
  rr_id :: nat
  rr_slug :: string
  rr_status :: status
  rr_trigger :: string
  rr_tentativa :: int
  rr_logical :: "time option"
  rr_criado :: time
  rr_iniciado :: "time option"
  rr_duracao :: "time option"
  rr_erro :: string

definition resumir :: "run \<Rightarrow> resumo_run" where
  "resumir r =
     \<lparr>rr_id = r_id r, rr_slug = r_slug r, rr_status = r_status r, rr_trigger = r_trigger r,
      rr_tentativa = r_attempt r, rr_logical = r_logical r, rr_criado = r_criado r,
      rr_iniciado = r_iniciado r,
      rr_duracao = (case (r_iniciado r, r_terminado r) of (Some i, Some f) \<Rightarrow> Some (f - i) | _ \<Rightarrow> None),
      rr_erro = r_erro r\<rparr>"

definition varrerRuns :: "run list \<Rightarrow> resumo_run list" where
  "varrerRuns = map resumir"

definition ContagemPorStatus :: "banco \<Rightarrow> (string \<times> nat) list" where
  "ContagemPorStatus b = agrupar (\<lambda>r. texto_status (r_status r)) (db_runs b)"

definition UltimasRuns :: "nat \<Rightarrow> banco \<Rightarrow> resumo_run list" where
  "UltimasRuns limite b = varrerRuns (take limite (sort_key (\<lambda>r. - r_criado r) (db_runs b)))"

definition EmAndamento :: "nat \<Rightarrow> banco \<Rightarrow> resumo_run list" where
  "EmAndamento limite b =
     varrerRuns (take limite (sort_key r_criado
       (filter (\<lambda>r. r_status r \<in> {StatusQueued, StatusRunning, StatusRetrying}) (db_runs b))))"

definition RunsDoWorkflow :: "string \<Rightarrow> nat \<Rightarrow> banco \<Rightarrow> resumo_run list" where
  "RunsDoWorkflow slug limite b =
     varrerRuns (take limite (sort_key (\<lambda>r. - r_criado r) (filter (\<lambda>r. r_slug r = slug) (db_runs b))))"

definition ProfundidadeDaFila :: "banco \<Rightarrow> nat \<times> nat" where
  "ProfundidadeDaFila b =
     (length (filter (\<lambda>q. i_reivindicado q = None) (db_itens b)),
      length (filter (\<lambda>q. i_reivindicado q \<noteq> None) (db_itens b)))"

text \<open>\<open>Agendas\<close>: the column order is the argument \<open>col\<close>.\<close>

record agenda_resumo =
  ar_slug :: string
  ar_cron :: string
  ar_timezone :: string
  ar_ativo :: bool

definition Agendas :: "(string \<Rightarrow> 'k::linorder) \<Rightarrow> banco \<Rightarrow> agenda_resumo list" where
  "Agendas col b =
     map (\<lambda>a. \<lparr>ar_slug = ag_slug a, ar_cron = ag_cron a, ar_timezone = ag_timezone a, ar_ativo = ag_ativo a\<rparr>)
       (sort_key (\<lambda>a. col (ag_slug a)) (db_agendas b))"

section \<open>Indicators and the hourly chart\<close>

record indicadores =
  id_total :: nat
  id_sucesso :: nat
  id_falha :: nat
  id_execucao :: nat
  id_pendentes :: nat
  id_duracao :: time

definition conta :: "status list \<Rightarrow> run list \<Rightarrow> nat" where
  "conta ss rs = length (filter (\<lambda>r. r_status r \<in> set ss) rs)"

text \<open>The mean duration in whole milliseconds, as a \<open>time.Duration\<close>; no run gives zero.\<close>

definition duracoes :: "run list \<Rightarrow> time list" where
  "duracoes rs = concat (map (\<lambda>r. case (r_iniciado r, r_terminado r) of
      (Some i, Some f) \<Rightarrow> [f - i] | _ \<Rightarrow> []) rs)"

definition media_ms :: "time list \<Rightarrow> time" where
  "media_ms ds =
     (if ds = [] then 0
      else let s = sum_list ds; n = int (length ds) * 1000000 in
        (if s < 0 then - ((- s) div n) else s div n) * 1000000)"

definition Indicadores :: "time \<Rightarrow> time \<Rightarrow> banco \<Rightarrow> indicadores" where
  "Indicadores agora janela b =
     (let rs = filter (\<lambda>r. agora - janela \<le> r_criado r) (db_runs b) in
      \<lparr>id_total = length rs, id_sucesso = conta [StatusSuccess] rs, id_falha = conta [StatusFailed] rs,
       id_execucao = conta [StatusRunning, StatusRetrying] rs, id_pendentes = conta [StatusQueued] rs,
       id_duracao = media_ms (duracoes rs)\<rparr>)"

record balde =
  bd_inicio :: time
  bd_sucesso :: nat
  bd_falha :: nat
  bd_executando :: nat
  bd_fila :: nat
  bd_duracao :: time

definition balde_Total :: "balde \<Rightarrow> nat" where
  "balde_Total b = bd_sucesso b + bd_falha b + bd_executando b + bd_fila b"

definition hora :: time where
  "hora = 3600000000000"

definition trunca_hora :: "time \<Rightarrow> time" where
  "trunca_hora t = t - t mod hora"

definition balde_de :: "run list \<Rightarrow> time \<Rightarrow> balde" where
  "balde_de rs inicio =
     (let h = filter (\<lambda>r. trunca_hora (r_criado r) = inicio) rs in
      \<lparr>bd_inicio = inicio, bd_sucesso = conta [StatusSuccess] h, bd_falha = conta [StatusFailed] h,
       bd_executando = conta [StatusRunning, StatusRetrying] h, bd_fila = conta [StatusQueued] h,
       bd_duracao = media_ms (duracoes h)\<rparr>)"

definition ExecucoesPorHora :: "time \<Rightarrow> nat \<Rightarrow> banco \<Rightarrow> balde list" where
  "ExecucoesPorHora agora horas b =
     map (\<lambda>i. balde_de (db_runs b) (trunca_hora agora - (int horas - 1 - int i) * hora)) [0..<horas]"

section \<open>The filter of the runs page\<close>

record filtro =
  fl_estado :: string
  fl_workflow :: string
  fl_de :: "time option"
  fl_ate :: "time option"
  fl_limite :: int
  fl_offset :: int

datatype argumento = ATexto string | ATempo time

text \<open>A condition is \<open>true\<close> or a comparison of a column with the numbered placeholder.\<close>

datatype coluna = EstadoIgual | WorkflowIgual | CriadoDesde | CriadoAntes
datatype condicao = Verdade | Compara coluna nat

definition poe_cond :: "coluna \<Rightarrow> argumento \<Rightarrow> condicao list \<times> argumento list \<Rightarrow> condicao list \<times> argumento list" where
  "poe_cond c v = (\<lambda>(cond, args). (cond @ [Compara c (length (args @ [v]))], args @ [v]))"

definition filtro_where :: "filtro \<Rightarrow> condicao list \<times> argumento list" where
  "filtro_where f =
     (let s = ([Verdade], []);
          s = (if fl_estado f \<noteq> [] then poe_cond EstadoIgual (ATexto (fl_estado f)) s else s);
          s = (if fl_workflow f \<noteq> [] then poe_cond WorkflowIgual (ATexto (fl_workflow f)) s else s);
          s = (case fl_de f of Some t \<Rightarrow> poe_cond CriadoDesde (ATempo t) s | None \<Rightarrow> s)
      in case fl_ate f of Some t \<Rightarrow> poe_cond CriadoAntes (ATempo t) s | None \<Rightarrow> s)"

text \<open>How the database reads a condition: the argument is the one of that number.\<close>

fun compara :: "coluna \<Rightarrow> argumento \<Rightarrow> run \<Rightarrow> bool" where
  "compara EstadoIgual (ATexto s) r \<longleftrightarrow> texto_status (r_status r) = s"
| "compara WorkflowIgual (ATexto s) r \<longleftrightarrow> r_slug r = s"
| "compara CriadoDesde (ATempo t) r \<longleftrightarrow> t \<le> r_criado r"
| "compara CriadoAntes (ATempo t) r \<longleftrightarrow> r_criado r < t"
| "compara _ _ r \<longleftrightarrow> False"

fun avalia :: "argumento list \<Rightarrow> run \<Rightarrow> condicao \<Rightarrow> bool" where
  "avalia args r Verdade \<longleftrightarrow> True"
| "avalia args r (Compara c k) \<longleftrightarrow> 1 \<le> k \<and> k \<le> length args \<and> compara c (args ! (k - 1)) r"

definition selecionadas :: "filtro \<Rightarrow> banco \<Rightarrow> run list" where
  "selecionadas f b = (case filtro_where f of (cond, args) \<Rightarrow> filter (\<lambda>r. list_all (avalia args r) cond) (db_runs b))"

text \<open>A negative \<open>OFFSET\<close> is refused by the database: \<open>None\<close>.\<close>

definition Runs :: "filtro \<Rightarrow> banco \<Rightarrow> resumo_run list option" where
  "Runs f b =
     (let limite = (if fl_limite f \<le> 0 then 50 else fl_limite f) in
      if fl_offset f < 0 then None
      else Some (varrerRuns (take (nat limite) (drop (nat (fl_offset f))
             (sort_key (\<lambda>r. - r_criado r) (selecionadas f b))))))"

definition ContarRuns :: "filtro \<Rightarrow> banco \<Rightarrow> nat" where
  "ContarRuns f b = length (selecionadas f b)"

section \<open>Lemmas\<close>

text \<open>What the filter means.\<close>

definition passa :: "filtro \<Rightarrow> run \<Rightarrow> bool" where
  "passa f r \<longleftrightarrow>
     (fl_estado f = [] \<or> texto_status (r_status r) = fl_estado f) \<and>
     (fl_workflow f = [] \<or> r_slug r = fl_workflow f) \<and>
     (case fl_de f of None \<Rightarrow> True | Some t \<Rightarrow> t \<le> r_criado r) \<and>
     (case fl_ate f of None \<Rightarrow> True | Some t \<Rightarrow> r_criado r < t)"

lemma selecionadas_passa: "selecionadas f b = filter (passa f) (db_runs b)"
proof -
  have "(case filtro_where f of (cond, args) \<Rightarrow> list_all (avalia args r) cond) = passa f r" for r
    by (cases "fl_estado f = []"; cases "fl_workflow f = []"; cases "fl_de f"; cases "fl_ate f")
       (simp_all add: filtro_where_def poe_cond_def passa_def Let_def)
  then have "filter (\<lambda>r. case filtro_where f of (cond, args) \<Rightarrow> list_all (avalia args r) cond) (db_runs b)
      = filter (passa f) (db_runs b)" by simp
  then show ?thesis by (cases "filtro_where f") (simp add: selecionadas_def)
qed

lemma concat_paginas: "concat (map (\<lambda>p. take l (drop (p * l) xs)) [0..<k]) = take (k * l) xs"
proof (induction k)
  case (Suc k)
  have "take (k * l + l) xs = take (k * l) xs @ take l (drop (k * l) xs)" by (rule take_add)
  with Suc show ?case by (simp add: add.commute)
qed simp

lemma conta_partes:
  "conta [StatusSuccess] rs + conta [StatusFailed] rs + conta [StatusRunning, StatusRetrying] rs
     + conta [StatusQueued] rs =
   length (filter (\<lambda>r. r_status r \<in> {StatusSuccess, StatusFailed, StatusRunning, StatusRetrying, StatusQueued}) rs)"
  by (induction rs) (auto simp: conta_def)

lemma ExecucoesPorHora_inicio:
  "map bd_inicio (ExecucoesPorHora agora n b)
     = map (\<lambda>i. trunca_hora agora - (int n - 1 - int i) * hora) [0..<n]"
  by (simp add: ExecucoesPorHora_def balde_de_def Let_def comp_def)

section \<open>Properties\<close>

text \<open>
  The runs page is faithful to its filter: the numbered arguments of the dynamic SQL
  select exactly the runs that satisfy every filled field, \<open>ContarRuns\<close> counts the same
  runs, and the pages \<open>0, 1, ...\<close> of a positive size, laid end to end, are all of them
  once, most recent first.
\<close>

theorem Runs_paginas:
  assumes "0 < l" and "ContarRuns f b \<le> k * nat l"
  shows "selecionadas f b = filter (passa f) (db_runs b) \<and>
    concat (map (\<lambda>p. the (Runs (f\<lparr>fl_limite := l, fl_offset := int p * l\<rparr>) b)) [0..<k])
      = varrerRuns (sort_key (\<lambda>r. - r_criado r) (filter (passa f) (db_runs b)))"
proof -
  let ?xs = "sort_key (\<lambda>r. - r_criado r) (filter (passa f) (db_runs b))"
  have "passa (f\<lparr>fl_limite := l, fl_offset := o'\<rparr>) = passa f" for o'
    by (simp add: passa_def fun_eq_iff)
  moreover have "nat (int p * l) = p * nat l" for p
    using assms(1) by (simp add: nat_mult_distrib)
  ultimately have "the (Runs (f\<lparr>fl_limite := l, fl_offset := int p * l\<rparr>) b)
      = varrerRuns (take (nat l) (drop (p * nat l) ?xs))" for p
    using assms(1) by (simp add: Runs_def selecionadas_passa mult_less_0_iff)
  then have "concat (map (\<lambda>p. the (Runs (f\<lparr>fl_limite := l, fl_offset := int p * l\<rparr>) b)) [0..<k])
      = varrerRuns (concat (map (\<lambda>p. take (nat l) (drop (p * nat l) ?xs)) [0..<k]))"
    by (simp add: varrerRuns_def map_concat comp_def)
  also have "\<dots> = varrerRuns (take (k * nat l) ?xs)" by (simp only: concat_paginas)
  also have "take (k * nat l) ?xs = ?xs"
    using assms(2) by (simp add: ContarRuns_def selecionadas_passa)
  finally show ?thesis by (simp add: selecionadas_passa)
qed

definition filtro_de_exemplo :: filtro where
  "filtro_de_exemplo = \<lparr>fl_estado = ''queued'', fl_workflow = [], fl_de = Some 0, fl_ate = None,
     fl_limite = 0, fl_offset = 0\<rparr>"

theorem Runs_paginas_witness:
  "concat (map (\<lambda>p. the (Runs (filtro_de_exemplo\<lparr>fl_limite := 2, fl_offset := int p * 2\<rparr>)
      (banco_com_run StatusQueued))) [0..<1]) = [resumir (run_de_exemplo StatusQueued)]"
proof -
  have "ContarRuns filtro_de_exemplo (banco_com_run StatusQueued) \<le> 1 * nat 2"
    by (simp add: ContarRuns_def selecionadas_passa exemplo_banco passa_def filtro_de_exemplo_def)
  from Runs_paginas [OF _ this] show ?thesis
    by (simp add: exemplo_banco passa_def filtro_de_exemplo_def varrerRuns_def)
qed

end
