(* ===== verification/Queue.thy ===== *)
theory Queue
  imports Store
begin

text \<open>
  \<open>internal/queue/queue.go\<close>: the persistent queue. Each operation is one SQL statement on
  \<open>queue_items\<close>; \<open>Claim\<close> is modelled clause by clause (items in flight per workflow, the
  row number inside the workflow, the limit of the run, the order, the rows another
  transaction holds and \<open>SKIP LOCKED\<close> passes over). An abstract queue, a map from runs
  to tickets, says what a client may rely on.
\<close>

section \<open>The operations\<close>

definition atualiza_item :: "nat \<Rightarrow> (item \<Rightarrow> item) \<Rightarrow> banco \<Rightarrow> banco" where
  "atualiza_item x f b = b\<lparr>db_itens := map (\<lambda>q. if i_id q = x then f q else q) (db_itens b)\<rparr>"

text \<open>\<open>Enqueue\<close>; the zero time asks for the clock of the database.\<close>

definition Enqueue :: "nat \<Rightarrow> int \<Rightarrow> time \<Rightarrow> time \<Rightarrow> banco \<Rightarrow> erro_db option \<times> banco" where
  "Enqueue x prioridade disponivel agora b =
     (let quando = (if disponivel = tempo_zero then None else Some disponivel) in
      if x \<in> i_run ` set (db_itens b) then (None, b)
      else if x \<notin> r_id ` set (db_runs b) then (Some ChaveEstrangeira, b)
      else (None, b\<lparr>db_seq := db_seq b + 1,
              db_itens := db_itens b @
                [\<lparr>i_id = db_seq b, i_run = x, i_prioridade = prioridade,
                  i_disponivel = valor_ou agora quando, i_reivindicado = None, i_por = None\<rparr>]\<rparr>))"

text \<open>The pieces of the claim query.\<close>

definition run_do_item :: "banco \<Rightarrow> item \<Rightarrow> run option" where
  "run_do_item b q = buscar_run (i_run q) b"

definition slug_do_item :: "banco \<Rightarrow> item \<Rightarrow> string option" where
  "slug_do_item b q = map_option r_slug (run_do_item b q)"

definition ja_em_voo :: "banco \<Rightarrow> string option \<Rightarrow> nat" where
  "ja_em_voo b s = length (filter (\<lambda>q. i_reivindicado q \<noteq> None \<and> slug_do_item b q = s) (db_itens b))"

definition chave_de_ordem :: "item \<Rightarrow> int \<times> time \<times> nat" where
  "chave_de_ordem q = (- i_prioridade q, i_disponivel q, i_id q)"

definition livre :: "time \<Rightarrow> banco \<Rightarrow> item \<Rightarrow> bool" where
  "livre agora b q \<longleftrightarrow> i_reivindicado q = None \<and> i_disponivel q \<le> agora \<and> run_do_item b q \<noteq> None"

definition posicao :: "time \<Rightarrow> banco \<Rightarrow> item \<Rightarrow> nat" where
  "posicao agora b q =
     Suc (length (filter (\<lambda>x. livre agora b x \<and> slug_do_item b x = slug_do_item b q \<and>
                              chave_de_ordem x < chave_de_ordem q) (db_itens b)))"

definition cabe :: "time \<Rightarrow> banco \<Rightarrow> item \<Rightarrow> bool" where
  "cabe agora b q =
     (case run_do_item b q of None \<Rightarrow> False
      | Some r \<Rightarrow> r_max_ativos r = 0 \<or>
          int (ja_em_voo b (Some (r_slug r))) + int (posicao agora b q) \<le> r_max_ativos r)"

text \<open>\<open>travados\<close>: the ids of the rows locked by another transaction.\<close>

definition escolher :: "nat set \<Rightarrow> time \<Rightarrow> int \<Rightarrow> banco \<Rightarrow> item list" where
  "escolher travados agora limite b =
     take (nat limite)
       (filter (\<lambda>q. livre agora b q \<and> cabe agora b q \<and> i_id q \<notin> travados)
         (sort_key chave_de_ordem (db_itens b)))"

definition reivindicar :: "string \<Rightarrow> time \<Rightarrow> item \<Rightarrow> item" where
  "reivindicar worker agora q = q\<lparr>i_reivindicado := Some agora, i_por := Some worker\<rparr>"

definition Claim :: "nat set \<Rightarrow> string \<Rightarrow> int \<Rightarrow> time \<Rightarrow> banco \<Rightarrow> item list \<times> banco" where
  "Claim travados worker limite agora b =
     (if limite \<le> 0 then ([], b)
      else let ids = map i_id (escolher travados agora limite b);
               itens = map (\<lambda>q. if i_id q \<in> set ids then reivindicar worker agora q else q) (db_itens b)
           in (filter (\<lambda>q. i_id q \<in> set ids) itens, b\<lparr>db_itens := itens\<rparr>))"

definition Done :: "nat \<Rightarrow> banco \<Rightarrow> banco" where
  "Done x b = b\<lparr>db_itens := filter (\<lambda>q. i_id q \<noteq> x) (db_itens b)\<rparr>"

definition em_milissegundos :: "time \<Rightarrow> time" where
  "em_milissegundos d = milissegundos d * 1000000"

definition Release :: "nat \<Rightarrow> time \<Rightarrow> time \<Rightarrow> banco \<Rightarrow> banco" where
  "Release x atraso agora b =
     atualiza_item x (\<lambda>q. q\<lparr>i_reivindicado := None, i_por := None,
        i_disponivel := agora + em_milissegundos atraso\<rparr>) b"

definition vencido :: "time \<Rightarrow> time \<Rightarrow> item \<Rightarrow> bool" where
  "vencido limite agora q =
     (case i_reivindicado q of None \<Rightarrow> False | Some t \<Rightarrow> t < agora - em_milissegundos limite)"

definition Recuperar :: "time \<Rightarrow> time \<Rightarrow> banco \<Rightarrow> item list \<times> banco" where
  "Recuperar limite agora b =
     (let solta = (\<lambda>q. q\<lparr>i_reivindicado := None, i_por := None\<rparr>) in
      (map solta (filter (vencido limite agora) (db_itens b)),
       b\<lparr>db_itens := map (\<lambda>q. if vencido limite agora q then solta q else q) (db_itens b)\<rparr>))"

definition Tamanho :: "banco \<Rightarrow> nat \<times> nat" where
  "Tamanho b =
     (length (filter (\<lambda>q. i_reivindicado q = None) (db_itens b)),
      length (filter (\<lambda>q. i_reivindicado q \<noteq> None) (db_itens b)))"

section \<open>The tables stay consistent\<close>

lemma itens_ok_map:
  assumes "\<And>q. i_id (f q) = i_id q" and "\<And>q. i_run (f q) = i_run q"
  shows "itens_ok ids seq (map f qs) \<longleftrightarrow> itens_ok ids seq qs"
proof -
  have "map i_id (map f qs) = map i_id qs" "map i_run (map f qs) = map i_run qs"
    by (simp_all add: assms)
  moreover have "i_run ` set (map f qs) = i_run ` set qs" by (simp add: image_image assms)
  moreover have "(\<forall>q \<in> set (map f qs). i_id q < seq) \<longleftrightarrow> (\<forall>q \<in> set qs. i_id q < seq)"
    by (simp add: assms)
  ultimately show ?thesis by (simp only: itens_ok_def)
qed

lemma banco_ok_itens:
  "banco_ok (b\<lparr>db_itens := qs\<rparr>) \<longleftrightarrow>
     runs_ok (db_runs b) \<and> tasks_ok (map r_id (db_runs b)) (db_tasks b) \<and>
     itens_ok (map r_id (db_runs b)) (db_seq b) qs \<and> agendas_ok (db_agendas b) \<and> workflows_ok (db_workflows b)"
  by (simp add: banco_ok_def)

lemma banco_ok_map_itens:
  assumes "\<And>q. i_id (f q) = i_id q" and "\<And>q. i_run (f q) = i_run q"
  shows "banco_ok (b\<lparr>db_itens := map f (db_itens b)\<rparr>) \<longleftrightarrow> banco_ok b"
  by (simp add: banco_ok_itens itens_ok_map assms banco_ok_def)

lemma reivindicar_campos [simp]:
  "i_id (reivindicar w a q) = i_id q" "i_run (reivindicar w a q) = i_run q"
  "i_prioridade (reivindicar w a q) = i_prioridade q" "i_disponivel (reivindicar w a q) = i_disponivel q"
  "i_reivindicado (reivindicar w a q) = Some a" "i_por (reivindicar w a q) = Some w"
  by (simp_all add: reivindicar_def)

lemma Enqueue_ok: "banco_ok b \<Longrightarrow> banco_ok (snd (Enqueue x p d agora b))"
  by (auto simp: Enqueue_def Let_def banco_ok_def itens_ok_def)

lemma Claim_ok: "banco_ok b \<Longrightarrow> banco_ok (snd (Claim tr w l agora b))"
  by (simp add: Claim_def Let_def banco_ok_map_itens)

lemma itens_ok_filter: "itens_ok ids seq qs \<Longrightarrow> itens_ok ids seq (filter P qs)"
  by (auto simp: itens_ok_def distinct_map_filter)

lemma Done_ok: "banco_ok b \<Longrightarrow> banco_ok (Done x b)"
  by (simp add: Done_def banco_ok_itens itens_ok_filter) (simp add: banco_ok_def itens_ok_filter)

lemma Release_ok: "banco_ok b \<Longrightarrow> banco_ok (Release x d agora b)"
  by (simp add: Release_def atualiza_item_def banco_ok_map_itens)

lemma Recuperar_ok: "banco_ok b \<Longrightarrow> banco_ok (snd (Recuperar l agora b))"
  by (simp add: Recuperar_def Let_def banco_ok_map_itens)

section \<open>What a claim takes\<close>

lemma itens_distinct: "banco_ok b \<Longrightarrow> distinct (db_itens b)"
  by (simp add: banco_ok_def itens_ok_def distinct_map)

lemma item_unico:
  "banco_ok b \<Longrightarrow> q \<in> set (db_itens b) \<Longrightarrow> q' \<in> set (db_itens b) \<Longrightarrow> i_id q = i_id q' \<Longrightarrow> q = q'"
  by (auto simp: banco_ok_def itens_ok_def distinct_map dest: inj_onD)

lemma escolher_set:
  "q \<in> set (escolher tr agora l b) \<Longrightarrow>
     q \<in> set (db_itens b) \<and> livre agora b q \<and> cabe agora b q \<and> i_id q \<notin> tr"
  by (auto simp: escolher_def dest: in_set_takeD)

lemma escolher_length: "length (escolher tr agora l b) \<le> nat l"
  by (simp add: escolher_def)

lemma escolher_distinct: "banco_ok b \<Longrightarrow> distinct (map i_id (escolher tr agora l b))"
proof -
  assume ok: "banco_ok b"
  have "distinct (escolher tr agora l b)"
    using itens_distinct [OF ok] by (simp add: escolher_def)
  moreover have "inj_on i_id (set (escolher tr agora l b))"
    by (intro inj_onI item_unico [OF ok]) (simp_all add: escolher_set)
  ultimately show ?thesis by (simp add: distinct_map)
qed

lemma escolhido_iff:
  "banco_ok b \<Longrightarrow> q \<in> set (db_itens b) \<Longrightarrow>
     i_id q \<in> i_id ` set (escolher tr agora l b) \<longleftrightarrow> q \<in> set (escolher tr agora l b)"
  using item_unico escolher_set by blast

text \<open>What is left behind ranks after everything taken, and is left only for lack of places.\<close>

lemma escolher_ordem:
  assumes q: "q \<in> set (db_itens b)" "livre agora b q" "cabe agora b q" "i_id q \<notin> tr"
    and fora: "q \<notin> set (escolher tr agora l b)"
  shows "length (escolher tr agora l b) = nat l \<and>
    (\<forall>x \<in> set (escolher tr agora l b). chave_de_ordem x \<le> chave_de_ordem q)"
proof -
  let ?c = "filter (\<lambda>q. livre agora b q \<and> cabe agora b q \<and> i_id q \<notin> tr)
         (sort_key chave_de_ordem (db_itens b))"
  have "q \<in> set ?c" using q by simp
  have s: "sorted (map chave_de_ordem ?c)"
    by (simp add: sorted_filter sorted_sort_key)
  have "set ?c = set (take (nat l) ?c) \<union> set (drop (nat l) ?c)"
    by (metis append_take_drop_id set_append)
  with \<open>q \<in> set ?c\<close> fora have d: "q \<in> set (drop (nat l) ?c)" unfolding escolher_def by blast
  then have "nat l \<le> length ?c" by (cases "nat l \<le> length ?c") simp_all
  moreover have "sorted (map chave_de_ordem (take (nat l) ?c) @ map chave_de_ordem (drop (nat l) ?c))"
    using s by (metis append_take_drop_id map_append)
  then have "\<forall>x \<in> set (take (nat l) ?c). chave_de_ordem x \<le> chave_de_ordem q"
    using d by (simp only: sorted_append set_map) blast
  ultimately show ?thesis by (simp add: escolher_def)
qed

section \<open>The limit per workflow\<close>

lemma posicao_mono:
  assumes ok: "banco_ok b" and q: "q \<in> set (db_itens b)" "livre agora b q"
    and s: "slug_do_item b q = slug_do_item b q'" and k: "chave_de_ordem q < chave_de_ordem q'"
  shows "posicao agora b q < posicao agora b q'"
proof -
  let ?F = "\<lambda>q. filter (\<lambda>x. livre agora b x \<and> slug_do_item b x = slug_do_item b q \<and>
                              chave_de_ordem x < chave_de_ordem q) (db_itens b)"
  have d: "distinct (?F x)" for x using itens_distinct [OF ok] by simp
  have "set (?F q) \<subset> set (?F q')"
  proof
    show "set (?F q) \<subseteq> set (?F q')" using s k by auto
    have "q \<in> set (?F q')" "q \<notin> set (?F q)" using q s k by auto
    then show "set (?F q) \<noteq> set (?F q')" by blast
  qed
  then have "card (set (?F q)) < card (set (?F q'))" by (rule psubset_card_mono [rotated]) simp
  then show ?thesis by (simp only: distinct_card [OF d] posicao_def Suc_less_eq)
qed

lemma posicao_inj:
  assumes ok: "banco_ok b"
  shows "inj_on (posicao agora b) {q \<in> set (db_itens b). livre agora b q \<and> slug_do_item b q = s}"
proof (intro inj_onI)
  fix q q' assume q: "q \<in> {q \<in> set (db_itens b). livre agora b q \<and> slug_do_item b q = s}"
    and q': "q' \<in> {q \<in> set (db_itens b). livre agora b q \<and> slug_do_item b q = s}"
    and p: "posicao agora b q = posicao agora b q'"
  have "\<not> chave_de_ordem q < chave_de_ordem q'" "\<not> chave_de_ordem q' < chave_de_ordem q"
    using posicao_mono [OF ok, of q agora q'] posicao_mono [OF ok, of q' agora q] q q' p by auto
  then have "chave_de_ordem q = chave_de_ordem q'" by (metis linorder_neqE)
  then show "q = q'" using item_unico [OF ok] q q' by (auto simp: chave_de_ordem_def)
qed

definition limite_do_workflow :: "banco \<Rightarrow> string \<Rightarrow> int \<Rightarrow> bool" where
  "limite_do_workflow b s m \<longleftrightarrow> 0 < m \<and> (\<forall>r \<in> set (db_runs b). r_slug r = s \<longrightarrow> r_max_ativos r = m)"

lemma cabe_posicao:
  assumes "limite_do_workflow b s m" and "cabe agora b q" and "slug_do_item b q = Some s"
  shows "int (ja_em_voo b (Some s)) + int (posicao agora b q) \<le> m"
proof -
  obtain r where r: "run_do_item b q = Some r" "r_slug r = s"
    using assms(3) by (auto simp: slug_do_item_def)
  then have "r \<in> set (db_runs b)" by (auto simp: run_do_item_def dest: buscar_run_SomeD)
  with assms r show ?thesis by (auto simp: limite_do_workflow_def cabe_def)
qed

lemma escolhidos_do_workflow:
  assumes ok: "banco_ok b" and lim: "limite_do_workflow b s m"
  shows "card {q \<in> set (escolher tr agora l b). slug_do_item b q = Some s}
    \<le> nat m - ja_em_voo b (Some s)"
proof -
  let ?C = "{q \<in> set (escolher tr agora l b). slug_do_item b q = Some s}"
  have "?C \<subseteq> {q \<in> set (db_itens b). livre agora b q \<and> slug_do_item b q = Some s}"
    by (auto dest: escolher_set)
  then have inj: "inj_on (posicao agora b) ?C" using posicao_inj [OF ok] inj_on_subset by blast
  have sub: "posicao agora b ` ?C \<subseteq> {1 .. nat m - ja_em_voo b (Some s)}"
  proof
    fix p assume "p \<in> posicao agora b ` ?C"
    then obtain q where q: "q \<in> set (escolher tr agora l b)" "slug_do_item b q = Some s" "p = posicao agora b q"
      by blast
    have "int (ja_em_voo b (Some s)) + int p \<le> m"
      using cabe_posicao [OF lim] escolher_set [OF q(1)] q by blast
    moreover have "1 \<le> p" using q(3) by (simp add: posicao_def)
    ultimately show "p \<in> {1 .. nat m - ja_em_voo b (Some s)}" by auto
  qed
  have "card ?C \<le> card {1 .. nat m - ja_em_voo b (Some s)}"
    by (rule card_inj_on_le [OF inj sub]) simp
  then show ?thesis by simp
qed

lemma slug_do_item_itens [simp]: "slug_do_item (b\<lparr>db_itens := qs\<rparr>) = slug_do_item b"
  by (simp add: slug_do_item_def run_do_item_def buscar_run_def fun_eq_iff)

lemma slug_do_item_reivindicar [simp]: "slug_do_item b (reivindicar w a q) = slug_do_item b q"
  by (simp add: slug_do_item_def run_do_item_def)

lemma ja_em_voo_Claim:
  assumes ok: "banco_ok b" and "0 < l"
  shows "ja_em_voo (snd (Claim tr w l agora b)) (Some s) =
    ja_em_voo b (Some s) + card {q \<in> set (escolher tr agora l b). slug_do_item b q = Some s}"
proof -
  let ?E = "set (escolher tr agora l b)"
  let ?P = "\<lambda>q. i_reivindicado q \<noteq> None \<and> slug_do_item b q = Some s"
  let ?Q = "\<lambda>q. q \<in> ?E \<and> slug_do_item b q = Some s"
  have d: "distinct (db_itens b)" by (rule itens_distinct [OF ok])
  have "ja_em_voo (snd (Claim tr w l agora b)) (Some s)
      = length (filter (\<lambda>q. ?P (if i_id q \<in> i_id ` ?E then reivindicar w agora q else q)) (db_itens b))"
    using assms(2) by (simp add: ja_em_voo_def Claim_def Let_def filter_map comp_def)
  also have "\<dots> = length (filter (\<lambda>q. ?P q \<or> ?Q q) (db_itens b))"
    using escolhido_iff [OF ok] by (intro arg_cong [where f = length] filter_cong) auto
  also have "\<dots> = card ({q \<in> set (db_itens b). ?P q} \<union> {q \<in> set (db_itens b). ?Q q})"
    using d by (subst distinct_card [symmetric]) (auto intro!: arg_cong [where f = card])
  also have "\<dots> = card {q \<in> set (db_itens b). ?P q} + card {q \<in> set (db_itens b). ?Q q}"
    by (intro card_Un_disjoint) (auto dest: escolher_set simp: livre_def)
  also have "{q \<in> set (db_itens b). ?Q q} = {q \<in> ?E. slug_do_item b q = Some s}"
    by (auto dest: escolher_set)
  also have "card {q \<in> set (db_itens b). ?P q} = ja_em_voo b (Some s)"
    using d by (subst ja_em_voo_def, subst distinct_card [symmetric]) (auto intro!: arg_cong [where f = card])
  finally show ?thesis .
qed

lemma Claim_limite:
  assumes ok: "banco_ok b" and lim: "limite_do_workflow b s m"
  shows "ja_em_voo (snd (Claim tr w l agora b)) (Some s) \<le> max (ja_em_voo b (Some s)) (nat m)"
proof (cases "0 < l")
  case True
  with escolhidos_do_workflow [OF ok lim, of tr agora l] show ?thesis
    by (simp add: ja_em_voo_Claim [OF ok])
qed (simp add: Claim_def)

section \<open>The contract of a work queue\<close>

text \<open>
  The queue as its clients see it: a map from tickets to the run and the possession. The
  locale states what the dispatcher relies on; the interpretation at the end of the
  section discharges it for the SQL above.
\<close>

datatype posse = Livre time | Tomado string time

locale fila_de_trabalho =
  fixes valido :: "'s \<Rightarrow> bool"
    and ver :: "'s \<Rightarrow> nat \<Rightarrow> (nat \<times> posse) option"
    and tomar :: "string \<Rightarrow> int \<Rightarrow> time \<Rightarrow> 's \<Rightarrow> nat list \<times> 's"
    and concluir :: "nat \<Rightarrow> 's \<Rightarrow> 's"
    and soltar :: "nat \<Rightarrow> time \<Rightarrow> time \<Rightarrow> 's \<Rightarrow> 's"
  assumes valido_tomar: "valido s \<Longrightarrow> valido (snd (tomar w l t s))"
    and valido_concluir: "valido s \<Longrightarrow> valido (concluir i s)"
    and valido_soltar: "valido s \<Longrightarrow> valido (soltar i d t s)"
    and tomar_poucos: "valido s \<Longrightarrow> length (fst (tomar w l t s)) \<le> nat l"
    and tomar_distintos: "valido s \<Longrightarrow> distinct (fst (tomar w l t s))"
    and tomar_livre: "valido s \<Longrightarrow> i \<in> set (fst (tomar w l t s)) \<Longrightarrow>
          \<exists>r d. ver s i = Some (r, Livre d) \<and> d \<le> t"
    and ver_tomar: "valido s \<Longrightarrow> ver (snd (tomar w l t s)) i =
          (if i \<in> set (fst (tomar w l t s)) then map_option (\<lambda>(r, _). (r, Tomado w t)) (ver s i) else ver s i)"
    and ver_concluir: "valido s \<Longrightarrow> ver (concluir i s) j = (if j = i then None else ver s j)"
    and ver_soltar: "valido s \<Longrightarrow> \<exists>d'. ver (soltar i d t s) j =
          (if j = i then map_option (\<lambda>(r, _). (r, Livre d')) (ver s j) else ver s j)"
begin

definition tomados :: "'s \<Rightarrow> nat set" where
  "tomados s = {i. \<exists>r w t. ver s i = Some (r, Tomado w t)}"

text \<open>Two claims in a row never hand out the same ticket.\<close>

lemma sem_entrega_dupla:
  assumes "valido s" and "tomar w l t s = (is, s')"
  shows "set is \<inter> set (fst (tomar w' l' t' s')) = {}"
proof (rule ccontr)
  assume "set is \<inter> set (fst (tomar w' l' t' s')) \<noteq> {}"
  then obtain i where i: "i \<in> set is" "i \<in> set (fst (tomar w' l' t' s'))" by blast
  have "valido s'" using valido_tomar [OF assms(1), of w l t] assms(2) by simp
  then obtain r d where "ver s' i = Some (r, Livre d)" using tomar_livre i(2) by blast
  moreover obtain q d' where "ver s i = Some (q, Livre d')"
    using tomar_livre [OF assms(1), of i w l t] assms(2) i(1) by auto
  then have "ver s' i = Some (q, Tomado w t)"
    using ver_tomar [OF assms(1), of w l t i] assms(2) i(1) by simp
  ultimately show False by simp
qed

lemma tomados_tomar:
  assumes "valido s" and "tomar w l t s = (is, s')"
  shows "tomados s' = tomados s \<union> set is"
proof -
  have v: "ver s' i = (if i \<in> set is then map_option (\<lambda>(r, _). (r, Tomado w t)) (ver s i) else ver s i)" for i
    using ver_tomar [OF assms(1), of w l t i] assms(2) by simp
  have l: "i \<in> set is \<Longrightarrow> \<exists>r d. ver s i = Some (r, Livre d)" for i
    using tomar_livre [OF assms(1), of i w l t] assms(2) by auto
  have "i \<in> tomados s' \<longleftrightarrow> i \<in> tomados s \<or> i \<in> set is" for i
    using v [of i] l [of i] by (cases "i \<in> set is") (auto simp: tomados_def)
  then show ?thesis by blast
qed

text \<open>A round: claim, then give every ticket back or finish it.\<close>

definition resolver :: "(nat \<Rightarrow> time option) \<Rightarrow> time \<Rightarrow> nat \<Rightarrow> 's \<Rightarrow> 's" where
  "resolver dec t i s = (case dec i of None \<Rightarrow> concluir i s | Some d \<Rightarrow> soltar i d t s)"

lemma resolver_valido: "valido s \<Longrightarrow> valido (resolver dec t i s)"
  by (simp add: resolver_def valido_concluir valido_soltar split: option.splits)

lemma tomados_resolver: "valido s \<Longrightarrow> tomados (resolver dec t i s) = tomados s - {i}"
proof -
  assume v: "valido s"
  have "j \<in> tomados (resolver dec t i s) \<longleftrightarrow> j \<in> tomados s \<and> j \<noteq> i" for j
  proof (cases "dec i")
    case None
    then show ?thesis using ver_concluir [OF v, of i j] by (auto simp: resolver_def tomados_def)
  next
    case (Some d)
    obtain d' where "ver (soltar i d t s) j =
          (if j = i then map_option (\<lambda>(r, _). (r, Livre d')) (ver s j) else ver s j)"
      using ver_soltar [OF v] by blast
    with Some show ?thesis by (auto simp: resolver_def tomados_def)
  qed
  then show ?thesis by blast
qed

lemma tomados_rodada:
  assumes "valido s" and "tomar w l t s = (is, s')"
  shows "tomados (fold (resolver dec t') is s') = tomados s - set is"
proof -
  have "valido s' \<Longrightarrow> tomados (fold (resolver dec t') xs s') = tomados s' - set xs" for xs s'
    by (induction xs arbitrary: s') (auto simp: tomados_resolver resolver_valido)
  moreover have "valido s'" using valido_tomar [OF assms(1), of w l t] assms(2) by simp
  ultimately show ?thesis by (auto simp: tomados_tomar [OF assms])
qed

end

definition posse_do_item :: "item \<Rightarrow> posse" where
  "posse_do_item q = (case i_reivindicado q of
      None \<Rightarrow> Livre (i_disponivel q) | Some t \<Rightarrow> Tomado (valor_ou [] (i_por q)) t)"

definition achar_item :: "banco \<Rightarrow> nat \<Rightarrow> item option" where
  "achar_item b x = find (\<lambda>q. i_id q = x) (db_itens b)"

lemma achar_item_SomeD: "achar_item b x = Some q \<Longrightarrow> q \<in> set (db_itens b) \<and> i_id q = x"
  by (auto simp: achar_item_def find_Some_iff)

definition ver_item :: "banco \<Rightarrow> nat \<Rightarrow> (nat \<times> posse) option" where
  "ver_item b x = map_option (\<lambda>q. (i_run q, posse_do_item q)) (achar_item b x)"

definition tomar_itens :: "string \<Rightarrow> int \<Rightarrow> time \<Rightarrow> banco \<Rightarrow> nat list \<times> banco" where
  "tomar_itens w l t b = (case Claim {} w l t b of (is, b') \<Rightarrow> (map i_id is, b'))"

lemma achar_item_eq:
  assumes "banco_ok b" and "q \<in> set (db_itens b)"
  shows "achar_item b (i_id q) = Some q"
proof -
  obtain q' where q': "achar_item b (i_id q) = Some q'"
    using assms(2) by (cases "achar_item b (i_id q)") (auto simp: achar_item_def find_None_iff)
  with achar_item_SomeD item_unico [OF assms(1)] assms(2) have "q' = q" by blast
  with q' show ?thesis by simp
qed

lemma ver_item_iff:
  "banco_ok b \<Longrightarrow> q \<in> set (db_itens b) \<Longrightarrow> ver_item b (i_id q) = Some (i_run q, posse_do_item q)"
  by (simp add: ver_item_def achar_item_eq)

lemma tomar_fst:
  assumes "0 < l"
  shows "fst (tomar_itens w l t b) = filter (\<lambda>i. i \<in> i_id ` set (escolher {} t l b)) (map i_id (db_itens b))"
proof -
  define g where "g = (\<lambda>q. if i_id q \<in> i_id ` set (escolher {} t l b) then reivindicar w t q else q)"
  have g: "i_id (g q) = i_id q" for q by (simp add: g_def)
  have "fst (tomar_itens w l t b)
      = map i_id (filter (\<lambda>q. i_id q \<in> i_id ` set (escolher {} t l b)) (map g (db_itens b)))"
    using assms by (simp add: tomar_itens_def Claim_def Let_def g_def)
  then show ?thesis by (simp add: filter_map comp_def g)
qed

lemma tomar_ids:
  assumes "0 < l"
  shows "set (fst (tomar_itens w l t b)) = i_id ` set (escolher {} t l b)"
  unfolding tomar_fst [OF assms] by (auto dest: escolher_set)

lemma tomar_vazio: "\<not> 0 < l \<Longrightarrow> tomar_itens w l t b = ([], b)"
  by (simp add: tomar_itens_def Claim_def)

lemma snd_tomar: "snd (tomar_itens w l t b) = snd (Claim {} w l t b)"
  by (simp add: tomar_itens_def split: prod.splits)

lemma achar_map_itens:
  assumes "\<And>q. i_id (f q) = i_id q"
  shows "achar_item (b\<lparr>db_itens := map f (db_itens b)\<rparr>) x = map_option f (achar_item b x)"
proof -
  have "find (\<lambda>q. i_id q = x) (map f qs) = map_option f (find (\<lambda>q. i_id q = x) qs)" for qs
    by (induction qs) (auto simp: assms)
  then show ?thesis by (simp add: achar_item_def)
qed

lemma tomar_livre_sql:
  assumes ok: "banco_ok b" and i: "i \<in> set (fst (tomar_itens w l t b))"
  shows "\<exists>r d. ver_item b i = Some (r, Livre d) \<and> d \<le> t"
proof -
  have l: "0 < l" using i by (cases "0 < l") (simp_all add: tomar_vazio)
  from i obtain q where q: "q \<in> set (escolher {} t l b)" "i = i_id q" by (auto simp: tomar_ids [OF l])
  from escolher_set [OF q(1)] ver_item_iff [OF ok] q(2) show ?thesis
    by (auto simp: livre_def posse_do_item_def)
qed

lemma ver_tomar_sql:
  assumes ok: "banco_ok b"
  shows "ver_item (snd (tomar_itens w l t b)) i =
    (if i \<in> set (fst (tomar_itens w l t b)) then map_option (\<lambda>(r, _). (r, Tomado w t)) (ver_item b i)
     else ver_item b i)"
proof (cases "0 < l")
  case True
  let ?g = "\<lambda>q. if i_id q \<in> i_id ` set (escolher {} t l b) then reivindicar w t q else q"
  have e: "achar_item (snd (tomar_itens w l t b)) i = map_option ?g (achar_item b i)"
    using True achar_map_itens [of ?g b i] by (simp add: snd_tomar Claim_def Let_def)
  show ?thesis
  proof (cases "achar_item b i")
    case None
    with e show ?thesis by (simp add: ver_item_def)
  next
    case (Some q)
    with achar_item_SomeD have q: "i_id q = i" by blast
    show ?thesis
      using q by (simp add: ver_item_def e Some tomar_ids [OF True] posse_do_item_def valor_ou_def)
  qed
qed (simp add: tomar_vazio)

lemma ver_concluir_sql: "ver_item (Done i b) j = (if j = i then None else ver_item b j)"
proof -
  have "find (\<lambda>q. i_id q = j) (filter (\<lambda>q. i_id q \<noteq> i) qs) =
      (if j = i then None else find (\<lambda>q. i_id q = j) qs)" for qs :: "item list"
    by (induction qs) auto
  then have "achar_item (Done i b) j = (if j = i then None else achar_item b j)"
    by (simp add: achar_item_def Done_def)
  then show ?thesis by (simp add: ver_item_def)
qed

lemma achar_Release:
  "achar_item (Release i d t b) j = map_option (\<lambda>q. if i_id q = i then q\<lparr>i_reivindicado := None,
     i_por := None, i_disponivel := t + em_milissegundos d\<rparr> else q) (achar_item b j)"
  unfolding Release_def atualiza_item_def by (rule achar_map_itens) simp

lemma ver_soltar_sql:
  "ver_item (Release i d t b) j =
     (if j = i then map_option (\<lambda>(r, _). (r, Livre (t + em_milissegundos d))) (ver_item b j) else ver_item b j)"
proof (cases "achar_item b j")
  case None
  then show ?thesis by (auto simp: ver_item_def achar_Release)
next
  case (Some q)
  with achar_item_SomeD have "i_id q = j" by blast
  with Some show ?thesis by (auto simp: ver_item_def achar_Release posse_do_item_def)
qed

interpretation sql: fila_de_trabalho banco_ok ver_item tomar_itens Done Release
proof (unfold_locales, goal_cases)
  case (1 s w l t)
  then show ?case by (simp add: snd_tomar Claim_ok)
next
  case (2 s i)
  then show ?case by (rule Done_ok)
next
  case (3 s i d t)
  then show ?case by (rule Release_ok)
next
  case (4 s w l t)
  show ?case
  proof (cases "0 < l")
    case True
    have d: "distinct (fst (tomar_itens w l t s))"
      using 4 by (simp add: tomar_fst [OF True] banco_ok_def itens_ok_def)
    have "length (fst (tomar_itens w l t s)) = card (i_id ` set (escolher {} t l s))"
      unfolding tomar_ids [OF True, of w, symmetric] by (rule distinct_card [OF d, symmetric])
    also have "\<dots> \<le> length (map i_id (escolher {} t l s))" by (metis card_length set_map)
    also have "\<dots> \<le> nat l" by (simp add: escolher_length)
    finally show ?thesis .
  qed (simp add: tomar_vazio)
next
  case (5 s w l t)
  then show ?case
    by (cases "0 < l") (simp_all add: tomar_vazio tomar_fst banco_ok_def itens_ok_def)
next
  case (6 s i w l t)
  then show ?case by (rule tomar_livre_sql)
next
  case (7 s w l t i)
  then show ?case by (rule ver_tomar_sql)
next
  case (8 s i j)
  show ?case by (rule ver_concluir_sql)
next
  case (9 s i d t j)
  then show ?case using ver_soltar_sql by blast
qed

section \<open>Properties\<close>

definition item_de_exemplo :: "nat \<Rightarrow> nat \<Rightarrow> int \<Rightarrow> item" where
  "item_de_exemplo i r p =
     \<lparr>i_id = i, i_run = r, i_prioridade = p, i_disponivel = 0, i_reivindicado = None, i_por = None\<rparr>"

text \<open>Two queued runs of one workflow that allows a single active run.\<close>

definition banco_com_fila :: banco where
  "banco_com_fila = banco_vazio\<lparr>
     db_runs := [run_de_exemplo StatusQueued\<lparr>r_max_ativos := 1\<rparr>,
                 run_de_exemplo StatusQueued\<lparr>r_id := 2, r_chave := ''bronze/2'', r_max_ativos := 1\<rparr>],
     db_itens := [item_de_exemplo 1 1 0, item_de_exemplo 2 2 0], db_seq := 3\<rparr>"

lemmas exemplo_fila = banco_com_fila_def item_de_exemplo_def exemplo_banco

lemma banco_com_fila_ok: "banco_ok banco_com_fila"
  by (simp add: banco_ok_def tabelas exemplo_fila chave_task_def)

text \<open>
  C5: a claim takes at most what was asked, only tickets that were free and due, and gives
  them to the caller; a ticket that was free, due, within its workflow's limit and not
  locked is left behind only when every place was filled with tickets that rank no later;
  and two claims in a row never take the same ticket.
\<close>

theorem Claim_entrega:
  assumes ok: "banco_ok b" and c: "tomar_itens w l t b = (is, b')"
  shows "length is \<le> nat l \<and> distinct is \<and>
    (\<forall>i \<in> set is. \<exists>r d. ver_item b i = Some (r, Livre d) \<and> d \<le> t \<and> ver_item b' i = Some (r, Tomado w t)) \<and>
    (\<forall>i. i \<notin> set is \<longrightarrow> ver_item b' i = ver_item b i) \<and>
    (\<forall>q \<in> set (db_itens b). 0 < l \<longrightarrow> livre t b q \<longrightarrow> cabe t b q \<longrightarrow> i_id q \<notin> set is \<longrightarrow>
       length is = nat l \<and>
       (\<forall>x \<in> set (db_itens b). i_id x \<in> set is \<longrightarrow> chave_de_ordem x \<le> chave_de_ordem q)) \<and>
    set is \<inter> set (fst (tomar_itens w2 l2 t2 b')) = {}"
proof (intro conjI ballI allI impI)
  have f: "fst (tomar_itens w l t b) = is" "snd (tomar_itens w l t b) = b'" using c by simp_all
  show "length is \<le> nat l" using sql.tomar_poucos [OF ok, of w l t] f by simp
  show d: "distinct is" using sql.tomar_distintos [OF ok, of w l t] f by simp
  show "set is \<inter> set (fst (tomar_itens w2 l2 t2 b')) = {}" by (rule sql.sem_entrega_dupla [OF ok c])
  show "ver_item b' i = ver_item b i" if "i \<notin> set is" for i
    using sql.ver_tomar [OF ok, of w l t i] f that by simp
  show "\<exists>r d. ver_item b i = Some (r, Livre d) \<and> d \<le> t \<and> ver_item b' i = Some (r, Tomado w t)"
    if "i \<in> set is" for i
    using sql.tomar_livre [OF ok, of i w l t] sql.ver_tomar [OF ok, of w l t i] f that by fastforce
  fix q assume q: "q \<in> set (db_itens b)" "0 < l" "livre t b q" "cabe t b q" "i_id q \<notin> set is"
  have ids: "set is = i_id ` set (escolher {} t l b)" using tomar_ids [OF q(2), of w t b] f by simp
  with q(5) have "q \<notin> set (escolher {} t l b)" by blast
  from escolher_ordem [OF q(1,3,4) _ this]
  have o: "length (escolher {} t l b) = nat l"
    "\<forall>x \<in> set (escolher {} t l b). chave_de_ordem x \<le> chave_de_ordem q" by simp_all
  have "length is = card (i_id ` set (escolher {} t l b))" using d ids distinct_card by metis
  also have "\<dots> = length (map i_id (escolher {} t l b))"
    using distinct_card [OF escolher_distinct [OF ok, of "{}" t l]] by simp
  finally show "length is = nat l" using o by simp
  show "chave_de_ordem x \<le> chave_de_ordem q" if "x \<in> set (db_itens b)" "i_id x \<in> set is" for x
    using that ids escolhido_iff [OF ok that(1)] o(2) by simp
qed

theorem Claim_entrega_witness:
  "fst (tomar_itens ''d1'' 5 9 banco_com_fila) = [1] \<and>
   set [1] \<inter> set (fst (tomar_itens ''d2'' 5 10 (snd (tomar_itens ''d1'' 5 9 banco_com_fila)))) = {}"
proof -
  have f: "fst (tomar_itens ''d1'' 5 9 banco_com_fila) = [1]" by code_simp
  then have "tomar_itens ''d1'' 5 9 banco_com_fila = ([1], snd (tomar_itens ''d1'' 5 9 banco_com_fila))"
    by (metis prod.collapse)
  from Claim_entrega [OF banco_com_fila_ok this, of "''d2''" 5 10] f show ?thesis by blast
qed



text \<open>
  The limit does not hold for two claims that overlap. The first statement reads the
  table and locks a ticket; before it commits, a run of the same workflow with a higher
  priority is enqueued; the second statement reads a table in which nothing is in flight
  and gives that run the first position. Both commit, and a workflow limited to one run
  has two in flight.
\<close>

theorem Claim_corrida:
  "\<exists>b q. banco_ok b \<and> limite_do_workflow (snd (Enqueue 2 10 tempo_zero 5 b)) ''bronze'' 1 \<and>
     escolher {} 9 5 b = [q] \<and>
     (let depois = snd (Enqueue 2 10 tempo_zero 5 b);
          segundo = escolher {i_id q} 9 5 depois;
          ids = i_id q # map i_id segundo;
          final = depois\<lparr>db_itens := map (\<lambda>x. if i_id x \<in> set ids then reivindicar ''d'' 9 x else x)
                     (db_itens depois)\<rparr>
      in ja_em_voo final (Some ''bronze'') = 2)"
proof (intro exI conjI)
  let ?b = "banco_com_fila\<lparr>db_itens := [item_de_exemplo 1 1 0]\<rparr>"
  show "banco_ok ?b" by (simp add: banco_ok_def tabelas exemplo_fila chave_task_def)
  show "limite_do_workflow (snd (Enqueue 2 10 tempo_zero 5 ?b)) ''bronze'' 1"
    by (simp add: limite_do_workflow_def Enqueue_def exemplo_fila)
  show "escolher {} 9 5 ?b = [item_de_exemplo 1 1 0]" by code_simp
  show "let depois = snd (Enqueue 2 10 tempo_zero 5 ?b);
          segundo = escolher {i_id (item_de_exemplo 1 1 0)} 9 5 depois;
          ids = i_id (item_de_exemplo 1 1 0) # map i_id segundo;
          final = depois\<lparr>db_itens := map (\<lambda>x. if i_id x \<in> set ids then reivindicar ''d'' 9 x else x)
                     (db_itens depois)\<rparr>
      in ja_em_voo final (Some ''bronze'') = 2" by code_simp
qed

end
