(* ===== verification/Notify.thy ===== *)
theory Notify
  imports Prelude
begin

text \<open>
  \<open>internal/notify/slack.go\<close>: the alert of a failed run and the Slack message made of it.
  The HTTP client is the argument \<open>post\<close>, the formatting of a date in local time the
  argument \<open>data\<close>. Strings are their UTF-8 bytes.
\<close>

record alerta =
  al_workflow :: string
  al_run :: string
  al_status :: string
  al_trigger :: string
  al_tentativas :: int
  al_logical :: "time option"
  al_erro :: string
  al_passo :: string
  al_log :: string
  al_tags :: "string list"
  al_url :: string

record slack =
  sl_webhook :: string
  sl_ambiente :: string

datatype erro_slack = FalhaHttp string | SlackRespondeu string string

definition to_upper :: "char \<Rightarrow> char" where
  "to_upper c = (if minuscula c then char_of (byte c - 32) else c)"

definition aspas :: "string" where "aspas = ''```''"
definition quebra :: "string" where "quebra = [CHR 0x0A]"

definition campo :: "string \<Rightarrow> valor" where
  "campo texto = VObj [(''type'', VText ''mrkdwn''), (''text'', VText texto)]"

text \<open>The suffix is a line break, an ellipsis (three bytes) and a word in parentheses.\<close>

definition sufixo_truncado :: string where
  "sufixo_truncado = quebra @ [CHR 0xE2, CHR 0x80, CHR 0xA6] @ '' (truncado)''"

definition truncar :: "string \<Rightarrow> nat \<Rightarrow> string" where
  "truncar s m = (if length s \<le> m then s else take m s @ sufixo_truncado)"

definition sufixoDeAmbiente :: "slack \<Rightarrow> string" where
  "sufixoDeAmbiente s =
     (if sl_ambiente s = [] \<or> sl_ambiente s = ''prod'' then [] else '' ('' @ sl_ambiente s @ '')'')"

definition classificar :: "alerta \<Rightarrow> string \<times> string" where
  "classificar a =
     (let dominio = (case find (\<lambda>t. t \<noteq> ''zarv'' \<and> t \<noteq> ''dbt'' \<and> t \<noteq> ''python'') (al_tags a) of
                       Some t \<Rightarrow> t | None \<Rightarrow> ''-'');
          dominio = (if dominio = ''-'' then
                       (case cut CHR ''_'' (al_workflow a) of Some (p, _) \<Rightarrow> p | None \<Rightarrow> dominio)
                     else dominio)
      in (dominio, al_workflow a))"

definition i_agudo :: string where "i_agudo = [CHR 0xC3, CHR 0xAD]"
definition o_agudo :: string where "o_agudo = [CHR 0xC3, CHR 0xB3]"
definition u_agudo :: string where "u_agudo = [CHR 0xC3, CHR 0x9A]"
definition c_a_til :: string where "c_a_til = [CHR 0xC3, CHR 0xA7, CHR 0xC3, CHR 0xA3]"
definition ponto_medio :: string where "ponto_medio = [CHR 0xC2, CHR 0xB7]"

definition secao :: "string \<Rightarrow> valor" where
  "secao texto = VObj [(''type'', VText ''section''),
     (''text'', VObj [(''type'', VText ''mrkdwn''), (''text'', VText texto)])]"

definition campos_do_alerta :: "(time \<Rightarrow> string) \<Rightarrow> alerta \<Rightarrow> valor list" where
  "campos_do_alerta data a =
     (let (dominio, pipeline) = classificar a in
      [campo (''*Dom'' @ i_agudo @ ''nio:*'' @ quebra @ ''`'' @ dominio @ ''`''),
       campo (''*Pipeline:*'' @ quebra @ ''`'' @ pipeline @ ''`''),
       campo (''*Status:*'' @ quebra @ '':x: '' @ map to_upper (al_status a)),
       campo (''*Origem:*'' @ quebra @ ''`'' @ al_trigger a @ ''`'')]
      @ (if al_passo a \<noteq> [] then [campo (''*Passo:*'' @ quebra @ ''`'' @ al_passo a @ ''`'')] else [])
      @ (if 0 < al_tentativas a then [campo (''*Tentativas:*'' @ quebra @ show_int (al_tentativas a))] else [])
      @ (case al_logical a of None \<Rightarrow> []
         | Some t \<Rightarrow> [campo (''*Data l'' @ o_agudo @ ''gica:*'' @ quebra @ data t)]))"

text \<open>The texts of the two sections that carry what the program wrote.\<close>

definition secoes_do_alerta :: "alerta \<Rightarrow> string list" where
  "secoes_do_alerta a =
     (if al_erro a \<noteq> [] then [aspas @ truncar (al_erro a) 900 @ aspas] else [])
     @ (if al_log a \<noteq> []
        then [''*'' @ u_agudo @ ''ltimas linhas:*'' @ quebra @ aspas @ truncar (al_log a) 900 @ aspas] else [])"

definition rodape :: "alerta \<Rightarrow> valor list" where
  "rodape a =
     (if al_url a \<noteq> [] \<and> al_run a \<noteq> [] then
        (let url = trim_right_of CHR ''/'' (al_url a) @ ''/runs/'' @ al_run a in
         [VObj [(''type'', VText ''context''),
                (''elements'', VList [campo (''<'' @ url @ ''|abrir a execu'' @ c_a_til @ ''o> '' @ ponto_medio @
                    '' `'' @ al_run a @ ''`'')])]])
      else [])"

definition mensagem :: "(time \<Rightarrow> string) \<Rightarrow> slack \<Rightarrow> alerta \<Rightarrow> valor" where
  "mensagem data s a =
     VObj [(''text'', VText ('':rotating_light: '' @ al_workflow a @ '' falhou'')),
           (''blocks'', VList (
              [VObj [(''type'', VText ''header''),
                     (''text'', VObj [(''type'', VText ''plain_text''), (''emoji'', VBool True),
                        (''text'', VText ('':rotating_light: Falha no pipeline'' @ sufixoDeAmbiente s))])],
               VObj [(''type'', VText ''section''), (''fields'', VList (campos_do_alerta data a))]]
              @ map secao (secoes_do_alerta a) @ rodape a))]"

text \<open>\<open>Falhou\<close>: \<open>post\<close> gives a transport error, or the code, the status line and the body.\<close>

definition Falhou ::
  "(string \<Rightarrow> valor \<Rightarrow> string + int \<times> string \<times> string) \<Rightarrow> (time \<Rightarrow> string) \<Rightarrow> slack \<Rightarrow> alerta
     \<Rightarrow> erro_slack option" where
  "Falhou post data s a =
     (if sl_webhook s = [] then None
      else case post (sl_webhook s) (mensagem data s a) of
             Inl e \<Rightarrow> Some (FalhaHttp e)
           | Inr (codigo, st, corpo) \<Rightarrow>
               if 300 \<le> codigo then Some (SlackRespondeu st (trim_space (take 512 corpo))) else None)"

text \<open>\<open>ultimasLinhas\<close> of the dispatcher: the end of the log that the alert carries.\<close>

definition ultimasLinhas :: "string \<Rightarrow> nat \<Rightarrow> string" where
  "ultimasLinhas texto n =
     (if texto = [] then []
      else let linhas = split_on CHR 0x0A (trim_right_of CHR 0x0A texto);
               linhas = (if n < length linhas then drop (length linhas - n) linhas else linhas)
           in join [CHR 0x0A] linhas)"

section \<open>Bounds\<close>

lemma truncar_length: "length (truncar s m) \<le> m + 15"
  by (simp add: truncar_def sufixo_truncado_def quebra_def)

text \<open>The two sections stay under the limit of 3000 characters of a Slack block.\<close>

lemma secoes_cabem: "t \<in> set (secoes_do_alerta a) \<Longrightarrow> length t \<le> 3000"
  using truncar_length [of "al_erro a" 900] truncar_length [of "al_log a" 900]
  by (auto simp: secoes_do_alerta_def aspas_def quebra_def u_agudo_def split: if_splits)

lemma sufixo_join: "suffix (join [c] (drop k ps)) (join [c] ps)"
proof (induction ps arbitrary: k)
  case (Cons p ps)
  show ?case
  proof (cases k)
    case (Suc j)
    have "suffix (join [c] (drop j ps)) (join [c] ps)" by (rule Cons.IH)
    moreover have "suffix (join [c] ps) (join [c] (p # ps))"
      by (cases ps) (auto intro: suffixI [where zs = "p @ [c]"])
    ultimately show ?thesis using Suc by (simp add: suffix_order.trans)
  qed simp
qed simp

text \<open>
  What the alert shows of the log is its end: at most \<open>n\<close> lines, a suffix of the log
  without its trailing line breaks, and all of it when it has no more than \<open>n\<close> lines.
\<close>

theorem ultimasLinhas_fim:
  assumes "0 < n"
  shows "suffix (ultimasLinhas texto n) (trim_right_of CHR 0x0A texto) \<and>
    length (split_on CHR 0x0A (ultimasLinhas texto n)) \<le> n \<and>
    (length (split_on CHR 0x0A (trim_right_of CHR 0x0A texto)) \<le> n \<longrightarrow>
       ultimasLinhas texto n = trim_right_of CHR 0x0A texto)"
proof -
  let ?s = "trim_right_of CHR 0x0A texto"
  let ?ls = "split_on CHR 0x0A ?s"
  have j: "join [CHR 0x0A] ?ls = ?s" by (rule join_split_on)
  show ?thesis
  proof (cases "texto = []")
    case True
    with assms show ?thesis by (simp add: ultimasLinhas_def trim_right_of_def)
  next
    case False
    show ?thesis
    proof (cases "n < length ?ls")
      case True
      let ?d = "drop (length ?ls - n) ?ls"
      have u: "ultimasLinhas texto n = join [CHR 0x0A] ?d"
        using False True by (simp add: ultimasLinhas_def Let_def)
      have "?d \<noteq> []" using True assms by simp
      moreover have "\<forall>p \<in> set ?d. CHR 0x0A \<notin> set p"
        using split_on_sem_sep in_set_dropD by metis
      ultimately have "split_on CHR 0x0A (join [CHR 0x0A] ?d) = ?d" by (rule split_on_join)
      then have "length (split_on CHR 0x0A (ultimasLinhas texto n)) = n" using u True by simp
      moreover have "suffix (join [CHR 0x0A] ?d) (join [CHR 0x0A] ?ls)" by (rule sufixo_join)
      ultimately show ?thesis using u j True by simp
    next
      case nao: False
      have "ultimasLinhas texto n = join [CHR 0x0A] ?ls"
        using False nao by (simp add: ultimasLinhas_def Let_def)
      with nao j show ?thesis by simp
    qed
  qed
qed

theorem ultimasLinhas_fim_witness:
  "ultimasLinhas (''a'' @ [CHR 0x0A] @ ''b'' @ [CHR 0x0A] @ ''c'' @ [CHR 0x0A]) 2 = ''b'' @ [CHR 0x0A] @ ''c'' \<and>
   length (split_on CHR 0x0A (ultimasLinhas (''a'' @ [CHR 0x0A] @ ''b'' @ [CHR 0x0A] @ ''c'' @ [CHR 0x0A]) 2)) \<le> 2"
proof
  show "ultimasLinhas (''a'' @ [CHR 0x0A] @ ''b'' @ [CHR 0x0A] @ ''c'' @ [CHR 0x0A]) 2 = ''b'' @ [CHR 0x0A] @ ''c''"
    by code_simp
  show "length (split_on CHR 0x0A (ultimasLinhas (''a'' @ [CHR 0x0A] @ ''b'' @ [CHR 0x0A] @ ''c'' @ [CHR 0x0A]) 2)) \<le> 2"
    using ultimasLinhas_fim [of 2] by simp
qed

end
