(* ===== verification/Dispatcher.thy ===== *)
theory Dispatcher
  imports Queue Notify
begin

text \<open>
  \<open>internal/scheduler/dispatcher.go\<close>: the dispatcher claims from the queue, moves the run
  through its states, decides between retry and giving up, and recovers what a dead
  worker left behind. \<open>executar\<close> is seen through its result: \<open>None\<close> for nil, or the text
  of the error. All the statements of one handler see one instant \<open>agora\<close>. Lines of the
  process log are left out; the alerts sent are the second component of the answer.
\<close>

section \<open>The handlers\<close>

record config_disp =
  cf_worker :: string
  cf_max :: int
  cf_intervalo :: time
  cf_tentativas :: int
  cf_backoff :: time
  cf_visibilidade :: time
  cf_recuperacao :: time
  cf_alertas :: bool                 \<comment> \<open>\<open>Alertas != nil\<close>\<close>
  cf_url :: string

definition segundo :: time where "segundo = 1000000000"

definition padroes :: "config_disp \<Rightarrow> config_disp" where
  "padroes c =
     c\<lparr>cf_worker := (if cf_worker c = [] then ''dispatcher'' else cf_worker c),
       cf_max := (if cf_max c \<le> 0 then 5 else cf_max c),
       cf_intervalo := (if cf_intervalo c \<le> 0 then 200 * 1000000 else cf_intervalo c),
       cf_tentativas := (if cf_tentativas c \<le> 0 then 3 else cf_tentativas c),
       cf_backoff := (if cf_backoff c \<le> 0 then segundo else cf_backoff c),
       cf_visibilidade := (if cf_visibilidade c \<le> 0 then 15 * 60 * segundo else cf_visibilidade c),
       cf_recuperacao := (if cf_recuperacao c \<le> 0 then 60 * segundo else cf_recuperacao c)\<rparr>"

text \<open>\<open>time.Duration\<close> is a signed 64-bit integer; a shift by 64 or more gives zero.\<close>

definition recuo :: "time \<Rightarrow> int \<Rightarrow> time" where
  "recuo base tentativa =
     (if tentativa < 1 then 0 else int64 (base * int64 (2 ^ nat (tentativa - 1))))"

text \<open>\<open>Duration.String\<close> is the argument \<open>dur\<close>.\<close>

definition erro_orfao :: "(time \<Rightarrow> string) \<Rightarrow> time \<Rightarrow> string" where
  "erro_orfao dur limite =
     ''execucao orfa: nenhum worker deu sinal em '' @ dur limite @
     '' (o processo que a reivindicou provavelmente caiu)''"

text \<open>\<open>runID.String()\<close> is the argument \<open>uuid\<close>.\<close>

definition avisar :: "(nat \<Rightarrow> string) \<Rightarrow> config_disp \<Rightarrow> nat \<Rightarrow> int \<Rightarrow> string \<Rightarrow> banco \<Rightarrow> alerta list" where
  "avisar uuid cfg x tentativas causa b =
     (if \<not> cf_alertas cfg then []
      else
        let a = \<lparr>al_workflow = [], al_run = uuid x, al_status = ''failed'', al_trigger = [],
                 al_tentativas = tentativas, al_logical = None, al_erro = causa, al_passo = [],
                 al_log = [], al_tags = [], al_url = cf_url cfg\<rparr>;
            a = (case Buscar x b of
                   Inl _ \<Rightarrow> a
                 | Inr r \<Rightarrow> a\<lparr>al_workflow := r_slug r, al_trigger := r_trigger r,
                              al_logical := r_logical r, al_tags := wf_tags (r_definicao r)\<rparr>);
            (passo, log) = PassoQueFalhou x b
        in [a\<lparr>al_passo := passo, al_log := ultimasLinhas log 15\<rparr>])"

text \<open>\<open>falhar\<close>: retry or give up.\<close>

definition falhar ::
  "(nat \<Rightarrow> string) \<Rightarrow> config_disp \<Rightarrow> item \<Rightarrow> string \<Rightarrow> time \<Rightarrow> banco \<Rightarrow> alerta list \<times> banco" where
  "falhar uuid cfg it causa agora b =
     (let x = i_run it; b = RegistrarErro x causa b in
      case Transicionar x StatusFailed agora b of
        (Some _, b) \<Rightarrow> ([], Done (i_id it) b)
      | (None, b) \<Rightarrow>
      case IncrementarTentativa x b of
        (Inl _, b) \<Rightarrow> ([], Done (i_id it) b)
      | (Inr tentativa, b) \<Rightarrow>
      if cf_tentativas cfg \<le> tentativa then (avisar uuid cfg x tentativa causa b, Done (i_id it) b)
      else
      case Transicionar x StatusRetrying agora b of
        (Some _, b) \<Rightarrow> ([], Done (i_id it) b)
      | (None, b) \<Rightarrow>
      case Transicionar x StatusQueued agora b of
        (Some _, b) \<Rightarrow> ([], Done (i_id it) b)
      | (None, b) \<Rightarrow> ([], Release (i_id it) (recuo (cf_backoff cfg) tentativa) agora b))"

text \<open>
  \<open>processar\<close>, in two parts around the call of \<open>executar\<close>: the start (\<open>False\<close> when the
  run could not be marked running) and the end.
\<close>

definition processar_inicio :: "item \<Rightarrow> time \<Rightarrow> banco \<Rightarrow> bool \<times> banco" where
  "processar_inicio it agora b =
     (case Transicionar (i_run it) StatusRunning agora b of
        (Some _, b) \<Rightarrow> (False, Release (i_id it) 0 agora b)
      | (None, b) \<Rightarrow> (True, b))"

definition processar_fim ::
  "(nat \<Rightarrow> string) \<Rightarrow> config_disp \<Rightarrow> item \<Rightarrow> string option \<Rightarrow> time \<Rightarrow> banco \<Rightarrow> alerta list \<times> banco" where
  "processar_fim uuid cfg it resultado agora b =
     (case resultado of
        None \<Rightarrow> ([], Done (i_id it) (snd (Transicionar (i_run it) StatusSuccess agora b)))
      | Some causa \<Rightarrow> falhar uuid cfg it causa agora b)"

text \<open>The whole handler, when nothing else touches the database while the run executes.\<close>

definition processar ::
  "(nat \<Rightarrow> string) \<Rightarrow> config_disp \<Rightarrow> (banco \<Rightarrow> string option \<times> banco) \<Rightarrow> item \<Rightarrow> time \<Rightarrow> time \<Rightarrow> banco
     \<Rightarrow> alerta list \<times> banco" where
  "processar uuid cfg executar it agora fim b =
     (case processar_inicio it agora b of
        (False, b) \<Rightarrow> ([], b)
      | (True, b) \<Rightarrow> (case executar b of (r, b) \<Rightarrow> processar_fim uuid cfg it r fim b))"

fun falhar_todos ::
  "(nat \<Rightarrow> string) \<Rightarrow> config_disp \<Rightarrow> string \<Rightarrow> time \<Rightarrow> item list \<Rightarrow> banco \<Rightarrow> alerta list \<times> banco" where
  "falhar_todos uuid cfg causa agora [] b = ([], b)"
| "falhar_todos uuid cfg causa agora (it # is) b =
     (let (as, b) = falhar uuid cfg it causa agora b;
          (as', b) = falhar_todos uuid cfg causa agora is b
      in (as @ as', b))"

definition RecuperarOrfaos ::
  "(nat \<Rightarrow> string) \<Rightarrow> (time \<Rightarrow> string) \<Rightarrow> config_disp \<Rightarrow> time \<Rightarrow> banco \<Rightarrow> nat \<times> alerta list \<times> banco" where
  "RecuperarOrfaos uuid dur cfg agora b =
     (let (itens, b) = Recuperar (cf_visibilidade cfg) agora b;
          (as, b) = falhar_todos uuid cfg (erro_orfao dur (cf_visibilidade cfg)) agora itens b
      in (length itens, as, b))"

text \<open>\<open>cicloDeClaim\<close>: the free places, then the claim. The goroutines it starts are the caller's.\<close>

definition cicloDeClaim :: "nat set \<Rightarrow> config_disp \<Rightarrow> nat \<Rightarrow> time \<Rightarrow> banco \<Rightarrow> item list \<times> banco" where
  "cicloDeClaim travados cfg em_voo agora b =
     (let vagas = cf_max cfg - int em_voo in
      if vagas \<le> 0 then ([], b) else Claim travados (cf_worker cfg) vagas agora b)"

section \<open>What the handlers do\<close>

lemma Transicionar_aceita:
  "buscar_run x b = Some r \<Longrightarrow> passo (r_status r) para \<Longrightarrow>
   Transicionar x para agora b = (None, atualiza_run x (linha_transicionada para agora) b)"
  by (cases rule: Transicionar_casos [of x b para agora]) (auto dest: Valida_Some)

lemma Transicionar_recusa:
  assumes "\<And>r. buscar_run x b = Some r \<Longrightarrow> \<not> passo (r_status r) para"
  obtains e where "Transicionar x para agora b = (Some e, b)"
  using assms by (cases rule: Transicionar_casos [of x b para agora]) auto

lemma atualiza_run_comp:
  assumes "\<And>r. r_id (g r) = r_id r"
  shows "atualiza_run x f (atualiza_run x g b) = atualiza_run x (\<lambda>r. f (g r)) b"
  using assms by (auto simp: atualiza_run_def)

lemma buscar_run_itens [simp]:
  "buscar_run x (Done i b) = buscar_run x b" "buscar_run x (Release i d t b) = buscar_run x b"
  "buscar_run x (b\<lparr>db_itens := qs\<rparr>) = buscar_run x b"
  by (simp_all add: buscar_run_def Done_def Release_def atualiza_item_def)

lemma achar_item_runs [simp]: "achar_item (atualiza_run x f b) i = achar_item b i"
  by (simp add: achar_item_def)

definition linha_falha :: "string \<Rightarrow> time \<Rightarrow> run \<Rightarrow> run" where
  "linha_falha causa agora r =
     (linha_transicionada StatusFailed agora (r\<lparr>r_erro := causa\<rparr>))\<lparr>r_attempt := r_attempt r + 1\<rparr>"

definition linha_volta :: "string \<Rightarrow> time \<Rightarrow> run \<Rightarrow> run" where
  "linha_volta causa agora r =
     linha_transicionada StatusQueued agora (linha_transicionada StatusRetrying agora (linha_falha causa agora r))"

lemma linha_falha_campos [simp]:
  "r_id (linha_falha c a r) = r_id r" "r_chave (linha_falha c a r) = r_chave r"
  "r_slug (linha_falha c a r) = r_slug r" "r_status (linha_falha c a r) = StatusFailed"
  "r_attempt (linha_falha c a r) = r_attempt r + 1" "r_max_ativos (linha_falha c a r) = r_max_ativos r"
  by (simp_all add: linha_falha_def linha_transicionada_def Let_def)

lemma linha_volta_campos [simp]:
  "r_id (linha_volta c a r) = r_id r" "r_chave (linha_volta c a r) = r_chave r"
  "r_slug (linha_volta c a r) = r_slug r" "r_status (linha_volta c a r) = StatusQueued"
  "r_attempt (linha_volta c a r) = r_attempt r + 1" "r_max_ativos (linha_volta c a r) = r_max_ativos r"
  by (simp_all add: linha_volta_def)

lemma linha_volta_tempos [simp]:
  "r_iniciado (linha_volta c a r) = None" "r_terminado (linha_volta c a r) = None"
  "r_erro (linha_volta c a r) = c" "r_erro (linha_falha c a r) = c"
  by (simp_all add: linha_volta_def linha_falha_def linha_transicionada_def coalesce_def Let_def)

text \<open>The states \<open>falhar\<close> goes through on a run that is running.\<close>

lemma depois_de_falhar:
  assumes r: "buscar_run x b = Some r" and run: "r_status r = StatusRunning"
  shows "Transicionar x StatusFailed agora (RegistrarErro x causa b)
     = (None, atualiza_run x (\<lambda>r. linha_transicionada StatusFailed agora (r\<lparr>r_erro := causa\<rparr>)) b)"
proof -
  have e: "buscar_run x (RegistrarErro x causa b) = Some (r\<lparr>r_erro := causa\<rparr>)"
    by (simp add: RegistrarErro_def buscar_atualiza r)
  have "passo (r_status (r\<lparr>r_erro := causa\<rparr>)) StatusFailed"
    using run by (simp add: passo.intros)
  from Transicionar_aceita [OF e this] show ?thesis
    by (simp add: RegistrarErro_def atualiza_run_comp)
qed

lemma depois_de_incrementar:
  assumes r: "buscar_run x b = Some r"
  shows "IncrementarTentativa x (atualiza_run x (\<lambda>r. linha_transicionada StatusFailed agora (r\<lparr>r_erro := causa\<rparr>)) b)
     = (Inr (r_attempt r + 1), atualiza_run x (linha_falha causa agora) b)"
proof -
  have "linha_falha causa agora = (\<lambda>r. (linha_transicionada StatusFailed agora (r\<lparr>r_erro := causa\<rparr>))
      \<lparr>r_attempt := r_attempt (linha_transicionada StatusFailed agora (r\<lparr>r_erro := causa\<rparr>)) + 1\<rparr>)"
    by (simp add: linha_falha_def fun_eq_iff)
  then show ?thesis by (simp add: IncrementarTentativa_def buscar_atualiza r atualiza_run_comp)
qed

lemma falhar_desiste:
  assumes r: "buscar_run (i_run it) b = Some r" and run: "r_status r = StatusRunning"
    and fim: "cf_tentativas cfg \<le> r_attempt r + 1"
  shows "falhar uuid cfg it causa agora b =
     (avisar uuid cfg (i_run it) (r_attempt r + 1) causa (atualiza_run (i_run it) (linha_falha causa agora) b),
      Done (i_id it) (atualiza_run (i_run it) (linha_falha causa agora) b))"
  using fim by (simp add: falhar_def Let_def depois_de_falhar [OF r run] depois_de_incrementar [OF r])

lemma falhar_volta:
  assumes r: "buscar_run (i_run it) b = Some r" and run: "r_status r = StatusRunning"
    and resta: "\<not> cf_tentativas cfg \<le> r_attempt r + 1"
  shows "falhar uuid cfg it causa agora b =
     ([], Release (i_id it) (recuo (cf_backoff cfg) (r_attempt r + 1)) agora
            (atualiza_run (i_run it) (linha_volta causa agora) b))"
proof -
  let ?x = "i_run it"
  let ?b1 = "atualiza_run ?x (linha_falha causa agora) b"
  let ?b2 = "atualiza_run ?x (\<lambda>r. linha_transicionada StatusRetrying agora (linha_falha causa agora r)) b"
  have 1: "Transicionar ?x StatusRetrying agora ?b1 = (None, ?b2)"
    using Transicionar_aceita [of ?x ?b1 "linha_falha causa agora r" StatusRetrying agora]
    by (simp add: buscar_atualiza r passo.intros atualiza_run_comp)
  have 2: "Transicionar ?x StatusQueued agora ?b2 = (None, atualiza_run ?x (linha_volta causa agora) b)"
    using Transicionar_aceita [of ?x ?b2 "linha_transicionada StatusRetrying agora (linha_falha causa agora r)"
        StatusQueued agora]
    by (simp add: buscar_atualiza r passo.intros atualiza_run_comp linha_volta_def [abs_def])
  show ?thesis
    using resta
    by (simp add: falhar_def Let_def depois_de_falhar [OF r run] depois_de_incrementar [OF r] 1 2)
qed

lemma falhar_recusa:
  assumes "status_de b (i_run it) \<noteq> Some StatusRunning"
  shows "falhar uuid cfg it causa agora b = ([], Done (i_id it) (RegistrarErro (i_run it) causa b))"
proof -
  have "\<not> passo (r_status q) StatusFailed" if "buscar_run (i_run it) (RegistrarErro (i_run it) causa b) = Some q" for q
  proof -
    have "r_status q \<noteq> StatusRunning"
      using that assms by (auto simp: RegistrarErro_def buscar_atualiza status_de_def)
    then show ?thesis by (auto elim: passo.cases)
  qed
  then obtain e where "Transicionar (i_run it) StatusFailed agora (RegistrarErro (i_run it) causa b)
      = (Some e, RegistrarErro (i_run it) causa b)"
    using Transicionar_recusa by blast
  then show ?thesis by (simp add: falhar_def Let_def)
qed

section \<open>The queue and the runs a client sees\<close>

lemma ver_item_runs [simp]: "ver_item (atualiza_run x f b) i = ver_item b i"
  by (simp add: ver_item_def)

lemma ver_item_RegistrarErro [simp]: "ver_item (RegistrarErro x c b) i = ver_item b i"
  by (simp add: RegistrarErro_def)

lemma Transicionar_ver [simp]: "ver_item (snd (Transicionar x para agora b)) i = ver_item b i"
  by (cases rule: Transicionar_casos [of x b para agora]) simp_all

lemma Transicionar_outras: "y \<noteq> x \<Longrightarrow> buscar_run y (snd (Transicionar x para agora b)) = buscar_run y b"
  by (cases rule: Transicionar_casos [of x b para agora]) (simp_all add: buscar_atualiza)

lemma IncrementarTentativa_efeito [simp]:
  "ver_item (snd (IncrementarTentativa x b)) i = ver_item b i"
  "y \<noteq> x \<Longrightarrow> buscar_run y (snd (IncrementarTentativa x b)) = buscar_run y b"
  by (simp_all add: IncrementarTentativa_def buscar_atualiza split: option.split)

definition desiste :: "config_disp \<Rightarrow> run \<Rightarrow> bool" where
  "desiste cfg r \<longleftrightarrow> cf_tentativas cfg \<le> r_attempt r + 1"

definition linha_depois :: "config_disp \<Rightarrow> string \<Rightarrow> time \<Rightarrow> run \<Rightarrow> run" where
  "linha_depois cfg causa agora r = (if desiste cfg r then linha_falha causa agora r else linha_volta causa agora r)"

lemma falhar_ver:
  assumes "buscar_run (i_run it) b = Some r" and "r_status r = StatusRunning"
  shows "ver_item (snd (falhar uuid cfg it causa agora b)) j =
    (if j \<noteq> i_id it then ver_item b j else if desiste cfg r then None
     else map_option (\<lambda>(x, _). (x, Livre (agora + em_milissegundos (recuo (cf_backoff cfg) (r_attempt r + 1)))))
            (ver_item b j))"
  using falhar_desiste [OF assms, of cfg uuid causa agora] falhar_volta [OF assms, of cfg uuid causa agora]
  by (cases "desiste cfg r") (auto simp: desiste_def ver_concluir_sql ver_soltar_sql)

lemma falhar_run:
  assumes "buscar_run (i_run it) b = Some r" and "r_status r = StatusRunning"
  shows "buscar_run y (snd (falhar uuid cfg it causa agora b)) =
    (if y = i_run it then Some (linha_depois cfg causa agora r) else buscar_run y b)"
  using falhar_desiste [OF assms, of cfg uuid causa agora] falhar_volta [OF assms, of cfg uuid causa agora] assms(1)
  by (cases "desiste cfg r") (simp_all add: desiste_def linha_depois_def buscar_atualiza)

lemma falhar_alertas:
  assumes "buscar_run (i_run it) b = Some r" and "r_status r = StatusRunning"
  shows "length (fst (falhar uuid cfg it causa agora b)) = (if desiste cfg r \<and> cf_alertas cfg then 1 else 0)"
  using falhar_desiste [OF assms, of cfg uuid causa agora] falhar_volta [OF assms, of cfg uuid causa agora]
  by (cases "desiste cfg r") (simp_all add: desiste_def avisar_def Let_def split: prod.split)

text \<open>Whatever the branch, the other runs and the other items are left alone.\<close>

lemma falhar_outros:
  shows "j \<noteq> i_id it \<Longrightarrow> ver_item (snd (falhar uuid cfg it causa agora b)) j = ver_item b j"
    and "y \<noteq> i_run it \<Longrightarrow> buscar_run y (snd (falhar uuid cfg it causa agora b)) = buscar_run y b"
proof -
  have "(j \<noteq> i_id it \<longrightarrow> ver_item (snd (falhar uuid cfg it causa agora b)) j = ver_item b j) \<and>
        (y \<noteq> i_run it \<longrightarrow> buscar_run y (snd (falhar uuid cfg it causa agora b)) = buscar_run y b)"
  proof (cases "status_de b (i_run it) = Some StatusRunning")
    case True
    then obtain r where "buscar_run (i_run it) b = Some r" "r_status r = StatusRunning"
      by (auto simp: status_de_def)
    then show ?thesis by (simp add: falhar_ver falhar_run)
  next
    case False
    then show ?thesis by (simp add: falhar_recusa ver_concluir_sql) (simp add: RegistrarErro_def buscar_atualiza)
  qed
  then show "j \<noteq> i_id it \<Longrightarrow> ver_item (snd (falhar uuid cfg it causa agora b)) j = ver_item b j"
    and "y \<noteq> i_run it \<Longrightarrow> buscar_run y (snd (falhar uuid cfg it causa agora b)) = buscar_run y b" by blast+
qed

lemma falhar_ok: "banco_ok b \<Longrightarrow> banco_ok (snd (falhar uuid cfg it causa agora b))"
proof (cases "status_de b (i_run it) = Some StatusRunning")
  case True
  then obtain r where r: "buscar_run (i_run it) b = Some r" "r_status r = StatusRunning"
    by (auto simp: status_de_def)
  assume "banco_ok b"
  moreover have "banco_ok (atualiza_run (i_run it) (linha_falha causa agora) b)"
    "banco_ok (atualiza_run (i_run it) (linha_volta causa agora) b)"
    using calculation by (simp_all add: atualiza_run_ok)
  ultimately show ?thesis
    using falhar_desiste [OF r, of cfg uuid causa agora] falhar_volta [OF r, of cfg uuid causa agora]
    by (cases "cf_tentativas cfg \<le> r_attempt r + 1") (simp_all add: Done_ok Release_ok)
next
  case False
  then show "banco_ok b \<Longrightarrow> ?thesis" by (simp add: falhar_recusa Done_ok RegistrarErro_ok)
qed

text \<open>The loop over the orphans.\<close>

lemma falhar_todos_snd:
  "snd (falhar_todos uuid cfg causa agora is b) = fold (\<lambda>it b. snd (falhar uuid cfg it causa agora b)) is b"
  by (induction "is" arbitrary: b) (auto simp: Let_def split: prod.splits dest: arg_cong [of _ _ snd])

lemma falhar_todos_outros:
  "j \<notin> i_id ` set is \<Longrightarrow> ver_item (snd (falhar_todos uuid cfg causa agora is b)) j = ver_item b j"
  "y \<notin> i_run ` set is \<Longrightarrow> buscar_run y (snd (falhar_todos uuid cfg causa agora is b)) = buscar_run y b"
  unfolding falhar_todos_snd by (induction "is" arbitrary: b) (auto simp: falhar_outros)

lemma falhar_todos_ok: "banco_ok b \<Longrightarrow> banco_ok (snd (falhar_todos uuid cfg causa agora is b))"
  unfolding falhar_todos_snd by (induction "is" arbitrary: b) (auto simp: falhar_ok)

lemma RecuperarOrfaos_snd:
  "snd (snd (RecuperarOrfaos uuid dur cfg agora b)) =
     snd (falhar_todos uuid cfg (erro_orfao dur (cf_visibilidade cfg)) agora
       (fst (Recuperar (cf_visibilidade cfg) agora b)) (snd (Recuperar (cf_visibilidade cfg) agora b)))"
  by (simp add: RecuperarOrfaos_def split: prod.split)

lemma RecuperarOrfaos_ok: "banco_ok b \<Longrightarrow> banco_ok (snd (snd (RecuperarOrfaos uuid dur cfg agora b)))"
  by (simp add: RecuperarOrfaos_snd falhar_todos_ok Recuperar_ok)

lemma Recuperar_run [simp]: "buscar_run x (snd (Recuperar l agora b)) = buscar_run x b"
  by (simp add: Recuperar_def Let_def)

lemma Recuperar_ids:
  "map i_id (fst (Recuperar l agora b)) = map i_id (filter (vencido l agora) (db_itens b))"
  "map i_run (fst (Recuperar l agora b)) = map i_run (filter (vencido l agora) (db_itens b))"
  by (simp_all add: Recuperar_def Let_def)

lemma Recuperar_ver:
  assumes "banco_ok b"
  shows "ver_item (snd (Recuperar l agora b)) i =
    (if i \<in> i_id ` set (fst (Recuperar l agora b))
     then map_option (\<lambda>q. (i_run q, Livre (i_disponivel q))) (achar_item b i) else ver_item b i)"
proof -
  let ?g = "\<lambda>q. if vencido l agora q then q\<lparr>i_reivindicado := None, i_por := None\<rparr> else q"
  have a: "achar_item (snd (Recuperar l agora b)) i = map_option ?g (achar_item b i)"
    using achar_map_itens [of ?g b i] by (simp add: Recuperar_def Let_def)
  have s: "i \<in> i_id ` set (fst (Recuperar l agora b)) \<longleftrightarrow> (\<exists>q \<in> set (db_itens b). vencido l agora q \<and> i_id q = i)"
    by (auto simp: Recuperar_def Let_def image_iff)
  show ?thesis
  proof (cases "achar_item b i")
    case None
    then show ?thesis by (simp add: ver_item_def a)
  next
    case (Some q)
    with achar_item_SomeD have q: "q \<in> set (db_itens b)" "i_id q = i" by blast+
    with item_unico [OF assms] have "vencido l agora q' \<longleftrightarrow> vencido l agora q"
      if "q' \<in> set (db_itens b)" "i_id q' = i" for q' using that by metis
    then have "i \<in> i_id ` set (fst (Recuperar l agora b)) \<longleftrightarrow> vencido l agora q" using q unfolding s by blast
    then show ?thesis by (simp add: ver_item_def a Some posse_do_item_def)
  qed
qed

text \<open>No handler makes up a ticket.\<close>

definition pares :: "banco \<Rightarrow> (nat \<times> nat) set" where
  "pares b = (\<lambda>q. (i_id q, i_run q)) ` set (db_itens b)"

lemma pares_run:
  assumes "(i, i_run q) \<in> pares b" and "q \<in> set (db_itens b)" and "banco_ok b"
  shows "i = i_id q"
proof -
  obtain p where "p \<in> set (db_itens b)" "i_id p = i" "i_run p = i_run q" using assms(1) by (auto simp: pares_def)
  moreover have "inj_on i_run (set (db_itens b))" using assms(3) by (simp add: banco_ok_def itens_ok_def distinct_map)
  ultimately have "p = q" using assms(2) by (simp add: inj_on_eq_iff)
  with \<open>i_id p = i\<close> show ?thesis by simp
qed

lemma pares_map:
  assumes "\<And>q. i_id (f q) = i_id q" and "\<And>q. i_run (f q) = i_run q"
  shows "pares (b\<lparr>db_itens := map f (db_itens b)\<rparr>) = pares b"
  by (simp add: pares_def image_image assms)

lemma pares_runs [simp]: "pares (atualiza_run x f b) = pares b" "pares (RegistrarErro x c b) = pares b"
  by (simp_all add: pares_def RegistrarErro_def)

lemma pares_Release [simp]: "pares (Release i d t b) = pares b"
  unfolding Release_def atualiza_item_def by (rule pares_map) simp_all

lemma pares_Recuperar [simp]: "pares (snd (Recuperar l t b)) = pares b"
  unfolding Recuperar_def Let_def snd_conv by (rule pares_map) simp_all

lemma pares_Done [simp]: "pares (Done i b) = {p \<in> pares b. fst p \<noteq> i}"
proof (intro set_eqI)
  show "p \<in> pares (Done i b) \<longleftrightarrow> p \<in> {p \<in> pares b. fst p \<noteq> i}" for p
    by (cases p) (simp add: pares_def Done_def image_iff, blast)
qed

lemma falhar_pares: "pares (snd (falhar uuid cfg it causa agora b)) \<subseteq> pares b"
proof (cases "status_de b (i_run it) = Some StatusRunning")
  case True
  then obtain r where r: "buscar_run (i_run it) b = Some r" "r_status r = StatusRunning"
    by (auto simp: status_de_def)
  then show ?thesis
    using falhar_desiste [OF r, of cfg uuid causa agora] falhar_volta [OF r, of cfg uuid causa agora]
    by (cases "cf_tentativas cfg \<le> r_attempt r + 1") auto
qed (auto simp: falhar_recusa)

lemma falhar_todos_pares: "pares (snd (falhar_todos uuid cfg causa agora is b)) \<subseteq> pares b"
  unfolding falhar_todos_snd
proof (induction "is" arbitrary: b)
  case (Cons it "is")
  then show ?case using falhar_pares [of uuid cfg it causa agora b] by fastforce
qed simp

section \<open>Properties\<close>

definition config_de_exemplo :: config_disp where
  "config_de_exemplo = padroes
     \<lparr>cf_worker = [], cf_max = 0, cf_intervalo = 0, cf_tentativas = 0, cf_backoff = 0, cf_visibilidade = 0,
      cf_recuperacao = 0, cf_alertas = True, cf_url = []\<rparr>"

definition banco_executando :: "status \<Rightarrow> banco" where
  "banco_executando s = (banco_com_run s)\<lparr>
     db_itens := [(item_de_exemplo 1 1 0)\<lparr>i_reivindicado := Some 0, i_por := Some ''w''\<rparr>], db_seq := 2\<rparr>"

lemmas exemplo_disp = banco_executando_def item_de_exemplo_def exemplo_banco

lemma banco_executando_fatos [simp]:
  "banco_ok (banco_executando s)" "buscar_run (Suc 0) (banco_executando s) = Some (run_de_exemplo s)"
  "achar_item (banco_executando s) (Suc 0) = Some ((item_de_exemplo 1 1 0)\<lparr>i_reivindicado := Some 0, i_por := Some ''w''\<rparr>)"
  "status_de (banco_executando s) (Suc 0) = Some s"
  "r_status (run_de_exemplo s) = s" "r_attempt (run_de_exemplo s) = 0"
  by (simp_all add: exemplo_disp banco_ok_def tabelas chave_task_def buscar_run_def achar_item_def status_de_def)

lemma config_de_exemplo_campos [simp]:
  "cf_max config_de_exemplo = 5" "cf_tentativas config_de_exemplo = 3" "cf_alertas config_de_exemplo = True"
  "cf_visibilidade config_de_exemplo = 900000000000" "cf_backoff config_de_exemplo = 1000000000"
  by (simp_all add: config_de_exemplo_def padroes_def segundo_def)

lemma achar_Done: "achar_item (Done i b) j = (if j = i then None else achar_item b j)"
proof -
  have "find (\<lambda>q. i_id q = j) (filter (\<lambda>q. i_id q \<noteq> i) qs) =
      (if j = i then None else find (\<lambda>q. i_id q = j) qs)" for qs :: "item list"
    by (induction qs) auto
  then show ?thesis by (simp add: achar_item_def Done_def)
qed

text \<open>
  C13: a failed attempt is counted once, and either the run gives up or it comes back.
  It gives up when the attempts are used: \<open>failed\<close>, its item gone, and one alert with the
  cause when alerts are configured. Otherwise it is \<open>queued\<close> again, nobody is told, and its
  item is free after the backoff. Other runs and items do not change.
\<close>

theorem falhar_decide:
  assumes r: "buscar_run (i_run it) b = Some r" "r_status r = StatusRunning" and q: "achar_item b (i_id it) = Some q"
    and f: "falhar uuid cfg it causa agora b = (as, b')"
  shows "\<exists>r'. buscar_run (i_run it) b' = Some r' \<and> r_attempt r' = r_attempt r + 1 \<and> r_erro r' = causa \<and>
    (if cf_tentativas cfg \<le> r_attempt r + 1
     then r_status r' = StatusFailed \<and> achar_item b' (i_id it) = None \<and>
       map (\<lambda>a. (al_erro a, al_tentativas a)) as = (if cf_alertas cfg then [(causa, r_attempt r + 1)] else [])
     else r_status r' = StatusQueued \<and> r_iniciado r' = None \<and> as = [] \<and>
       achar_item b' (i_id it) = Some (q\<lparr>i_reivindicado := None, i_por := None,
         i_disponivel := agora + em_milissegundos (recuo (cf_backoff cfg) (r_attempt r + 1))\<rparr>)) \<and>
    (\<forall>y. y \<noteq> i_run it \<longrightarrow> buscar_run y b' = buscar_run y b) \<and>
    (\<forall>j. j \<noteq> i_id it \<longrightarrow> achar_item b' j = achar_item b j)"
proof (cases "cf_tentativas cfg \<le> r_attempt r + 1")
  case True
  let ?b1 = "atualiza_run (i_run it) (linha_falha causa agora) b"
  from f falhar_desiste [OF r True, of uuid causa agora]
  have e: "as = avisar uuid cfg (i_run it) (r_attempt r + 1) causa ?b1" "b' = Done (i_id it) ?b1" by simp_all
  have "map (\<lambda>a. (al_erro a, al_tentativas a)) as = (if cf_alertas cfg then [(causa, r_attempt r + 1)] else [])"
    by (simp add: e(1) avisar_def Let_def split: prod.split sum.split)
  then show ?thesis using True r(1) by (simp add: e(2) buscar_atualiza achar_Done)
next
  case False
  from f falhar_volta [OF r False, of uuid causa agora]
  have e: "as = []" "b' = Release (i_id it) (recuo (cf_backoff cfg) (r_attempt r + 1)) agora
      (atualiza_run (i_run it) (linha_volta causa agora) b)" by simp_all
  have "map_option (\<lambda>p. if i_id p = i_id it then p\<lparr>i_reivindicado := None, i_por := None,
      i_disponivel := agora + em_milissegundos d\<rparr> else p) (achar_item b j) = achar_item b j" if "j \<noteq> i_id it" for j d
    using that by (cases "achar_item b j") (auto dest: achar_item_SomeD)
  moreover have "i_id q = i_id it" using q achar_item_SomeD by blast
  ultimately show ?thesis using False r(1) q by (simp add: e buscar_atualiza achar_Release)
qed

theorem falhar_decide_witness:
  "let b' = snd (falhar (\<lambda>_. []) config_de_exemplo (item_de_exemplo 1 1 0) ''x'' 7 (banco_executando StatusRunning))
   in status_de b' 1 = Some StatusQueued \<and> map_option i_reivindicado (achar_item b' 1) = Some None"
proof -
  obtain as b' where f: "falhar (\<lambda>_. []) config_de_exemplo (item_de_exemplo 1 1 0) ''x'' 7
      (banco_executando StatusRunning) = (as, b')" by fastforce
  have i: "i_run (item_de_exemplo 1 1 0) = Suc 0" "i_id (item_de_exemplo 1 1 0) = Suc 0"
    by (simp_all add: item_de_exemplo_def)
  from falhar_decide [OF _ _ _ f, unfolded i, OF banco_executando_fatos(2) _ banco_executando_fatos(3)]
  show ?thesis by (auto simp: status_de_def Let_def f [unfolded One_nat_def])
qed

text \<open>
  The wait after the first failed attempt is the base, and every further attempt doubles
  it, exactly, as long as the doubled duration fits in 64 bits.
\<close>

theorem recuo_dobra:
  assumes "0 < base" and "1 \<le> k" and "base * 2 ^ k < 2 ^ 63"
  shows "recuo base 1 = base \<and> recuo base (int k + 1) = 2 * recuo base (int k) \<and>
    recuo base (int k) = base * 2 ^ (k - 1)"
proof -
  have i: "int64 x = x" if "0 \<le> x" "x < 2 ^ 63" for x :: int
    using that by (simp add: int64_def)
  have c: "recuo base (int j + 1) = base * 2 ^ j" if "j \<le> k" for j
  proof -
    have "(2 :: int) ^ j \<le> 2 ^ k" using that by (simp add: power_increasing)
    then have "base * 2 ^ j \<le> base * 2 ^ k" using assms(1) by simp
    moreover have "(2 :: int) ^ j \<le> base * 2 ^ j" using assms(1) by simp
    ultimately have "(2 :: int) ^ j < 2 ^ 63" "base * 2 ^ j < 2 ^ 63" using assms(3) by linarith+
    then show ?thesis using assms(1) by (simp add: recuo_def i)
  qed
  have "recuo base (int k) = base * 2 ^ (k - 1)" using c [of "k - 1"] assms(2) by (simp add: of_nat_diff)
  moreover have "base * 2 ^ k = 2 * (base * 2 ^ (k - 1))" using assms(2) by (cases k) simp_all
  ultimately show ?thesis using c [of 0] c [of k] by simp
qed

theorem recuo_dobra_witness: "recuo 1000000000 3 = 2 * recuo 1000000000 2 \<and> recuo 1000000000 1 = 1000000000"
  using recuo_dobra [of 1000000000 2] by simp

text \<open>
  A queued run whose work succeeds is processed to the end: \<open>success\<close>, started and
  finished at the two instants of the handler, its item out of the queue, and no alert. The
  work itself is only asked to leave the runs and the queue alone.
\<close>

theorem processar_sucesso:
  assumes r: "buscar_run (i_run it) b = Some r" "r_status r = StatusQueued" "carimbos_ok r"
    and e: "\<And>b. fst (executar b) = None" "\<And>b. db_runs (snd (executar b)) = db_runs b"
  shows "\<exists>b' r'. processar uuid cfg executar it agora fim b = ([], b') \<and>
    buscar_run (i_run it) b' = Some r' \<and> r_status r' = StatusSuccess \<and> r_attempt r' = r_attempt r \<and>
    r_iniciado r' = Some agora \<and> r_terminado r' = Some fim \<and> achar_item b' (i_id it) = None"
proof -
  let ?x = "i_run it"
  let ?r1 = "linha_transicionada StatusRunning agora r"
  let ?b1 = "atualiza_run ?x (linha_transicionada StatusRunning agora) b"
  have 1: "processar_inicio it agora b = (True, ?b1)"
    using Transicionar_aceita [OF r(1), of StatusRunning agora] r(2) by (simp add: processar_inicio_def passo.intros)
  obtain b2 where x: "executar ?b1 = (None, b2)" using e(1) [of ?b1] by (cases "executar ?b1") simp
  then have "db_runs b2 = db_runs ?b1" using e(2) [of ?b1] by simp
  moreover have "buscar_run ?x ?b1 = Some ?r1" by (simp add: buscar_atualiza r(1))
  ultimately have 2: "buscar_run ?x b2 = Some ?r1" by (simp add: buscar_run_def)
  have "Transicionar ?x StatusSuccess fim b2 = (None, atualiza_run ?x (linha_transicionada StatusSuccess fim) b2)"
    using Transicionar_aceita [OF 2] by (simp add: passo.intros)
  then have 3: "processar uuid cfg executar it agora fim b =
      ([], Done (i_id it) (atualiza_run ?x (linha_transicionada StatusSuccess fim) b2))"
    by (simp add: processar_def 1 x processar_fim_def)
  let ?r2 = "linha_transicionada StatusSuccess fim ?r1"
  have "r_iniciado r = None" "r_terminado r = None" using r(2,3) by (simp_all add: carimbos_ok_def)
  then have "r_status ?r2 = StatusSuccess" "r_attempt ?r2 = r_attempt r" "r_iniciado ?r2 = Some agora"
    "r_terminado ?r2 = Some fim"
    by (simp_all add: linha_transicionada_def coalesce_def Let_def)
  moreover have "buscar_run ?x (Done (i_id it) (atualiza_run ?x (linha_transicionada StatusSuccess fim) b2)) = Some ?r2"
    using 2 by (simp add: buscar_atualiza)
  ultimately show ?thesis by (intro exI conjI) (rule 3, simp_all add: achar_Done)
qed

theorem processar_sucesso_witness:
  "\<exists>b'. processar (\<lambda>_. []) config_de_exemplo (\<lambda>b. (None, b)) (item_de_exemplo 1 1 0) 5 9 (banco_executando StatusQueued)
      = ([], b') \<and> achar_item b' 1 = None"
  using processar_sucesso [of "item_de_exemplo 1 1 0" "banco_executando StatusQueued" "run_de_exemplo StatusQueued"
      "\<lambda>b. (None, b)" "\<lambda>_. []" config_de_exemplo 5 9]
  by (auto simp: item_de_exemplo_def carimbos_ok_def run_de_exemplo_def Terminal_def)

text \<open>
  C38: a worker that stops after the claim and before it marks the run as running loses the
  run: the recovery takes the ticket for an orphan, is refused the transition to \<open>failed\<close>,
  and deletes the ticket, so that the run stays \<open>queued\<close> with nothing in the queue for it.
\<close>

theorem RecuperarOrfaos_perde_enfileirada:
  assumes ok: "banco_ok b" and q: "q \<in> set (db_itens b)" "vencido (cf_visibilidade cfg) agora q"
    and s: "status_de b (i_run q) = Some StatusQueued"
  shows "case RecuperarOrfaos uuid dur cfg agora b of (n, as, b') \<Rightarrow>
    status_de b' (i_run q) = Some StatusQueued \<and> i_run q \<notin> i_run ` set (db_itens b')"
proof -
  let ?l = "cf_visibilidade cfg"
  let ?c = "erro_orfao dur ?l"
  let ?q = "q\<lparr>i_reivindicado := None, i_por := None\<rparr>"
  define os where "os = fst (Recuperar ?l agora b)"
  define b1 where "b1 = snd (Recuperar ?l agora b)"
  define b' where "b' = snd (falhar_todos uuid cfg ?c agora os b1)"
  have ok1: "banco_ok b1" using Recuperar_ok [OF ok] by (simp add: b1_def)
  have "?q \<in> set os" using q by (auto simp: os_def Recuperar_def Let_def)
  then obtain us vs where os: "os = us @ ?q # vs" by (meson split_list)
  have "distinct (map i_run (db_itens b))" using ok by (simp add: banco_ok_def itens_ok_def)
  then have "distinct (map i_run os)" by (simp add: os_def Recuperar_ids distinct_map_filter)
  then have nr: "i_run q \<notin> i_run ` set us" "i_run q \<notin> i_run ` set vs" by (auto simp: os)
  have "distinct (map i_id (db_itens b))" using ok by (simp add: banco_ok_def itens_ok_def)
  then have "distinct (map i_id os)" by (simp add: os_def Recuperar_ids distinct_map_filter)
  then have ni: "i_id q \<notin> i_id ` set vs" by (auto simp: os)
  define bu where "bu = snd (falhar_todos uuid cfg ?c agora us b1)"
  define bq where "bq = snd (falhar uuid cfg ?q ?c agora bu)"
  have B: "b' = snd (falhar_todos uuid cfg ?c agora vs bq)"
    by (simp add: b'_def bq_def bu_def falhar_todos_snd os)
  have "status_de bu (i_run ?q) = Some StatusQueued"
    using s falhar_todos_outros(2) [OF nr(1), of uuid cfg ?c agora b1] by (simp add: status_de_def bu_def b1_def)
  moreover from this have bq: "bq = Done (i_id q) (RegistrarErro (i_run q) ?c bu)"
    by (simp add: bq_def falhar_recusa)
  ultimately have sq: "status_de bq (i_run q) = Some StatusQueued"
    by (simp add: bq status_de_def RegistrarErro_def buscar_atualiza option.map_comp comp_def)
  have st: "status_de b' (i_run q) = Some StatusQueued"
    using sq falhar_todos_outros(2) [OF nr(2), of uuid cfg ?c agora bq] by (simp add: status_de_def B)
  have v: "ver_item b' (i_id q) = None"
    using falhar_todos_outros(1) [OF ni, of uuid cfg ?c agora bq] by (simp add: B bq ver_concluir_sql)
  have ok': "banco_ok b'" unfolding b'_def by (rule falhar_todos_ok [OF ok1])
  have "i_run q \<notin> i_run ` set (db_itens b')"
  proof
    assume "i_run q \<in> i_run ` set (db_itens b')"
    then obtain p where p: "p \<in> set (db_itens b')" "i_run p = i_run q" by auto
    then have "(i_id p, i_run p) \<in> pares b'" by (auto simp: pares_def)
    then have "(i_id p, i_run q) \<in> pares b"
      using falhar_todos_pares [of uuid cfg ?c agora os b1] p(2) by (auto simp: b'_def b1_def)
    then have "i_id p = i_id q" using q(1) ok by (rule pares_run)
    with p(1) v show False using ver_item_iff [OF ok' p(1)] by simp
  qed
  with st show ?thesis
    using RecuperarOrfaos_snd [of uuid dur cfg agora b]
    by (auto simp: b'_def b1_def os_def split: prod.splits)
qed

theorem RecuperarOrfaos_perde_enfileirada_witness:
  "case RecuperarOrfaos (\<lambda>_. []) (\<lambda>_. []) config_de_exemplo 900000000001 (banco_executando StatusQueued) of (n, as, b') \<Rightarrow>
     status_de b' 1 = Some StatusQueued \<and> 1 \<notin> i_run ` set (db_itens b')"
proof -
  let ?q = "(item_de_exemplo 1 1 0)\<lparr>i_reivindicado := Some 0, i_por := Some ''w''\<rparr>"
  have "vencido (cf_visibilidade config_de_exemplo) 900000000001 ?q"
    by (simp add: vencido_def em_milissegundos_def milissegundos_def)
  moreover have "?q \<in> set (db_itens (banco_executando StatusQueued))" by (simp add: banco_executando_def)
  moreover have "i_run ?q = 1" by (simp add: item_de_exemplo_def)
  ultimately show ?thesis
    using RecuperarOrfaos_perde_enfileirada [of "banco_executando StatusQueued" ?q config_de_exemplo 900000000001
        "\<lambda>_. []" "\<lambda>_. []"] by simp
qed

text \<open>
  A run that executes for longer than the visibility is taken for an orphan and queued
  again. When the execution then ends well, the transition to \<open>success\<close> is refused and the
  ticket deleted: the work was done, and the run stays \<open>queued\<close> with nothing in the queue.
\<close>

theorem lento_se_perde:
  assumes ok: "banco_ok b" and i: "db_itens b = [q]" "i_id it = i_id q" "i_run it = i_run q"
    and v: "vencido (cf_visibilidade cfg) agora q"
    and r: "buscar_run (i_run q) b = Some r" "r_status r = StatusRunning" "r_attempt r + 1 < cf_tentativas cfg"
    and rec: "RecuperarOrfaos uuid dur cfg agora b = (n, as, b1)"
    and f: "processar_fim uuid cfg it None fim b1 = (as2, b2)"
  shows "status_de b1 (i_run q) = Some StatusQueued \<and> status_de b2 (i_run q) = Some StatusQueued \<and> db_itens b2 = []"
proof -
  let ?q = "q\<lparr>i_reivindicado := None, i_por := None\<rparr>"
  let ?c = "erro_orfao dur (cf_visibilidade cfg)"
  define b0 where "b0 = b\<lparr>db_itens := [?q]\<rparr>"
  have R: "Recuperar (cf_visibilidade cfg) agora b = ([?q], b0)"
    using v by (simp add: Recuperar_def Let_def i b0_def)
  have r0: "buscar_run (i_run ?q) b0 = Some r" using r(1) by (simp add: b0_def)
  have nd: "\<not> cf_tentativas cfg \<le> r_attempt r + 1" using r(3) by simp
  have b1: "b1 = Release (i_id q) (recuo (cf_backoff cfg) (r_attempt r + 1)) agora
      (atualiza_run (i_run q) (linha_volta ?c agora) b0)"
    using rec falhar_volta [OF r0 r(2) nd, of uuid ?c agora] by (simp add: RecuperarOrfaos_def R)
  have s1: "buscar_run (i_run q) b1 = Some (linha_volta ?c agora r)"
    using r0 by (simp add: b1 buscar_atualiza)
  obtain e where "Transicionar (i_run q) StatusSuccess fim b1 = (Some e, b1)"
    by (rule Transicionar_recusa [of "i_run q" b1 StatusSuccess fim]) (use s1 in \<open>auto elim: passo.cases\<close>)
  with f i(2,3) have "b2 = Done (i_id q) b1" by (simp add: processar_fim_def)
  then show ?thesis
    using s1 by (simp add: status_de_def) (simp add: b1 b0_def Done_def Release_def atualiza_item_def)
qed

theorem lento_se_perde_witness:
  "let b1 = snd (snd (RecuperarOrfaos (\<lambda>_. []) (\<lambda>_. []) config_de_exemplo 900000000001 (banco_executando StatusRunning)));
       b2 = snd (processar_fim (\<lambda>_. []) config_de_exemplo (item_de_exemplo 1 1 0) None 900000000009 b1)
   in status_de b2 1 = Some StatusQueued \<and> db_itens b2 = []"
proof -
  let ?q = "(item_de_exemplo 1 1 0)\<lparr>i_reivindicado := Some 0, i_por := Some ''w''\<rparr>"
  have v: "vencido (cf_visibilidade config_de_exemplo) 900000000001 ?q"
    by (simp add: vencido_def em_milissegundos_def milissegundos_def)
  obtain n as b1 where r: "RecuperarOrfaos (\<lambda>_. []) (\<lambda>_. []) config_de_exemplo 900000000001
      (banco_executando StatusRunning) = (n, as, b1)" by (metis prod_cases3)
  obtain as2 b2 where f: "processar_fim (\<lambda>_. []) config_de_exemplo (item_de_exemplo 1 1 0) None 900000000009 b1 = (as2, b2)"
    by fastforce
  have q: "i_id ?q = Suc 0" "i_run ?q = Suc 0" "i_id (item_de_exemplo 1 1 0) = Suc 0" "i_run (item_de_exemplo 1 1 0) = Suc 0"
    by (simp_all add: item_de_exemplo_def)
  have i: "db_itens (banco_executando StatusRunning) = [?q]" by (simp add: banco_executando_def)
  have "status_de b2 (Suc 0) = Some StatusQueued \<and> db_itens b2 = []"
    using lento_se_perde [OF _ i _ _ v _ _ _ r f, unfolded q, OF _ _ _ banco_executando_fatos(2)] by simp
  then show ?thesis by (simp add: r f [unfolded One_nat_def] Let_def)
qed

end
