(* ===== verification/Scheduler.thy ===== *)
theory Scheduler
  imports Queue Param
begin

text \<open>
  \<open>internal/scheduler/scheduler.go\<close>: the scheduler turns the slots of the agendas into runs
  and enqueues them. Parameters: \<open>gera\<close> is \<open>uuid.New\<close>, a function of the state that
  gives an unused id; \<open>rfc\<close> is the RFC 3339 text of an instant in UTC; \<open>re\<close>, \<open>fuso\<close> and
  \<open>cron\<close> are as in \<open>Param\<close> and \<open>Schedule\<close>. \<open>None\<close> as the answer of a loop means that it
  does not end.
\<close>

section \<open>The operations\<close>

type_synonym gerador = "banco \<Rightarrow> nat"
type_synonym rfc3339 = "time \<Rightarrow> string"

definition gera_ok :: "gerador \<Rightarrow> bool" where
  "gera_ok gera \<longleftrightarrow> (\<forall>b. gera b \<noteq> 0 \<and> gera b \<notin> r_id ` set (db_runs b))"

definition prioridadeBackfill :: int where
  "prioridadeBackfill = -10"

definition maxPorCiclo_padrao :: "int \<Rightarrow> int" where
  "maxPorCiclo_padrao n = (if n \<le> 0 then 100 else n)"

datatype erro_sched =
    ErroAgenda erro_agenda
  | ErroDb erro_db
  | ErroParam erro_resolver
  | SemAgendaAtiva string

text \<open>The key of idempotency and the run the scheduler asks for.\<close>

definition chave_do_run :: "rfc3339 \<Rightarrow> string \<Rightarrow> trigger \<Rightarrow> time \<Rightarrow> string" where
  "chave_do_run rfc slug tr t = slug @ '':'' @ texto_trigger tr @ '':'' @ rfc t"

definition run_pedido ::
  "string \<Rightarrow> string \<Rightarrow> workflow \<Rightarrow> trigger \<Rightarrow> time option \<Rightarrow> string gomap \<Rightarrow> int \<Rightarrow> run" where
  "run_pedido slug chave def tr logical params max_ativos =
     \<lparr>r_id = 0, r_slug = slug, r_chave = chave, r_status = StatusOutro [], r_attempt = 0,
      r_definicao = def, r_trigger = texto_trigger tr, r_params = params, r_max_ativos = max_ativos,
      r_logical = logical, r_criado = tempo_zero, r_iniciado = None, r_terminado = None, r_erro = []\<rparr>"

text \<open>What follows the insert in \<open>criarEEnfileirar\<close> and in \<open>Disparar\<close>.\<close>

definition enfileirar :: "nat \<Rightarrow> int \<Rightarrow> time \<Rightarrow> banco \<Rightarrow> erro_db option \<times> banco" where
  "enfileirar x prioridade agora b =
     (case Transicionar x StatusQueued agora b of
        (Some e, b) \<Rightarrow> (Some e, b)
      | (None, b) \<Rightarrow> Enqueue x prioridade tempo_zero agora b)"

definition criarEEnfileirar ::
  "gerador \<Rightarrow> rfc3339 \<Rightarrow> string \<Rightarrow> workflow \<Rightarrow> time \<Rightarrow> trigger \<Rightarrow> int \<Rightarrow> string gomap \<Rightarrow> int \<Rightarrow> time
     \<Rightarrow> banco \<Rightarrow> erro_db option \<times> banco" where
  "criarEEnfileirar gera rfc slug def slot tr prioridade params max_ativos agora b =
     (case Criar (gera b) agora
             (run_pedido slug (chave_do_run rfc slug tr slot) def tr (Some slot) params max_ativos) b of
        (Inl JaExiste, b) \<Rightarrow> (None, b)
      | (Inl e, b) \<Rightarrow> (Some e, b)
      | (Inr r, b) \<Rightarrow> enfileirar (r_id r) prioridade agora b)"

text \<open>The loop over the slots of one agenda; the count is of the runs created so far.\<close>

fun materializar_slots ::
  "regexp \<Rightarrow> gerador \<Rightarrow> rfc3339 \<Rightarrow> string \<Rightarrow> workflow \<Rightarrow> time \<Rightarrow> time list \<Rightarrow> nat \<Rightarrow> banco
     \<Rightarrow> erro_sched option \<times> nat \<times> banco" where
  "materializar_slots re gera rfc slug def agora [] criados b = (None, criados, b)"
| "materializar_slots re gera rfc slug def agora (s # ss) criados b =
     (case Resolver re (wf_params def) [] of
        Inl e \<Rightarrow> (Some (ErroParam e), criados, b)
      | Inr padroes \<Rightarrow>
          (case criarEEnfileirar gera rfc slug def s TriggerSchedule 0 padroes (wf_max_ativos def) agora b of
             (Some e, b) \<Rightarrow> (Some (ErroDb e), criados, b)
           | (None, b) \<Rightarrow>
               materializar_slots re gera rfc slug def agora ss (criados + 1) (AvancarSlot slug s b)))"

definition materializar ::
  "regexp \<Rightarrow> fuso \<Rightarrow> cron \<Rightarrow> gerador \<Rightarrow> rfc3339 \<Rightarrow> int \<Rightarrow> agenda \<Rightarrow> time \<Rightarrow> banco
     \<Rightarrow> (erro_sched option \<times> nat \<times> banco) option" where
  "materializar re fuso cron gera rfc limite a agora b =
     (case ag_ultimo a of
        None \<Rightarrow> Some (None, 0, AvancarSlot (ag_slug a) agora b)
      | Some _ \<Rightarrow>
          (case Slots fuso cron a agora limite of
             None \<Rightarrow> None
           | Some (Inl e) \<Rightarrow> Some (Some (ErroAgenda e), 0, b)
           | Some (Inr (ss, _)) \<Rightarrow>
               if ss = [] then Some (None, 0, b)
               else (case Definicao (ag_slug a) b of
                       Inl e \<Rightarrow> Some (Some (ErroDb e), 0, b)
                     | Inr def \<Rightarrow> Some (materializar_slots re gera rfc (ag_slug a) def agora ss 0 b))))"

fun ciclo_agendas ::
  "regexp \<Rightarrow> fuso \<Rightarrow> cron \<Rightarrow> gerador \<Rightarrow> rfc3339 \<Rightarrow> int \<Rightarrow> time \<Rightarrow> agenda list \<Rightarrow> nat \<Rightarrow> banco
     \<Rightarrow> (nat \<times> banco) option" where
  "ciclo_agendas re fuso cron gera rfc limite agora [] criados b = Some (criados, b)"
| "ciclo_agendas re fuso cron gera rfc limite agora (a # as) criados b =
     (case materializar re fuso cron gera rfc limite a agora b of
        None \<Rightarrow> None
      | Some (Some _, _, b) \<Rightarrow> ciclo_agendas re fuso cron gera rfc limite agora as criados b
      | Some (None, n, b) \<Rightarrow> ciclo_agendas re fuso cron gera rfc limite agora as (criados + n) b)"

definition Ciclo_do_scheduler ::
  "regexp \<Rightarrow> fuso \<Rightarrow> cron \<Rightarrow> gerador \<Rightarrow> rfc3339 \<Rightarrow> int \<Rightarrow> time \<Rightarrow> banco \<Rightarrow> (nat \<times> banco) option" where
  "Ciclo_do_scheduler re fuso cron gera rfc limite agora b =
     ciclo_agendas re fuso cron gera rfc limite agora (Ativas b) 0 b"

text \<open>\<open>Disparar\<close>: the answer 0 is \<open>uuid.Nil\<close>, the repeated click.\<close>

definition trunca_segundo :: "time \<Rightarrow> time" where
  "trunca_segundo t = t - t mod 1000000000"

definition Disparar ::
  "regexp \<Rightarrow> gerador \<Rightarrow> rfc3339 \<Rightarrow> string \<Rightarrow> time \<Rightarrow> string gomap \<Rightarrow> banco \<Rightarrow> (erro_sched + nat) \<times> banco" where
  "Disparar re gera rfc slug agora params b =
     (case Definicao slug b of Inl e \<Rightarrow> (Inl (ErroDb e), b) | Inr def \<Rightarrow>
      case Resolver re (wf_params def) params of Inl e \<Rightarrow> (Inl (ErroParam e), b) | Inr valores \<Rightarrow>
      case Criar (gera b) agora
             (run_pedido slug (chave_do_run rfc slug TriggerManual (trunca_segundo agora)) def TriggerManual
                None valores (wf_max_ativos def)) b of
        (Inl JaExiste, b) \<Rightarrow> (Inr 0, b)
      | (Inl e, b) \<Rightarrow> (Inl (ErroDb e), b)
      | (Inr r, b) \<Rightarrow>
          (case enfileirar (r_id r) 10 agora b of
             (Some e, b) \<Rightarrow> (Inl (ErroDb e), b)
           | (None, b) \<Rightarrow> (Inr (r_id r), b)))"

text \<open>The loop of \<open>Backfill\<close>; \<open>criar\<close> is its call of \<open>criarEEnfileirar\<close>.\<close>

partial_function (option) backfill_laco ::
  "(time \<Rightarrow> time) \<Rightarrow> time \<Rightarrow> (time \<Rightarrow> banco \<Rightarrow> erro_db option \<times> banco) \<Rightarrow> time \<Rightarrow> nat \<Rightarrow> banco
     \<Rightarrow> (erro_sched option \<times> nat \<times> banco) option" where
  "backfill_laco nxt ate criar cursor criados b =
     (let prox = nxt cursor in
      if ate < prox then Some (None, criados, b)
      else case criar prox b of
        (Some e, b) \<Rightarrow> Some (Some (ErroDb e), criados, b)
      | (None, b) \<Rightarrow> backfill_laco nxt ate criar prox (criados + 1) b)"

definition Backfill ::
  "regexp \<Rightarrow> fuso \<Rightarrow> cron \<Rightarrow> gerador \<Rightarrow> rfc3339 \<Rightarrow> string \<Rightarrow> time \<Rightarrow> time \<Rightarrow> string gomap \<Rightarrow> time \<Rightarrow> banco
     \<Rightarrow> (erro_sched option \<times> nat \<times> banco) option" where
  "Backfill re fuso cron gera rfc slug de ate params agora b =
     (case find (\<lambda>a. ag_slug a = slug) (Ativas b) of
        None \<Rightarrow> Some (Some (SemAgendaAtiva slug), 0, b)
      | Some alvo \<Rightarrow>
      case agenda_Parse fuso cron alvo of Inl e \<Rightarrow> Some (Some (ErroAgenda e), 0, b) | Inr nxt \<Rightarrow>
      case Definicao slug b of Inl e \<Rightarrow> Some (Some (ErroDb e), 0, b) | Inr def \<Rightarrow>
      case Resolver re (wf_params def) params of Inl e \<Rightarrow> Some (Some (ErroParam e), 0, b) | Inr valores \<Rightarrow>
      backfill_laco nxt ate
        (\<lambda>prox. criarEEnfileirar gera rfc slug def prox TriggerBackfill prioridadeBackfill valores
                  (wf_max_ativos def) agora)
        (de - 1) 0 b)"

section \<open>Creating and enqueueing\<close>

text \<open>Every run waiting or executing has its item in the queue.\<close>

definition fila_cobre :: "banco \<Rightarrow> bool" where
  "fila_cobre b \<longleftrightarrow>
     (\<forall>r \<in> set (db_runs b). r_status r \<in> {StatusQueued, StatusRunning} \<longrightarrow> r_id r \<in> i_run ` set (db_itens b))"

definition run_enfileirada :: "time \<Rightarrow> nat \<Rightarrow> run \<Rightarrow> run" where
  "run_enfileirada agora x r =
     linha_transicionada StatusQueued agora (linha_da_run agora (com_padroes x r))"

definition item_novo :: "nat \<Rightarrow> nat \<Rightarrow> int \<Rightarrow> time \<Rightarrow> item" where
  "item_novo i x p agora =
     \<lparr>i_id = i, i_run = x, i_prioridade = p, i_disponivel = agora, i_reivindicado = None, i_por = None\<rparr>"

lemma buscar_run_append:
  "buscar_run y (b\<lparr>db_runs := db_runs b @ [r]\<rparr>) =
     (case buscar_run y b of Some q \<Rightarrow> Some q | None \<Rightarrow> if r_id r = y then Some r else None)"
proof -
  have "find P (xs @ [r]) = (case find P xs of Some q \<Rightarrow> Some q | None \<Rightarrow> if P r then Some r else None)"
    for P and xs :: "run list"
    by (induction xs) auto
  then show ?thesis by (simp add: buscar_run_def)
qed

text \<open>A fresh key: the run is stored in \<open>queued\<close> and its item enters the queue, nothing else changes.\<close>

lemma criar_novo:
  assumes ok: "banco_ok b" and x: "x \<noteq> 0" "x \<notin> r_id ` set (db_runs b)"
    and pid: "r_id r = 0" and st: "r_status r = StatusOutro []" and ch: "r_chave r \<notin> r_chave ` set (db_runs b)"
  obtains r' b' where "Criar x agora r b = (Inr r', b')" and "r_id r' = x"
    and "enfileirar x p agora b' =
      (None, b\<lparr>db_runs := db_runs b @ [run_enfileirada agora x r],
               db_itens := db_itens b @ [item_novo (db_seq b) x p agora], db_seq := db_seq b + 1\<rparr>)"
proof -
  let ?l = "linha_da_run agora (com_padroes x r)"
  let ?b = "b\<lparr>db_runs := db_runs b @ [?l]\<rparr>"
  have id: "r_id ?l = x" "r_status ?l = StatusCreated" using pid st by simp_all
  have C: "Criar x agora r b = (Inr ((com_padroes x r)\<lparr>r_criado := agora\<rparr>), ?b)"
    using x ch pid by (simp add: Criar_def Let_def)
  have "buscar_run x b = None" using x by (simp add: buscar_run_None_iff)
  then have e: "buscar_run x ?b = Some ?l" using id by (simp add: buscar_run_append)
  have "Transicionar x StatusQueued agora ?b = (None, atualiza_run x (linha_transicionada StatusQueued agora) ?b)"
    using e id by (cases rule: Transicionar_casos [of x ?b StatusQueued agora])
      (auto dest: Valida_Some simp: passo.intros)
  moreover have "atualiza_run x (linha_transicionada StatusQueued agora) ?b
      = b\<lparr>db_runs := db_runs b @ [run_enfileirada agora x r]\<rparr>"
  proof -
    have "map (\<lambda>r. if r_id r = x then f r else r) (db_runs b) = db_runs b" for f
      using x(2) by (intro map_idI) auto
    then show ?thesis using id(1) by (simp add: atualiza_run_def run_enfileirada_def)
  qed
  moreover have "x \<notin> i_run ` set (db_itens b)" using ok x(2) by (auto simp: banco_ok_def itens_ok_def)
  moreover have "r_id (run_enfileirada agora x r) = x" using pid by (simp add: run_enfileirada_def)
  ultimately have "enfileirar x p agora ?b =
      (None, b\<lparr>db_runs := db_runs b @ [run_enfileirada agora x r],
               db_itens := db_itens b @ [item_novo (db_seq b) x p agora], db_seq := db_seq b + 1\<rparr>)"
    by (simp add: enfileirar_def Enqueue_def item_novo_def valor_ou_def Let_def)
  with C show ?thesis using that pid by simp
qed

lemma enfileirar_ok: "banco_ok b \<Longrightarrow> banco_ok (snd (enfileirar x p agora b))"
  using Transicionar_ok [of b x StatusQueued agora] Enqueue_ok
  by (auto simp: enfileirar_def split: prod.splits option.splits)

lemma criarEEnfileirar_ok:
  "banco_ok b \<Longrightarrow> banco_ok (snd (criarEEnfileirar gera rfc slug def s tr p params m agora b))"
  using Criar_ok [of b "gera b" agora]
  by (auto simp: criarEEnfileirar_def intro: enfileirar_ok split: prod.splits sum.splits erro_db.splits)
     (metis enfileirar_ok snd_conv)+

abbreviation pedido_do_slot ::
  "rfc3339 \<Rightarrow> string \<Rightarrow> workflow \<Rightarrow> trigger \<Rightarrow> time \<Rightarrow> string gomap \<Rightarrow> int \<Rightarrow> run" where
  "pedido_do_slot rfc slug def tr s params m \<equiv>
     run_pedido slug (chave_do_run rfc slug tr s) def tr (Some s) params m"

lemma run_pedido_campos [simp]:
  "r_id (run_pedido slug ch def tr l ps m) = 0" "r_chave (run_pedido slug ch def tr l ps m) = ch"
  "r_status (run_pedido slug ch def tr l ps m) = StatusOutro []"
  by (simp_all add: run_pedido_def)

lemma run_enfileirada_campos [simp]:
  "r_id (run_enfileirada agora x r) = (if r_id r = 0 then x else r_id r)"
  "r_chave (run_enfileirada agora x r) = r_chave r"
  "r_status (run_enfileirada agora x r) = StatusQueued"
  "r_iniciado (run_enfileirada agora x r) = None" "r_terminado (run_enfileirada agora x r) = None"
  by (simp_all add: run_enfileirada_def linha_transicionada_def linha_da_run_def coalesce_def Let_def)

lemma criarEEnfileirar_repete:
  assumes "banco_ok b" and "chave_do_run rfc slug tr s \<in> r_chave ` set (db_runs b)"
  shows "criarEEnfileirar gera rfc slug def s tr p params m agora b = (None, b)"
  using assms(2) by (simp add: criarEEnfileirar_def Criar_def Let_def)

lemma criarEEnfileirar_novo:
  assumes ok: "banco_ok b" and g: "gera_ok gera"
    and ch: "chave_do_run rfc slug tr s \<notin> r_chave ` set (db_runs b)"
  shows "criarEEnfileirar gera rfc slug def s tr p params m agora b =
    (None, b\<lparr>db_runs := db_runs b @ [run_enfileirada agora (gera b) (pedido_do_slot rfc slug def tr s params m)],
             db_itens := db_itens b @ [item_novo (db_seq b) (gera b) p agora], db_seq := db_seq b + 1\<rparr>)"
proof -
  have x: "gera b \<noteq> 0" "gera b \<notin> r_id ` set (db_runs b)" using g by (auto simp: gera_ok_def)
  obtain r' b' where "Criar (gera b) agora (pedido_do_slot rfc slug def tr s params m) b = (Inr r', b')"
    "r_id r' = gera b"
    "enfileirar (gera b) p agora b' =
      (None, b\<lparr>db_runs := db_runs b @ [run_enfileirada agora (gera b) (pedido_do_slot rfc slug def tr s params m)],
             db_itens := db_itens b @ [item_novo (db_seq b) (gera b) p agora], db_seq := db_seq b + 1\<rparr>)"
    by (rule criar_novo [OF ok x, of "pedido_do_slot rfc slug def tr s params m" agora p]) (use ch in auto)
  then show ?thesis by (simp add: criarEEnfileirar_def)
qed

text \<open>What a call leaves, whether the run was there or not.\<close>

lemma criarEEnfileirar_efeito:
  assumes ok: "banco_ok b" and g: "gera_ok gera"
  shows "\<exists>b'. criarEEnfileirar gera rfc slug def s tr p params m agora b = (None, b') \<and>
    banco_ok b' \<and> db_agendas b' = db_agendas b \<and> db_workflows b' = db_workflows b \<and>
    r_chave ` set (db_runs b') = insert (chave_do_run rfc slug tr s) (r_chave ` set (db_runs b)) \<and>
    (fila_cobre b \<longrightarrow> fila_cobre b') \<and> prefix (db_runs b) (db_runs b')"
proof (cases "chave_do_run rfc slug tr s \<in> r_chave ` set (db_runs b)")
  case True
  with criarEEnfileirar_repete [OF ok True] ok show ?thesis by (simp add: insert_absorb)
next
  case False
  note c = criarEEnfileirar_novo [OF ok g False, of def p params m agora]
  note k = criarEEnfileirar_ok [OF ok, of gera rfc slug def s tr p params m agora]
  show ?thesis
    by (rule exI, rule conjI, rule c) (use k [unfolded c] in \<open>auto simp: fila_cobre_def item_novo_def\<close>)
qed

lemma AvancarSlot_runs [simp]:
  "db_runs (AvancarSlot s t b) = db_runs b" "db_itens (AvancarSlot s t b) = db_itens b"
  "db_workflows (AvancarSlot s t b) = db_workflows b"
  by (simp_all add: AvancarSlot_def atualiza_agenda_def)

lemma fila_cobre_AvancarSlot [simp]: "fila_cobre (AvancarSlot s t b) \<longleftrightarrow> fila_cobre b"
  by (simp add: fila_cobre_def)

text \<open>The loop over the slots of one agenda.\<close>

definition chaves_dos_slots :: "rfc3339 \<Rightarrow> string \<Rightarrow> trigger \<Rightarrow> time list \<Rightarrow> string set" where
  "chaves_dos_slots rfc slug tr ss = chave_do_run rfc slug tr ` set ss"

lemma materializar_slots_efeito:
  assumes "banco_ok b" and g: "gera_ok gera" and r: "Resolver re (wf_params def) [] = Inr padroes"
  shows "\<exists>b'. materializar_slots re gera rfc slug def agora ss n b = (None, n + length ss, b') \<and> banco_ok b' \<and>
    r_chave ` set (db_runs b') = r_chave ` set (db_runs b) \<union> chaves_dos_slots rfc slug TriggerSchedule ss \<and>
    (fila_cobre b \<longrightarrow> fila_cobre b') \<and>
    buscar_agenda slug b' = map_option (\<lambda>a. a\<lparr>ag_ultimo := fold (\<lambda>t u. Some (case u of None \<Rightarrow> t | Some v \<Rightarrow> max v t))
        ss (ag_ultimo a)\<rparr>) (buscar_agenda slug b)"
  using assms(1)
proof (induction ss arbitrary: n b)
  case Nil
  then show ?case by (simp add: chaves_dos_slots_def option.map_ident_strong)
next
  case (Cons s ss)
  obtain b1 where b1: "criarEEnfileirar gera rfc slug def s TriggerSchedule 0 padroes (wf_max_ativos def) agora b = (None, b1)"
    "banco_ok b1" "db_agendas b1 = db_agendas b"
    "r_chave ` set (db_runs b1) = insert (chave_do_run rfc slug TriggerSchedule s) (r_chave ` set (db_runs b))"
    "fila_cobre b \<Longrightarrow> fila_cobre b1"
    using criarEEnfileirar_efeito [OF Cons.prems g, of rfc slug def s TriggerSchedule 0 padroes
        "wf_max_ativos def" agora] by blast
  let ?b2 = "AvancarSlot slug s b1"
  have "banco_ok ?b2" using b1(2) by (rule AvancarSlot_ok)
  from Cons.IH [OF this, of "n + 1"] obtain b' where
    b': "materializar_slots re gera rfc slug def agora ss (n + 1) ?b2 = (None, n + 1 + length ss, b')" "banco_ok b'"
      "r_chave ` set (db_runs b') = r_chave ` set (db_runs ?b2) \<union> chaves_dos_slots rfc slug TriggerSchedule ss"
      "fila_cobre ?b2 \<longrightarrow> fila_cobre b'"
      "buscar_agenda slug b' = map_option (\<lambda>a. a\<lparr>ag_ultimo := fold (\<lambda>t u. Some (case u of None \<Rightarrow> t | Some v \<Rightarrow> max v t))
        ss (ag_ultimo a)\<rparr>) (buscar_agenda slug ?b2)" by blast
  have "buscar_agenda slug b1 = buscar_agenda slug b" using b1(3) by (simp add: buscar_agenda_def)
  then have "buscar_agenda slug b' = map_option (\<lambda>a. a\<lparr>ag_ultimo := fold (\<lambda>t u. Some (case u of None \<Rightarrow> t | Some v \<Rightarrow> max v t))
        (s # ss) (ag_ultimo a)\<rparr>) (buscar_agenda slug b)"
    using b'(5) by (simp add: AvancarSlot_agenda option.map_comp comp_def)
  then show ?case
    using b' b1 r by (intro exI [of _ b']) (simp add: chaves_dos_slots_def)
qed

text \<open>The loop of the backfill.\<close>

lemma backfill_efeito:
  assumes "\<And>t. t < nxt t" and g: "gera_ok gera" and "banco_ok b"
  shows "\<exists>k b'. backfill_laco nxt ate (\<lambda>prox. criarEEnfileirar gera rfc slug def prox tr p params m agora) cursor n b
      = Some (None, n + k, b') \<and> banco_ok b' \<and>
    (\<forall>j < k. iterado nxt cursor j \<le> ate) \<and> ate < iterado nxt cursor k \<and>
    r_chave ` set (db_runs b') = r_chave ` set (db_runs b) \<union> chaves_dos_slots rfc slug tr (map (iterado nxt cursor) [0..<k]) \<and>
    (fila_cobre b \<longrightarrow> fila_cobre b') \<and> db_agendas b' = db_agendas b"
  using assms(3)
proof (induction "nat (ate - cursor)" arbitrary: cursor n b rule: less_induct)
  case less
  let ?criar = "\<lambda>prox. criarEEnfileirar gera rfc slug def prox tr p params m agora"
  show ?case
  proof (cases "ate < nxt cursor")
    case True
    with less.prems show ?thesis
      by (intro exI [of _ 0] exI [of _ b]) (subst backfill_laco.simps, simp add: chaves_dos_slots_def)
  next
    case False
    obtain b1 where b1: "?criar (nxt cursor) b = (None, b1)" "banco_ok b1" "db_agendas b1 = db_agendas b"
      "r_chave ` set (db_runs b1) = insert (chave_do_run rfc slug tr (nxt cursor)) (r_chave ` set (db_runs b))"
      "fila_cobre b \<Longrightarrow> fila_cobre b1"
      using criarEEnfileirar_efeito [OF less.prems g, of rfc slug def "nxt cursor" tr p params m agora] by blast
    have "nat (ate - nxt cursor) < nat (ate - cursor)" using assms(1) [of cursor] False by simp
    from less.hyps [OF this b1(2), of "n + 1"] obtain k b' where
      k: "backfill_laco nxt ate ?criar (nxt cursor) (n + 1) b1 = Some (None, n + 1 + k, b')" "banco_ok b'"
        "\<forall>j < k. iterado nxt (nxt cursor) j \<le> ate" "ate < iterado nxt (nxt cursor) k"
        "r_chave ` set (db_runs b') = r_chave ` set (db_runs b1) \<union>
           chaves_dos_slots rfc slug tr (map (iterado nxt (nxt cursor)) [0..<k])"
        "fila_cobre b1 \<longrightarrow> fila_cobre b'" "db_agendas b' = db_agendas b1" by blast
    have "backfill_laco nxt ate ?criar cursor n b = Some (None, n + Suc k, b')"
      using False b1(1) k(1) by (subst backfill_laco.simps) (simp add: Let_def)
    moreover have "\<forall>j < Suc k. iterado nxt cursor j \<le> ate"
    proof (intro allI impI)
      fix j assume "j < Suc k"
      with k(3) False show "iterado nxt cursor j \<le> ate" by (cases j) (auto simp: iterado_Suc)
    qed
    moreover have "r_chave ` set (db_runs b') = r_chave ` set (db_runs b) \<union>
        chaves_dos_slots rfc slug tr (map (iterado nxt cursor) [0..<Suc k])"
      using k(5) b1(4) by (simp add: map_slot_Suc chaves_dos_slots_def del: upt_Suc)
    ultimately show ?thesis using k(2,4,6,7) b1(3,5)
      by (intro exI [of _ "Suc k"] exI [of _ b']) (simp add: iterado_Suc del: upt_Suc)
  qed
qed

section \<open>Catching up, and the marker\<close>

abbreviation empurrar :: "time list \<Rightarrow> time option \<Rightarrow> time option" where
  "empurrar ss u \<equiv> fold (\<lambda>t u. Some (case u of None \<Rightarrow> t | Some v \<Rightarrow> max v t)) ss u"

lemma agenda_Parse_ultimo: "agenda_Parse fuso cron (a\<lparr>ag_ultimo := u\<rparr>) = agenda_Parse fuso cron a"
  by (simp add: agenda_Parse_def Let_def cong: option.case_cong)

lemma empurrar_iterado:
  assumes "\<And>t. t < nxt t"
  shows "empurrar (map (iterado nxt u) [0..<k]) (Some u) = Some (if k = 0 then u else iterado nxt u (k - 1))"
proof (induction k)
  case (Suc k)
  have "max (iterado nxt u (k - 1)) (iterado nxt u k) = iterado nxt u k" if "k \<noteq> 0"
    using iterado_mono [OF assms, of "k - 1" k u] that by simp
  moreover have "max u (iterado nxt u k) = iterado nxt u k" using iterado_depois [OF assms, of u k] by simp
  ultimately show ?case using Suc by (cases k) simp_all
qed simp

text \<open>A cron with no date: the loop of the backfill has no answer.\<close>

lemma backfill_sem_data:
  assumes "z \<le> ate" and "\<And>b. certo b \<Longrightarrow> \<exists>b'. criar z b = (None, b') \<and> certo b'"
  shows "certo b \<Longrightarrow> backfill_laco (\<lambda>_. z) ate criar cursor n b = None"
proof (rule ccontr)
  assume b: "certo b" and "backfill_laco (\<lambda>_. z) ate criar cursor n b \<noteq> None"
  then obtain y where y: "backfill_laco (\<lambda>_. z) ate criar cursor n b = Some y" by blast
  define P where "P nxt' ate' criar' cursor' n' b' (y' :: erro_sched option \<times> nat \<times> banco) \<longleftrightarrow>
      nxt' = (\<lambda>_. z) \<longrightarrow> ate' = ate \<longrightarrow> criar' = criar \<longrightarrow> \<not> certo b'"
    for nxt' :: "time \<Rightarrow> time" and ate' criar' and cursor' :: time and n' :: nat and b' y'
  have "P (\<lambda>_. z) ate criar cursor n b y"
  proof (rule backfill_laco.raw_induct [OF _ y])
    fix laco nxt' ate' criar' cursor' n' b' y'
    assume IH: "\<And>nxt ate criar cursor n b y. laco nxt ate criar cursor n b = Some y \<Longrightarrow> P nxt ate criar cursor n b y"
      and body: "(let prox = nxt' cursor' in
        if ate' < prox then Some (None, n', b')
        else case criar' prox b' of
          (None, b) \<Rightarrow> laco nxt' ate' criar' prox (n' + 1) b
        | (Some e, b) \<Rightarrow> Some (Some (ErroDb e), n', b)) = Some y'"
    show "P nxt' ate' criar' cursor' n' b' y'"
      unfolding P_def
    proof (intro impI notI)
      assume e: "nxt' = (\<lambda>_. z)" "ate' = ate" "criar' = criar" and "certo b'"
      then obtain b2 where b2: "criar z b' = (None, b2)" "certo b2" using assms(2) by blast
      with body e assms(1) have "laco nxt' ate' criar' z (n' + 1) b2 = Some y'" by (simp add: Let_def)
      from IH [OF this] e b2(2) show False by (simp add: P_def)
    qed
  qed
  with b show False by (simp add: P_def)
qed

text \<open>What any outcome of one agenda leaves.\<close>

lemma materializar_slots_mantem:
  assumes "banco_ok b" and g: "gera_ok gera" and "fila_cobre b"
  shows "\<exists>e k b'. materializar_slots re gera rfc slug def agora ss n b = (e, k, b') \<and> banco_ok b' \<and>
    fila_cobre b' \<and> prefix (db_runs b) (db_runs b')"
  using assms(1,3)
proof (induction ss arbitrary: n b)
  case (Cons s ss)
  show ?case
  proof (cases "Resolver re (wf_params def) []")
    case (Inr padroes)
    obtain b1 where b1: "criarEEnfileirar gera rfc slug def s TriggerSchedule 0 padroes (wf_max_ativos def) agora b = (None, b1)"
      "banco_ok b1" "fila_cobre b1" "prefix (db_runs b) (db_runs b1)"
      using criarEEnfileirar_efeito [OF Cons.prems(1) g, of rfc slug def s TriggerSchedule 0 padroes
          "wf_max_ativos def" agora] Cons.prems(2) by blast
    from Cons.IH [of "AvancarSlot slug s b1" "n + 1"] b1 obtain e k b' where
      "materializar_slots re gera rfc slug def agora ss (n + 1) (AvancarSlot slug s b1) = (e, k, b')" "banco_ok b'"
      "fila_cobre b'" "prefix (db_runs b1) (db_runs b')"
      by (auto simp: AvancarSlot_ok)
    with b1 Inr show ?thesis by (auto intro: prefix_order.trans)
  qed (use Cons.prems in simp)
qed simp

lemma Slots_responde: "0 < limite \<Longrightarrow> \<exists>r. Slots fuso cron a agora limite = Some r"
  using coletar_termina_limite [of limite] by (fastforce simp: Slots_def Let_def split: sum.split)

lemma materializar_mantem:
  assumes "banco_ok b" and "gera_ok gera" and "fila_cobre b" and l: "0 < limite"
  shows "\<exists>e k b'. materializar re fuso cron gera rfc limite a agora b = Some (e, k, b') \<and> banco_ok b' \<and>
    fila_cobre b' \<and> prefix (db_runs b) (db_runs b')"
proof (cases "ag_ultimo a")
  case None
  with assms show ?thesis by (simp add: materializar_def AvancarSlot_ok)
next
  case (Some u)
  obtain r where r: "Slots fuso cron a agora limite = Some r" using Slots_responde [OF l] by blast
  show ?thesis
  proof (cases r)
    case (Inr p)
    then obtain ss trunc where p: "r = Inr (ss, trunc)" by (cases p) simp
    show ?thesis
    proof (cases "ss = [] \<or> (\<exists>e. Definicao (ag_slug a) b = Inl e)")
      case False
      then obtain def where "Definicao (ag_slug a) b = Inr def" by (cases "Definicao (ag_slug a) b") auto
      with False p r Some materializar_slots_mantem [OF assms(1-3), of re rfc "ag_slug a" def agora ss 0]
      show ?thesis by (auto simp: materializar_def)
    qed (use p r Some assms in \<open>auto simp: materializar_def\<close>)
  qed (use r Some assms in \<open>simp add: materializar_def\<close>)
qed

lemma ciclo_agendas_mantem:
  assumes "banco_ok b" and g: "gera_ok gera" and "fila_cobre b" and l: "0 < limite"
  shows "\<exists>k b'. ciclo_agendas re fuso cron gera rfc limite agora as n b = Some (k, b') \<and> banco_ok b' \<and>
    fila_cobre b' \<and> prefix (db_runs b) (db_runs b')"
  using assms(1,3)
proof (induction as arbitrary: n b)
  case (Cons a as)
  obtain e k b1 where b1: "materializar re fuso cron gera rfc limite a agora b = Some (e, k, b1)" "banco_ok b1"
    "fila_cobre b1" "prefix (db_runs b) (db_runs b1)"
    using materializar_mantem [OF Cons.prems(1) g Cons.prems(2) l] by blast
  from Cons.IH [OF b1(2,3)] obtain k' b' where "banco_ok b'" "fila_cobre b'" "prefix (db_runs b1) (db_runs b')"
    "ciclo_agendas re fuso cron gera rfc limite agora as (case e of None \<Rightarrow> n + k | Some _ \<Rightarrow> n) b1 = Some (k', b')"
    by blast
  with b1(1,4) show ?case
    by (intro exI [of _ k'] exI [of _ b']) (auto split: option.splits intro: prefix_order.trans)
qed simp

section \<open>Examples\<close>

definition gera_maior :: gerador where
  "gera_maior b = Suc (fold max (map r_id (db_runs b)) 0)"

lemma le_fold_max: "x = a \<or> x \<in> set xs \<Longrightarrow> (x :: nat) \<le> fold max xs a"
proof (induction xs arbitrary: a x)
  case (Cons y ys)
  have "max y a \<le> fold max ys (max y a)" using Cons.IH [of "max y a" "max y a"] by simp
  with Cons.prems Cons.IH [of x "max y a"] show ?case by auto
qed simp

lemma gera_maior_ok: "gera_ok gera_maior"
proof -
  have "gera_maior b \<notin> r_id ` set (db_runs b)" for b
    using le_fold_max [of "gera_maior b" 0 "map r_id (db_runs b)"] by (auto simp: gera_maior_def)
  then show ?thesis by (simp add: gera_ok_def) (simp add: gera_maior_def)
qed

definition so_hora :: rfc3339 where
  "so_hora t = replicate (nat (t div 3600000000000)) (CHR ''h'')"

definition banco_agendado :: "time option \<Rightarrow> banco" where
  "banco_agendado u =
     banco_vazio\<lparr>db_workflows := [\<lparr>pb_projeto = 0, pb_slug = ''bronze'', pb_name = ''bronze'',
        pb_definicao = workflow_vazio\<rparr>], db_agendas := [agenda_de_exemplo True u]\<rparr>"

lemma banco_agendado_fatos [simp]:
  "banco_ok (banco_agendado u)" "Definicao ''bronze'' (banco_agendado u) = Inr workflow_vazio"
  "fila_cobre (banco_agendado u)" "db_runs (banco_agendado u) = []" "db_itens (banco_agendado u) = []"
  "buscar_agenda ''bronze'' (banco_agendado u) = Some (agenda_de_exemplo True u)"
  "Ativas (banco_agendado u) = [agenda_de_exemplo True u]"
  by (simp_all add: banco_agendado_def banco_vazio_def banco_ok_def tabelas Definicao_def fila_cobre_def
      buscar_agenda_def agenda_de_exemplo_def Ativas_def)

lemma Resolver_vazio [simp]: "Resolver re (wf_params workflow_vazio) [] = Inr []"
  by (simp add: workflow_vazio_def Resolver_def)

section \<open>Properties\<close>





text \<open>
  A cycle of the scheduler always ends, whatever the agendas and the cron library say,
  and leaves the tables consistent, every waiting or executing run with its item in the
  queue, and the runs there were before it untouched.
\<close>

theorem Ciclo_do_scheduler_mantem:
  assumes "banco_ok b" and "gera_ok gera" and "fila_cobre b"
  shows "\<exists>k b'. Ciclo_do_scheduler re fuso cron gera rfc (maxPorCiclo_padrao m) agora b = Some (k, b') \<and>
    banco_ok b' \<and> fila_cobre b' \<and> prefix (db_runs b) (db_runs b')"
proof -
  have "0 < maxPorCiclo_padrao m" by (simp add: maxPorCiclo_padrao_def)
  then show ?thesis unfolding Ciclo_do_scheduler_def by (rule ciclo_agendas_mantem [OF assms])
qed

theorem Ciclo_do_scheduler_mantem_witness:
  "\<exists>k b'. Ciclo_do_scheduler (\<lambda>_. None) (\<lambda>_. True) (\<lambda>_ _. Some (\<lambda>_. tempo_zero)) gera_maior so_hora
      (maxPorCiclo_padrao 0) 7 (banco_agendado (Some 0)) = Some (k, b') \<and> fila_cobre b'"
  using Ciclo_do_scheduler_mantem [of "banco_agendado (Some 0)" gera_maior "\<lambda>_. None" "\<lambda>_. True"
      "\<lambda>_ _. Some (\<lambda>_. tempo_zero)" so_hora 0 7] gera_maior_ok
  by auto

text \<open>
  An agenda that never ran creates nothing on its first cycle: the marker is planted at
  the present instant, so that publishing a workflow does not materialize its past.
\<close>

theorem materializar_primeira_vez:
  assumes "ag_ultimo a = None" and "buscar_agenda (ag_slug a) b = Some a"
  shows "\<exists>b'. materializar re fuso cron gera rfc limite a agora b = Some (None, 0, b') \<and>
    db_runs b' = db_runs b \<and> db_itens b' = db_itens b \<and>
    buscar_agenda (ag_slug a) b' = Some (a\<lparr>ag_ultimo := Some agora\<rparr>)"
  using assms by (simp add: materializar_def AvancarSlot_agenda)

theorem materializar_primeira_vez_witness:
  "\<exists>b'. materializar (\<lambda>_. None) (\<lambda>_. True) de_hora_em_hora gera_maior so_hora 100
        (agenda_de_exemplo True None) 5 (banco_agendado None) = Some (None, 0, b') \<and> db_runs b' = []"
  using materializar_primeira_vez [of "agenda_de_exemplo True None" "banco_agendado None" "\<lambda>_. None" "\<lambda>_. True"
      de_hora_em_hora gera_maior so_hora 100 5]
  by (auto simp: agenda_de_exemplo_def banco_agendado_fatos [unfolded agenda_de_exemplo_def])

text \<open>
  A backfill over a cron that advances ends, and covers the interval exactly: the slots
  from \<open>de\<close> on, up to \<open>ate\<close>, both included, each have a run of their own; the markers of
  the agendas do not move, and every waiting run keeps its item.
\<close>

theorem Backfill_completo:
  assumes ok: "banco_ok b" and g: "gera_ok gera"
    and a: "find (\<lambda>a. ag_slug a = slug) (Ativas b) = Some alvo" "agenda_Parse fuso cron alvo = Inr nxt" "\<And>t. t < nxt t"
    and d: "Definicao slug b = Inr def" "Resolver re (wf_params def) params = Inr valores"
  shows "\<exists>k b'. Backfill re fuso cron gera rfc slug de ate params agora b = Some (None, k, b') \<and>
    (\<forall>j < k. iterado nxt (de - 1) j \<in> {de..ate}) \<and> ate < iterado nxt (de - 1) k \<and>
    r_chave ` set (db_runs b') = r_chave ` set (db_runs b) \<union>
      chaves_dos_slots rfc slug TriggerBackfill (map (iterado nxt (de - 1)) [0..<k]) \<and>
    (fila_cobre b \<longrightarrow> fila_cobre b') \<and> db_agendas b' = db_agendas b"
proof -
  obtain k b' where k: "backfill_laco nxt ate (\<lambda>prox. criarEEnfileirar gera rfc slug def prox TriggerBackfill
        prioridadeBackfill valores (wf_max_ativos def) agora) (de - 1) 0 b = Some (None, 0 + k, b')"
    "\<forall>j < k. iterado nxt (de - 1) j \<le> ate" "ate < iterado nxt (de - 1) k"
    "r_chave ` set (db_runs b') = r_chave ` set (db_runs b) \<union>
      chaves_dos_slots rfc slug TriggerBackfill (map (iterado nxt (de - 1)) [0..<k])"
    "fila_cobre b \<longrightarrow> fila_cobre b'" "db_agendas b' = db_agendas b"
    using backfill_efeito [OF a(3) g ok, of ate rfc slug def TriggerBackfill prioridadeBackfill valores
        "wf_max_ativos def" agora "de - 1" 0] by blast
  have "de \<le> iterado nxt (de - 1) j" for j using iterado_depois [OF a(3), of "de - 1" j] by simp
  with k a d show ?thesis by (intro exI [of _ k] exI [of _ b']) (simp add: Backfill_def)
qed

theorem Backfill_completo_witness:
  "\<exists>k b'. Backfill (\<lambda>_. None) (\<lambda>_. True) de_hora_em_hora gera_maior so_hora ''bronze'' 0 7200000000000 [] 5
      (banco_agendado None) = Some (None, k, b') \<and> fila_cobre b' \<and> db_agendas b' = [agenda_de_exemplo True None]"
  using Backfill_completo [of "banco_agendado None" gera_maior "''bronze''" "agenda_de_exemplo True None" "\<lambda>_. True"
      de_hora_em_hora "\<lambda>t. t + 3600000000000 - t mod 3600000000000" workflow_vazio "\<lambda>_. None" "[]" "[]"
      so_hora 0 7200000000000 5] gera_maior_ok de_hora_em_hora_avanca
  by (auto simp: agenda_de_exemplo_def banco_agendado_fatos [unfolded agenda_de_exemplo_def])
     (simp add: banco_agendado_def agenda_de_exemplo_def)

text \<open>
  On a cron expression that never fires, where \<open>Next\<close> answers the zero time, a backfill
  does not end, for any interval that reaches past the zero time.
\<close>

theorem Backfill_sem_data:
  assumes "banco_ok b" and g: "gera_ok gera"
    and "find (\<lambda>a. ag_slug a = slug) (Ativas b) = Some alvo" and "agenda_Parse fuso cron alvo = Inr (\<lambda>_. tempo_zero)"
    and "Definicao slug b = Inr def" and "Resolver re (wf_params def) params = Inr valores" and "tempo_zero \<le> ate"
  shows "Backfill re fuso cron gera rfc slug de ate params agora b = None"
proof -
  have "\<exists>b'. criarEEnfileirar gera rfc slug def tempo_zero TriggerBackfill prioridadeBackfill valores
      (wf_max_ativos def) agora b = (None, b') \<and> banco_ok b'" if "banco_ok b" for b
    using criarEEnfileirar_efeito [OF that g, of rfc slug def tempo_zero TriggerBackfill prioridadeBackfill valores
      "wf_max_ativos def" agora] by blast
  then have "backfill_laco (\<lambda>_. tempo_zero) ate (\<lambda>prox. criarEEnfileirar gera rfc slug def prox TriggerBackfill
      prioridadeBackfill valores (wf_max_ativos def) agora) (de - 1) 0 b = None"
    by (intro backfill_sem_data [of tempo_zero ate banco_ok]) (use assms(1,7) in auto)
  then show ?thesis using assms(3-6) by (simp add: Backfill_def)
qed

theorem Backfill_sem_data_witness:
  "Backfill (\<lambda>_. None) (\<lambda>_. True) (\<lambda>_ _. Some (\<lambda>_. tempo_zero)) gera_maior so_hora ''bronze'' 0 7 [] 5
      (banco_agendado None) = None"
  by (rule Backfill_sem_data [where alvo = "agenda_de_exemplo True None" and def = workflow_vazio and valores = "[]"])
     (simp_all add: gera_maior_ok agenda_Parse_def agenda_de_exemplo_def tempo_zero_def)

text \<open>
  A scheduler that stops between the insert of the run and its enqueueing leaves a run
  that no later call revives: the call that repeats the slot takes the stored key for work
  done, and the run stays \<open>created\<close>, without an item.
\<close>

theorem criar_interrompido:
  assumes ok: "banco_ok b" and g: "gera_ok gera"
    and ch: "chave_do_run rfc slug tr s \<notin> r_chave ` set (db_runs b)"
    and morto: "b' = snd (Criar (gera b) agora (pedido_do_slot rfc slug def tr s params m) b)"
  shows "criarEEnfileirar gera2 rfc slug def2 s tr p params2 m2 agora2 b' = (None, b') \<and>
    status_de b' (gera b) = Some StatusCreated \<and> gera b \<notin> i_run ` set (db_itens b')"
proof -
  have x: "gera b \<noteq> 0" "gera b \<notin> r_id ` set (db_runs b)" using g by (auto simp: gera_ok_def)
  let ?l = "linha_da_run agora (com_padroes (gera b) (pedido_do_slot rfc slug def tr s params m))"
  have b': "b' = b\<lparr>db_runs := db_runs b @ [?l]\<rparr>"
    using x ch by (simp add: morto Criar_def Let_def)
  have "buscar_run (gera b) b = None" using x by (simp add: buscar_run_None_iff)
  then have "status_de b' (gera b) = Some StatusCreated"
    by (simp add: b' status_de_def buscar_run_append)
  moreover have "gera b \<notin> i_run ` set (db_itens b')" using ok x by (auto simp: b' banco_ok_def itens_ok_def)
  moreover have "banco_ok b'" using Criar_ok [OF ok] x by (simp add: morto)
  then have "criarEEnfileirar gera2 rfc slug def2 s tr p params2 m2 agora2 b' = (None, b')"
    by (rule criarEEnfileirar_repete) (simp add: b')
  ultimately show ?thesis by blast
qed

theorem criar_interrompido_witness:
  "let b' = snd (Criar (gera_maior banco_vazio) 5
        (pedido_do_slot so_hora ''bronze'' workflow_vazio TriggerSchedule 0 [] 0) banco_vazio)
   in criarEEnfileirar gera_maior so_hora ''bronze'' workflow_vazio 0 TriggerSchedule 0 [] 0 9 b' = (None, b') \<and>
      status_de b' (gera_maior banco_vazio) = Some StatusCreated"
  using criar_interrompido [OF banco_vazio_ok gera_maior_ok, of so_hora "''bronze''" TriggerSchedule 0 _ 5
      workflow_vazio "[]" 0 gera_maior workflow_vazio 0 "[]" 0 9]
  by (simp add: banco_vazio_def Let_def)

text \<open>
  A manual run is queued with priority 10, with the values resolved against the
  definition, and a second click within the same second starts nothing.
\<close>

theorem Disparar_um_por_segundo:
  assumes ok: "banco_ok b" and g: "gera_ok gera" and d: "Definicao slug b = Inr def"
    and r: "Resolver re (wf_params def) params = Inr valores"
    and ch: "chave_do_run rfc slug TriggerManual (trunca_segundo agora) \<notin> r_chave ` set (db_runs b)"
    and s: "trunca_segundo agora2 = trunca_segundo agora"
    and d2: "Resolver re2 (wf_params def) params2 = Inr valores2"
  shows "\<exists>q b'. Disparar re gera rfc slug agora params b = (Inr (gera b), b') \<and>
    db_runs b' = db_runs b @ [q] \<and> r_status q = StatusQueued \<and> r_params q = valores \<and> r_definicao q = def \<and>
    db_itens b' = db_itens b @ [item_novo (db_seq b) (gera b) 10 agora] \<and>
    Disparar re2 gera2 rfc slug agora2 params2 b' = (Inr 0, b')"
proof -
  have x: "gera b \<noteq> 0" "gera b \<notin> r_id ` set (db_runs b)" using g by (auto simp: gera_ok_def)
  let ?p = "run_pedido slug (chave_do_run rfc slug TriggerManual (trunca_segundo agora)) def TriggerManual
      None valores (wf_max_ativos def)"
  let ?b' = "b\<lparr>db_runs := db_runs b @ [run_enfileirada agora (gera b) ?p],
      db_itens := db_itens b @ [item_novo (db_seq b) (gera b) 10 agora], db_seq := db_seq b + 1\<rparr>"
  obtain r' b1 where "Criar (gera b) agora ?p b = (Inr r', b1)" "r_id r' = gera b"
    "enfileirar (gera b) 10 agora b1 = (None, ?b')"
    by (rule criar_novo [OF ok x, of ?p agora 10]) (use ch in auto)
  then have D: "Disparar re gera rfc slug agora params b = (Inr (gera b), ?b')"
    using d r by (simp add: Disparar_def)
  have "Definicao slug ?b' = Inr def" using d by (simp add: Definicao_def)
  moreover have "chave_do_run rfc slug TriggerManual (trunca_segundo agora2) \<in> r_chave ` set (db_runs ?b')"
    using s by simp
  ultimately have "Disparar re2 gera2 rfc slug agora2 params2 ?b' = (Inr 0, ?b')"
    using d2 by (simp add: Disparar_def Criar_def Let_def)
  moreover have "r_params (run_enfileirada agora (gera b) ?p) = valores"
    "r_definicao (run_enfileirada agora (gera b) ?p) = def"
    by (simp_all add: run_enfileirada_def linha_transicionada_def linha_da_run_def com_padroes_def run_pedido_def Let_def)
  ultimately show ?thesis using D by (intro exI [of _ "run_enfileirada agora (gera b) ?p"] exI [of _ ?b']) simp
qed

theorem Disparar_um_por_segundo_witness:
  "\<exists>b'. Disparar (\<lambda>_. None) gera_maior so_hora ''bronze'' 5 [] (banco_agendado None)
        = (Inr (gera_maior (banco_agendado None)), b') \<and>
    Disparar (\<lambda>_. None) gera_maior so_hora ''bronze'' 9 [] b' = (Inr 0, b')"
  using Disparar_um_por_segundo [of "banco_agendado None" gera_maior "''bronze''" workflow_vazio "\<lambda>_. None" "[]" "[]"
      so_hora 5 9 "\<lambda>_. None" "[]" "[]" gera_maior] gera_maior_ok
  by (auto simp: trunca_segundo_def)

end
