(* ===== verification/Sistema.thy ===== *)
theory Sistema
  imports Dispatcher Scheduler
begin

text \<open>
  The dispatcher and the scheduler over one database, as a step relation: claims, starts and
  ends of executions, the sweep for orphans, new runs, writes of the running work, and
  workers that stop. The invariant is stated over what a client sees of the tables (tickets
  and runs), preserved by each kind of step on that view, and then by the code.
\<close>

section \<open>The view and its invariant\<close>

text \<open>
  \<open>V\<close> are the tickets, \<open>R\<close> the runs, \<open>voo\<close> the executions in flight as ticket, run and
  whether they started, \<open>orf\<close> the tickets a sweep has freed and not yet dealt with.
\<close>

type_synonym em_voo = "(nat \<times> nat \<times> bool) list"

definition com_status :: "(nat \<Rightarrow> run option) \<Rightarrow> nat \<Rightarrow> status \<Rightarrow> bool" where
  "com_status R x s \<longleftrightarrow> map_option r_status (R x) = Some s"

definition voo_ok :: "(nat \<Rightarrow> (nat \<times> posse) option) \<Rightarrow> (nat \<Rightarrow> run option) \<Rightarrow> em_voo \<Rightarrow> bool" where
  "voo_ok V R voo \<longleftrightarrow> distinct (map fst voo) \<and>
     (\<forall>i x e. (i, x, e) \<in> set voo \<longrightarrow> (\<exists>w t. V i = Some (x, Tomado w t)) \<and>
        com_status R x (if e then StatusRunning else StatusQueued))"

definition fila_ok :: "(nat \<Rightarrow> (nat \<times> posse) option) \<Rightarrow> (nat \<Rightarrow> run option) \<Rightarrow> em_voo \<Rightarrow> nat set \<Rightarrow> bool" where
  "fila_ok V R voo orf \<longleftrightarrow>
     (\<forall>i x d. V i = Some (x, Livre d) \<longrightarrow> i \<notin> orf \<longrightarrow> com_status R x StatusQueued) \<and>
     (\<forall>i x w t. V i = Some (x, Tomado w t) \<longrightarrow> i \<notin> fst ` set voo \<longrightarrow> com_status R x StatusRunning) \<and>
     (\<forall>i \<in> orf. i \<notin> fst ` set voo \<and> (\<exists>x p. V i = Some (x, p) \<and> com_status R x StatusRunning)) \<and>
     (\<forall>i j x p q. V i = Some (x, p) \<longrightarrow> V j = Some (x, q) \<longrightarrow> i = j)"

definition runs_ok_em :: "int \<Rightarrow> (nat \<Rightarrow> (nat \<times> posse) option) \<Rightarrow> (nat \<Rightarrow> run option) \<Rightarrow> bool" where
  "runs_ok_em T V R \<longleftrightarrow>
     (\<forall>x r. R x = Some r \<longrightarrow>
        (r_status r \<in> {StatusQueued, StatusRunning} \<longrightarrow> (\<exists>i p. V i = Some (x, p)) \<and> 0 \<le> r_attempt r \<and> r_attempt r < T) \<and>
        (r_status r = StatusFailed \<longrightarrow> T \<le> r_attempt r))"

definition coerente ::
  "int \<Rightarrow> (nat \<Rightarrow> (nat \<times> posse) option) \<Rightarrow> (nat \<Rightarrow> run option) \<Rightarrow> em_voo \<Rightarrow> nat set \<Rightarrow> bool" where
  "coerente T V R voo orf \<longleftrightarrow> voo_ok V R voo \<and> fila_ok V R voo orf \<and> runs_ok_em T V R"

lemma coerenteI :
  assumes "distinct (map fst voo)"
    and "\<And>i x e. (i, x, e) \<in> set voo \<Longrightarrow> \<exists>w t. V i = Some (x, Tomado w t)"
    and "\<And>i x e. (i, x, e) \<in> set voo \<Longrightarrow> com_status R x (if e then StatusRunning else StatusQueued)"
    and "\<And>i x d. V i = Some (x, Livre d) \<Longrightarrow> i \<notin> orf \<Longrightarrow> com_status R x StatusQueued"
    and "\<And>i x w t. V i = Some (x, Tomado w t) \<Longrightarrow> i \<notin> fst ` set voo \<Longrightarrow> com_status R x StatusRunning"
    and "\<And>i. i \<in> orf \<Longrightarrow> i \<notin> fst ` set voo"
    and "\<And>i. i \<in> orf \<Longrightarrow> \<exists>x p. V i = Some (x, p) \<and> com_status R x StatusRunning"
    and "\<And>i j x p q. V i = Some (x, p) \<Longrightarrow> V j = Some (x, q) \<Longrightarrow> i = j"
    and "\<And>x r. R x = Some r \<Longrightarrow> r_status r \<in> {StatusQueued, StatusRunning} \<Longrightarrow> \<exists>i p. V i = Some (x, p)"
    and "\<And>x r. R x = Some r \<Longrightarrow> r_status r \<in> {StatusQueued, StatusRunning} \<Longrightarrow> 0 \<le> r_attempt r"
    and "\<And>x r. R x = Some r \<Longrightarrow> r_status r \<in> {StatusQueued, StatusRunning} \<Longrightarrow> r_attempt r < T"
    and "\<And>x r. R x = Some r \<Longrightarrow> r_status r = StatusFailed \<Longrightarrow> T \<le> r_attempt r"
  shows "coerente T V R voo orf"
  unfolding coerente_def voo_ok_def fila_ok_def runs_ok_em_def by (intro conjI allI impI ballI) (rule assms; assumption)+

lemma coerente_distinto: "coerente T V R voo orf \<Longrightarrow> distinct (map fst voo)"
  unfolding coerente_def voo_ok_def by (elim conjE) blast

lemma coerente_tomado_voo: "coerente T V R voo orf \<Longrightarrow> (i, x, e) \<in> set voo \<Longrightarrow> \<exists>w t. V i = Some (x, Tomado w t)"
  unfolding coerente_def voo_ok_def by (elim conjE) blast

lemma coerente_status_voo: "coerente T V R voo orf \<Longrightarrow> (i, x, e) \<in> set voo \<Longrightarrow> com_status R x (if e then StatusRunning else StatusQueued)"
  unfolding coerente_def voo_ok_def by (elim conjE) blast

lemma coerente_livre: "coerente T V R voo orf \<Longrightarrow> V i = Some (x, Livre d) \<Longrightarrow> i \<notin> orf \<Longrightarrow> com_status R x StatusQueued"
  unfolding coerente_def fila_ok_def by (elim conjE) blast

lemma coerente_tomado: "coerente T V R voo orf \<Longrightarrow> V i = Some (x, Tomado w t) \<Longrightarrow> i \<notin> fst ` set voo \<Longrightarrow> com_status R x StatusRunning"
  unfolding coerente_def fila_ok_def by (elim conjE) blast

lemma coerente_orfao: "coerente T V R voo orf \<Longrightarrow> i \<in> orf \<Longrightarrow> i \<notin> fst ` set voo \<and> (\<exists>x p. V i = Some (x, p) \<and> com_status R x StatusRunning)"
  unfolding coerente_def fila_ok_def by (elim conjE) blast

lemma coerente_unico: "coerente T V R voo orf \<Longrightarrow> V i = Some (x, p) \<Longrightarrow> V j = Some (x, q) \<Longrightarrow> i = j"
  unfolding coerente_def fila_ok_def by (elim conjE) blast

lemma coerente_item: "coerente T V R voo orf \<Longrightarrow> R x = Some r \<Longrightarrow> r_status r \<in> {StatusQueued, StatusRunning} \<Longrightarrow> \<exists>i p. V i = Some (x, p)"
  unfolding coerente_def runs_ok_em_def by (elim conjE) blast

lemma coerente_tentativas: "coerente T V R voo orf \<Longrightarrow> R x = Some r \<Longrightarrow> r_status r \<in> {StatusQueued, StatusRunning} \<Longrightarrow> 0 \<le> r_attempt r \<and> r_attempt r < T"
  unfolding coerente_def runs_ok_em_def by (elim conjE) blast

lemma coerente_falhou: "coerente T V R voo orf \<Longrightarrow> R x = Some r \<Longrightarrow> r_status r = StatusFailed \<Longrightarrow> T \<le> r_attempt r"
  unfolding coerente_def runs_ok_em_def by (elim conjE) blast

lemma com_status_upd [simp]:
  "com_status (R(x \<mapsto> r)) y s \<longleftrightarrow> (if y = x then r_status r = s else com_status R y s)"
  by (simp add: com_status_def)

lemma com_status_fun: "com_status R x s \<Longrightarrow> com_status R x s' \<Longrightarrow> s = s'"
  by (auto simp: com_status_def)

text \<open>Every ticket is of a run waiting or executing.\<close>

lemma coerente_ticket:
  assumes c: "coerente T V R voo orf" and v: "V i = Some (x, p)"
  shows "com_status R x StatusQueued \<or> com_status R x StatusRunning"
proof (cases "i \<in> fst ` set voo")
  case True
  then obtain y e where m: "(i, y, e) \<in> set voo" by force
  then have "y = x" using coerente_tomado_voo [OF c m] v by auto
  with coerente_status_voo [OF c m] show ?thesis by (cases e) auto
next
  case False
  show ?thesis
  proof (cases "i \<in> orf")
    case True
    then show ?thesis using coerente_orfao [OF c True] v by auto
  next
    case o: False
    show ?thesis
    proof (cases p)
      case (Livre d)
      then show ?thesis using coerente_livre [OF c _ o] v by blast
    next
      case (Tomado w t)
      then show ?thesis using coerente_tomado [OF c _ False] v by blast
    qed
  qed
qed

section \<open>The steps on the view\<close>

definition tomada :: "(nat \<Rightarrow> (nat \<times> posse) option) \<Rightarrow> nat list \<Rightarrow> string \<Rightarrow> time \<Rightarrow> nat \<Rightarrow> (nat \<times> posse) option" where
  "tomada V is w t i = (if i \<in> set is then map_option (\<lambda>(x, _). (x, Tomado w t)) (V i) else V i)"

lemma coerente_tomar:
  assumes c: "coerente T V R voo {}" and d: "distinct (map fst ps)"
    and l: "\<And>i x. (i, x) \<in> set ps \<Longrightarrow> \<exists>d. V i = Some (x, Livre d)"
  shows "coerente T (tomada V (map fst ps) w t) R (voo @ map (\<lambda>(i, x). (i, x, False)) ps) {}"
proof -
  let ?V = "tomada V (map fst ps) w t"
  let ?voo = "voo @ map (\<lambda>(i, x). (i, x, False)) ps"
  have V: "?V i = Some (x, p) \<longleftrightarrow> (if i \<in> fst ` set ps then p = Tomado w t \<and> (\<exists>q. V i = Some (x, q)) else V i = Some (x, p))"
    for i x p by (auto simp: tomada_def)
  have ids: "fst ` set ?voo = fst ` set voo \<union> fst ` set ps" by force
  have disj: "i \<notin> fst ` set ps" if m: "(i, x, e) \<in> set voo" for i x e
  proof
    assume "i \<in> fst ` set ps"
    then obtain y where "(i, y) \<in> set ps" by force
    from l [OF this] coerente_tomado_voo [OF c m] show False by auto
  qed
  have casos: "(i, x, e) \<in> set voo \<or> (i, x) \<in> set ps \<and> \<not> e" if "(i, x, e) \<in> set ?voo" for i x e
    using that by auto
  show ?thesis
  proof (rule coerenteI, goal_cases)
    case 1
    have "map fst ?voo = map fst voo @ map fst ps" by (simp add: split_beta comp_def)
    then show ?case using coerente_distinto [OF c] d disj by (simp only: distinct_append) force
  next
    case (2 i x e)
    from casos [OF this] show ?case
    proof
      assume m: "(i, x, e) \<in> set voo"
      show ?thesis using coerente_tomado_voo [OF c m] disj [OF m] by (simp add: V)
    next
      assume p: "(i, x) \<in> set ps \<and> \<not> e"
      then have "i \<in> fst ` set ps" by force
      then show ?thesis using l p by (auto simp: V)
    qed
  next
    case (3 i x e)
    from casos [OF this] show ?case
      using coerente_status_voo [OF c] l coerente_livre [OF c] by fastforce
  next
    case (4 i x d)
    then show ?case using coerente_livre [OF c] by (auto simp: V split: if_splits)
  next
    case (5 i x u v)
    then show ?case using coerente_tomado [OF c] unfolding ids by (auto simp: V split: if_splits)
  next
    case (8 i j x p q)
    then show ?case using coerente_unico [OF c] by (auto simp: V split: if_splits)
  next
    case (9 x r)
    from coerente_item [OF c this] show ?case by (auto simp: tomada_def split: if_splits)
  next
    case (10 x r)
    then show ?case by (rule coerente_tentativas [OF c, THEN conjunct1])
  next
    case (11 x r)
    then show ?case by (rule coerente_tentativas [OF c, THEN conjunct2])
  next
    case (12 x r)
    then show ?case by (rule coerente_falhou [OF c])
  qed simp_all
qed

text \<open>A started execution.\<close>

lemma coerente_inicio:
  assumes c: "coerente T V R (v1 @ (i, x, False) # v2) {}" and r: "R x = Some r"
    and r': "r_status r' = StatusRunning" "r_attempt r' = r_attempt r"
  shows "coerente T V (R(x \<mapsto> r')) (v1 @ (i, x, True) # v2) {}"
proof -
  have m: "(i, x, False) \<in> set (v1 @ (i, x, False) # v2)" by simp
  obtain w t where Vi: "V i = Some (x, Tomado w t)" using coerente_tomado_voo [OF c m] by blast
  have s: "r_status r = StatusQueued" using coerente_status_voo [OF c m] r by (simp add: com_status_def)
  have att: "0 \<le> r_attempt r' \<and> r_attempt r' < T" using coerente_tentativas [OF c r] s r'(2) by simp
  have so: "j = i" if "V j = Some (x, p)" for j p using coerente_unico [OF c that Vi] .
  have ids: "fst ` set (v1 @ (i, x, True) # v2) = fst ` set (v1 @ (i, x, False) # v2)" by simp
  have outra: "(j, y, e) \<in> set (v1 @ (i, x, False) # v2) \<and> y \<noteq> x" if "(j, y, e) \<in> set (v1 @ v2)" for j y e
  proof
    show v: "(j, y, e) \<in> set (v1 @ (i, x, False) # v2)" using that by auto
    show "y \<noteq> x"
    proof
      assume "y = x"
      then have "j = i" using coerente_tomado_voo [OF c v] so by blast
      moreover have "distinct (map fst (v1 @ (i, x, False) # v2))" by (rule coerente_distinto [OF c])
      ultimately show False using that by force
    qed
  qed
  have casos: "(j, y, e) = (i, x, True) \<or> (j, y, e) \<in> set (v1 @ v2)" if "(j, y, e) \<in> set (v1 @ (i, x, True) # v2)" for j y e
    using that by auto
  show ?thesis
  proof (rule coerenteI, goal_cases)
    case 1
    show ?case using coerente_distinto [OF c] by simp
  next
    case (2 j y e)
    from casos [OF this] Vi outra coerente_tomado_voo [OF c] show ?case by blast
  next
    case (3 j y e)
    from casos [OF this] show ?case
    proof
      assume v: "(j, y, e) \<in> set (v1 @ v2)"
      show ?thesis using outra [OF v] coerente_status_voo [OF c, of j y e] by (simp del: set_append)
    qed (simp add: r')
  next
    case (4 j y d)
    then show ?case using coerente_livre [OF c] so Vi by fastforce
  next
    case (5 j y w t)
    then have "com_status R y StatusRunning" using coerente_tomado [OF c] unfolding ids by blast
    then show ?case using r' by simp
  next
    case (8 i j x p q)
    then show ?case by (rule coerente_unico [OF c])
  next
    case (9 y q)
    then show ?case using coerente_item [OF c, of y q] Vi by (cases "y = x") auto
  next
    case (10 y q)
    then show ?case using att coerente_tentativas [OF c, of y q] by (cases "y = x") auto
  next
    case (11 y q)
    then show ?case using att coerente_tentativas [OF c, of y q] by (cases "y = x") auto
  next
    case (12 y q)
    then show ?case using coerente_falhou [OF c, of y q] r' by (cases "y = x") auto
  qed simp_all
qed

definition sem :: "nat \<Rightarrow> em_voo \<Rightarrow> em_voo" where
  "sem i voo = filter (\<lambda>v. fst v \<noteq> i) voo"

lemma sem_set: "v \<in> set (sem i voo) \<longleftrightarrow> v \<in> set voo \<and> fst v \<noteq> i" by (simp add: sem_def)

lemma sem_ids: "j \<in> fst ` set (sem i voo) \<longleftrightarrow> j \<in> fst ` set voo \<and> j \<noteq> i"
  by (auto simp: sem_def)

lemma sem_fora: "i \<notin> fst ` set voo \<Longrightarrow> sem i voo = voo"
  by (auto simp: sem_def intro!: filter_True)

text \<open>The end of an attempt of a running run: its ticket is gone for good, or free again.\<close>

definition desfecho :: "int \<Rightarrow> nat \<Rightarrow> (nat \<times> posse) option \<Rightarrow> run \<Rightarrow> bool" where
  "desfecho T x v r \<longleftrightarrow>
     v = None \<and> r_status r \<notin> {StatusQueued, StatusRunning} \<and> (r_status r = StatusFailed \<longrightarrow> T \<le> r_attempt r) \<or>
     (\<exists>d. v = Some (x, Livre d)) \<and> r_status r = StatusQueued \<and> 0 \<le> r_attempt r \<and> r_attempt r < T"

lemma coerente_fim:
  assumes c: "coerente T V R voo orf" and i: "V i = Some (x, p)" and s: "com_status R x StatusRunning"
    and d: "desfecho T x v r'"
  shows "coerente T (V(i := v)) (R(x \<mapsto> r')) (sem i voo) (orf - {i})"
proof -
  have so: "j = i" if "V j = Some (x, q)" for j q using coerente_unico [OF c that i] .
  have outra: "y \<noteq> x" if m: "(j, y, e) \<in> set voo" "j \<noteq> i" for j y e
    using coerente_tomado_voo [OF c m(1)] so m(2) by blast
  have antigo: "j \<noteq> i \<and> V j = Some (y, q) \<and> y \<noteq> x \<or> j = i \<and> y = x \<and> r_status r' = StatusQueued \<and> (\<exists>d. q = Livre d)"
    if "(V(i := v)) j = Some (y, q)" for j y q
    using that d so by (auto simp: desfecho_def split: if_splits)
  show ?thesis
  proof (rule coerenteI, goal_cases)
    case 1
    show ?case using coerente_distinto [OF c] by (simp add: sem_def distinct_map_filter)
  next
    case (2 j y e)
    then show ?case using coerente_tomado_voo [OF c, of j y e] by (simp add: sem_set)
  next
    case (3 j y e)
    then show ?case using coerente_status_voo [OF c, of j y e] outra [of j y e] by (simp add: sem_set)
  next
    case (4 j y d)
    from antigo [OF 4(1)] show ?case using coerente_livre [OF c, of j y d] 4(2) by auto
  next
    case (5 j y w t)
    from antigo [OF 5(1)] show ?case using coerente_tomado [OF c, of j y w t] 5(2) by (auto simp: sem_ids)
  next
    case (6 j)
    then obtain y q where "V j = Some (y, q)" "com_status R y StatusRunning" "j \<notin> fst ` set voo" "j \<noteq> i"
      using coerente_orfao [OF c, of j] by auto
    then show ?case using so by (auto simp: sem_ids)
  next
    case (7 j)
    then obtain y q where "V j = Some (y, q)" "com_status R y StatusRunning" "j \<notin> fst ` set voo" "j \<noteq> i"
      using coerente_orfao [OF c, of j] by auto
    then show ?case using so by (auto simp: sem_ids)
  next
    case (8 j k y q q')
    from antigo [OF 8(1)] antigo [OF 8(2)] show ?case using coerente_unico [OF c, of j y q k q'] by auto
  next
    case (9 y q)
    show ?case
    proof (cases "y = x")
      case True
      then show ?thesis using 9 d by (auto simp: desfecho_def)
    next
      case False
      then obtain j q' where j: "V j = Some (y, q')" using coerente_item [OF c, of y q] 9 by auto
      with i False have "j \<noteq> i" by auto
      with j show ?thesis by (intro exI [of _ j] exI [of _ q']) simp
    qed
  next
    case (10 y q)
    then show ?case using coerente_tentativas [OF c, of y q] d by (cases "y = x") (auto simp: desfecho_def)
  next
    case (11 y q)
    then show ?case using coerente_tentativas [OF c, of y q] d by (cases "y = x") (auto simp: desfecho_def)
  next
    case (12 y q)
    then show ?case using coerente_falhou [OF c, of y q] d by (cases "y = x") (auto simp: desfecho_def)
  qed
qed

text \<open>A sweep frees tickets of runs nobody executes.\<close>

lemma coerente_varredura:
  assumes c: "coerente T V R voo {}" and o: "orf \<inter> fst ` set voo = {}"
    and l: "\<And>i. i \<in> orf \<Longrightarrow> \<exists>x w t d. V i = Some (x, Tomado w t) \<and> V' i = Some (x, Livre d)"
    and f: "\<And>i. i \<notin> orf \<Longrightarrow> V' i = V i"
  shows "coerente T V' R voo orf"
proof -
  have V: "\<exists>q. V i = Some (x, q)" if "V' i = Some (x, p)" for i x p
    using l [of i] f [of i] that by (cases "i \<in> orf") (auto, metis)
  show ?thesis
  proof (rule coerenteI, goal_cases)
    case 1
    show ?case by (rule coerente_distinto [OF c])
  next
    case (2 i x e)
    then have "i \<notin> orf" using o by force
    then show ?case using coerente_tomado_voo [OF c 2] f by simp
  next
    case (3 i x e)
    then show ?case by (rule coerente_status_voo [OF c])
  next
    case (4 i x d)
    then show ?case using coerente_livre [OF c, of i x d] f by simp
  next
    case (5 i x w t)
    have "i \<notin> orf" using l [of i] 5(1) by auto
    then show ?case using coerente_tomado [OF c, of i x w t] f 5 by simp
  next
    case (6 i)
    have "i \<notin> fst ` set voo" using o 6 by blast
    then show ?case using l [OF 6] coerente_tomado [OF c, of i] by blast
  next
    case (7 i)
    have "i \<notin> fst ` set voo" using o 7 by blast
    then show ?case using l [OF 7] coerente_tomado [OF c, of i] by blast
  next
    case (8 i j x p q)
    then show ?case using V coerente_unico [OF c] by blast
  next
    case (9 x r)
    then obtain i p where i: "V i = Some (x, p)" using coerente_item [OF c] by blast
    then show ?case using l [of i] f [of i] by (cases "i \<in> orf") auto
  next
    case (10 x r)
    then show ?case by (rule coerente_tentativas [OF c, THEN conjunct1])
  next
    case (11 x r)
    then show ?case by (rule coerente_tentativas [OF c, THEN conjunct2])
  next
    case (12 x r)
    then show ?case by (rule coerente_falhou [OF c])
  qed
qed

text \<open>A new run comes with its ticket.\<close>

lemma coerente_entra:
  assumes c: "coerente T V R voo {}" and x: "R x = None" "V i = None"
    and s: "r_status r = StatusQueued" "r_attempt r = 0" and T: "0 < T"
  shows "coerente T (V(i \<mapsto> (x, Livre d))) (R(x \<mapsto> r)) voo {}"
proof -
  have nx: "y \<noteq> x" if "V j = Some (y, p)" for j y p
    using coerente_ticket [OF c that] x by (auto simp: com_status_def)
  have antigo: "j \<noteq> i \<and> V j = Some (y, q) \<and> y \<noteq> x \<or> j = i \<and> y = x \<and> q = Livre d"
    if "(V(i \<mapsto> (x, Livre d))) j = Some (y, q)" for j y q
    using that nx by (auto split: if_splits)
  have voo: "j \<noteq> i \<and> y \<noteq> x" if "(j, y, e) \<in> set voo" for j y e
    using coerente_tomado_voo [OF c that] nx x(2) by auto
  show ?thesis
  proof (rule coerenteI, goal_cases)
    case 1
    show ?case by (rule coerente_distinto [OF c])
  next
    case (2 j y e)
    then show ?case using coerente_tomado_voo [OF c 2] voo by auto
  next
    case (3 j y e)
    then show ?case using coerente_status_voo [OF c 3] voo [OF 3] by simp
  next
    case (4 j y d')
    from antigo [OF 4(1)] show ?case using coerente_livre [OF c, of j y d'] s by auto
  next
    case (5 j y w t)
    from antigo [OF 5(1)] show ?case using coerente_tomado [OF c, of j y w t] 5(2) by auto
  next
    case (8 j k y q q')
    from antigo [OF 8(1)] antigo [OF 8(2)] show ?case using coerente_unico [OF c, of j y q k q'] by auto
  next
    case (9 y q)
    show ?case
    proof (cases "y = x")
      case False
      then obtain j p where j: "V j = Some (y, p)" using coerente_item [OF c, of y q] 9 by auto
      with x(2) have "j \<noteq> i" by auto
      with j show ?thesis by (intro exI [of _ j] exI [of _ p]) simp
    qed (intro exI [of _ i] exI [of _ "Livre d"], simp)
  next
    case (10 y q)
    then show ?case using coerente_tentativas [OF c, of y q] s T by (cases "y = x") auto
  next
    case (11 y q)
    then show ?case using coerente_tentativas [OF c, of y q] s T by (cases "y = x") auto
  next
    case (12 y q)
    then show ?case using coerente_falhou [OF c, of y q] s by (cases "y = x") auto
  qed simp_all
qed

lemma coerente_queda:
  assumes c: "coerente T V R voo {}" and e: "\<And>i x. (i, x, False) \<notin> set voo"
  shows "coerente T V R [] {}"
proof (rule coerenteI, goal_cases)
  case (4 i x d)
  then show ?case by (rule coerente_livre [OF c])
next
  case (5 i x w t)
  show ?case
  proof (cases "i \<in> fst ` set voo")
    case True
    then obtain y b where m: "(i, y, b) \<in> set voo" by force
    with e have "b" by (cases b) auto
    moreover have "y = x" using coerente_tomado_voo [OF c m] 5(1) by auto
    ultimately show ?thesis using coerente_status_voo [OF c m] by simp
  next
    case False
    then show ?thesis using coerente_tomado [OF c] 5(1) by blast
  qed
next
  case (8 i j x p q)
  then show ?case by (rule coerente_unico [OF c])
next
  case (9 x r)
  then show ?case by (rule coerente_item [OF c])
next
  case (10 x r)
  then show ?case by (rule coerente_tentativas [OF c, THEN conjunct1])
next
  case (11 x r)
  then show ?case by (rule coerente_tentativas [OF c, THEN conjunct2])
next
  case (12 x r)
  then show ?case by (rule coerente_falhou [OF c])
qed simp_all

section \<open>The system\<close>

record mundo =
  mu_banco :: banco
  mu_voo :: "(item \<times> bool) list"
  mu_alertas :: "alerta list"

definition visto :: "(item \<times> bool) list \<Rightarrow> em_voo" where
  "visto voo = map (\<lambda>(it, e). (i_id it, i_run it, e)) voo"

text \<open>
  The steps. \<open>orfaos\<close> asks what the comment of \<open>Config.Visibilidade\<close> asks: no execution in
  flight is older than the visibility. \<open>queda\<close> is a process that stops, with everything
  it had started.
\<close>

inductive evento ::
  "(nat \<Rightarrow> string) \<Rightarrow> (time \<Rightarrow> string) \<Rightarrow> gerador \<Rightarrow> rfc3339 \<Rightarrow> config_disp \<Rightarrow> mundo \<Rightarrow> mundo \<Rightarrow> bool"
  for uuid dur gera rfc cfg where
  claim: "cicloDeClaim {} cfg (length (mu_voo m)) agora (mu_banco m) = (is, b) \<Longrightarrow>
     evento uuid dur gera rfc cfg m (m\<lparr>mu_banco := b, mu_voo := mu_voo m @ map (\<lambda>it. (it, False)) is\<rparr>)"
| inicio: "mu_voo m = v1 @ (it, False) # v2 \<Longrightarrow> processar_inicio it agora (mu_banco m) = (ok, b) \<Longrightarrow>
     evento uuid dur gera rfc cfg m (m\<lparr>mu_banco := b, mu_voo := (if ok then v1 @ (it, True) # v2 else v1 @ v2)\<rparr>)"
| tarefa: "evento uuid dur gera rfc cfg m (m\<lparr>mu_banco := snd (IniciarTask x nid k agora (mu_banco m))\<rparr>)"
| desfecho: "evento uuid dur gera rfc cfg m (m\<lparr>mu_banco := TerminarTask x nid k st ex er lg agora (mu_banco m)\<rparr>)"
| fim: "mu_voo m = v1 @ (it, True) # v2 \<Longrightarrow> processar_fim uuid cfg it res agora (mu_banco m) = (as, b) \<Longrightarrow>
     evento uuid dur gera rfc cfg m (m\<lparr>mu_banco := b, mu_voo := v1 @ v2, mu_alertas := mu_alertas m @ as\<rparr>)"
| orfaos: "RecuperarOrfaos uuid dur cfg agora (mu_banco m) = (n, as, b) \<Longrightarrow>
     (\<And>q. q \<in> set (db_itens (mu_banco m)) \<Longrightarrow> vencido (cf_visibilidade cfg) agora q \<Longrightarrow>
        i_id q \<notin> i_id ` fst ` set (mu_voo m)) \<Longrightarrow>
     evento uuid dur gera rfc cfg m (m\<lparr>mu_banco := b, mu_alertas := mu_alertas m @ as\<rparr>)"
| queda: "(\<And>it. (it, False) \<notin> set (mu_voo m)) \<Longrightarrow> evento uuid dur gera rfc cfg m (m\<lparr>mu_voo := []\<rparr>)"
| entra: "criarEEnfileirar gera rfc slug def s tr p params lim agora (mu_banco m) = (e, b) \<Longrightarrow>
     evento uuid dur gera rfc cfg m (m\<lparr>mu_banco := b\<rparr>)"

definition falhadas :: "banco \<Rightarrow> nat" where
  "falhadas b = length (filter (\<lambda>r. r_status r = StatusFailed) (db_runs b))"

definition sistema_ok :: "config_disp \<Rightarrow> mundo \<Rightarrow> bool" where
  "sistema_ok cfg m \<longleftrightarrow> banco_ok (mu_banco m) \<and> int (length (mu_voo m)) \<le> cf_max cfg \<and>
     (cf_alertas cfg \<longrightarrow> length (mu_alertas m) = falhadas (mu_banco m)) \<and>
     coerente (cf_tentativas cfg) (ver_item (mu_banco m)) (\<lambda>x. buscar_run x (mu_banco m)) (visto (mu_voo m)) {}"

lemma sistema_okI:
  "banco_ok b \<Longrightarrow> int (length voo) \<le> cf_max cfg \<Longrightarrow> (cf_alertas cfg \<Longrightarrow> length as = falhadas b) \<Longrightarrow>
   coerente (cf_tentativas cfg) (ver_item b) (\<lambda>x. buscar_run x b) (visto voo) {} \<Longrightarrow>
   mu_banco m = b \<Longrightarrow> mu_voo m = voo \<Longrightarrow> mu_alertas m = as \<Longrightarrow> sistema_ok cfg m"
  by (simp add: sistema_ok_def)

lemma visto_simps [simp]:
  "visto [] = []" "visto ((it, e) # v) = (i_id it, i_run it, e) # visto v" "visto (v @ v') = visto v @ visto v'"
  by (simp_all add: visto_def)

lemma visto_ids: "fst ` set (visto voo) = i_id ` fst ` set voo"
  by (force simp: visto_def)

text \<open>How many runs failed.\<close>

lemma falhadas_atualiza:
  assumes ok: "banco_ok b" and r: "buscar_run x b = Some r" and f: "\<And>q. r_id (f q) = r_id q"
  shows "falhadas (atualiza_run x f b) + (if r_status r = StatusFailed then 1 else 0) =
    falhadas b + (if r_status (f r) = StatusFailed then 1 else 0)"
proof -
  have G: "length (filter P (map (\<lambda>q. if r_id q = x then f q else q) rs)) + (if P r then 1 else 0) =
      length (filter P rs) + (if P (f r) then 1 else 0)"
    if "distinct (map r_id rs)" "find (\<lambda>q. r_id q = x) rs = Some r" for P and rs :: "run list"
    using that
  proof (induction rs)
    case (Cons a rs)
    show ?case
    proof (cases "r_id a = x")
      case True
      then have "map (\<lambda>q. if r_id q = x then f q else q) rs = rs"
        using Cons.prems(1) by (intro map_idI) (auto simp: rev_image_eqI)
      then show ?thesis using True Cons.prems by auto
    next
      case False
      then show ?thesis using Cons by auto
    qed
  qed simp
  show ?thesis
    using G [of "db_runs b" "\<lambda>r. r_status r = StatusFailed"] ok r
    by (simp add: falhadas_def atualiza_run_def buscar_run_def banco_ok_def runs_ok_def)
qed

lemma falhadas_itens [simp]:
  "falhadas (Done i b) = falhadas b" "falhadas (Release i d t b) = falhadas b"
  "falhadas (b\<lparr>db_itens := qs\<rparr>) = falhadas b" "falhadas (b\<lparr>db_tasks := ts\<rparr>) = falhadas b"
  by (simp_all add: falhadas_def Done_def Release_def atualiza_item_def)

lemma falhar_conta:
  assumes ok: "banco_ok b" and r: "buscar_run (i_run it) b = Some r" "r_status r = StatusRunning" and a: "cf_alertas cfg"
  shows "falhadas (snd (falhar uuid cfg it causa agora b)) =
    falhadas b + length (fst (falhar uuid cfg it causa agora b))"
proof (cases "desiste cfg r")
  case True
  then show ?thesis
    using falhar_desiste [OF r, of cfg uuid causa agora] falhadas_atualiza [OF ok r(1), of "linha_falha causa agora"]
      falhar_alertas [OF r, of uuid cfg causa agora] r(2) a by (simp add: desiste_def)
next
  case False
  then show ?thesis
    using falhar_volta [OF r, of cfg uuid causa agora] falhadas_atualiza [OF ok r(1), of "linha_volta causa agora"]
      falhar_alertas [OF r, of uuid cfg causa agora] r(2) a by (simp add: desiste_def)
qed

section \<open>Every step of the code is a step on the view\<close>

lemma Claim_elem:
  "it \<in> set (fst (Claim tr w l t b)) \<Longrightarrow> \<exists>q \<in> set (db_itens b). i_id it = i_id q \<and> i_run it = i_run q"
  by (auto simp: Claim_def Let_def split: if_splits) (metis reivindicar_campos(1,2))+

lemma Claim_runs [simp]:
  "buscar_run x (snd (Claim tr w l t b)) = buscar_run x b" "falhadas (snd (Claim tr w l t b)) = falhadas b"
  by (simp_all add: Claim_def Let_def)

lemma passo_claim:
  assumes ok: "sistema_ok cfg m" and e: "cicloDeClaim {} cfg (length (mu_voo m)) agora (mu_banco m) = (is, b)"
  shows "sistema_ok cfg (m\<lparr>mu_banco := b, mu_voo := mu_voo m @ map (\<lambda>it. (it, False)) is\<rparr>)"
proof (cases "cf_max cfg - int (length (mu_voo m)) \<le> 0")
  case True
  with e have "is = []" "b = mu_banco m" by (simp_all add: cicloDeClaim_def)
  with ok show ?thesis by (simp add: sistema_ok_def)
next
  case False
  define l where "l = cf_max cfg - int (length (mu_voo m))"
  let ?b = "mu_banco m" and ?w = "cf_worker cfg"
  have bok: "banco_ok ?b" and c: "coerente (cf_tentativas cfg) (ver_item ?b) (\<lambda>x. buscar_run x ?b) (visto (mu_voo m)) {}"
    using ok by (simp_all add: sistema_ok_def)
  have C: "Claim {} ?w l agora ?b = (is, b)" using e False by (simp add: cicloDeClaim_def l_def)
  have T: "tomar_itens ?w l agora ?b = (map i_id is, b)" by (simp add: tomar_itens_def C)
  let ?ps = "map (\<lambda>it. (i_id it, i_run it)) is"
  have ids: "map fst ?ps = map i_id is" by simp
  have "coerente (cf_tentativas cfg) (tomada (ver_item ?b) (map fst ?ps) ?w agora) (\<lambda>x. buscar_run x ?b)
      (visto (mu_voo m) @ map (\<lambda>(i, x). (i, x, False)) ?ps) {}"
  proof (rule coerente_tomar [OF c])
    show "distinct (map fst ?ps)" unfolding ids using sql.tomar_distintos [OF bok, of ?w l agora] by (simp add: T)
  next
    fix i x assume "(i, x) \<in> set ?ps"
    then obtain it where it: "it \<in> set is" "i = i_id it" "x = i_run it" by auto
    then obtain q where q: "q \<in> set (db_itens ?b)" "i_id it = i_id q" "i_run it = i_run q"
      using Claim_elem [of it "{}" ?w l agora ?b] by (auto simp: C)
    have "i \<in> set (fst (tomar_itens ?w l agora ?b))" using it by (simp add: T)
    from sql.tomar_livre [OF bok this] show "\<exists>d. ver_item ?b i = Some (x, Livre d)"
      using ver_item_iff [OF bok q(1)] q it by auto
  qed
  moreover have "ver_item b = tomada (ver_item ?b) (map fst ?ps) ?w agora"
    using ver_tomar_sql [OF bok, of ?w l agora] by (simp add: T fun_eq_iff tomada_def ids)
  moreover have "visto (mu_voo m @ map (\<lambda>it. (it, False)) is) = visto (mu_voo m) @ map (\<lambda>(i, x). (i, x, False)) ?ps"
    by (simp add: visto_def)
  moreover have "buscar_run x b = buscar_run x ?b" "falhadas b = falhadas ?b" for x
    using Claim_runs(1) [of x "{}" ?w l agora ?b] Claim_runs(2) [of "{}" ?w l agora ?b] by (simp_all add: C)
  moreover have "banco_ok b" using Claim_ok [OF bok, of "{}" ?w l agora] by (simp add: C)
  moreover have "length is \<le> nat l" using sql.tomar_poucos [OF bok, of ?w l agora] by (simp add: T)
  ultimately show ?thesis using ok False by (intro sistema_okI) (auto simp: sistema_ok_def l_def)
qed

lemma linha_transicionada_attempt [simp]: "r_attempt (linha_transicionada s t r) = r_attempt r"
  by (simp add: linha_transicionada_def Let_def)

lemma buscar_run_upd:
  "buscar_run x b = Some r \<Longrightarrow> (\<And>q. r_id (f q) = r_id q) \<Longrightarrow>
   (\<lambda>y. buscar_run y (atualiza_run x f b)) = (\<lambda>y. buscar_run y b)(x \<mapsto> f r)"
  by (auto simp: fun_eq_iff buscar_atualiza)

lemma ver_item_runs_fun: "ver_item (atualiza_run x f b) = ver_item b"
  by (simp add: fun_eq_iff)

lemma passo_inicio:
  assumes ok: "sistema_ok cfg m" and v: "mu_voo m = v1 @ (it, False) # v2"
    and e: "processar_inicio it agora (mu_banco m) = (k, b)"
  shows "sistema_ok cfg (m\<lparr>mu_banco := b, mu_voo := (if k then v1 @ (it, True) # v2 else v1 @ v2)\<rparr>)"
proof -
  let ?b = "mu_banco m" and ?x = "i_run it"
  have bok: "banco_ok ?b"
    and c: "coerente (cf_tentativas cfg) (ver_item ?b) (\<lambda>x. buscar_run x ?b) (visto v1 @ (i_id it, ?x, False) # visto v2) {}"
    using ok v by (simp_all add: sistema_ok_def)
  have "com_status (\<lambda>x. buscar_run x ?b) ?x StatusQueued"
    using coerente_status_voo [OF c, of "i_id it" ?x False] by simp
  then obtain r where r: "buscar_run ?x ?b = Some r" "r_status r = StatusQueued" by (auto simp: com_status_def)
  let ?f = "linha_transicionada StatusRunning agora"
  have "Transicionar ?x StatusRunning agora ?b = (None, atualiza_run ?x ?f ?b)"
    using Transicionar_aceita [OF r(1)] r(2) by (simp add: passo.intros)
  with e have k: "k" "b = atualiza_run ?x ?f ?b" by (simp_all add: processar_inicio_def)
  have "coerente (cf_tentativas cfg) (ver_item b) (\<lambda>x. buscar_run x b) (visto v1 @ (i_id it, ?x, True) # visto v2) {}"
    using coerente_inicio [OF c r(1), of "?f r"] by (simp add: k(2) buscar_run_upd [OF r(1)] ver_item_runs_fun)
  moreover have "banco_ok b" using bok by (simp add: k(2) atualiza_run_ok)
  moreover have "falhadas b = falhadas ?b" using falhadas_atualiza [OF bok r(1), of ?f] r(2) by (simp add: k(2))
  ultimately show ?thesis using ok v k(1) by (intro sistema_okI) (auto simp: sistema_ok_def)
qed


lemma sem_meio:
  "distinct (map fst (visto v1 @ (i, x, e) # visto v2)) \<Longrightarrow>
   sem i (visto v1 @ (i, x, e) # visto v2) = visto v1 @ visto v2"
  using sem_fora [of i "visto v1"] sem_fora [of i "visto v2"] by (simp add: sem_def)

lemma passo_fim:
  assumes ok: "sistema_ok cfg m" and v: "mu_voo m = v1 @ (it, True) # v2"
    and e: "processar_fim uuid cfg it res agora (mu_banco m) = (as, b)"
  shows "sistema_ok cfg (m\<lparr>mu_banco := b, mu_voo := v1 @ v2, mu_alertas := mu_alertas m @ as\<rparr>)"
proof -
  let ?b = "mu_banco m" and ?x = "i_run it" and ?i = "i_id it" and ?T = "cf_tentativas cfg"
  let ?V = "ver_item ?b" and ?R = "\<lambda>x. buscar_run x ?b" and ?voo = "visto v1 @ (i_id it, i_run it, True) # visto v2"
  have bok: "banco_ok ?b" and c: "coerente ?T ?V ?R ?voo {}"
    using ok v by (simp_all add: sistema_ok_def)
  obtain w t where Vi: "?V ?i = Some (?x, Tomado w t)"
    using coerente_tomado_voo [OF c, of ?i ?x True] by auto
  have s: "com_status ?R ?x StatusRunning" using coerente_status_voo [OF c, of ?i ?x True] by simp
  then obtain r where r: "buscar_run ?x ?b = Some r" "r_status r = StatusRunning" by (auto simp: com_status_def)
  have t: "0 \<le> r_attempt r \<and> r_attempt r < ?T" using coerente_tentativas [OF c r(1)] r(2) by simp
  have sem: "sem ?i ?voo = visto v1 @ visto v2" using coerente_distinto [OF c] by (rule sem_meio)
  have "\<exists>u r'. desfecho ?T ?x u r' \<and> ver_item b = ?V(?i := u) \<and> (\<lambda>x. buscar_run x b) = ?R(?x \<mapsto> r') \<and>
      banco_ok b \<and> (cf_alertas cfg \<longrightarrow> falhadas b = falhadas ?b + length as)"
  proof (cases res)
    case None
    let ?f = "linha_transicionada StatusSuccess agora"
    have "Transicionar ?x StatusSuccess agora ?b = (None, atualiza_run ?x ?f ?b)"
      using Transicionar_aceita [OF r(1)] r(2) by (simp add: passo.intros)
    with e None have b: "as = []" "b = Done ?i (atualiza_run ?x ?f ?b)" by (simp_all add: processar_fim_def)
    have "desfecho ?T ?x None (?f r)" by (simp add: desfecho_def)
    moreover have "ver_item b = ?V(?i := None)" by (simp add: b(2) fun_eq_iff ver_concluir_sql)
    moreover have "(\<lambda>x. buscar_run x b) = ?R(?x \<mapsto> ?f r)" using buscar_run_upd [OF r(1), of ?f] by (simp add: b(2))
    moreover have "banco_ok b" using bok by (simp add: b(2) Done_ok atualiza_run_ok)
    moreover have "falhadas b = falhadas ?b + length as" using falhadas_atualiza [OF bok r(1), of ?f] r(2) by (simp add: b)
    ultimately show ?thesis by blast
  next
    case (Some causa)
    with e have f: "falhar uuid cfg it causa agora ?b = (as, b)" by (simp add: processar_fim_def)
    note ver = falhar_ver [OF r, of uuid cfg causa agora, unfolded f snd_conv]
    let ?u = "if desiste cfg r then None
      else Some (?x, Livre (agora + em_milissegundos (recuo (cf_backoff cfg) (r_attempt r + 1))))"
    have "ver_item b = ?V(?i := ?u)" using ver Vi by (auto simp: fun_eq_iff)
    moreover have "(\<lambda>x. buscar_run x b) = ?R(?x \<mapsto> linha_depois cfg causa agora r)"
      using falhar_run [OF r, of _ uuid cfg causa agora] by (auto simp: fun_eq_iff f)
    moreover have "desfecho ?T ?x ?u (linha_depois cfg causa agora r)"
      using t by (simp add: desfecho_def linha_depois_def desiste_def)
    moreover have "banco_ok b" using falhar_ok [OF bok, of uuid cfg it causa agora] by (simp add: f)
    moreover have "cf_alertas cfg \<Longrightarrow> falhadas b = falhadas ?b + length as"
      using falhar_conta [OF bok r, of cfg uuid causa agora] by (simp add: f)
    ultimately show ?thesis by blast
  qed
  then obtain u r' where d: "desfecho ?T ?x u r'" and V: "ver_item b = ?V(?i := u)"
    and R: "(\<lambda>x. buscar_run x b) = ?R(?x \<mapsto> r')" and b: "banco_ok b"
    and a: "cf_alertas cfg \<Longrightarrow> falhadas b = falhadas ?b + length as" by blast
  have "coerente ?T (ver_item b) (\<lambda>x. buscar_run x b) (visto (v1 @ v2)) {}"
    using coerente_fim [OF c Vi s d] by (simp add: V R sem)
  then show ?thesis using ok v a b by (intro sistema_okI) (auto simp: sistema_ok_def)
qed

text \<open>The sweep, one orphan after the other.\<close>

lemma varredura_falhar:
  assumes "banco_ok b" and "coerente (cf_tentativas cfg) (ver_item b) (\<lambda>x. buscar_run x b) voo (i_id ` set is)"
    and "distinct (map i_id is)" and "\<And>it. it \<in> set is \<Longrightarrow> \<exists>p. ver_item b (i_id it) = Some (i_run it, p)"
    and "falhar_todos uuid cfg causa agora is b = (as, b')"
  shows "banco_ok b' \<and> coerente (cf_tentativas cfg) (ver_item b') (\<lambda>x. buscar_run x b') voo {} \<and>
    (cf_alertas cfg \<longrightarrow> falhadas b' = falhadas b + length as)"
  using assms
proof (induction "is" arbitrary: b as)
  case Nil
  then show ?case by simp
next
  case (Cons it "is")
  let ?x = "i_run it" and ?i = "i_id it" and ?T = "cf_tentativas cfg"
  let ?V = "ver_item b" and ?R = "\<lambda>x. buscar_run x b"
  obtain a1 b1 where f: "falhar uuid cfg it causa agora b = (a1, b1)" by fastforce
  obtain a2 where f2: "falhar_todos uuid cfg causa agora is b1 = (a2, b')" "as = a1 @ a2"
    using Cons.prems(5) by (auto simp: f Let_def split: prod.splits)
  note bok = Cons.prems(1) and c = Cons.prems(2)
  obtain p where Vi: "?V ?i = Some (?x, p)" using Cons.prems(4) [of it] by auto
  have o: "?i \<notin> fst ` set voo" "com_status ?R ?x StatusRunning"
    using coerente_orfao [OF c, of ?i] Vi by auto
  then obtain r where r: "buscar_run ?x b = Some r" "r_status r = StatusRunning" by (auto simp: com_status_def)
  have t: "0 \<le> r_attempt r \<and> r_attempt r < ?T" using coerente_tentativas [OF c r(1)] r(2) by simp
  let ?u = "if desiste cfg r then None
    else Some (?x, Livre (agora + em_milissegundos (recuo (cf_backoff cfg) (r_attempt r + 1))))"
  have V: "ver_item b1 = ?V(?i := ?u)"
    using falhar_ver [OF r, of uuid cfg causa agora, unfolded f snd_conv] Vi by (auto simp: fun_eq_iff)
  have R: "(\<lambda>x. buscar_run x b1) = ?R(?x \<mapsto> linha_depois cfg causa agora r)"
    using falhar_run [OF r, of _ uuid cfg causa agora] by (auto simp: fun_eq_iff f)
  have d: "desfecho ?T ?x ?u (linha_depois cfg causa agora r)"
    using t by (simp add: desfecho_def linha_depois_def desiste_def)
  have ni: "?i \<notin> i_id ` set is" using Cons.prems(3) by simp
  have "i_id ` set (it # is) - {?i} = i_id ` set is" using ni by auto
  then have c1: "coerente ?T (ver_item b1) (\<lambda>x. buscar_run x b1) voo (i_id ` set is)"
    using coerente_fim [OF c Vi o(2) d] by (simp add: V R sem_fora [OF o(1)])
  have "\<exists>p. ver_item b1 (i_id q) = Some (i_run q, p)" if "q \<in> set is" for q
  proof -
    have "i_id q \<noteq> ?i" using ni that by (metis imageI)
    then show ?thesis using Cons.prems(4) [of q] that by (simp add: V)
  qed
  moreover have "banco_ok b1" using falhar_ok [OF bok, of uuid cfg it causa agora] by (simp add: f)
  ultimately have "banco_ok b' \<and> coerente ?T (ver_item b') (\<lambda>x. buscar_run x b') voo {} \<and>
    (cf_alertas cfg \<longrightarrow> falhadas b' = falhadas b1 + length a2)"
    using Cons.IH [OF _ c1 _ _ f2(1)] Cons.prems(3) by simp
  then show ?case
    using falhar_conta [OF bok r, of cfg uuid causa agora] by (auto simp: f f2(2))
qed

lemma passo_orfaos:
  assumes ok: "sistema_ok cfg m" and e: "RecuperarOrfaos uuid dur cfg agora (mu_banco m) = (n, as, b)"
    and v: "\<And>q. q \<in> set (db_itens (mu_banco m)) \<Longrightarrow> vencido (cf_visibilidade cfg) agora q \<Longrightarrow>
        i_id q \<notin> i_id ` fst ` set (mu_voo m)"
  shows "sistema_ok cfg (m\<lparr>mu_banco := b, mu_alertas := mu_alertas m @ as\<rparr>)"
proof -
  let ?b = "mu_banco m" and ?l = "cf_visibilidade cfg" and ?T = "cf_tentativas cfg"
  have bok: "banco_ok ?b" and c: "coerente ?T (ver_item ?b) (\<lambda>x. buscar_run x ?b) (visto (mu_voo m)) {}"
    using ok by (simp_all add: sistema_ok_def)
  define os where "os = fst (Recuperar ?l agora ?b)"
  define b1 where "b1 = snd (Recuperar ?l agora ?b)"
  have f: "falhar_todos uuid cfg (erro_orfao dur ?l) agora os b1 = (as, b)"
    using e by (auto simp: RecuperarOrfaos_def os_def b1_def split: prod.splits)
  have os: "\<exists>q \<in> set (db_itens ?b). vencido ?l agora q \<and> i_id q = i_id it \<and> i_run q = i_run it" if "it \<in> set os" for it
    using that by (auto simp: os_def Recuperar_def Let_def)
  have V1: "ver_item b1 i = (if i \<in> i_id ` set os then map_option (\<lambda>q. (i_run q, Livre (i_disponivel q))) (achar_item ?b i)
      else ver_item ?b i)" for i
    unfolding b1_def os_def by (rule Recuperar_ver [OF bok])
  have tomado: "\<exists>w t. ver_item ?b (i_id it) = Some (i_run it, Tomado w t) \<and>
      (\<exists>d. ver_item b1 (i_id it) = Some (i_run it, Livre d))" if it: "it \<in> set os" for it
  proof -
    obtain q where q: "q \<in> set (db_itens ?b)" "vencido ?l agora q" "i_id q = i_id it" "i_run q = i_run it"
      using os [OF it] by blast
    have a: "achar_item ?b (i_id it) = Some q" using achar_item_eq [OF bok q(1)] q(3) by simp
    have "i_id it \<in> i_id ` set os" using it by blast
    then have "ver_item b1 (i_id it) = Some (i_run it, Livre (i_disponivel q))" using q(4) by (simp add: V1 a)
    moreover have "\<exists>w t. ver_item ?b (i_id it) = Some (i_run it, Tomado w t)"
      using q(2,4) by (auto simp: ver_item_def a posse_do_item_def vencido_def split: option.splits)
    ultimately show ?thesis by blast
  qed
  have c1: "coerente ?T (ver_item b1) (\<lambda>x. buscar_run x b1) (visto (mu_voo m)) (i_id ` set os)"
  proof -
    have "coerente ?T (ver_item b1) (\<lambda>x. buscar_run x ?b) (visto (mu_voo m)) (i_id ` set os)"
    proof (rule coerente_varredura [OF c])
      show "i_id ` set os \<inter> fst ` set (visto (mu_voo m)) = {}"
        using os v unfolding visto_ids by force
      show "\<exists>x w t d. ver_item ?b i = Some (x, Tomado w t) \<and> ver_item b1 i = Some (x, Livre d)" if "i \<in> i_id ` set os" for i
        using tomado that by blast
      show "ver_item b1 i = ver_item ?b i" if "i \<notin> i_id ` set os" for i using that by (simp add: V1)
    qed
    then show ?thesis by (simp add: b1_def)
  qed
  have b1: "banco_ok b1" unfolding b1_def by (rule Recuperar_ok [OF bok])
  have "distinct (map i_id (db_itens ?b))" using bok by (simp add: banco_ok_def itens_ok_def)
  then have d: "distinct (map i_id os)" by (simp add: os_def Recuperar_ids distinct_map_filter)
  have ps: "\<exists>p. ver_item b1 (i_id it) = Some (i_run it, p)" if "it \<in> set os" for it using tomado [OF that] by blast
  have "falhadas b1 = falhadas ?b" by (simp add: b1_def Recuperar_def Let_def)
  with varredura_falhar [OF b1 c1 d ps f] ok show ?thesis by (intro sistema_okI) (auto simp: sistema_ok_def)
qed


lemma tarefas_campos [simp]:
  "db_runs (snd (IniciarTask x nid k agora b)) = db_runs b" "db_itens (snd (IniciarTask x nid k agora b)) = db_itens b"
  "db_runs (TerminarTask x nid k st ex er lg agora b) = db_runs b"
  "db_itens (TerminarTask x nid k st ex er lg agora b) = db_itens b"
  by (simp_all add: IniciarTask_def TerminarTask_def Let_def)

lemma passo_tarefa:
  assumes ok: "sistema_ok cfg m" and b: "banco_ok b" "db_runs b = db_runs (mu_banco m)" "db_itens b = db_itens (mu_banco m)"
  shows "sistema_ok cfg (m\<lparr>mu_banco := b\<rparr>)"
proof -
  have "ver_item b = ver_item (mu_banco m)" by (simp add: fun_eq_iff ver_item_def achar_item_def b)
  moreover have "(\<lambda>x. buscar_run x b) = (\<lambda>x. buscar_run x (mu_banco m))" by (simp add: fun_eq_iff buscar_run_def b)
  moreover have "falhadas b = falhadas (mu_banco m)" by (simp add: falhadas_def b)
  ultimately show ?thesis using ok b(1) by (simp add: sistema_ok_def)
qed

lemma passo_entra:
  assumes ok: "sistema_ok cfg m" and g: "gera_ok gera" and T: "0 < cf_tentativas cfg"
    and e: "criarEEnfileirar gera rfc slug def s tr p params lim agora (mu_banco m) = (r, b)"
  shows "sistema_ok cfg (m\<lparr>mu_banco := b\<rparr>)"
proof (cases "chave_do_run rfc slug tr s \<in> r_chave ` set (db_runs (mu_banco m))")
  case True
  have "banco_ok (mu_banco m)" using ok by (simp add: sistema_ok_def)
  from criarEEnfileirar_repete [OF this True] e have "b = mu_banco m" by simp
  with ok show ?thesis by (simp add: sistema_ok_def)
next
  case False
  let ?b = "mu_banco m" and ?x = "gera (mu_banco m)" and ?i = "db_seq (mu_banco m)"
  let ?q = "run_enfileirada agora ?x (pedido_do_slot rfc slug def tr s params lim)"
  have bok: "banco_ok ?b" and c: "coerente (cf_tentativas cfg) (ver_item ?b) (\<lambda>x. buscar_run x ?b) (visto (mu_voo m)) {}"
    using ok by (simp_all add: sistema_ok_def)
  have b: "b = ?b\<lparr>db_runs := db_runs ?b @ [?q], db_itens := db_itens ?b @ [item_novo ?i ?x p agora], db_seq := ?i + 1\<rparr>"
    using criarEEnfileirar_novo [OF bok g False, of def p params lim agora] e by simp
  have "?x \<notin> r_id ` set (db_runs ?b)" using g by (simp add: gera_ok_def)
  then have x: "buscar_run ?x ?b = None" by (simp add: buscar_run_None_iff)
  have "\<forall>q \<in> set (db_itens ?b). i_id q < ?i" using bok by (simp add: banco_ok_def itens_ok_def)
  then have i: "achar_item ?b ?i = None" by (auto simp: achar_item_def find_None_iff)
  have fnd: "find P (xs @ [y]) = (case find P xs of Some z \<Rightarrow> Some z | None \<Rightarrow> if P y then Some y else None)"
    for P :: "'a \<Rightarrow> bool" and xs y by (induction xs) auto
  have V: "ver_item b = (ver_item ?b)(?i \<mapsto> (?x, Livre agora))"
    using i by (auto simp: fun_eq_iff b ver_item_def achar_item_def fnd item_novo_def posse_do_item_def split: option.splits)
  have qx: "r_id ?q = ?x" by simp
  have R: "(\<lambda>y. buscar_run y b) = (\<lambda>y. buscar_run y ?b)(?x \<mapsto> ?q)"
    using x qx by (auto simp: fun_eq_iff b buscar_run_def fnd split: option.splits)
  have "r_attempt ?q = 0"
    by (simp add: run_enfileirada_def linha_da_run_def com_padroes_def run_pedido_def Let_def)
  then have "coerente (cf_tentativas cfg) (ver_item b) (\<lambda>x. buscar_run x b) (visto (mu_voo m)) {}"
    unfolding V R using coerente_entra [OF c x _ _ _ T, of ?i ?q agora] i by (simp add: ver_item_def)
  moreover have "banco_ok b" using criarEEnfileirar_ok [OF bok, of gera rfc slug def s tr p params lim agora] e by simp
  moreover have "falhadas b = falhadas ?b" by (simp add: b falhadas_def)
  ultimately show ?thesis using ok by (intro sistema_okI) (auto simp: sistema_ok_def)
qed

lemma evento_mantem:
  assumes "evento uuid dur gera rfc cfg m m'" and "sistema_ok cfg m" and "gera_ok gera" and "0 < cf_tentativas cfg"
  shows "sistema_ok cfg m'"
  using assms
proof (induction rule: evento.induct)
  case (claim m agora "is" b)
  then show ?case by (intro passo_claim)
next
  case (inicio m v1 it v2 agora ok b)
  then show ?case by (intro passo_inicio)
next
  case (tarefa m x nid k agora)
  then show ?case by (intro passo_tarefa) (simp_all add: sistema_ok_def IniciarTask_ok)
next
  case (desfecho m x nid k st ex er lg agora)
  then show ?case by (intro passo_tarefa) (simp_all add: sistema_ok_def TerminarTask_ok)
next
  case (fim m v1 it v2 res agora as b)
  then show ?case by (intro passo_fim)
next
  case (orfaos agora m n as b)
  then show ?case by (intro passo_orfaos)
next
  case (queda m)
  then have "coerente (cf_tentativas cfg) (ver_item (mu_banco m)) (\<lambda>x. buscar_run x (mu_banco m)) [] {}"
    by (intro coerente_queda [of _ _ _ "visto (mu_voo m)"]) (auto simp: sistema_ok_def visto_def)
  with queda.prems show ?case by (simp add: sistema_ok_def)
next
  case (entra slug def s tr p params lim agora m e b)
  then show ?case by (intro passo_entra)
qed

section \<open>Properties\<close>

definition mundo_inicial :: mundo where
  "mundo_inicial = \<lparr>mu_banco = banco_vazio, mu_voo = [], mu_alertas = []\<rparr>"

definition alcancavel ::
  "(nat \<Rightarrow> string) \<Rightarrow> (time \<Rightarrow> string) \<Rightarrow> gerador \<Rightarrow> rfc3339 \<Rightarrow> config_disp \<Rightarrow> mundo \<Rightarrow> bool" where
  "alcancavel uuid dur gera rfc cfg m \<longleftrightarrow> (evento uuid dur gera rfc (padroes cfg))\<^sup>*\<^sup>* mundo_inicial m"

lemma padroes_positivos [simp]: "0 < cf_tentativas (padroes cfg)" "0 < cf_max (padroes cfg)"
  by (simp_all add: padroes_def)

lemma mundo_inicial_ok: "0 \<le> cf_max cfg \<Longrightarrow> sistema_ok cfg mundo_inicial"
proof -
  have "coerente T (ver_item banco_vazio) (\<lambda>x. buscar_run x banco_vazio) [] {}" for T
    by (rule coerenteI) (simp_all add: ver_item_def achar_item_def buscar_run_def banco_vazio_def)
  then show "0 \<le> cf_max cfg \<Longrightarrow> ?thesis"
    by (simp add: sistema_ok_def mundo_inicial_def falhadas_def) (simp add: banco_vazio_def)
qed

lemma alcancavel_ok:
  assumes "alcancavel uuid dur gera rfc cfg m" and g: "gera_ok gera"
  shows "sistema_ok (padroes cfg) m"
  using assms(1) unfolding alcancavel_def
proof (induction rule: rtranclp_induct)
  case base
  show ?case by (rule mundo_inicial_ok) (simp add: padroes_def)
next
  case (step m m')
  then show ?case using evento_mantem [OF _ _ g] padroes_positivos(1) by blast
qed

lemma coerente_do_mundo:
  assumes "alcancavel uuid dur gera rfc cfg m" and "gera_ok gera"
  shows "banco_ok (mu_banco m)" and "coerente (cf_tentativas (padroes cfg)) (ver_item (mu_banco m))
    (\<lambda>x. buscar_run x (mu_banco m)) (visto (mu_voo m)) {}"
  using alcancavel_ok [OF assms] by (simp_all add: sistema_ok_def)

lemma achar_item_run:
  "achar_item b i = Some q \<Longrightarrow> ver_item b i = Some (i_run q, posse_do_item q)"
  by (simp add: ver_item_def)

lemma filter_unico:
  "distinct (map f xs) \<Longrightarrow> x \<in> set xs \<Longrightarrow> filter (\<lambda>y. f y = f x) xs = [x]"
proof (induction xs)
  case (Cons a xs)
  have "filter (\<lambda>y. f y = f a) xs = []" using Cons.prems(1) by (auto simp: filter_empty_conv rev_image_eqI)
  with Cons show ?case by (cases "a = x") (auto simp: rev_image_eqI)
qed simp


text \<open>A small run of the system: a run enters, is claimed, starts, and its process stops.\<close>

definition banco_1 :: banco where
  "banco_1 = snd (criarEEnfileirar gera_maior so_hora ''bronze'' workflow_vazio 0 TriggerSchedule 0 [] 0 5 banco_vazio)"

definition item_1 :: item where
  "item_1 = (item_novo 1 1 0 5)\<lparr>i_reivindicado := Some 6, i_por := Some ''dispatcher''\<rparr>"

definition banco_2 :: banco where
  "banco_2 = snd (cicloDeClaim {} config_de_exemplo 0 6 banco_1)"

definition banco_3 :: banco where
  "banco_3 = snd (processar_inicio item_1 7 banco_2)"

lemma passos_de_exemplo:
  "fst (criarEEnfileirar gera_maior so_hora ''bronze'' workflow_vazio 0 TriggerSchedule 0 [] 0 5 banco_vazio) = None"
  "fst (cicloDeClaim {} config_de_exemplo 0 6 banco_1) = [item_1]"
  "fst (processar_inicio item_1 7 banco_2)"
  "db_itens banco_3 = [item_1]"
  "map (\<lambda>r. (r_id r, r_status r, r_attempt r)) (db_runs banco_3) = [(1, StatusRunning, 0)]"
  by code_simp+

lemma config_padroes: "config_de_exemplo = padroes config_de_exemplo"
  by code_simp

lemma mundo_orfao_alcancavel:
  "alcancavel uuid dur gera_maior so_hora config_de_exemplo \<lparr>mu_banco = banco_3, mu_voo = [], mu_alertas = []\<rparr>"
proof -
  let ?e = "evento uuid dur gera_maior so_hora config_de_exemplo"
  let ?m1 = "\<lparr>mu_banco = banco_1, mu_voo = [], mu_alertas = []\<rparr>"
  let ?m2 = "\<lparr>mu_banco = banco_2, mu_voo = [(item_1, False)], mu_alertas = []\<rparr>"
  let ?m3 = "\<lparr>mu_banco = banco_3, mu_voo = [(item_1, True)], mu_alertas = []\<rparr>"
  have "?e mundo_inicial (mundo_inicial\<lparr>mu_banco := banco_1\<rparr>)"
    by (rule evento.entra [where slug = "''bronze''" and def = workflow_vazio and s = 0 and tr = TriggerSchedule
        and p = 0 and params = "[]" and lim = 0 and agora = 5 and e = None])
      (simp add: mundo_inicial_def banco_1_def prod_eq_iff passos_de_exemplo(1))
  then have "?e mundo_inicial ?m1" by (simp add: mundo_inicial_def)
  moreover have "?e ?m1 (?m1\<lparr>mu_banco := banco_2, mu_voo := mu_voo ?m1 @ map (\<lambda>it. (it, False)) [item_1]\<rparr>)"
    by (rule evento.claim [where agora = 6]) (simp add: banco_2_def prod_eq_iff passos_de_exemplo(2))
  then have "?e ?m1 ?m2" by simp
  moreover have "?e ?m2 (?m2\<lparr>mu_banco := banco_3, mu_voo := (if True then [] @ (item_1, True) # [] else [] @ [])\<rparr>)"
    by (rule evento.inicio [where agora = 7]) (simp_all add: banco_3_def prod_eq_iff passos_de_exemplo(3))
  then have "?e ?m2 ?m3" by simp
  moreover have "?e ?m3 (?m3\<lparr>mu_voo := []\<rparr>)" by (rule evento.queda) simp
  then have "?e ?m3 \<lparr>mu_banco = banco_3, mu_voo = [], mu_alertas = []\<rparr>" by simp
  ultimately show ?thesis
    unfolding alcancavel_def config_padroes [symmetric] by (meson rtranclp.rtrancl_into_rtrancl rtranclp.rtrancl_refl)
qed




text \<open>An orphan goes through \<open>falhar\<close>, whatever else the sweep finds.\<close>

lemma RecuperarOrfaos_run:
  assumes ok: "banco_ok b" and q: "q \<in> set (db_itens b)" "vencido (cf_visibilidade cfg) agora q"
    and r: "buscar_run (i_run q) b = Some r" "r_status r = StatusRunning"
  shows "buscar_run (i_run q) (snd (snd (RecuperarOrfaos uuid dur cfg agora b))) =
    Some (linha_depois cfg (erro_orfao dur (cf_visibilidade cfg)) agora r)"
proof -
  let ?l = "cf_visibilidade cfg" and ?c = "erro_orfao dur (cf_visibilidade cfg)"
  let ?q = "q\<lparr>i_reivindicado := None, i_por := None\<rparr>"
  define os where "os = fst (Recuperar ?l agora b)"
  define b1 where "b1 = snd (Recuperar ?l agora b)"
  have "?q \<in> set os" using q by (auto simp: os_def Recuperar_def Let_def)
  then obtain us vs where os: "os = us @ ?q # vs" by (meson split_list)
  have "distinct (map i_run (db_itens b))" using ok by (simp add: banco_ok_def itens_ok_def)
  then have "distinct (map i_run os)" by (simp add: os_def Recuperar_ids distinct_map_filter)
  then have nr: "i_run q \<notin> i_run ` set us" "i_run q \<notin> i_run ` set vs" by (auto simp: os)
  define bu where "bu = snd (falhar_todos uuid cfg ?c agora us b1)"
  have "buscar_run (i_run ?q) bu = Some r"
    using r(1) falhar_todos_outros(2) [OF nr(1), of uuid cfg ?c agora b1] by (simp add: bu_def b1_def)
  then have "buscar_run (i_run q) (snd (falhar uuid cfg ?q ?c agora bu)) = Some (linha_depois cfg ?c agora r)"
    using falhar_run [of ?q bu r "i_run q" uuid cfg ?c agora] r(2) by simp
  then have "buscar_run (i_run q) (snd (falhar_todos uuid cfg ?c agora os b1)) = Some (linha_depois cfg ?c agora r)"
    using falhar_todos_outros(2) [OF nr(2), of uuid cfg ?c agora "snd (falhar uuid cfg ?q ?c agora bu)"]
    by (simp add: falhar_todos_snd os bu_def)
  then show ?thesis by (simp add: RecuperarOrfaos_snd os_def b1_def)
qed



end
