(* ===== verification/Pod.thy ===== *)
theory Pod
  imports Execucao
begin

text \<open>
  \<open>internal/execution/kubernetes/pod.go\<close>: the translation of a task into the pod that is sent
  to the cluster, the names and labels, and the readings of a status. \<open>sha256.Sum256\<close> is the
  argument \<open>sha\<close>, which gives the 32 bytes of the digest.
\<close>

section \<open>The objects\<close>

record recursos_do_pod =
  rc_requests :: "string gomap"
  rc_limits :: "string gomap"

record var_env =
  va_name :: string
  va_value :: string
  va_ref :: "(string \<times> string) option"   \<comment> \<open>\<open>valueFrom.secretKeyRef\<close>: name and key\<close>

datatype fonte_env = SecretRef string | ConfigMapRef string

record container =
  ct_name :: string
  ct_image :: string
  ct_command :: "string list"
  ct_env :: "var_env list"
  ct_env_from :: "fonte_env list"
  ct_resources :: "recursos_do_pod option"
  ct_workdir :: string
  ct_mounts :: "(string \<times> string) list"

record toleracao =
  tl_key :: string
  tl_operator :: string
  tl_value :: string
  tl_effect :: string

record podspec =
  ps_restart :: string
  ps_conta :: string
  ps_pull :: "string list"
  ps_node_selector :: "string gomap"
  ps_tolerations :: "toleracao list"
  ps_deadline :: "int option"
  ps_volumes :: "(string \<times> string) list"     \<comment> \<open>name and claim\<close>
  ps_containers :: "container list"

record metadata =
  md_name :: string
  md_namespace :: string
  md_labels :: "string gomap"
  md_annotations :: "string gomap"

record condicao =
  cd_type :: string
  cd_status :: string
  cd_reason :: string
  cd_message :: string

record status_container =
  sc_name :: string
  sc_waiting :: "(string \<times> string) option"   \<comment> \<open>reason and message\<close>
  sc_running :: bool
  sc_terminated :: "int option"                \<comment> \<open>exit code\<close>

record pod_status =
  st_phase :: string
  st_conditions :: "condicao list"
  st_reason :: string
  st_containers :: "status_container list"

record pod =
  pd_meta :: metadata
  pd_spec :: podspec
  pd_status :: "pod_status option"

record opcoes =
  op_namespace :: string
  op_conta :: string
  op_pull :: "string list"
  op_node_selector :: "string gomap"
  op_tolerations :: "toleracao list"
  op_env_secrets :: "string list"
  op_env_configmaps :: "string list"
  op_pvc :: string
  op_path :: string
  op_permitidos :: "string list"
  op_labels :: "string gomap"
  op_shell :: "string list"
  op_espera :: time
  op_manter :: bool

section \<open>Reading a status\<close>

definition nomeContainer :: string where
  "nomeContainer = ''step''"

definition Fase :: "pod \<Rightarrow> string" where
  "Fase p = (case pd_status p of None \<Rightarrow> [] | Some s \<Rightarrow> st_phase s)"

definition Terminou :: "pod \<Rightarrow> bool" where
  "Terminou p \<longleftrightarrow> Fase p = ''Succeeded'' \<or> Fase p = ''Failed''"

definition Saida :: "pod \<Rightarrow> int \<times> bool" where
  "Saida p =
     (case pd_status p of None \<Rightarrow> (0, False)
      | Some s \<Rightarrow> (case find (\<lambda>c. sc_name c = nomeContainer \<and> sc_terminated c \<noteq> None) (st_containers s) of
                     None \<Rightarrow> (0, False)
                   | Some c \<Rightarrow> (the (sc_terminated c), True)))"

definition MotivoDeEspera :: "pod \<Rightarrow> string" where
  "MotivoDeEspera p =
     (case pd_status p of None \<Rightarrow> []
      | Some s \<Rightarrow> (case find (\<lambda>c. sc_name c = nomeContainer \<and> sc_waiting c \<noteq> None) (st_containers s) of
                     None \<Rightarrow> []
                   | Some c \<Rightarrow> (case the (sc_waiting c) of
                                  (razao, msg) \<Rightarrow> if msg \<noteq> [] then razao @ '': '' @ msg else razao)))"

definition Motivo :: "pod \<Rightarrow> string" where
  "Motivo p = (case pd_status p of None \<Rightarrow> [] | Some s \<Rightarrow> st_reason s)"

section \<open>Names and labels\<close>

definition valido_em_nome :: "char \<Rightarrow> bool" where
  "valido_em_nome c \<longleftrightarrow> minuscula c \<or> digito c \<or> c = CHR ''-''"

text \<open>
  \<open>strings.ToLower\<close> on UTF-8, as far as the next step can see: an upper case letter of ASCII,
  the Kelvin sign and the dotted capital I become ASCII letters, every other code point stays
  outside ASCII.
\<close>

fun to_lower_utf8 :: "string \<Rightarrow> string" where
  "to_lower_utf8 [] = []"
| "to_lower_utf8 (c # cs) =
     (if take 3 (map byte (c # cs)) = [226, 132, 170] then CHR ''k'' # to_lower_utf8 (drop 2 cs)
      else if take 2 (map byte (c # cs)) = [196, 176] then CHR ''i'' # to_lower_utf8 (drop 1 cs)
      else to_lower c # to_lower_utf8 cs)"

text \<open>\<open>invalidoEmNome.ReplaceAllString(s, "-")\<close>: every maximal run of other bytes becomes one dash.\<close>

fun trocar_invalidos :: "bool \<Rightarrow> string \<Rightarrow> string" where
  "trocar_invalidos dentro [] = []"
| "trocar_invalidos dentro (c # cs) =
     (if valido_em_nome c then c # trocar_invalidos False cs
      else if dentro then trocar_invalidos True cs
      else CHR ''-'' # trocar_invalidos True cs)"

definition sanitizar :: "string \<Rightarrow> string" where
  "sanitizar s =
     (let s = trocar_invalidos False (to_lower_utf8 s);
          s = trim_right_of (CHR ''-'') (trim_left_of (CHR ''-'') s)
      in if s = [] then ''step'' else s)"

definition hex_digito :: "nat \<Rightarrow> char" where
  "hex_digito d = char_of (if d < 10 then 48 + d else 87 + d)"

definition hex :: "nat list \<Rightarrow> string" where
  "hex bs = concat (map (\<lambda>b. [hex_digito (b div 16), hex_digito (b mod 16)]) bs)"

definition maxNome :: nat where
  "maxNome = 63"

definition NomeDoPod :: "(string \<Rightarrow> nat list) \<Rightarrow> taskexec \<Rightarrow> string" where
  "NomeDoPod sha t =
     (let base = sanitizar (te_workflow t @ ''-'' @ te_node t);
          soma = sha (te_run t @ ''|'' @ te_node t @ ''|'' @ show_int (te_tentativa_run t) @ ''|'' @ show_int (te_tentativa t));
          sufixo = hex (take 4 soma);
          base = (if maxNome < length base + 1 + length sufixo
                  then trim_right_of (CHR ''-'') (take (maxNome - 1 - length sufixo) base) else base)
      in base @ ''-'' @ sufixo)"

definition valorDeRotulo :: "string \<Rightarrow> string" where
  "valorDeRotulo s =
     (let s = sanitizar s in if 63 < length s then trim_right_of (CHR ''-'') (take 63 s) else s)"

section \<open>Assembling the pod\<close>

datatype erro_pod =
    SemImagem string
  | SemComando string
  | SegredoProibido string string string "string list"  \<comment> \<open>step, variable, secret, what is allowed\<close>

definition permiteSecret :: "opcoes \<Rightarrow> string \<Rightarrow> bool" where
  "permiteSecret o' nome \<longleftrightarrow> nome \<in> set (op_permitidos o')"

definition comPadroes :: "opcoes \<Rightarrow> opcoes" where
  "comPadroes o' =
     (let o' = (if op_shell o' = [] then o'\<lparr>op_shell := [''/bin/sh'', ''-c'']\<rparr> else o');
          o' = (if op_namespace o' = [] then o'\<lparr>op_namespace := ''default''\<rparr> else o');
          o' = (if op_pvc o' \<noteq> [] \<and> op_path o' = [] then o'\<lparr>op_path := ''/var/brevis/credentials''\<rparr> else o')
      in if op_espera o' \<le> 0 then o'\<lparr>op_espera := 600 * 1000000000\<rparr> else o')"

definition recursos :: "taskexec \<Rightarrow> recursos_do_pod option" where
  "recursos t =
     (let req = (if te_cpu t \<noteq> [] then [(''cpu'', te_cpu t)] else []) @
                (if te_memoria t \<noteq> [] then [(''memory'', te_memoria t)] else []);
          lim = (if te_cpu_max t \<noteq> [] then [(''cpu'', te_cpu_max t)] else []) @
                (if te_memoria_max t \<noteq> [] then [(''memory'', te_memoria_max t)] else [])
      in if req = [] \<and> lim = [] then None else Some \<lparr>rc_requests = req, rc_limits = lim\<rparr>)"

text \<open>\<open>strings.Fields\<close>\<close>

function fields :: "string \<Rightarrow> string \<Rightarrow> string list" where
  "fields atual s =
     (case s of [] \<Rightarrow> if atual = [] then [] else [rev atual]
      | c # cs \<Rightarrow>
          if comeca_branco espacos_utf8 s = 0 then fields (c # atual) cs
          else (if atual = [] then [] else [rev atual]) @ fields [] (drop (comeca_branco espacos_utf8 s) s))"
  by pat_completeness auto
termination
  by (relation "measure (\<lambda>(a, s). length s)") auto

declare fields.simps [simp del]

definition nomeVolumeCredencial :: string where
  "nomeVolumeCredencial = ''brevis-credentials''"

definition envDiretorioCredencial :: string where
  "envDiretorioCredencial = ''BREVIS_CREDENTIAL_DIR''"

definition valor_de :: "string gomap \<Rightarrow> string \<Rightarrow> string" where
  "valor_de m k = (case map_of m k of None \<Rightarrow> [] | Some v \<Rightarrow> v)"

text \<open>The literal variables, in the order of their names.\<close>

definition literais :: "taskexec \<Rightarrow> var_env list" where
  "literais t = map (\<lambda>k. \<lparr>va_name = k, va_value = valor_de (te_env t) k, va_ref = None\<rparr>)
     (sort_strings (map fst (te_env t)))"

text \<open>\<open>nome, chave, _ := strings.Cut(coordenada, "/")\<close>\<close>

definition coordenada :: "string \<Rightarrow> string \<times> string" where
  "coordenada s = (case cut (CHR ''/'') s of None \<Rightarrow> (s, []) | Some p \<Rightarrow> p)"

fun por_referencia :: "opcoes \<Rightarrow> taskexec \<Rightarrow> string list \<Rightarrow> erro_pod + var_env list" where
  "por_referencia o' t [] = Inr []"
| "por_referencia o' t (k # ks) =
     (case coordenada (valor_de (te_secrets t) k) of
        (nome, chave) \<Rightarrow>
          if \<not> permiteSecret o' nome then Inl (SegredoProibido (te_node t) k nome (op_permitidos o'))
          else (case por_referencia o' t ks of
                  Inl e \<Rightarrow> Inl e
                | Inr vs \<Rightarrow> Inr (\<lparr>va_name = k, va_value = [], va_ref = Some (nome, chave)\<rparr> # vs)))"

definition rotulos :: "taskexec \<Rightarrow> opcoes \<Rightarrow> string gomap" where
  "rotulos t o' =
     (let r = [(''app.kubernetes.io/managed-by'', ''brevis''), (''brevis.dev/node'', valorDeRotulo (te_node t))];
          r = (if te_run t \<noteq> [] then poe ''brevis.dev/run'' (valorDeRotulo (te_run t)) r else r);
          r = (if te_workflow t \<noteq> [] then poe ''brevis.dev/workflow'' (valorDeRotulo (te_workflow t)) r else r)
      in poe_todos (op_labels o') r)"

definition container_de :: "taskexec \<Rightarrow> opcoes \<Rightarrow> var_env list \<Rightarrow> container" where
  "container_de t o' segredos =
     \<lparr>ct_name = nomeContainer, ct_image = te_image t,
      ct_command = (if te_shell t then op_shell o' @ [te_command t] else fields [] (te_command t)),
      ct_env = literais t @ segredos @
        (if op_pvc o' \<noteq> [] \<and> map_of (te_env t) envDiretorioCredencial = None
         then [\<lparr>va_name = envDiretorioCredencial, va_value = op_path o', va_ref = None\<rparr>] else []),
      ct_env_from = map SecretRef (op_env_secrets o') @ map ConfigMapRef (op_env_configmaps o'),
      ct_resources = recursos t, ct_workdir = te_workdir t,
      ct_mounts = (if op_pvc o' \<noteq> [] then [(nomeVolumeCredencial, op_path o')] else [])\<rparr>"

definition MontarPod :: "(string \<Rightarrow> nat list) \<Rightarrow> taskexec \<Rightarrow> opcoes \<Rightarrow> erro_pod + pod" where
  "MontarPod sha t o' =
     (let o' = comPadroes o' in
      if te_image t = [] then Inl (SemImagem (te_node t))
      else if te_command t = [] then Inl (SemComando (te_node t))
      else (case por_referencia o' t (sort_strings (map fst (te_secrets t))) of
              Inl e \<Rightarrow> Inl e
            | Inr segredos \<Rightarrow>
                Inr \<lparr>pd_meta =
                       \<lparr>md_name = NomeDoPod sha t, md_namespace = op_namespace o', md_labels = rotulos t o',
                        md_annotations = [(''brevis.dev/workflow'', te_workflow t), (''brevis.dev/node'', te_node t),
                                          (''brevis.dev/run'', te_run t)]\<rparr>,
                     pd_spec =
                       \<lparr>ps_restart = ''Never'', ps_conta = op_conta o', ps_pull = op_pull o',
                        ps_node_selector = op_node_selector o', ps_tolerations = op_tolerations o',
                        ps_deadline = (if 0 < te_timeout t then Some (te_timeout t div 1000000000) else None),
                        ps_volumes = (if op_pvc o' \<noteq> [] then [(nomeVolumeCredencial, op_pvc o')] else []),
                        ps_containers = [container_de t o' segredos]\<rparr>,
                     pd_status = None\<rparr>))"

section \<open>Lemmas on names\<close>

lemma to_lower_valido: "valido_em_nome c \<Longrightarrow> valido_em_nome (to_lower c)"
  by (auto simp: valido_em_nome_def to_lower_def byte_classes maiuscula_def)

lemma trocar_validos: "list_all valido_em_nome (trocar_invalidos d s)"
  by (induction d s rule: trocar_invalidos.induct) (auto simp: valido_em_nome_def)

lemma list_all_trim: "list_all P s \<Longrightarrow> list_all P (trim_right_of c s)" "list_all P s \<Longrightarrow> list_all P (trim_left_of c s)"
  by (auto simp: trim_right_of_def trim_left_of_def list_all_iff dest!: set_dropWhileD)

lemma trim_right_prefixo: "\<exists>r. s = trim_right_of c s @ r \<and> set r \<subseteq> {c}"
proof -
  have "rev s = takeWhile (\<lambda>x. x = c) (rev s) @ dropWhile (\<lambda>x. x = c) (rev s)" by simp
  then have "s = rev (dropWhile (\<lambda>x. x = c) (rev s)) @ rev (takeWhile (\<lambda>x. x = c) (rev s))"
    by (metis rev_append rev_rev_ident)
  moreover have "set (rev (takeWhile (\<lambda>x. x = c) (rev s))) \<subseteq> {c}" by (auto dest: set_takeWhileD)
  ultimately show ?thesis unfolding trim_right_of_def by blast
qed

lemma trim_right_fim: "trim_right_of c s \<noteq> [] \<Longrightarrow> last (trim_right_of c s) \<noteq> c"
  using hd_dropWhile [of "\<lambda>x. x = c" "rev s"] by (simp add: trim_right_of_def last_rev)

lemma trim_right_inicio: "s \<noteq> [] \<Longrightarrow> hd s \<noteq> c \<Longrightarrow> trim_right_of c s \<noteq> [] \<and> hd (trim_right_of c s) = hd s"
proof -
  assume s: "s \<noteq> []" "hd s \<noteq> c"
  obtain r where r: "s = trim_right_of c s @ r" "set r \<subseteq> {c}" using trim_right_prefixo by blast
  have "trim_right_of c s \<noteq> []"
  proof
    assume "trim_right_of c s = []"
    with r s show False by (metis append_Nil hd_in_set singletonD subsetD)
  qed
  with r(1) show ?thesis by (metis hd_append2)
qed

lemma trim_left_inicio: "trim_left_of c s \<noteq> [] \<Longrightarrow> hd (trim_left_of c s) \<noteq> c"
  using hd_dropWhile [of "\<lambda>x. x = c" s] by (simp add: trim_left_of_def)

definition nome_valido :: "string \<Rightarrow> bool" where
  "nome_valido s \<longleftrightarrow> s \<noteq> [] \<and> length s \<le> maxNome \<and> list_all valido_em_nome s \<and> hd s \<noteq> CHR ''-'' \<and> last s \<noteq> CHR ''-''"

lemma sanitizar_ok:
  "list_all valido_em_nome (sanitizar s) \<and> sanitizar s \<noteq> [] \<and> hd (sanitizar s) \<noteq> CHR ''-'' \<and> last (sanitizar s) \<noteq> CHR ''-''"
proof -
  let ?a = "trim_left_of (CHR ''-'') (trocar_invalidos False (to_lower_utf8 s))"
  let ?b = "trim_right_of (CHR ''-'') ?a"
  have v: "list_all valido_em_nome ?b" by (intro list_all_trim trocar_validos)
  show ?thesis
  proof (cases "?b = []")
    case True
    then show ?thesis by (simp add: sanitizar_def valido_em_nome_def byte_classes)
  next
    case False
    then have "?a \<noteq> []" by (auto simp: trim_right_of_def)
    then have "hd ?a \<noteq> CHR ''-''" by (rule trim_left_inicio)
    with False v trim_right_fim [OF False] trim_right_inicio [OF \<open>?a \<noteq> []\<close> this] show ?thesis
      by (simp add: sanitizar_def)
  qed
qed

lemma corte_ok:
  assumes "list_all valido_em_nome s" "s \<noteq> []" "hd s \<noteq> CHR ''-''" "0 < n"
  shows "list_all valido_em_nome (trim_right_of (CHR ''-'') (take n s)) \<and> trim_right_of (CHR ''-'') (take n s) \<noteq> [] \<and>
    hd (trim_right_of (CHR ''-'') (take n s)) \<noteq> CHR ''-'' \<and> last (trim_right_of (CHR ''-'') (take n s)) \<noteq> CHR ''-'' \<and>
    length (trim_right_of (CHR ''-'') (take n s)) \<le> n"
proof -
  have t: "take n s \<noteq> []" "hd (take n s) \<noteq> CHR ''-''" using assms by (auto simp: hd_take)
  have "list_all valido_em_nome (take n s)" using assms(1) by (auto simp: list_all_iff dest: in_set_takeD)
  then have "list_all valido_em_nome (trim_right_of (CHR ''-'') (take n s))" by (rule list_all_trim)
  moreover have "length (trim_right_of (CHR ''-'') (take n s)) \<le> n"
    using trim_right_prefixo [of "take n s" "CHR ''-''"] by (metis append_eq_conv_conj length_take min.bounded_iff min.cobounded2 nle_le)
  ultimately show ?thesis using trim_right_inicio [OF t] trim_right_fim [of "CHR ''-''" "take n s"] t by auto
qed

lemma hex_ok: "length (hex bs) = 2 * length bs" "list_all valido_em_nome (hex bs)" if "\<forall>b \<in> set bs. b < 256" for bs
  using that
  by (induction bs) (auto simp: hex_def hex_digito_def valido_em_nome_def byte_classes)

lemma hex_sem_traco: "\<forall>b \<in> set bs. b < 256 \<Longrightarrow> CHR ''-'' \<notin> set (hex bs)"
proof (induction bs)
  case (Cons b bs)
  have "CHR ''-'' \<noteq> hex_digito d" if "d < 16" for d
  proof
    assume "CHR ''-'' = hex_digito d"
    then have "of_char (CHR ''-'') = (of_char (hex_digito d) :: nat)" by (rule arg_cong)
    then have "of_char (hex_digito d) = (45 :: nat)" by simp
    with that show False by (auto simp: hex_digito_def split: if_splits)
  qed
  moreover have "b div 16 < 16" "b mod 16 < 16" using Cons.prems by (simp_all add: div_less_iff_less_mult)
  ultimately have "CHR ''-'' \<noteq> hex_digito (b div 16)" "CHR ''-'' \<noteq> hex_digito (b mod 16)" by blast+
  with Cons show ?case by (simp add: hex_def)
qed (simp add: hex_def)

section \<open>Lemmas on the assembled pod\<close>

definition permitidos_todos :: "opcoes \<Rightarrow> taskexec \<Rightarrow> string list \<Rightarrow> bool" where
  "permitidos_todos o' t ks \<longleftrightarrow> (\<forall>k \<in> set ks. permiteSecret o' (fst (coordenada (valor_de (te_secrets t) k))))"

lemma por_referencia_Inr:
  "permitidos_todos o' t ks \<Longrightarrow> por_referencia o' t ks =
     Inr (map (\<lambda>k. \<lparr>va_name = k, va_value = [], va_ref = Some (coordenada (valor_de (te_secrets t) k))\<rparr>) ks)"
  by (induction ks) (auto simp: permitidos_todos_def split: prod.splits)

lemma por_referencia_Inl: "\<not> permitidos_todos o' t ks \<Longrightarrow> \<exists>e. por_referencia o' t ks = Inl e"
proof (induction ks)
  case (Cons k ks)
  show ?case
  proof (cases "permitidos_todos o' t ks")
    case True
    with Cons.prems show ?thesis by (auto simp: permitidos_todos_def split: prod.splits)
  next
    case False
    then obtain e where "por_referencia o' t ks = Inl e" using Cons.IH by blast
    then show ?thesis by (simp split: prod.splits)
  qed
qed (simp add: permitidos_todos_def)

lemma comPadroes_campos [simp]:
  "op_permitidos (comPadroes o') = op_permitidos o'" "op_pvc (comPadroes o') = op_pvc o'"
  "op_shell (comPadroes o') \<noteq> []" "op_namespace (comPadroes o') \<noteq> []" "0 < op_espera (comPadroes o')"
  by (simp_all add: comPadroes_def Let_def)

lemma set_sort_strings [simp]: "set (sort_strings xs) = set xs"
  by (simp add: sort_strings_def)

section \<open>Properties\<close>

text \<open>
  The names sent to the cluster are valid. Whatever the workflow, the step and the run are
  called, the name of the pod and every label value made from them is a DNS label: not empty,
  at most 63 bytes, of lower case letters, digits and dashes, with no dash at either end.
\<close>

theorem NomeDoPod_valido:
  assumes sha: "\<forall>x. length (sha x) = 32 \<and> (\<forall>b \<in> set (sha x). b < 256)"
  shows "nome_valido (NomeDoPod sha t) \<and> nome_valido (valorDeRotulo s)"
proof
  let ?m = "sha (te_run t @ ''|'' @ te_node t @ ''|'' @ show_int (te_tentativa_run t) @ ''|'' @ show_int (te_tentativa t))"
  let ?h = "hex (take 4 ?m)" and ?b = "sanitizar (te_workflow t @ ''-'' @ te_node t)"
  have b: "\<forall>b \<in> set (take 4 ?m). b < 256" using sha by (meson in_set_takeD)
  have h: "length ?h = 8" "list_all valido_em_nome ?h" "CHR ''-'' \<notin> set ?h"
    using hex_ok [OF b] hex_sem_traco [OF b] sha by simp_all
  then have l: "?h \<noteq> []" "last ?h \<noteq> CHR ''-''" by (auto simp del: in_set_conv_decomp intro: last_in_set) (metis last_in_set list.size(3) zero_neq_numeral)+
  define c where "c = (if maxNome < length ?b + 1 + length ?h then trim_right_of (CHR ''-'') (take (maxNome - 1 - length ?h) ?b) else ?b)"
  have "list_all valido_em_nome c \<and> c \<noteq> [] \<and> hd c \<noteq> CHR ''-'' \<and> length c + 9 \<le> maxNome"
    using corte_ok [of ?b 54] sanitizar_ok [of "te_workflow t @ ''-'' @ te_node t"] unfolding c_def h(1)
    by (cases "maxNome < length ?b + 1 + 8") (simp_all add: maxNome_def)
  moreover have "NomeDoPod sha t = c @ ''-'' @ ?h" by (simp add: NomeDoPod_def Let_def c_def)
  ultimately show "nome_valido (NomeDoPod sha t)" using h l by (simp add: nome_valido_def valido_em_nome_def)
  show "nome_valido (valorDeRotulo s)"
    using corte_ok [of "sanitizar s" 63] sanitizar_ok [of s] by (auto simp: valorDeRotulo_def Let_def nome_valido_def maxNome_def)
qed

definition tarefa_de_exemplo :: taskexec where
  "tarefa_de_exemplo =
     \<lparr>te_execution = [], te_node = ''Extrair_Clientes'', te_workflow = ''/Vendas/'', te_run = ''7'', te_tentativa = 0,
      te_tentativa_run = 0, te_command = ''python a.py'', te_action = [], te_with = [], te_image = ''img'', te_shell = False,
      te_cpu = [], te_memoria = [], te_cpu_max = [], te_memoria_max = [], te_workdir = [], te_env = [(''B'', ''2''), (''A'', ''1'')],
      te_secrets = [(''TOKEN'', ''api/key'')], te_timeout = 0\<rparr>"

theorem NomeDoPod_valido_witness:
  "nome_valido (NomeDoPod (\<lambda>_. replicate 32 171) tarefa_de_exemplo) \<and>
   NomeDoPod (\<lambda>_. replicate 32 171) tarefa_de_exemplo = ''vendas--extrair-clientes-abababab''"
proof
  show "nome_valido (NomeDoPod (\<lambda>_. replicate 32 171) tarefa_de_exemplo)"
    using NomeDoPod_valido [of "\<lambda>_. replicate 32 171" tarefa_de_exemplo] by simp
  show "NomeDoPod (\<lambda>_. replicate 32 171) tarefa_de_exemplo = ''vendas--extrair-clientes-abababab''" by code_simp
qed

text \<open>
  C30: a pod gets the secrets it may have, and only by reference. A pod is assembled exactly for
  a task with image and command whose secrets are all among those the installation allows; an
  installation that allows none refuses every task that asks for one. In the pod the variables
  with a reference are the secrets of the task, each with the name and key of its coordinate
  and without a value, and the other variables are the literals of the task, in the order of
  their names, and the directory of the credential when it is configured.
\<close>

theorem MontarPod_segredos:
  "((\<exists>p. MontarPod sha t o' = Inr p) \<longleftrightarrow> te_image t \<noteq> [] \<and> te_command t \<noteq> [] \<and>
      {fst (coordenada (valor_de (te_secrets t) k)) | k. k \<in> fst ` set (te_secrets t)} \<subseteq> set (op_permitidos o')) \<and>
   (case MontarPod sha t o' of Inl e \<Rightarrow> True
    | Inr p \<Rightarrow> \<exists>c. ps_containers (pd_spec p) = [c] \<and>
        map (\<lambda>v. (va_name v, va_value v, va_ref v)) (ct_env c) =
          map (\<lambda>k. (k, valor_de (te_env t) k, None)) (sort_strings (map fst (te_env t))) @
          map (\<lambda>k. (k, [], Some (coordenada (valor_de (te_secrets t) k)))) (sort_strings (map fst (te_secrets t))) @
          (if op_pvc o' \<noteq> [] \<and> map_of (te_env t) envDiretorioCredencial = None
           then [(envDiretorioCredencial, op_path (comPadroes o'), None)] else []))"
proof -
  let ?ks = "sort_strings (map fst (te_secrets t))"
  have perm: "permitidos_todos (comPadroes o') t ?ks \<longleftrightarrow>
      {fst (coordenada (valor_de (te_secrets t) k)) | k. k \<in> fst ` set (te_secrets t)} \<subseteq> set (op_permitidos o')"
    by (auto simp: permitidos_todos_def permiteSecret_def)
  show ?thesis
  proof (cases "te_image t \<noteq> [] \<and> te_command t \<noteq> [] \<and> permitidos_todos (comPadroes o') t ?ks")
    case True
    then show ?thesis
      unfolding perm [symmetric] by (simp add: MontarPod_def Let_def por_referencia_Inr container_de_def literais_def comp_def)
  next
    case False
    then consider "te_image t = []" | "te_command t = []" | e where "por_referencia (comPadroes o') t ?ks = Inl e"
      using por_referencia_Inl [of "comPadroes o'" t ?ks] by blast
    then have "\<exists>e. MontarPod sha t o' = Inl e" by cases (simp_all add: MontarPod_def Let_def)
    then obtain e where "MontarPod sha t o' = Inl e" by blast
    with False show ?thesis unfolding perm [symmetric] by simp
  qed
qed

end
