(* ===== verification/Kube.thy ===== *)
theory Kube
  imports Pod Runner
begin

text \<open>
  \<open>internal/execution/kubernetes/executor.go\<close>: the life of the pod of a step. The server of the
  cluster, the ticker and the clock are the fields of \<open>api\<close>, over a world of type \<open>'s\<close>. The wait
  may last for ever, so it is a partial function; the lines that the follower of the log sends
  in parallel are not part of the sequence of events modelled here.
\<close>

section \<open>The interface of the server\<close>

record 's api =
  ap_criar :: "pod \<Rightarrow> 's \<Rightarrow> (string + pod) \<times> 's"
  ap_ler :: "string \<Rightarrow> 's \<Rightarrow> (string + pod) \<times> 's"
  ap_logs :: "string \<Rightarrow> 's \<Rightarrow> (string + string) \<times> 's"
  ap_apagar :: "string \<Rightarrow> 's \<Rightarrow> 's"
  ap_tick :: "'s \<Rightarrow> bool \<times> 's"            \<comment> \<open>the next tick; \<open>False\<close> when the context ends first\<close>
  ap_ctx_err :: "'s \<Rightarrow> string"
  ap_agora :: "'s \<Rightarrow> time"
  ap_dur :: "time \<Rightarrow> string"
  ap_sha :: "string \<Rightarrow> nat list"
  ap_erro_pod :: "erro_pod \<Rightarrow> string"

section \<open>Waiting for the pod to end\<close>

text \<open>The condition in which the scheduler of the cluster explains itself, read once more.\<close>

definition porQueNaoAgendou :: "'s api \<Rightarrow> string \<Rightarrow> 's \<Rightarrow> string \<times> 's" where
  "porQueNaoAgendou a nome m =
     (case ap_ler a nome m of
        (Inl e, m) \<Rightarrow> ([], m)
      | (Inr p, m) \<Rightarrow>
          ((case pd_status p of None \<Rightarrow> []
            | Some s \<Rightarrow>
                (case find (\<lambda>c. cd_type c = ''PodScheduled'' \<and> cd_status c \<noteq> ''True'' \<and> cd_message c \<noteq> []) (st_conditions s) of
                   None \<Rightarrow> [] | Some c \<Rightarrow> cd_reason c @ '': '' @ cd_message c)), m))"

definition desistir :: "'s api \<Rightarrow> opcoes \<Rightarrow> string \<Rightarrow> pod \<Rightarrow> 's \<Rightarrow> string \<times> 's" where
  "desistir a o' nome p m =
     (let motivo = (if MotivoDeEspera p = [] then ''fase '' @ Fase p else MotivoDeEspera p)
      in case porQueNaoAgendou a nome m of
           (agendamento, m) \<Rightarrow>
             (''pod '' @ nome @ '' nao comecou em '' @ ap_dur a (op_espera o') @ '': '' @
                (if agendamento \<noteq> [] then agendamento else motivo), m))"

definition aviso_de_espera :: "string \<Rightarrow> pod \<Rightarrow> string \<Rightarrow> event list" where
  "aviso_de_espera nid p ultimo =
     (if MotivoDeEspera p \<noteq> [] \<and> MotivoDeEspera p \<noteq> ultimo
      then [log_de nid ''stderr'' (''pod aguardando: '' @ MotivoDeEspera p)] else [])"

text \<open>
  The state of the loop: the last reason reported, whether the container was seen running, and
  the events sent so far. One turn of the loop either answers or goes on to the next one.
\<close>

record espera =
  ep_ultimo :: string
  ep_seguindo :: bool
  ep_eventos :: "event list"

definition volta_da_espera ::
  "'s api \<Rightarrow> opcoes \<Rightarrow> string \<Rightarrow> string \<Rightarrow> time \<Rightarrow> espera \<Rightarrow> 's
     \<Rightarrow> ((string + pod) \<times> event list \<times> 's) + espera \<times> 's" where
  "volta_da_espera a o' nome nid comecou w m =
     (case ap_ler a nome m of
        (Inl e, m) \<Rightarrow> Inl (Inl (''lendo pod '' @ nome @ '': '' @ e), ep_eventos w, m)
      | (Inr p, m) \<Rightarrow>
          if Terminou p then Inl (Inr p, ep_eventos w, m)
          else
            let w = w\<lparr>ep_eventos := ep_eventos w @ aviso_de_espera nid p (ep_ultimo w),
                     ep_ultimo := (if MotivoDeEspera p \<noteq> [] then MotivoDeEspera p else ep_ultimo w),
                     ep_seguindo := (ep_seguindo w \<or> Fase p = ''Running'')\<rparr>
            in if \<not> ep_seguindo w \<and> op_espera o' < ap_agora a m - comecou
               then (case desistir a o' nome p m of (e, m) \<Rightarrow> Inl (Inl e, ep_eventos w, m))
               else (case ap_tick a m of
                       (tick, m) \<Rightarrow> if tick then Inr (w, m) else Inl (Inl (ap_ctx_err a m), ep_eventos w, m)))"

partial_function (option) esperar_laco ::
  "'s api \<Rightarrow> opcoes \<Rightarrow> string \<Rightarrow> string \<Rightarrow> time \<Rightarrow> espera \<Rightarrow> 's \<Rightarrow> ((string + pod) \<times> event list \<times> 's) option" where
  "esperar_laco a o' nome nid comecou w m =
     (case volta_da_espera a o' nome nid comecou w m of
        Inl r \<Rightarrow> Some r
      | Inr v \<Rightarrow> esperar_laco a o' nome nid comecou (fst v) (snd v))"

definition esperarSair ::
  "'s api \<Rightarrow> opcoes \<Rightarrow> string \<Rightarrow> string \<Rightarrow> 's \<Rightarrow> ((string + pod) \<times> event list \<times> 's) option" where
  "esperarSair a o' nome nid m = esperar_laco a o' nome nid (ap_agora a m) \<lparr>ep_ultimo = [], ep_seguindo = False, ep_eventos = []\<rparr> m"

section \<open>The log\<close>

text \<open>
  \<open>bufio.Scanner\<close> with a buffer of 1 MiB: lines without their end and without a final carriage
  return, and nothing more once a line does not fit.
\<close>

definition sem_cr :: "string \<Rightarrow> string" where
  "sem_cr l = (if l \<noteq> [] \<and> last l = CHR 0x0D then butlast l else l)"

definition linhas_do_log :: "string \<Rightarrow> string list" where
  "linhas_do_log s =
     (let ls = split_on (CHR 0x0A) s;
          ls = (if last ls = [] then butlast ls else ls)
      in map sem_cr (takeWhile (\<lambda>l. length l < 1048576) ls))"

definition copiar :: "string \<Rightarrow> string \<Rightarrow> event list" where
  "copiar corpo nid = map (log_de nid ''stdout'') (linhas_do_log corpo)"

definition drenarLogs :: "'s api \<Rightarrow> string \<Rightarrow> string \<Rightarrow> 's \<Rightarrow> event list \<times> 's" where
  "drenarLogs a nome nid m =
     (case ap_logs a nome m of
        (Inl e, m) \<Rightarrow> ([log_de nid ''stderr'' (''nao consegui ler o log do pod: '' @ e)], m)
      | (Inr corpo, m) \<Rightarrow> (copiar corpo nid, m))"

section \<open>The life of the pod\<close>

definition limpar :: "'s api \<Rightarrow> opcoes \<Rightarrow> string \<Rightarrow> bool \<Rightarrow> 's \<Rightarrow> 's" where
  "limpar a o' nome sucesso m = (if \<not> sucesso \<and> op_manter o' then m else ap_apagar a nome m)"

definition mensagem_de_fim :: "string \<Rightarrow> pod \<Rightarrow> string" where
  "mensagem_de_fim nome p =
     (let msg = (if snd (Saida p) then ''saiu com codigo '' @ show_int (fst (Saida p))
                 else ''pod '' @ nome @ '' terminou em '' @ Fase p)
      in if Motivo p \<noteq> [] then msg @ '' ('' @ Motivo p @ '')'' else msg)"

definition acompanhar :: "'s api \<Rightarrow> opcoes \<Rightarrow> string \<Rightarrow> taskexec \<Rightarrow> 's \<Rightarrow> (event list \<times> 's) option" where
  "acompanhar a o' nome t m =
     (let nid = te_node t;
          inicio = (evento_de EventStarted nid)\<lparr>ev_message := ''pod '' @ nome @ '' ('' @ te_image t @ '')''\<rparr>
      in case esperarSair a o' nome nid m of
           None \<Rightarrow> None
         | Some (Inl e, evs, m) \<Rightarrow>
             Some (inicio # evs @ [(evento_de EventFailed nid)\<lparr>ev_message := e\<rparr>], limpar a o' nome False m)
         | Some (Inr p, evs, m) \<Rightarrow>
             (case drenarLogs a nome nid m of
                (log, m) \<Rightarrow>
                  if Fase p = ''Succeeded''
                  then Some (inicio # evs @ log @ [(evento_de EventSucceeded nid)\<lparr>ev_exit := fst (Saida p)\<rparr>],
                             limpar a o' nome True m)
                  else Some (inicio # evs @ log @
                               [(evento_de EventFailed nid)\<lparr>ev_exit := fst (Saida p), ev_message := mensagem_de_fim nome p\<rparr>],
                             limpar a o' nome False m)))"

record 's kube =
  ku_mundo :: 's
  ku_voo :: "string gomap"          \<comment> \<open>\<open>emVoo\<close>: execution to pod\<close>

text \<open>The part of \<open>Execute\<close> before it returns the channel: the pod is created, or adopted when it is there.\<close>

definition Execute_inicio :: "'s api \<Rightarrow> opcoes \<Rightarrow> taskexec \<Rightarrow> 's kube \<Rightarrow> (string + string) \<times> 's kube" where
  "Execute_inicio a o' t k =
     (case MontarPod (ap_sha a) t o' of
        Inl e \<Rightarrow> (Inl (ap_erro_pod a e), k)
      | Inr spec \<Rightarrow>
          (case ap_criar a spec (ku_mundo k) of
             (r, m) \<Rightarrow>
               let k = k\<lparr>ku_mundo := m\<rparr>;
                   segue = (\<lambda>p. (Inr (md_name (pd_meta p)),
                                 k\<lparr>ku_voo := poe (te_execution t) (md_name (pd_meta p)) (ku_voo k)\<rparr>))
               in (case r of
                     Inl e \<Rightarrow> if contem_sub ''already exists'' e then segue spec else (Inl e, k)
                   | Inr criado \<Rightarrow> segue criado)))"

definition tira :: "string \<Rightarrow> 'v gomap \<Rightarrow> 'v gomap" where
  "tira k m = filter (\<lambda>(x, v). x \<noteq> k) m"

text \<open>The whole of \<open>Execute\<close>, with the goroutine that follows the pod; \<open>None\<close> is a pod that never ends.\<close>

definition Execute :: "'s api \<Rightarrow> opcoes \<Rightarrow> taskexec \<Rightarrow> 's kube \<Rightarrow> ((string + event list) \<times> 's kube) option" where
  "Execute a o' t k =
     (case Execute_inicio a o' t k of
        (Inl e, k) \<Rightarrow> Some (Inl e, k)
      | (Inr nome, k) \<Rightarrow>
          (case acompanhar a o' nome t (ku_mundo k) of
             None \<Rightarrow> None
           | Some (evs, m) \<Rightarrow> Some (Inr evs, k\<lparr>ku_mundo := m, ku_voo := tira (te_execution t) (ku_voo k)\<rparr>)))"

definition Cancel :: "'s api \<Rightarrow> string \<Rightarrow> 's kube \<Rightarrow> string option \<times> 's kube" where
  "Cancel a exec k =
     (case map_of (ku_voo k) exec of
        None \<Rightarrow> (Some exec, k)
      | Some nome \<Rightarrow> (None, k\<lparr>ku_mundo := ap_apagar a nome (ku_mundo k)\<rparr>))"

section \<open>Lemmas on the wait\<close>

lemma aviso_de_espera_log: "\<forall>e \<in> set (aviso_de_espera nid p u). ev_kind e = EventLog"
  by (simp add: aviso_de_espera_def log_de_def)

lemma volta_Inl:
  assumes "volta_da_espera a o' nome nid comecou w m = Inl (r, evs, m')" and "\<forall>e \<in> set (ep_eventos w). ev_kind e = EventLog"
  shows "(\<forall>e \<in> set evs. ev_kind e = EventLog) \<and> (\<forall>p. r = Inr p \<longrightarrow> Terminou p)"
  using assms aviso_de_espera_log
  by (auto simp: volta_da_espera_def Let_def split: prod.splits sum.splits if_splits)

lemma volta_Inr:
  assumes "volta_da_espera a o' nome nid comecou w m = Inr (w', m')" and "\<forall>e \<in> set (ep_eventos w). ev_kind e = EventLog"
  shows "\<forall>e \<in> set (ep_eventos w'). ev_kind e = EventLog"
  using assms aviso_de_espera_log
  by (auto simp: volta_da_espera_def Let_def split: prod.splits sum.splits if_splits)

definition espera_ok :: "espera \<Rightarrow> (string + pod) \<times> event list \<times> 's \<Rightarrow> bool" where
  "espera_ok w x \<longleftrightarrow> (\<forall>e \<in> set (ep_eventos w). ev_kind e = EventLog) \<longrightarrow>
     (\<forall>e \<in> set (fst (snd x)). ev_kind e = EventLog) \<and> (\<forall>p. fst x = Inr p \<longrightarrow> Terminou p)"

lemma esperar_laco_fim:
  assumes "esperar_laco a o' nome nid comecou w m = Some x"
  shows "espera_ok w x"
proof (rule esperar_laco.raw_induct [OF _ assms])
  fix laco and a :: "'a api" and o' :: opcoes and nome nid :: string and comecou :: time and w :: espera and m :: 'a and x
  assume IH: "\<And>a o' nome nid comecou w m x. laco a o' nome nid comecou w m = Some x \<Longrightarrow> espera_ok w x"
    and b: "(case volta_da_espera a o' nome nid comecou w m of Inl r \<Rightarrow> Some r
      | Inr v \<Rightarrow> laco a o' nome nid comecou (fst v) (snd v)) = Some x"
  show "espera_ok w x"
  proof (cases "volta_da_espera a o' nome nid comecou w m")
    case (Inl y)
    with b volta_Inl [of a o' nome nid comecou w m "fst y" "fst (snd y)" "snd (snd y)"] show ?thesis
      by (simp add: espera_ok_def)
  next
    case (Inr v)
    with b have "espera_ok (fst v) x" by (intro IH) simp
    with Inr volta_Inr [of a o' nome nid comecou w m "fst v" "snd v"] show ?thesis by (simp add: espera_ok_def)
  qed
qed

lemma esperarSair_fim:
  assumes "esperarSair a o' nome nid m = Some (r, evs, m')"
  shows "(\<forall>e \<in> set evs. ev_kind e = EventLog) \<and> (\<forall>p. r = Inr p \<longrightarrow> Terminou p)"
  using esperar_laco_fim [OF assms [unfolded esperarSair_def]] by (simp add: espera_ok_def)

lemma drenarLogs_log: "drenarLogs a nome nid m = (evs, m') \<Longrightarrow> \<forall>e \<in> set evs. ev_kind e = EventLog"
  by (auto simp: drenarLogs_def copiar_def log_de_def split: prod.splits sum.splits)

text \<open>The outcome is success exactly when the pod was seen in phase \<open>Succeeded\<close>; then it is always deleted.\<close>

definition teve_sucesso :: "'s api \<Rightarrow> opcoes \<Rightarrow> string \<Rightarrow> string \<Rightarrow> 's \<Rightarrow> bool" where
  "teve_sucesso a o' nome nid m \<longleftrightarrow>
     (case esperarSair a o' nome nid m of Some (Inr p, _) \<Rightarrow> Fase p = ''Succeeded'' | _ \<Rightarrow> False)"

lemma acompanhar_relato:
  assumes "acompanhar a o' nome t m = Some (evs, m')"
  shows "relato_de_execucao evs"
    and "ev_kind (last evs) = (if teve_sucesso a o' nome (te_node t) m then EventSucceeded else EventFailed)"
    and "\<exists>u. m' = limpar a o' nome (teve_sucesso a o' nome (te_node t) m) u"
proof -
  obtain r l u where e: "esperarSair a o' nome (te_node t) m = Some (r, l, u)"
    using assms by (cases "esperarSair a o' nome (te_node t) m") (auto simp: acompanhar_def Let_def)
  have l: "\<forall>x \<in> set l. ev_kind x = EventLog" using esperarSair_fim [OF e] by blast
  let ?i = "(evento_de EventStarted (te_node t))\<lparr>ev_message := ''pod '' @ nome @ '' ('' @ te_image t @ '')''\<rparr>"
  have "\<exists>meio f u. evs = ?i # meio @ [f] \<and> (\<forall>e \<in> set meio. ev_kind e = EventLog) \<and>
      ev_kind f = (if teve_sucesso a o' nome (te_node t) m then EventSucceeded else EventFailed) \<and>
      m' = limpar a o' nome (teve_sucesso a o' nome (te_node t) m) u"
  proof (cases r)
    case (Inl x)
    with assms e l show ?thesis
      by (intro exI [of _ l]) (auto simp: acompanhar_def teve_sucesso_def evento_de_def Let_def)
  next
    case (Inr p)
    obtain g v where d: "drenarLogs a nome (te_node t) u = (g, v)" by fastforce
    have "\<forall>x \<in> set (l @ g). ev_kind x = EventLog" using l drenarLogs_log [OF d] by auto
    with assms e Inr d show ?thesis
      by (intro exI [of _ "l @ g"]) (auto simp: acompanhar_def teve_sucesso_def evento_de_def Let_def split: if_splits)
  qed
  moreover have "ev_kind ?i = EventStarted" by (simp add: evento_de_def)
  ultimately show "relato_de_execucao evs"
    and "ev_kind (last evs) = (if teve_sucesso a o' nome (te_node t) m then EventSucceeded else EventFailed)"
    and "\<exists>u. m' = limpar a o' nome (teve_sucesso a o' nome (te_node t) m) u"
    by (auto intro!: relato_de_execucaoI split: if_splits)
qed

definition entrega_de_pod :: "'s api \<Rightarrow> opcoes \<Rightarrow> taskexec \<Rightarrow> event list \<Rightarrow> bool" where
  "entrega_de_pod a o' t evs \<longleftrightarrow> (\<exists>k k'. Execute a o' t k = Some (Inr evs, k'))"

lemma Execute_Inr:
  assumes "Execute a o' t k = Some (Inr evs, k')"
  obtains nome j m where "Execute_inicio a o' t k = (Inr nome, j)" "acompanhar a o' nome t (ku_mundo j) = Some (evs, m)"
    "k' = j\<lparr>ku_mundo := m, ku_voo := tira (te_execution t) (ku_voo j)\<rparr>"
  using assms by (auto simp: Execute_def split: prod.splits sum.splits option.splits)

interpretation pods: canal "entrega_de_pod a o'" for a :: "'s api" and o'
  by unfold_locales (auto simp: entrega_de_pod_def elim!: Execute_Inr dest: acompanhar_relato(1))

section \<open>Properties\<close>

text \<open>
  C28: an attempt run as a pod succeeds exactly when the pod does. When the channel closes, the
  events are the start, lines of the log and one outcome; the runner takes the attempt for a
  success exactly when the pod was last read in phase \<open>Succeeded\<close>; a pod that succeeded is
  deleted, one that failed is deleted unless the installation keeps those; and the execution is
  no longer listed as in flight.
\<close>

theorem Execute_desfecho:
  assumes x: "Execute a o' t k = Some (Inr evs, k')"
  shows "relato_de_execucao evs \<and>
    (\<exists>nome j u. Execute_inicio a o' t k = (Inr nome, j) \<and>
       (snd (desfecho (fold (consumir_evento nid) evs coleta_vazia)) = None \<longleftrightarrow> teve_sucesso a o' nome (te_node t) (ku_mundo j)) \<and>
       ku_mundo k' = (if teve_sucesso a o' nome (te_node t) (ku_mundo j) \<or> \<not> op_manter o' then ap_apagar a nome u else u)) \<and>
    map_of (ku_voo k') (te_execution t) = None"
proof -
  have d: "entrega_de_pod a o' t evs" using x by (auto simp: entrega_de_pod_def)
  obtain nome j m where i: "Execute_inicio a o' t k = (Inr nome, j)" and ac: "acompanhar a o' nome t (ku_mundo j) = Some (evs, m)"
    and k': "k' = j\<lparr>ku_mundo := m, ku_voo := tira (te_execution t) (ku_voo j)\<rparr>"
    using Execute_Inr [OF x] .
  obtain u where "m = limpar a o' nome (teve_sucesso a o' nome (te_node t) (ku_mundo j)) u"
    using acompanhar_relato(3) [OF ac] by blast
  then have m: "ku_mundo k' = (if teve_sucesso a o' nome (te_node t) (ku_mundo j) \<or> \<not> op_manter o' then ap_apagar a nome u else u)"
    by (simp add: k' limpar_def)
  have "map_of (ku_voo k') (te_execution t) = None" by (auto simp: k' tira_def map_of_eq_None_iff)
  moreover have "snd (desfecho (fold (consumir_evento nid) evs coleta_vazia)) = None \<longleftrightarrow>
      teve_sucesso a o' nome (te_node t) (ku_mundo j)"
    using pods.desfecho_do_canal [OF d] acompanhar_relato(2) [OF ac] by simp
  ultimately show ?thesis using pods.relato [OF d]
    by (intro conjI exI [of _ nome] exI [of _ j] exI [of _ u]) (use i m in simp_all)
qed

text \<open>A server where the pod is in the phase \<open>fase\<close> from the start; the world is the clock.\<close>

definition pod_na_fase :: "string \<Rightarrow> pod \<Rightarrow> pod" where
  "pod_na_fase fase p = p\<lparr>pd_status := Some \<lparr>st_phase = fase, st_conditions = [], st_reason = [], st_containers = []\<rparr>\<rparr>"

definition pod_de_exemplo :: pod where
  "pod_de_exemplo =
     \<lparr>pd_meta = \<lparr>md_name = ''p'', md_namespace = [], md_labels = [], md_annotations = []\<rparr>,
      pd_spec = \<lparr>ps_restart = [], ps_conta = [], ps_pull = [], ps_node_selector = [], ps_tolerations = [], ps_deadline = None,
        ps_volumes = [], ps_containers = []\<rparr>, pd_status = None\<rparr>"

definition api_de_exemplo :: "string \<Rightarrow> int api" where
  "api_de_exemplo fase =
     \<lparr>ap_criar = (\<lambda>p m. (Inr p, m)), ap_ler = (\<lambda>n m. (Inr (pod_na_fase fase pod_de_exemplo), m)),
      ap_logs = (\<lambda>n m. (Inr ''ok'', m)), ap_apagar = (\<lambda>n m. m), ap_tick = (\<lambda>m. (True, m + 1000000000)),
      ap_ctx_err = (\<lambda>_. []), ap_agora = (\<lambda>m. m), ap_dur = (\<lambda>_. []), ap_sha = (\<lambda>_. replicate 32 171), ap_erro_pod = (\<lambda>_. [])\<rparr>"

definition opcoes_de_exemplo :: opcoes where
  "opcoes_de_exemplo =
     \<lparr>op_namespace = [], op_conta = [], op_pull = [], op_node_selector = [], op_tolerations = [], op_env_secrets = [],
      op_env_configmaps = [], op_pvc = [], op_path = [], op_permitidos = [''api''], op_labels = [], op_shell = [],
      op_espera = 600 * 1000000000, op_manter = False\<rparr>"

lemma esperar_de_exemplo:
  "esperarSair (api_de_exemplo ''Succeeded'') o' nome nid m = Some (Inr (pod_na_fase ''Succeeded'' pod_de_exemplo), [], m)"
  by (simp add: esperarSair_def esperar_laco.simps volta_da_espera_def api_de_exemplo_def pod_na_fase_def Terminou_def Fase_def)

lemma inicio_de_exemplo:
  "\<exists>nome j. Execute_inicio (api_de_exemplo fase) opcoes_de_exemplo tarefa_de_exemplo \<lparr>ku_mundo = 0, ku_voo = []\<rparr> = (Inr nome, j)"
proof -
  have "\<not> isl (MontarPod (ap_sha (api_de_exemplo fase)) tarefa_de_exemplo opcoes_de_exemplo)"
    by (simp add: MontarPod_def tarefa_de_exemplo_def opcoes_de_exemplo_def sort_strings_def coordenada_def valor_de_def
        permiteSecret_def comPadroes_def Let_def)
  then obtain p where "MontarPod (ap_sha (api_de_exemplo fase)) tarefa_de_exemplo opcoes_de_exemplo = Inr p"
    by (cases "MontarPod (ap_sha (api_de_exemplo fase)) tarefa_de_exemplo opcoes_de_exemplo") auto
  then show ?thesis by (simp add: Execute_inicio_def api_de_exemplo_def)
qed

theorem Execute_desfecho_witness:
  "\<exists>evs k'. Execute (api_de_exemplo ''Succeeded'') opcoes_de_exemplo tarefa_de_exemplo \<lparr>ku_mundo = 0, ku_voo = []\<rparr> = Some (Inr evs, k') \<and>
     snd (desfecho (fold (consumir_evento []) evs coleta_vazia)) = None"
proof -
  let ?a = "api_de_exemplo ''Succeeded''"
  obtain nome j where i: "Execute_inicio ?a opcoes_de_exemplo tarefa_de_exemplo \<lparr>ku_mundo = 0, ku_voo = []\<rparr> = (Inr nome, j)"
    using inicio_de_exemplo by blast
  have s: "teve_sucesso ?a opcoes_de_exemplo n x m" for n x m
    by (simp add: teve_sucesso_def esperar_de_exemplo pod_na_fase_def Fase_def)
  have "\<exists>x. acompanhar ?a opcoes_de_exemplo nome tarefa_de_exemplo (ku_mundo j) = Some x"
    by (simp add: acompanhar_def esperar_de_exemplo pod_na_fase_def Fase_def Let_def split: prod.split)
  then obtain evs m where "acompanhar ?a opcoes_de_exemplo nome tarefa_de_exemplo (ku_mundo j) = Some (evs, m)" by auto
  with i obtain k' where x: "Execute ?a opcoes_de_exemplo tarefa_de_exemplo \<lparr>ku_mundo = 0, ku_voo = []\<rparr> = Some (Inr evs, k')"
    by (simp add: Execute_def)
  from Execute_desfecho [OF x, of "[]"] s have "snd (desfecho (fold (consumir_evento []) evs coleta_vazia)) = None" by auto
  with x show ?thesis by blast
qed

text \<open>
  A pod that never starts does not hold its step for ever. When no reading ever shows the
  pod running or finished, reading does not turn the clock back and every tick moves it on by
  at least some fixed amount, the wait ends, with an error.
\<close>

theorem esperarSair_desiste:
  assumes parado: "\<forall>m p. fst (ap_ler a nome m) = Inr p \<longrightarrow> \<not> Terminou p \<and> Fase p \<noteq> ''Running''"
    and leitura: "\<forall>m. ap_agora a m \<le> ap_agora a (snd (ap_ler a nome m))"
    and tick: "0 < d" "\<forall>m. ap_agora a m + d \<le> ap_agora a (snd (ap_tick a m))"
  shows "\<exists>e evs m'. esperarSair a o' nome nid m = Some (Inl e, evs, m')"
proof -
  have laco: "\<exists>e evs m'. esperar_laco a o' nome nid c w m = Some (Inl e, evs, m')"
    if "\<not> ep_seguindo w" "op_espera o' - (ap_agora a m - c) < int n * d" for c w m n
    using that
  proof (induction n arbitrary: w m)
    case (0 w m)
    obtain r y where y: "ap_ler a nome m = (r, y)" by fastforce
    have "ap_agora a m \<le> ap_agora a y" using leitura y by (metis snd_conv)
    then have "op_espera o' < ap_agora a y - c" using 0(2) by simp
    moreover have "r = Inr p \<Longrightarrow> \<not> Terminou p \<and> Fase p \<noteq> ''Running''" for p using parado y by (metis fst_conv)
    ultimately show ?case using 0(1)
      by (cases r; subst esperar_laco.simps) (auto simp: volta_da_espera_def Let_def y split: prod.split)
  next
    case (Suc n w m)
    obtain r y where y: "ap_ler a nome m = (r, y)" by fastforce
    obtain b z where z: "ap_tick a y = (b, z)" by fastforce
    have t: "ap_agora a m \<le> ap_agora a y" "ap_agora a y + d \<le> ap_agora a z"
      using leitura tick(2) y z by (metis snd_conv)+
    have menos: "op_espera o' - (ap_agora a z - c) < int n * d" using Suc.prems(2) t by (simp add: algebra_simps)
    have proxima: "\<exists>e evs m'. esperar_laco a o' nome nid c v z = Some (Inl e, evs, m')" if "\<not> ep_seguindo v" for v
      using Suc.IH [OF that menos] .
    show ?case
    proof (cases r)
      case (Inr p)
      then have "\<not> Terminou p" "Fase p \<noteq> ''Running''" using parado y by (metis fst_conv)+
      then show ?thesis using Suc.prems(1) proxima
        by (subst esperar_laco.simps) (auto simp: volta_da_espera_def Let_def y z Inr split: prod.split)
    qed (auto simp: esperar_laco.simps volta_da_espera_def y)
  qed
  have "op_espera o' - (ap_agora a m - ap_agora a m) < int (Suc (nat (op_espera o'))) * d"
  proof -
    have "int (Suc (nat (op_espera o'))) * 1 \<le> int (Suc (nat (op_espera o'))) * d" using tick(1) by (intro mult_left_mono) simp_all
    moreover have "op_espera o' < int (Suc (nat (op_espera o'))) * 1" by simp
    ultimately have "op_espera o' < int (Suc (nat (op_espera o'))) * d" by (rule order.strict_trans2 [rotated])
    then show ?thesis by (simp only: diff_self diff_zero)
  qed
  from laco [OF _ this, of "\<lparr>ep_ultimo = [], ep_seguindo = False, ep_eventos = []\<rparr>"] show ?thesis
    by (simp add: esperarSair_def)
qed

theorem esperarSair_desiste_witness:
  "\<exists>e evs m'. esperarSair (api_de_exemplo ''Pending'') opcoes_de_exemplo ''p'' ''a'' 0 = Some (Inl e, evs, m')"
proof (rule esperarSair_desiste [where d = 1])
  show "\<forall>m p. fst (ap_ler (api_de_exemplo ''Pending'') ''p'' m) = Inr p \<longrightarrow> \<not> Terminou p \<and> Fase p \<noteq> ''Running''"
    by (simp add: api_de_exemplo_def pod_na_fase_def Terminou_def Fase_def)
qed (simp_all add: api_de_exemplo_def)

definition no_com_imagem :: node where
  "no_com_imagem = no_vazio\<lparr>nd_id := ''a'', nd_run := ''x'', nd_image := ''img''\<rparr>"

definition api_ocupada :: "string \<Rightarrow> int api" where
  "api_ocupada fase = (api_de_exemplo fase)\<lparr>ap_criar := (\<lambda>p m. (Inl ''already exists'', m))\<rparr>"

lemma montar_com_imagem:
  "\<exists>u s'. montar ambiente_de_exemplo ((runner_de_exemplo [])\<lparr>rn_tentativa_run := i\<rparr>) workflow_vazio no_com_imagem 0 True
      estado_de_exemplo = (Inr (executor_de_exemplo [], u), s') \<and> te_image u \<noteq> [] \<and> te_command u \<noteq> [] \<and> te_secrets u = []"
proof -
  have "\<not> contem_sub ''{{'' ''x''" by (simp add: contem_sub_def sublist_Cons_right)
  then show ?thesis
    by (simp add: montar_def Let_def no_com_imagem_def no_vazio_def ImagemDe_def Renderizar_sem_chaves
        SecretsDe_def sobrepor_def workflow_vazio_def tarefa_de_def)
qed

text \<open>
  A run that is retried meets the pod of its earlier attempt. The task a runner assembles
  does not carry the attempt of the run, so two attempts of a run give a step the same pod
  name; and when the server answers that the pod is there already, it is adopted.
\<close>

theorem nova_tentativa_adota_o_pod:
  assumes t: "montar am (r\<lparr>rn_tentativa_run := i\<rparr>) w n k p s = (Inr (x, t), s1)"
    and u: "montar am (r\<lparr>rn_tentativa_run := j\<rparr>) w n k p s' = (Inr (y, u), s2)"
    and spec: "MontarPod (ap_sha a) u o' = Inr spec" and ja: "contem_sub ''already exists'' e"
    and criar: "ap_criar a spec (ku_mundo q) = (Inl e, m)"
  shows "fst (Execute_inicio a o' u q) = Inr (NomeDoPod (ap_sha a) t)"
proof -
  have c: "tarefa_de am (r\<lparr>rn_tentativa_run := j\<rparr>) w n k p = tarefa_de am (r\<lparr>rn_tentativa_run := i\<rparr>) w n k p"
    by (simp add: tarefa_de_def contextoDoRun_def Let_def cong: option.case_cong)
  have iguais: "te_workflow t = te_workflow u" "te_node t = te_node u" "te_run t = te_run u"
    "te_tentativa t = te_tentativa u" "te_tentativa_run t = te_tentativa_run u"
    using montar_casos [OF t] montar_casos [OF u] unfolding c by (auto split: if_splits)
  have "md_name (pd_meta spec) = NomeDoPod (ap_sha a) u"
    using spec by (auto simp: MontarPod_def Let_def split: if_splits sum.splits)
  then show ?thesis using spec ja criar iguais by (simp add: Execute_inicio_def NomeDoPod_def Let_def)
qed

theorem nova_tentativa_adota_o_pod_witness:
  "\<exists>t u. fst (montar ambiente_de_exemplo ((runner_de_exemplo [])\<lparr>rn_tentativa_run := 0\<rparr>) workflow_vazio no_com_imagem 0 True
        estado_de_exemplo) = Inr (executor_de_exemplo [], t) \<and>
     fst (montar ambiente_de_exemplo ((runner_de_exemplo [])\<lparr>rn_tentativa_run := 1\<rparr>) workflow_vazio no_com_imagem 0 True
        estado_de_exemplo) = Inr (executor_de_exemplo [], u) \<and>
     fst (Execute_inicio (api_ocupada ''Pending'') opcoes_de_exemplo u \<lparr>ku_mundo = 0, ku_voo = []\<rparr>) =
       Inr (NomeDoPod (ap_sha (api_ocupada ''Pending'')) t)"
proof -
  let ?a = "api_ocupada ''Pending''"
  obtain t s1 where t: "montar ambiente_de_exemplo ((runner_de_exemplo [])\<lparr>rn_tentativa_run := 0\<rparr>) workflow_vazio no_com_imagem 0 True
      estado_de_exemplo = (Inr (executor_de_exemplo [], t), s1)" using montar_com_imagem by blast
  obtain u s2 where u: "montar ambiente_de_exemplo ((runner_de_exemplo [])\<lparr>rn_tentativa_run := 1\<rparr>) workflow_vazio no_com_imagem 0 True
      estado_de_exemplo = (Inr (executor_de_exemplo [], u), s2)" and ok: "te_image u \<noteq> []" "te_command u \<noteq> []" "te_secrets u = []"
    using montar_com_imagem by blast
  obtain spec where spec: "MontarPod (ap_sha ?a) u opcoes_de_exemplo = Inr spec"
    using ok by (simp add: MontarPod_def sort_strings_def Let_def)
  have "contem_sub ''already exists'' ''already exists''" by (simp add: contem_sub_def)
  from nova_tentativa_adota_o_pod [OF t u spec this, of "\<lparr>ku_mundo = 0, ku_voo = []\<rparr>"] t u show ?thesis
    by (simp add: api_ocupada_def)
qed

end
