(* ===== verification/Local.thy ===== *)
theory Local
  imports Runner
begin

text \<open>
  \<open>internal/execution/local/process.go\<close> and \<open>gotask.go\<close>: the executor of commands on the host and
  the executor of tasks written in Go. What the operating system does with a command, and what
  a task does when it runs, are arguments over a world of type \<open>'s\<close>.
\<close>

section \<open>process.go\<close>

text \<open>\<open>New\<close> refuses to build the executor outside the local mode.\<close>

definition ErrForaDoLocal :: "string \<Rightarrow> bool" where
  "ErrForaDoLocal ambiente \<longleftrightarrow> ambiente \<noteq> ''local''"

text \<open>\<open>os.LookupEnv\<close> reads \<open>so\<close>; a secret that is missing or empty there is an error with all of them.\<close>

definition faltando :: "(string \<Rightarrow> string option) \<Rightarrow> string gomap \<Rightarrow> string list" where
  "faltando so segredos =
     map (\<lambda>(nome, coord). nome @ '' (secrets: '' @ coord @ '')'')
       (filter (\<lambda>(nome, coord). so nome = None \<or> so nome = Some []) segredos)"

definition ambienteDaTask :: "(string \<Rightarrow> string option) \<Rightarrow> taskexec \<Rightarrow> string list + string list" where
  "ambienteDaTask so t =
     (let env = poe_todos (te_env t) [];
          env = fold (\<lambda>(nome, coord). case so nome of None \<Rightarrow> id | Some v \<Rightarrow> if v = [] then id else poe nome v)
                  (te_secrets t) env
      in if faltando so (te_secrets t) \<noteq> [] then Inl (sort_strings (faltando so (te_secrets t)))
         else Inr (sort_strings (map (\<lambda>(k, v). k @ ''='' @ v) env)))"

text \<open>
  What a started process gives: its two outputs, the order in which their lines reach the
  channel (\<open>True\<close> takes one from stdout), and whether \<open>Wait\<close> reported an error with the code.
\<close>

record processo =
  pr_stdout :: "string list"
  pr_stderr :: "string list"
  pr_ordem :: "bool list"
  pr_erro :: bool
  pr_code :: int

fun intercalar :: "bool list \<Rightarrow> 'a list \<Rightarrow> 'a list \<Rightarrow> 'a list" where
  "intercalar (True # bs) (x # xs) ys = x # intercalar bs xs ys"
| "intercalar (False # bs) xs (y # ys) = y # intercalar bs xs ys"
| "intercalar bs xs ys = xs @ ys"

text \<open>Lines of 1 MiB and more stop the scanner of their output.\<close>

definition repassar :: "string \<Rightarrow> string \<Rightarrow> string list \<Rightarrow> event list" where
  "repassar nid fluxo ls = map (log_de nid fluxo) (takeWhile (\<lambda>l. length l < 1048576) ls)"

definition eventos_do_processo :: "string \<Rightarrow> processo \<Rightarrow> event list" where
  "eventos_do_processo nid p =
     evento_de EventStarted nid #
     intercalar (pr_ordem p) (repassar nid ''stdout'' (pr_stdout p)) (repassar nid ''stderr'' (pr_stderr p)) @
     [if pr_erro p then (evento_de EventFailed nid)\<lparr>ev_exit := pr_code p, ev_message := ''saiu com codigo '' @ show_int (pr_code p)\<rparr>
      else (evento_de EventSucceeded nid)\<lparr>ev_exit := pr_code p\<rparr>]"

datatype erro_processo = SemComandoLocal string | SegredosFaltando string "string list" | NaoIniciou string string

record 's processos =
  px_mundo :: 's
  px_rodando :: "string list"        \<comment> \<open>the keys of \<open>rodando\<close>\<close>

text \<open>
  \<open>iniciar\<close> starts a command in a directory with an environment. The entry of \<open>rodando\<close> is made
  before the environment is read and removed by the goroutine that follows the process.
\<close>

definition Execute_processo ::
  "(string \<Rightarrow> string option) \<Rightarrow> (string \<Rightarrow> string \<Rightarrow> string list \<Rightarrow> 's \<Rightarrow> (string + processo) \<times> 's)
     \<Rightarrow> taskexec \<Rightarrow> 's processos \<Rightarrow> (erro_processo + event list) \<times> 's processos" where
  "Execute_processo so iniciar t s =
     (if te_command t = [] then (Inl (SemComandoLocal (te_node t)), s)
      else
        let s = s\<lparr>px_rodando := List.insert (te_execution t) (px_rodando s)\<rparr>
        in (case ambienteDaTask so t of
              Inl falta \<Rightarrow> (Inl (SegredosFaltando (te_node t) falta), s)
            | Inr ambiente \<Rightarrow>
                (case iniciar (te_command t) (te_workdir t) ambiente (px_mundo s) of
                   (Inl e, m) \<Rightarrow> (Inl (NaoIniciou (te_node t) e), s\<lparr>px_mundo := m\<rparr>)
                 | (Inr p, m) \<Rightarrow>
                     (Inr (eventos_do_processo (te_node t) p),
                      s\<lparr>px_mundo := m, px_rodando := remove1 (te_execution t) (px_rodando s)\<rparr>))))"

definition Cancel_processo :: "string \<Rightarrow> 's processos \<Rightarrow> string option" where
  "Cancel_processo exec s = (if exec \<in> set (px_rodando s) then None else Some exec)"

section \<open>gotask.go\<close>

datatype resultado_go = GoOk | GoErro string | GoPanico string

text \<open>
  A run of a task: the lines it logs, each with whether the channel had room for it (a full
  channel drops the line), how it ended, and whether the deadline had passed by then.
\<close>

record corrida_go =
  cg_logs :: "(string \<times> bool) list"
  cg_fim :: resultado_go
  cg_estourou :: bool

datatype erro_go = NaoRegistrada string "string list"

definition falha_go :: "(string \<Rightarrow> string) \<Rightarrow> (time \<Rightarrow> string) \<Rightarrow> taskexec \<Rightarrow> corrida_go \<Rightarrow> string option" where
  "falha_go q dur t c =
     (let err = (case cg_fim c of GoOk \<Rightarrow> None | GoErro e \<Rightarrow> Some e
                 | GoPanico v \<Rightarrow> Some (''task '' @ q (te_action t) @ '' entrou em panico: '' @ v))
      in case err of None \<Rightarrow> None
         | Some e \<Rightarrow> Some (if cg_estourou c then ''estourou o timeout de '' @ dur (te_timeout t) else e))"

definition Execute_go ::
  "(string \<Rightarrow> string) \<Rightarrow> (time \<Rightarrow> string) \<Rightarrow> (string \<Rightarrow> valor gomap \<Rightarrow> 's \<Rightarrow> corrida_go \<times> 's) registry \<Rightarrow> taskexec \<Rightarrow> 's
     \<Rightarrow> (erro_go + event list) \<times> 's" where
  "Execute_go q dur r t m =
     (case registry_Get r (te_action t) of
        None \<Rightarrow> (Inl (NaoRegistrada (te_action t) (Nomes r)), m)
      | Some task \<Rightarrow>
          (case tk_fn task (te_node t) (te_with t) m of
             (c, m) \<Rightarrow>
               (Inr (evento_de EventStarted (te_node t) #
                     map (\<lambda>(l, b). log_de (te_node t) ''stdout'' l) (filter snd (cg_logs c)) @
                     [case falha_go q dur t c of
                        None \<Rightarrow> evento_de EventSucceeded (te_node t)
                      | Some msg \<Rightarrow> (evento_de EventFailed (te_node t))\<lparr>ev_message := msg\<rparr>]), m)))"

section \<open>Both keep the law of the channel\<close>

lemma intercalar_set [simp]: "set (intercalar bs xs ys) = set xs \<union> set ys"
  by (induction bs xs ys rule: intercalar.induct) auto

lemma intercalar_mset: "length (intercalar bs xs ys) = length xs + length ys"
  by (induction bs xs ys rule: intercalar.induct) auto

lemma intercalar_filter:
  "\<forall>x \<in> set xs. P x \<Longrightarrow> \<forall>y \<in> set ys. \<not> P y \<Longrightarrow> filter P (intercalar bs xs ys) = xs \<and> filter (\<lambda>x. \<not> P x) (intercalar bs xs ys) = ys"
  by (induction bs xs ys rule: intercalar.induct) (auto simp: filter_empty_conv filter_id_conv)

lemma eventos_do_processo_relato: "relato_de_execucao (eventos_do_processo nid p)"
  unfolding eventos_do_processo_def
  by (rule relato_de_execucaoI) (auto simp: repassar_def evento_de_def log_de_def)

definition entrega_de_processo ::
  "(string \<Rightarrow> string option) \<Rightarrow> (string \<Rightarrow> string \<Rightarrow> string list \<Rightarrow> 's \<Rightarrow> (string + processo) \<times> 's) \<Rightarrow> taskexec \<Rightarrow> event list \<Rightarrow> bool" where
  "entrega_de_processo so iniciar t evs \<longleftrightarrow> (\<exists>s. fst (Execute_processo so iniciar t s) = Inr evs)"

definition entrega_de_go ::
  "(string \<Rightarrow> string) \<Rightarrow> (time \<Rightarrow> string) \<Rightarrow> (string \<Rightarrow> valor gomap \<Rightarrow> 's \<Rightarrow> corrida_go \<times> 's) registry \<Rightarrow> taskexec \<Rightarrow> event list \<Rightarrow> bool" where
  "entrega_de_go q dur r t evs \<longleftrightarrow> (\<exists>m. fst (Execute_go q dur r t m) = Inr evs)"

lemma Execute_processo_Inr:
  "fst (Execute_processo so iniciar t s) = Inr evs \<Longrightarrow> \<exists>p. evs = eventos_do_processo (te_node t) p"
  by (auto simp: Execute_processo_def Let_def split: if_splits sum.splits prod.splits)

lemma Execute_go_Inr: "fst (Execute_go q dur r t m) = Inr evs \<Longrightarrow> relato_de_execucao evs"
  by (auto simp: Execute_go_def evento_de_def log_de_def intro!: relato_de_execucaoI split: option.splits prod.splits)

interpretation processos: canal "entrega_de_processo so iniciar"
  for so and iniciar :: "string \<Rightarrow> string \<Rightarrow> string list \<Rightarrow> 's \<Rightarrow> (string + processo) \<times> 's"
  by unfold_locales (auto simp: entrega_de_processo_def dest!: Execute_processo_Inr intro: eventos_do_processo_relato)

interpretation tarefas: canal "entrega_de_go q dur r"
  for q dur and r :: "(string \<Rightarrow> valor gomap \<Rightarrow> 's \<Rightarrow> corrida_go \<times> 's) registry"
  by unfold_locales (auto simp: entrega_de_go_def intro: Execute_go_Inr)

definition tarefa_vazia :: taskexec where
  "tarefa_vazia =
     \<lparr>te_execution = [], te_node = ''a'', te_workflow = ''w'', te_run = [], te_tentativa = 0, te_tentativa_run = 0,
      te_command = [], te_action = [], te_with = [], te_image = [], te_shell = True, te_cpu = [], te_memoria = [],
      te_cpu_max = [], te_memoria_max = [], te_workdir = [], te_env = [], te_secrets = [], te_timeout = 0\<rparr>"

section \<open>Properties\<close>

lemma set_mapa_ok: "mapa_ok m \<Longrightarrow> set m = {(k, v). map_of m k = Some v}"
  by (auto simp: mapa_ok_def)

lemma map_of_segredos:
  assumes "mapa_ok ss"
  shows "map_of (fold (\<lambda>(n, c). case so n of None \<Rightarrow> id | Some v \<Rightarrow> if v = [] then id else poe n v) ss m) =
    (\<lambda>k. if k \<in> fst ` set ss \<and> so k \<noteq> None \<and> so k \<noteq> Some [] then so k else map_of m k)"
  using assms
proof (induction ss arbitrary: m)
  case (Cons x ss)
  obtain n c where x: "x = (n, c)" by (cases x)
  have ok: "mapa_ok ss" and fora: "n \<notin> fst ` set ss" using Cons.prems by (auto simp: x mapa_ok_def)
  show ?case by (rule ext) (use fora in \<open>auto simp: x Cons.IH [OF ok] split: option.splits\<close>)
qed simp

lemma mapa_ok_segredos:
  "mapa_ok m \<Longrightarrow> mapa_ok (fold (\<lambda>(n, c). case so n of None \<Rightarrow> id | Some v \<Rightarrow> if v = [] then id else poe n v) ss m)"
  by (induction ss arbitrary: m) (auto split: option.splits)

text \<open>
  A local process sees what its step declares and nothing else. The environment is
  refused exactly when a secret of the step is missing or empty in the environment of the
  engine, and the refusal lists all of them in order; else it is the sorted list of the
  literals of the step and its secrets, read under their own names and winning over a literal
  of the same name.
\<close>

theorem ambienteDaTask_exato:
  assumes "mapa_ok (te_env t)" and "mapa_ok (te_secrets t)"
  shows "case ambienteDaTask so t of
      Inl f \<Rightarrow> f \<noteq> [] \<and> sorted f \<and>
        set f = {n @ '' (secrets: '' @ c @ '')'' | n c. (n, c) \<in> set (te_secrets t) \<and> (so n = None \<or> so n = Some [])}
    | Inr out \<Rightarrow> sorted out \<and> (\<forall>n \<in> fst ` set (te_secrets t). \<exists>v. so n = Some v \<and> v \<noteq> []) \<and>
        set out = {k @ ''='' @ v | k v.
          (if k \<in> fst ` set (te_secrets t) then so k else map_of (te_env t) k) = Some v}"
proof -
  let ?f = "\<lambda>(n, c). case so n of None \<Rightarrow> id | Some v \<Rightarrow> if v = [] then id else poe n v"
  let ?e = "fold ?f (te_secrets t) (poe_todos (te_env t) [])"
  have vazio: "mapa_ok ([] :: string gomap)" by (simp add: mapa_ok_def)
  have ok: "mapa_ok ?e" by (intro mapa_ok_segredos mapa_ok_poe_todos vazio)
  show ?thesis
  proof (cases "faltando so (te_secrets t) = []")
    case False
    then have "ambienteDaTask so t = Inl (sort_strings (faltando so (te_secrets t)))" by (simp add: ambienteDaTask_def)
    moreover have "set (faltando so (te_secrets t)) =
        {n @ '' (secrets: '' @ c @ '')'' | n c. (n, c) \<in> set (te_secrets t) \<and> (so n = None \<or> so n = Some [])}"
      by (force simp: faltando_def)
    ultimately show ?thesis using False by (simp add: sort_strings_def) (metis set_empty set_sort)
  next
    case True
    then have d: "\<exists>v. so n = Some v \<and> v \<noteq> []" if "n \<in> fst ` set (te_secrets t)" for n
      using that by (cases "so n") (force simp: faltando_def filter_empty_conv)+
    define M where "M k = (if k \<in> fst ` set (te_secrets t) then so k else map_of (te_env t) k)" for k
    have "map_of ?e = M"
      unfolding map_of_segredos [OF assms(2)] map_of_poe_todos [OF assms(1)] M_def using d by (intro ext) fastforce
    then have "set ?e = {(k, v). M k = Some v}" using set_mapa_ok [OF ok] by simp
    then obtain e where e: "set e = {(k, v). M k = Some v}"
      and a: "ambienteDaTask so t = Inr (sort_strings (map (\<lambda>(k, v). k @ ''='' @ v) e))"
      using True by (auto simp: ambienteDaTask_def)
    have "set (map (\<lambda>(k, v). k @ ''='' @ v) e) = {k @ ''='' @ v | k v. M k = Some v}" unfolding set_map e by auto
    then show ?thesis unfolding a sum.case using d by (simp add: sort_strings_def M_def)
  qed
qed

theorem ambienteDaTask_exato_witness:
  "ambienteDaTask (\<lambda>n. if n = ''TOKEN'' then Some ''s'' else None)
     (tarefa_vazia\<lparr>te_env := [(''B'', ''2'')], te_secrets := [(''TOKEN'', ''api/key'')]\<rparr>) = Inr [''B=2'', ''TOKEN=s''] \<and>
   sorted [''B=2'', ''TOKEN=s'']"
proof -
  let ?t = "tarefa_vazia\<lparr>te_env := [(''B'', ''2'')], te_secrets := [(''TOKEN'', ''api/key'')]\<rparr>"
  let ?so = "\<lambda>n. if n = ''TOKEN'' then Some ''s'' else None"
  have e: "ambienteDaTask ?so ?t = Inr [''B=2'', ''TOKEN=s'']" by code_simp
  have "mapa_ok (te_env ?t)" "mapa_ok (te_secrets ?t)" by (simp_all add: mapa_ok_def)
  from ambienteDaTask_exato [OF this, of ?so] e show ?thesis by simp
qed

text \<open>
  An attempt on the host succeeds exactly when what it ran did. The runner takes a process
  for a success exactly when waiting for it reported no error, and a Go task exactly when it
  returned nil: an error, a panic and an error after the deadline all fail the step alone.
\<close>

theorem tentativa_local_sucesso:
  "(fst (Execute_processo so iniciar t s) = Inr (eventos_do_processo (te_node t) p) \<longrightarrow>
      (snd (desfecho (fold (consumir_evento nid) (eventos_do_processo (te_node t) p) coleta_vazia)) = None \<longleftrightarrow> \<not> pr_erro p)) \<and>
   (registry_Get r (te_action t) = Some task \<and> fst (tk_fn task (te_node t) (te_with t) m) = c \<longrightarrow>
      (\<exists>evs. fst (Execute_go q dur r t m) = Inr evs \<and>
        (snd (desfecho (fold (consumir_evento nid) evs coleta_vazia)) = None \<longleftrightarrow> cg_fim c = GoOk)))"
proof (intro conjI impI)
  assume "fst (Execute_processo so iniciar t s) = Inr (eventos_do_processo (te_node t) p)"
  then have "entrega_de_processo so iniciar t (eventos_do_processo (te_node t) p)" by (auto simp: entrega_de_processo_def)
  from processos.desfecho_do_canal [OF this, of nid]
  show "snd (desfecho (fold (consumir_evento nid) (eventos_do_processo (te_node t) p) coleta_vazia)) = None \<longleftrightarrow> \<not> pr_erro p"
    by (simp add: eventos_do_processo_def evento_de_def)
next
  assume g: "registry_Get r (te_action t) = Some task \<and> fst (tk_fn task (te_node t) (te_with t) m) = c"
  obtain m' where "tk_fn task (te_node t) (te_with t) m = (c, m')" using g by (metis prod.collapse)
  then obtain evs where e: "fst (Execute_go q dur r t m) = Inr evs"
    and l: "ev_kind (last evs) = EventSucceeded \<longleftrightarrow> falha_go q dur t c = None"
    using g by (cases "falha_go q dur t c") (simp_all add: Execute_go_def evento_de_def)
  have "entrega_de_go q dur r t evs" using e by (auto simp: entrega_de_go_def)
  then have "snd (desfecho (fold (consumir_evento nid) evs coleta_vazia)) = None \<longleftrightarrow> ev_kind (last evs) = EventSucceeded"
    by (rule tarefas.desfecho_do_canal)
  also note l
  also have "falha_go q dur t c = None \<longleftrightarrow> cg_fim c = GoOk" by (cases "cg_fim c") (simp_all add: falha_go_def)
  finally have "snd (desfecho (fold (consumir_evento nid) evs coleta_vazia)) = None \<longleftrightarrow> cg_fim c = GoOk" .
  with e show "\<exists>evs. fst (Execute_go q dur r t m) = Inr evs \<and>
      (snd (desfecho (fold (consumir_evento nid) evs coleta_vazia)) = None \<longleftrightarrow> cg_fim c = GoOk)"
    by (intro exI [of _ evs] conjI)
qed

theorem tentativa_local_sucesso_witness:
  "\<exists>evs. fst (Execute_go (\<lambda>x. x) (\<lambda>_. []) [(''f'', \<lparr>tk_nome = ''f'', tk_fn = (\<lambda>n w m. (\<lparr>cg_logs = [], cg_fim = GoPanico ''x'', cg_estourou = False\<rparr>, m))\<rparr>)]
       (tarefa_vazia\<lparr>te_action := ''f''\<rparr>) ()) = Inr evs \<and>
     snd (desfecho (fold (consumir_evento []) evs coleta_vazia)) \<noteq> None"
proof -
  let ?c = "\<lparr>cg_logs = [], cg_fim = GoPanico ''x'', cg_estourou = False\<rparr>"
  let ?k = "\<lparr>tk_nome = ''f'', tk_fn = (\<lambda>n w m. (?c, m))\<rparr> :: (string \<Rightarrow> valor gomap \<Rightarrow> unit \<Rightarrow> corrida_go \<times> unit) task"
  let ?t = "tarefa_vazia\<lparr>te_action := ''f''\<rparr>"
  have "registry_Get [(''f'', ?k)] (te_action ?t) = Some ?k \<and> fst (tk_fn ?k (te_node ?t) (te_with ?t) ()) = ?c"
    by (simp add: registry_Get_def)
  from mp [OF tentativa_local_sucesso [THEN conjunct2] this, of "\<lambda>x. x" "\<lambda>_. []" "[]"] show ?thesis by simp
qed

text \<open>
  A process refused for a missing secret stays listed as running. \<open>Execute\<close> returns the
  error with its entry in \<open>rodando\<close>, so a later \<open>Cancel\<close> of it reports success.
\<close>

theorem processo_recusado_fica_rodando:
  assumes "te_command t \<noteq> []" and "ambienteDaTask so t = Inl f"
  shows "fst (Execute_processo so iniciar t s) = Inl (SegredosFaltando (te_node t) f) \<and>
    Cancel_processo (te_execution t) (snd (Execute_processo so iniciar t s)) = None"
  using assms by (simp add: Execute_processo_def Cancel_processo_def)

theorem processo_recusado_fica_rodando_witness:
  "Cancel_processo ''w:a'' (snd (Execute_processo (\<lambda>_. None) (\<lambda>c d e m. (Inl [], m))
     (tarefa_vazia\<lparr>te_execution := ''w:a'', te_command := ''x'', te_secrets := [(''T'', ''s/k'')]\<rparr>)
     \<lparr>px_mundo = (), px_rodando = []\<rparr>)) = None"
proof -
  let ?t = "tarefa_vazia\<lparr>te_execution := ''w:a'', te_command := ''x'', te_secrets := [(''T'', ''s/k'')]\<rparr>"
  have "ambienteDaTask (\<lambda>_. None) ?t = Inl [''T (secrets: s/k)'']" by code_simp
  from processo_recusado_fica_rodando [OF _ this, of "\<lambda>c d e m. (Inl [], m)" "\<lparr>px_mundo = (), px_rodando = []\<rparr>"] show ?thesis by simp
qed

end
