(* ===== verification/Config.thy ===== *)
theory Config
  imports Auth Workflow
begin

text \<open>
  \<open>internal/config/config.go\<close>: the configuration read from the environment at boot, what it refuses,
  and the environment the local steps receive. An environment is the list of its variables;
  \<open>os.Environ\<close> shows each as \<open>name=value\<close>.
\<close>

section \<open>Reading the environment\<close>

definition ambiente_ok :: "string gomap \<Rightarrow> bool" where
  "ambiente_ok amb \<longleftrightarrow> mapa_ok amb \<and> (\<forall>(k, v) \<in> set amb. CHR ''='' \<notin> set k \<and> k \<noteq> [])"

definition environ :: "string gomap \<Rightarrow> string list" where
  "environ amb = map (\<lambda>(k, v). k @ ''='' @ v) amb"

definition Getenv :: "string gomap \<Rightarrow> string \<Rightarrow> string" where
  "Getenv amb k = (case map_of amb k of None \<Rightarrow> [] | Some v \<Rightarrow> v)"

definition config_get :: "string gomap \<Rightarrow> string \<Rightarrow> string \<Rightarrow> string" where
  "config_get amb chave padrao = (let v = Getenv amb chave in if v \<noteq> [] then v else padrao)"

definition lista :: "string gomap \<Rightarrow> string \<Rightarrow> string list" where
  "lista amb chave = filter (\<lambda>p. p \<noteq> []) (map trim_space (split_on (CHR '','') (Getenv amb chave)))"

definition pares :: "string gomap \<Rightarrow> string \<Rightarrow> string gomap" where
  "pares amb chave =
     fold (\<lambda>p out. case cut (CHR ''='') p of None \<Rightarrow> out | Some (k, v) \<Rightarrow> poe (trim_space k) (trim_space v) out)
       (lista amb chave) []"

record toleracao_cfg =
  tc_chave :: string
  tc_valor :: string
  tc_efeito :: string

definition toleracao_de :: "string \<Rightarrow> toleracao_cfg option" where
  "toleracao_de entrada =
     (case cut (CHR '':'') entrada of
        None \<Rightarrow> None
      | Some (par, efeito) \<Rightarrow>
          (case cut (CHR ''='') par of
             None \<Rightarrow> None
           | Some (k, v) \<Rightarrow> Some \<lparr>tc_chave = trim_space k, tc_valor = trim_space v, tc_efeito = trim_space efeito\<rparr>))"

definition toleracoes :: "string gomap \<Rightarrow> string \<Rightarrow> toleracao_cfg list" where
  "toleracoes amb chave = List.map_filter toleracao_de (lista amb chave)"

definition TaskEnvDoAmbiente :: "string gomap \<Rightarrow> string list" where
  "TaskEnvDoAmbiente amb = lista amb ''BREVIS_TASK_ENV''"

section \<open>Load\<close>

record pods_config =
  pc_modo :: string
  pc_namespace :: string
  pc_service_account :: string
  pc_pull_secrets :: "string list"
  pc_env_from_secrets :: "string list"
  pc_env_from_config_maps :: "string list"
  pc_secrets_permitidos :: "string list"
  pc_credencial_pvc :: string
  pc_credencial_path :: string
  pc_node_selector :: "string gomap"
  pc_toleracoes :: "toleracao_cfg list"
  pc_manter_em_falha :: bool

record config =
  cf_env :: string
  cf_http_addr :: string
  cf_database_url :: string
  cf_log_level :: string
  cf_shutdown_timeout :: int
  cf_brand_file :: string
  cf_task_env :: "string list"
  cf_slack_webhook :: string
  cf_auth :: credencial
  cf_ui_url :: string
  cf_pods :: pods_config

datatype erro_config = PrazoNaoInteiro string | SemBanco | ModoInvalido string | CredencialRuim erro_credencial | ExigeCredencial string

definition pods_de :: "string gomap \<Rightarrow> pods_config" where
  "pods_de amb =
     \<lparr>pc_modo = config_get amb ''BREVIS_PODS'' ''auto'', pc_namespace = Getenv amb ''BREVIS_POD_NAMESPACE'',
      pc_service_account = Getenv amb ''BREVIS_POD_SERVICE_ACCOUNT'', pc_pull_secrets = lista amb ''BREVIS_POD_PULL_SECRETS'',
      pc_env_from_secrets = lista amb ''BREVIS_POD_ENV_FROM_SECRETS'',
      pc_env_from_config_maps = lista amb ''BREVIS_POD_ENV_FROM_CONFIGMAPS'',
      pc_secrets_permitidos = lista amb ''BREVIS_POD_ALLOWED_SECRETS'',
      pc_credencial_pvc = config_get amb ''BREVIS_POD_CREDENTIAL_PVC'' [],
      pc_credencial_path = config_get amb ''BREVIS_POD_CREDENTIAL_PATH'' [],
      pc_node_selector = pares amb ''BREVIS_POD_NODE_SELECTOR'', pc_toleracoes = toleracoes amb ''BREVIS_POD_TOLERATIONS'',
      pc_manter_em_falha = (Getenv amb ''BREVIS_POD_MANTER_EM_FALHA'' = ''true'')\<rparr>"

definition config_de :: "string gomap \<Rightarrow> config" where
  "config_de amb =
     \<lparr>cf_env = config_get amb ''BREVIS_ENV'' ''local'', cf_http_addr = config_get amb ''BREVIS_HTTP_ADDR'' '':8080'',
      cf_database_url = Getenv amb ''BREVIS_DATABASE_URL'', cf_log_level = config_get amb ''BREVIS_LOG_LEVEL'' ''info'',
      cf_shutdown_timeout = 15 * 1000000000, cf_brand_file = config_get amb ''BREVIS_BRAND_FILE'' ''brand.yaml'',
      cf_task_env = lista amb ''BREVIS_TASK_ENV'', cf_slack_webhook = Getenv amb ''BREVIS_SLACK_WEBHOOK'',
      cf_auth = \<lparr>cr_usuario = Getenv amb ''BREVIS_AUTH_USUARIO'', cr_hash = Getenv amb ''BREVIS_AUTH_SENHA_HASH'',
                 cr_segredo = Getenv amb ''BREVIS_AUTH_SEGREDO''\<rparr>,
      cf_ui_url = Getenv amb ''BREVIS_UI_URL'', cf_pods = pods_de amb\<rparr>"

definition com_prazo :: "string gomap \<Rightarrow> config \<Rightarrow> erro_config + config" where
  "com_prazo amb c =
     (let v = Getenv amb ''BREVIS_SHUTDOWN_TIMEOUT_SECONDS'' in
      if v = [] then Inr c
      else (case atoi v of
              None \<Rightarrow> Inl (PrazoNaoInteiro v)
            | Some n \<Rightarrow> Inr (c\<lparr>cf_shutdown_timeout := int64 (n * 1000000000)\<rparr>)))"

definition conferir :: "config \<Rightarrow> erro_config option" where
  "conferir c =
     (if cf_database_url c = [] then Some SemBanco
      else if pc_modo (cf_pods c) \<notin> {''auto'', ''on'', ''off''} then Some (ModoInvalido (pc_modo (cf_pods c)))
      else (case Validar_credencial (cf_auth c) of
              Some e \<Rightarrow> Some (CredencialRuim e)
            | None \<Rightarrow> if cf_env c \<noteq> ''local'' \<and> \<not> Ativa (cf_auth c) then Some (ExigeCredencial (cf_env c)) else None))"

definition Load :: "string gomap \<Rightarrow> erro_config + config" where
  "Load amb =
     (case com_prazo amb (config_de amb) of
        Inl e \<Rightarrow> Inl e
      | Inr c \<Rightarrow> (case conferir c of Some e \<Rightarrow> Inl e | None \<Rightarrow> Inr c))"

section \<open>The environment of the steps\<close>

definition repassa_tudo :: "string gomap \<Rightarrow> string gomap \<Rightarrow> string gomap" where
  "repassa_tudo amb env =
     fold (\<lambda>kv env. let (k, v) = (case cut (CHR ''='') kv of None \<Rightarrow> (kv, []) | Some p \<Rightarrow> p)
                    in if prefix ''BREVIS_'' k then env else poe k v env) (environ amb) env"

definition aplica_entrada :: "string gomap \<Rightarrow> string \<Rightarrow> string gomap \<Rightarrow> string gomap" where
  "aplica_entrada amb entrada env =
     (if entrada = ''*'' then repassa_tudo amb env
      else (case cut (CHR ''='') entrada of
              Some (nome, v) \<Rightarrow> poe nome v env
            | None \<Rightarrow> (case map_of amb entrada of Some v \<Rightarrow> poe entrada v env | None \<Rightarrow> env)))"

definition AmbienteDasTasks :: "string gomap \<Rightarrow> string list \<Rightarrow> string gomap" where
  "AmbienteDasTasks amb nomes =
     fold (aplica_entrada amb) nomes [(''PATH'', Getenv amb ''PATH''), (''HOME'', Getenv amb ''HOME'')]"

text \<open>What one entry says of a variable: the reading of the documentation.\<close>

definition diz :: "string gomap \<Rightarrow> string \<Rightarrow> string \<Rightarrow> string option" where
  "diz amb k entrada =
     (if entrada = ''*'' then (if prefix ''BREVIS_'' k then None else map_of amb k)
      else if entrada = k then map_of amb k
      else if prefix (k @ ''='') entrada \<and> CHR ''='' \<notin> set k then Some (drop (length k + 1) entrada)
      else None)"

lemma repassa_tudo_map_of:
  assumes "ambiente_ok amb"
  shows "map_of (repassa_tudo amb env) k =
     (case (if prefix ''BREVIS_'' k then None else map_of amb k) of Some v \<Rightarrow> Some v | None \<Rightarrow> map_of env k)"
  using assms
proof (induction amb arbitrary: env)
  case Nil
  then show ?case by (simp add: repassa_tudo_def environ_def)
next
  case (Cons p amb)
  obtain a v where p: "p = (a, v)" by (cases p)
  from Cons.prems have ok: "ambiente_ok amb" and a: "CHR ''='' \<notin> set a" and new: "map_of amb a = None"
    by (auto simp: ambiente_ok_def mapa_ok_def p map_of_eq_None_iff)
  have "repassa_tudo (p # amb) env = repassa_tudo amb (if prefix ''BREVIS_'' a then env else poe a v env)"
    using cut_append [OF a, of v] by (simp add: repassa_tudo_def environ_def p)
  then show ?case using Cons.IH [OF ok] new by (auto simp: p split: option.splits)
qed

lemma aplica_entrada_map_of:
  assumes "ambiente_ok amb"
  shows "map_of (aplica_entrada amb e env) k = (case diz amb k e of Some v \<Rightarrow> Some v | None \<Rightarrow> map_of env k)"
proof (cases "e = ''*''")
  case True
  then show ?thesis using repassa_tudo_map_of [OF assms] by (simp add: aplica_entrada_def diz_def)
next
  case False
  show ?thesis
  proof (cases "cut (CHR ''='') e")
    case None
    then have "CHR ''='' \<notin> set e" by (simp add: cut_None_iff)
    then have "\<not> prefix (k @ ''='') e" by (auto simp: prefix_def)
    with None False show ?thesis by (auto simp: aplica_entrada_def diz_def split: option.splits)
  next
    case (Some p)
    obtain a v where p: "p = (a, v)" by (cases p)
    with Some have e: "e = a @ CHR ''='' # v" "CHR ''='' \<notin> set a" by (simp_all add: cut_Some_iff)
    have "e \<noteq> fst q" if "q \<in> set amb" for q
    proof -
      have "CHR ''='' \<notin> set (fst q)" using assms that by (auto simp: ambiente_ok_def)
      moreover have "CHR ''='' \<in> set e" by (simp add: e)
      ultimately show ?thesis by auto
    qed
    then have "map_of amb e = None" by (auto simp: map_of_eq_None_iff)
    moreover have "k = a" if pre: "prefix (k @ ''='') e" and sem: "CHR ''='' \<notin> set k"
    proof -
      obtain r where "e = (k @ ''='') @ r" using pre by (auto simp: prefix_def)
      then have "e = k @ CHR ''='' # r" by simp
      then have "cut (CHR ''='') e = Some (k, r)" using cut_append [OF sem] by simp
      with Some p show ?thesis by simp
    qed
    moreover have "diz amb a e = Some v"
    proof -
      have "e \<noteq> a" using e by auto
      then show ?thesis using False e by (simp add: diz_def prefix_def)
    qed
    moreover have "diz amb k e = None" if "k \<noteq> a"
      using that calculation(1,2) False by (auto simp: diz_def)
    moreover have "aplica_entrada amb e env = poe a v env" using Some p False by (simp add: aplica_entrada_def)
    ultimately show ?thesis by (cases "k = a") auto
  qed
qed

lemma fold_entradas:
  assumes "ambiente_ok amb"
  shows "map_of (fold (aplica_entrada amb) nomes env) k =
    (case List.map_filter (diz amb k) nomes of [] \<Rightarrow> map_of env k | vs \<Rightarrow> Some (last vs))"
proof (induction nomes arbitrary: env)
  case Nil
  then show ?case by simp
next
  case (Cons e nomes)
  show ?case
    by (cases "List.map_filter (diz amb k) nomes"; cases "diz amb k e")
      (simp_all add: Cons.IH aplica_entrada_map_of [OF assms] map_filter_simps)
qed

text \<open>
  The environment given to the local steps is what the entries say, the last one that names a
  variable winning, on top of \<open>PATH\<close> and \<open>HOME\<close>; a variable of the orchestrator (\<open>BREVIS_...\<close>) reaches a
  step only if an entry names it, never through the wildcard.
\<close>

theorem AmbienteDasTasks_exato:
  assumes "ambiente_ok amb"
  shows "map_of (AmbienteDasTasks amb nomes) k =
     (case List.map_filter (diz amb k) nomes of
        [] \<Rightarrow> (if k = ''PATH'' \<or> k = ''HOME'' then Some (Getenv amb k) else None)
      | vs \<Rightarrow> Some (last vs))"
    and "prefix ''BREVIS_'' k \<Longrightarrow> map_of (AmbienteDasTasks amb nomes) k = Some v \<Longrightarrow> \<exists>e \<in> set nomes. prefix k e"
proof -
  have *: "map_of (AmbienteDasTasks amb nomes) k =
     (case List.map_filter (diz amb k) nomes of
        [] \<Rightarrow> (if k = ''PATH'' \<or> k = ''HOME'' then Some (Getenv amb k) else None)
      | vs \<Rightarrow> Some (last vs))" for k
    unfolding AmbienteDasTasks_def fold_entradas [OF assms] by (auto split: list.splits)
  then show "map_of (AmbienteDasTasks amb nomes) k =
     (case List.map_filter (diz amb k) nomes of
        [] \<Rightarrow> (if k = ''PATH'' \<or> k = ''HOME'' then Some (Getenv amb k) else None)
      | vs \<Rightarrow> Some (last vs))" .
  assume k: "prefix ''BREVIS_'' k" and v: "map_of (AmbienteDasTasks amb nomes) k = Some v"
  then have "List.map_filter (diz amb k) nomes \<noteq> []" using * [of k] by (auto split: if_splits)
  then obtain e w where e: "e \<in> set nomes" "diz amb k e = Some w"
    by (auto simp: map_filter_def filter_empty_conv)
  with k have "prefix k e" by (auto simp: diz_def split: if_splits) (auto simp: prefix_def)
  with e show "\<exists>e \<in> set nomes. prefix k e" by blast
qed

lemma AmbienteDasTasks_exato_witness:
  "map_of (AmbienteDasTasks [(''PATH'', ''/bin''), (''BREVIS_X'', ''1''), (''A'', ''2'')] [''*'', ''B=3'']) ''A'' = Some ''2'' \<and>
   map_of (AmbienteDasTasks [(''PATH'', ''/bin''), (''BREVIS_X'', ''1''), (''A'', ''2'')] [''*'', ''B=3'']) ''BREVIS_X'' \<noteq> Some ''1''"
proof -
  have ok: "ambiente_ok [(''PATH'', ''/bin''), (''BREVIS_X'', ''1''), (''A'', ''2'')]" by (simp add: ambiente_ok_def mapa_ok_def)
  show ?thesis
    using AmbienteDasTasks_exato(1) [OF ok, of "[''*'', ''B=3'']" "''A''"]
      AmbienteDasTasks_exato(2) [OF ok, of "''BREVIS_X''" "[''*'', ''B=3'']" "''1''"]
    by (auto simp: map_filter_simps diz_def)
qed

section \<open>What Load guarantees\<close>

lemma com_prazo_campos:
  "com_prazo amb c = Inr c' \<Longrightarrow> \<exists>p. c' = c\<lparr>cf_shutdown_timeout := p\<rparr>"
  by (auto simp: com_prazo_def Let_def intro: exI [of _ "cf_shutdown_timeout c"] split: if_splits option.splits)

lemma lista_aparada: "p \<in> set (lista amb k) \<Longrightarrow> p \<noteq> []"
  by (simp add: lista_def)

lemma Load_fecha_a_porta_partes:
  assumes "Load amb = Inr c"
  shows "cf_database_url c = Getenv amb ''BREVIS_DATABASE_URL'' \<and> cf_database_url c \<noteq> []"
    and "pc_modo (cf_pods c) = ''auto'' \<or> pc_modo (cf_pods c) = ''on'' \<or> pc_modo (cf_pods c) = ''off''"
    and "[] \<notin> set (pc_secrets_permitidos (cf_pods c))"
    and "cf_env c \<noteq> ''local'' \<Longrightarrow> 32 \<le> length (cr_segredo (cf_auth c)) \<and>
      (ServeHTTP mac (cf_auth c) p t = Passa op \<longrightarrow> livre (pe_path p) \<or>
        op = Some (cr_usuario (cf_auth c)) \<and>
        (\<exists>prazo sig e. pe_cookie p = Some (cr_usuario (cf_auth c) @ ''|'' @ prazo @ ''|'' @ sig) \<and>
         b64_decode alfabeto_url sig = Some (mac (cr_segredo (cf_auth c)) (cr_usuario (cf_auth c) @ ''|'' @ prazo)) \<and>
         atoi prazo = Some e \<and> unix t < e))"
proof -
  from assms obtain c0 where c0: "com_prazo amb (config_de amb) = Inr c0" "conferir c0 = None" "c = c0"
    by (auto simp: Load_def split: sum.splits option.splits)
  then obtain pz where c: "c = (config_de amb)\<lparr>cf_shutdown_timeout := pz\<rparr>" using com_prazo_campos by blast
  have k: "conferir c = None" using c0 by simp
  then show "cf_database_url c = Getenv amb ''BREVIS_DATABASE_URL'' \<and> cf_database_url c \<noteq> []"
    using c by (auto simp: conferir_def config_de_def split: if_splits)
  show "pc_modo (cf_pods c) = ''auto'' \<or> pc_modo (cf_pods c) = ''on'' \<or> pc_modo (cf_pods c) = ''off''"
    using k by (auto simp: conferir_def split: if_splits)
  show "[] \<notin> set (pc_secrets_permitidos (cf_pods c))"
    using lista_aparada [of "[]"] c by (auto simp: config_de_def pods_de_def)
  assume "cf_env c \<noteq> ''local''"
  then have a: "Ativa (cf_auth c)" and v: "Validar_credencial (cf_auth c) = None"
    using k by (auto simp: conferir_def split: if_splits option.splits)
  then have "32 \<le> length (cr_segredo (cf_auth c))" by (auto simp: Validar_credencial_def split: if_splits)
  then show "32 \<le> length (cr_segredo (cf_auth c)) \<and>
      (ServeHTTP mac (cf_auth c) p t = Passa op \<longrightarrow> livre (pe_path p) \<or>
        op = Some (cr_usuario (cf_auth c)) \<and>
        (\<exists>prazo sig e. pe_cookie p = Some (cr_usuario (cf_auth c) @ ''|'' @ prazo @ ''|'' @ sig) \<and>
         b64_decode alfabeto_url sig = Some (mac (cr_segredo (cf_auth c)) (cr_usuario (cf_auth c) @ ''|'' @ prazo)) \<and>
         atoi prazo = Some e \<and> unix t < e))"
    unfolding portao_passa [OF a] by blast
qed

text \<open>
  C27: when \<open>Load\<close> accepts an environment there is a data base and a known mode of execution; outside
  the local environment a whole credential is configured, so that the gate lets nothing through but the
  public paths and the requests with a session signed with its secret; the allow list of secrets has no
  empty name. Otherwise the process does not start.
\<close>

theorem Load_fecha_a_porta:
  assumes "Load amb = Inr c"
  shows "cf_database_url c = Getenv amb ''BREVIS_DATABASE_URL'' \<and> cf_database_url c \<noteq> [] \<and>
    (pc_modo (cf_pods c) = ''auto'' \<or> pc_modo (cf_pods c) = ''on'' \<or> pc_modo (cf_pods c) = ''off'') \<and>
    [] \<notin> set (pc_secrets_permitidos (cf_pods c)) \<and>
    (cf_env c \<noteq> ''local'' \<longrightarrow> 32 \<le> length (cr_segredo (cf_auth c)) \<and>
      (\<forall>mac p t op. ServeHTTP mac (cf_auth c) p t = Passa op \<longrightarrow> livre (pe_path p) \<or>
        op = Some (cr_usuario (cf_auth c)) \<and>
        (\<exists>prazo sig e. pe_cookie p = Some (cr_usuario (cf_auth c) @ ''|'' @ prazo @ ''|'' @ sig) \<and>
         b64_decode alfabeto_url sig = Some (mac (cr_segredo (cf_auth c)) (cr_usuario (cf_auth c) @ ''|'' @ prazo)) \<and>
         atoi prazo = Some e \<and> unix t < e)))"
  using Load_fecha_a_porta_partes [OF assms] by blast

lemma Load_fecha_a_porta_witness:
  "\<exists>c. Load [(''BREVIS_DATABASE_URL'', ''db''), (''BREVIS_ENV'', ''prd''), (''BREVIS_AUTH_USUARIO'', ''ana''),
      (''BREVIS_AUTH_SENHA_HASH'', ''pbkdf2-sha256$1$AA$AA''), (''BREVIS_AUTH_SEGREDO'', replicate 32 (CHR ''k''))] = Inr c \<and>
     ServeHTTP (\<lambda>k m. m) (cf_auth c) \<lparr>pe_path = ''/runs'', pe_uri = ''/runs'', pe_method = ''GET'', pe_cookie = None\<rparr> 0 \<noteq> Passa None"
proof -
  let ?amb = "[(''BREVIS_DATABASE_URL'', ''db''), (''BREVIS_ENV'', ''prd''), (''BREVIS_AUTH_USUARIO'', ''ana''),
      (''BREVIS_AUTH_SENHA_HASH'', ''pbkdf2-sha256$1$AA$AA''), (''BREVIS_AUTH_SEGREDO'', replicate 32 (CHR ''k''))]"
  obtain c where c: "Load ?amb = Inr c" and e: "cf_env c \<noteq> ''local''"
    by (simp add: Load_def com_prazo_def conferir_def config_de_def pods_de_def config_get_def Getenv_def
        Validar_credencial_def Ativa_def)
  have "ServeHTTP (\<lambda>k m. m) (cf_auth c) \<lparr>pe_path = ''/runs'', pe_uri = ''/runs'', pe_method = ''GET'', pe_cookie = None\<rparr> 0 \<noteq> Passa None"
    using Load_fecha_a_porta [OF c] e by (force simp: livre_def)
  with c show ?thesis by blast
qed

end
