(* ===== verification/Grafo.thy ===== *)
theory Grafo
  imports Graph Store
begin

text \<open>
  \<open>internal/api/graph.go\<close>: the drawing of a workflow and of a run, computed by the server from the
  levels the executor uses. A response is the value that is encoded as JSON; the snapshot of a run is
  the workflow its JSON encodes, as everywhere in the development.
\<close>

record posicao =
  ps_x :: int
  ps_y :: int

text \<open>The map \<open>Data\<close>: label, acao and status always, the rest when the step has a state.\<close>

record dados_no =
  dn_label :: string
  dn_acao :: string
  dn_status :: string
  dn_duracao_ms :: "int option"
  dn_tentativa :: "int option"
  dn_erro :: "string option"
  dn_exit_code :: "int option"

record no_flow =
  nf_id :: string
  nf_type :: string
  nf_position :: posicao
  nf_data :: dados_no

record aresta_flow =
  af_id :: string
  af_source :: string
  af_target :: string
  af_animated :: bool

record resposta_grafo =
  rg_slug :: string
  rg_run_id :: "nat option"
  rg_status :: string
  rg_terminal :: bool
  rg_nodes :: "no_flow list"
  rg_edges :: "aresta_flow list"

definition larguraNivel :: int where "larguraNivel = 260"

definition alturaNo :: int where "alturaNo = 110"

definition acharNo :: "node list \<Rightarrow> string \<Rightarrow> node" where
  "acharNo nodes id' =
     (case find (\<lambda>n. nd_id n = id') nodes of Some n \<Rightarrow> n
      | None \<Rightarrow> \<lparr>nd_id = [], nd_run = [], nd_action = [], nd_with = [], nd_image = [],
               nd_resources = \<lparr>cpu = [], memory = [], cpu_limit = [], memory_limit = []\<rparr>,
               nd_shell = None, nd_env = [], nd_secrets = []\<rparr>)"

definition rotuloDaAcao :: "node \<Rightarrow> string" where
  "rotuloDaAcao n =
     (if nd_action n \<noteq> [] then nd_action n
      else if 42 < length (nd_run n) then take 39 (nd_run n) @ ''...'' else nd_run n)"

definition dados_de :: "node list \<Rightarrow> (string \<times> estado_no) list \<Rightarrow> string \<Rightarrow> dados_no" where
  "dados_de nodes estados id' =
     (let base = \<lparr>dn_label = id', dn_acao = rotuloDaAcao (acharNo nodes id'), dn_status = ''pending'', dn_duracao_ms = None,
                  dn_tentativa = None, dn_erro = None, dn_exit_code = None\<rparr> in
      case map_of estados id' of
        None \<Rightarrow> base
      | Some e \<Rightarrow> base\<lparr>dn_status := texto_status (en_status e), dn_duracao_ms := Some (en_duracao e),
                       dn_tentativa := Some (en_tentativa e),
                       dn_erro := (if en_erro e \<noteq> [] then Some (en_erro e) else None),
                       dn_exit_code := en_exit e\<rparr>)"

definition coluna :: "node list \<Rightarrow> (string \<times> estado_no) list \<Rightarrow> nat \<times> string list \<Rightarrow> no_flow list" where
  "coluna nodes estados = (\<lambda>(nivel, ids).
     (let desloc = - (int (length ids) - 1) * alturaNo div 2 in
      map (\<lambda>(i, id'). \<lparr>nf_id = id', nf_type = ''brevis'',
                       nf_position = \<lparr>ps_x = int nivel * larguraNivel, ps_y = desloc + int i * alturaNo\<rparr>,
                       nf_data = dados_de nodes estados id'\<rparr>)
        (enumerate 0 ids)))"

definition aresta_de :: "(string \<times> estado_no) list \<Rightarrow> edge \<Rightarrow> aresta_flow" where
  "aresta_de estados e =
     \<lparr>af_id = e_from e @ ''->'' @ e_to e, af_source = e_from e, af_target = e_to e,
      af_animated = (case map_of estados (e_to e) of None \<Rightarrow> False | Some s \<Rightarrow> texto_status (en_status s) = ''running'')\<rparr>"

datatype erro_http = NaoEncontrado | IdInvalido | GrafoInvalido

definition responderGrafo ::
    "workflow \<Rightarrow> (string \<times> estado_no) list \<Rightarrow> nat option \<Rightarrow> string \<Rightarrow> erro_http + resposta_grafo" where
  "responderGrafo def estados run_id status =
     (case Niveis def of
        Inl _ \<Rightarrow> Inl GrafoInvalido
      | Inr niveis \<Rightarrow>
          Inr \<lparr>rg_slug = wf_slug def, rg_run_id = run_id, rg_status = status,
               rg_terminal = (status = ''success'' \<or> status = ''canceled''),
               rg_nodes = concat (map (coluna (wf_nodes def) estados) (enumerate 0 niveis)),
               rg_edges = map (aresta_de estados) (wf_edges def)\<rparr>)"

definition grafoDoWorkflow :: "string \<Rightarrow> banco \<Rightarrow> erro_http + resposta_grafo" where
  "grafoDoWorkflow slug b =
     (case Definicao slug b of Inl _ \<Rightarrow> Inl NaoEncontrado | Inr def \<Rightarrow> responderGrafo def [] None [])"

text \<open>
  \<open>pedido\<close> is the parsed identifier, \<open>None\<close> when it is not a UUID; \<open>disponivel\<close> tells whether the
  query of the states answered.
\<close>

definition grafoDaRun :: "nat option \<Rightarrow> bool \<Rightarrow> banco \<Rightarrow> erro_http + resposta_grafo" where
  "grafoDaRun pedido disponivel b =
     (case pedido of
        None \<Rightarrow> Inl IdInvalido
      | Some x \<Rightarrow>
          (case Buscar x b of
             Inl _ \<Rightarrow> Inl NaoEncontrado
           | Inr r \<Rightarrow> responderGrafo (r_definicao r) (if disponivel then EstadoDosNos x b else []) (Some x)
                       (texto_status (r_status r))))"

section \<open>Where the steps are drawn\<close>

lemma coluna_ids [simp]: "map nf_id (coluna nodes est (k, ids)) = ids"
  by (simp add: coluna_def Let_def comp_def case_prod_beta)

lemma nos_ids: "map nf_id (concat (map (coluna nodes est) (enumerate k ls))) = concat ls"
  by (induction ls arbitrary: k) (simp_all del: concat_map_singleton)

lemma coluna_no:
  "n \<in> set (coluna nodes est (k, ids)) \<Longrightarrow>
     nf_id n \<in> set ids \<and> ps_x (nf_position n) = int k * larguraNivel \<and> nf_data n = dados_de nodes est (nf_id n)"
  by (auto simp: coluna_def Let_def enumerate_eq_zip dest: set_zip_rightD)

lemma nivel_de_lt: "x \<in> set (concat ls) \<Longrightarrow> nivel_de ls x < length ls"
  by (induction ls) auto

lemma nos_x:
  assumes "distinct (concat ls)" and "n \<in> set (concat (map (coluna nodes est) (enumerate k ls)))"
  shows "ps_x (nf_position n) = (int k + int (nivel_de ls (nf_id n))) * larguraNivel \<and> nf_data n = dados_de nodes est (nf_id n)"
  using assms
proof (induction ls arbitrary: k)
  case (Cons l ls)
  show ?case
  proof (cases "n \<in> set (coluna nodes est (k, l))")
    case True
    then show ?thesis using coluna_no [OF True] by simp
  next
    case False
    with Cons.prems have n: "n \<in> set (concat (map (coluna nodes est) (enumerate (Suc k) ls)))" by simp
    then have "nf_id n \<in> nf_id ` set (concat (map (coluna nodes est) (enumerate (Suc k) ls)))" by (rule imageI)
    also have "\<dots> = set (concat ls)" using nos_ids [of nodes est "Suc k" ls] by (metis set_map)
    finally have "nf_id n \<notin> set l" using Cons.prems(1) by auto
    with Cons.IH [OF _ n] Cons.prems(1) show ?thesis by (simp add: algebra_simps)
  qed
qed simp

lemma coluna_y: "distinct (map (\<lambda>n. ps_y (nf_position n)) (coluna nodes est (k, ids)))"
proof -
  have "map (\<lambda>n. ps_y (nf_position n)) (coluna nodes est (k, ids)) =
    map (\<lambda>i. - (int (length ids) - 1) * alturaNo div 2 + int i * alturaNo) [0..<length ids]"
    by (rule nth_equalityI) (simp_all add: coluna_def Let_def enumerate_eq_zip)
  moreover have "inj_on (\<lambda>i. - (int (length ids) - 1) * alturaNo div 2 + int i * alturaNo) A" for A
    by (auto simp: inj_on_def alturaNo_def)
  ultimately show ?thesis by (simp add: distinct_map)
qed

lemma nos_posicoes: "distinct (map nf_position (concat (map (coluna nodes est) (enumerate k ls))))"
proof (induction ls arbitrary: k)
  case (Cons l ls)
  have "distinct (map nf_position (coluna nodes est (k, l)))"
    using coluna_y [of nodes est k l] by (auto simp: distinct_map inj_on_def)
  moreover have "int k * larguraNivel < ps_x (nf_position n)"
    if "n \<in> set (concat (map (coluna nodes est) (enumerate (Suc k) ls)))" for n
  proof -
    from that obtain q where q: "q \<in> set (enumerate (Suc k) ls)" and n: "n \<in> set (coluna nodes est q)" by auto
    obtain j ids where ji: "q = (j, ids)" by (cases q)
    from q ji have "k < j" using in_set_enumerate_eq [of q "Suc k" ls] by simp
    then have "\<exists>j ids. k < j \<and> n \<in> set (coluna nodes est (j, ids))" using n ji by blast
    then show ?thesis using coluna_no by (fastforce simp: larguraNivel_def)
  qed
  ultimately show ?case using Cons.IH [of "Suc k"] coluna_no [of _ nodes est k l] by (fastforce simp del: set_concat)
qed simp

lemma sum_coluna: "sum_list (map (\<lambda>n. ps_y (nf_position n)) (coluna nodes est (k, ids))) = 0"
proof -
  have s: "2 * sum_list (map (\<lambda>i. d + int i * alturaNo) [0..<m]) = int m * (2 * d + alturaNo * (int m - 1))" for m d
    by (induction m) (auto simp: algebra_simps)
  have "map (\<lambda>n. ps_y (nf_position n)) (coluna nodes est (k, ids)) =
    map (\<lambda>i. - (int (length ids) - 1) * alturaNo div 2 + int i * alturaNo) [0..<length ids]"
    by (rule nth_equalityI) (simp_all add: coluna_def Let_def enumerate_eq_zip)
  moreover have "2 * (- (int (length ids) - 1) * alturaNo div 2) = - (int (length ids) - 1) * alturaNo"
    by (simp add: alturaNo_def)
  ultimately have "2 * sum_list (map (\<lambda>n. ps_y (nf_position n)) (coluna nodes est (k, ids))) = 0"
    by (simp only: s) (simp add: algebra_simps)
  then show ?thesis by simp
qed

lemma sum_nos: "sum_list (map (\<lambda>n. ps_y (nf_position n)) (concat (map (coluna nodes est) (enumerate k ls)))) = 0"
  by (induction ls arbitrary: k) (simp_all add: sum_coluna)

lemma acharNo_de:
  assumes "distinct (map nd_id ns)" and "n \<in> set ns"
  shows "acharNo ns (nd_id n) = n"
  using assms by (induction ns) (auto simp: acharNo_def)

lemma grafo_desenha_partes:
  assumes "ids_ok w" and "arestas_ok w" and "responderGrafo w est x st = Inr g"
  shows "mset (map nf_id (rg_nodes g)) = mset (map nd_id (wf_nodes w))"
    and "distinct (map nf_position (rg_nodes g)) \<and> sum_list (map (\<lambda>n. ps_y (nf_position n)) (rg_nodes g)) = 0"
    and "map (\<lambda>a. (af_source a, af_target a)) (rg_edges g) = map (\<lambda>e. (e_from e, e_to e)) (wf_edges w)"
    and "a \<in> set (rg_edges g) \<Longrightarrow> n \<in> set (rg_nodes g) \<Longrightarrow> m \<in> set (rg_nodes g) \<Longrightarrow> nf_id n = af_source a \<Longrightarrow>
      nf_id m = af_target a \<Longrightarrow> ps_x (nf_position n) + larguraNivel \<le> ps_x (nf_position m) \<and>
      (af_animated a \<longleftrightarrow> dn_status (nf_data m) = ''running'')"
    and "k \<in> set (wf_nodes w) \<Longrightarrow> n \<in> set (rg_nodes g) \<Longrightarrow> nf_id n = nd_id k \<Longrightarrow>
      dn_label (nf_data n) = nd_id k \<and> dn_acao (nf_data n) = rotuloDaAcao k \<and>
      dn_status (nf_data n) = (case map_of est (nd_id k) of None \<Rightarrow> ''pending'' | Some e \<Rightarrow> texto_status (en_status e))"
proof -
  obtain ls where N: "Niveis w = Inr ls" using assms(3) by (auto simp: responderGrafo_def split: sum.splits)
  have g: "rg_nodes g = concat (map (coluna (wf_nodes w) est) (enumerate 0 ls))" "rg_edges g = map (aresta_de est) (wf_edges w)"
    using assms(3) N by (auto simp: responderGrafo_def)
  have m: "mset (concat ls) = mset (map nd_id (wf_nodes w))" and ok: "niveis_ok (wf_edges w) (map nd_id (wf_nodes w)) {} ls"
    using Niveis_InrD [OF assms(1,2) N] by simp_all
  have d: "distinct (concat ls)" using ok by (simp add: niveis_ok_def)
  show "mset (map nf_id (rg_nodes g)) = mset (map nd_id (wf_nodes w))" by (simp only: g nos_ids m)
  show "distinct (map nf_position (rg_nodes g)) \<and> sum_list (map (\<lambda>n. ps_y (nf_position n)) (rg_nodes g)) = 0"
    unfolding g using nos_posicoes sum_nos by blast
  show "map (\<lambda>a. (af_source a, af_target a)) (rg_edges g) = map (\<lambda>e. (e_from e, e_to e)) (wf_edges w)"
    by (simp add: g aresta_de_def)
  have x: "ps_x (nf_position n) = int (nivel_de ls (nf_id n)) * larguraNivel \<and> nf_data n = dados_de (wf_nodes w) est (nf_id n)"
    if "n \<in> set (rg_nodes g)" for n
    using nos_x [OF d that [unfolded g]] by simp
  show "ps_x (nf_position n) + larguraNivel \<le> ps_x (nf_position m) \<and> (af_animated a \<longleftrightarrow> dn_status (nf_data m) = ''running'')"
    if "a \<in> set (rg_edges g)" "n \<in> set (rg_nodes g)" "m \<in> set (rg_nodes g)" "nf_id n = af_source a" "nf_id m = af_target a"
  proof -
    have "a \<in> aresta_de est ` set (wf_edges w)" using that(1) g by simp
    then obtain e where e: "e \<in> set (wf_edges w)" "a = aresta_de est e" by blast
    then have "(nf_id n, nf_id m) \<in> arco (wf_edges w)" using that(4,5) by (auto simp: aresta_de_def arco_def)
    moreover have "nf_id m \<in> set (concat ls)" using that(3) nos_ids [of "wf_nodes w" est 0 ls] g by (metis imageI set_map)
    ultimately have "nivel_de ls (nf_id n) < nivel_de ls (nf_id m)" using ok by (fastforce simp: niveis_ok_def)
    then have "(int (nivel_de ls (nf_id n)) + 1) * larguraNivel \<le> int (nivel_de ls (nf_id m)) * larguraNivel"
      by (simp add: larguraNivel_def)
    then have 1: "ps_x (nf_position n) + larguraNivel \<le> ps_x (nf_position m)"
      using x [OF that(2)] x [OF that(3)] by (simp add: algebra_simps)
    have "af_animated a \<longleftrightarrow> dn_status (nf_data m) = ''running''"
      using x [OF that(3)] that(5) e by (auto simp: aresta_de_def dados_de_def Let_def split: option.splits)
    with 1 show ?thesis by blast
  qed
  show "dn_label (nf_data n) = nd_id k \<and> dn_acao (nf_data n) = rotuloDaAcao k \<and>
      dn_status (nf_data n) = (case map_of est (nd_id k) of None \<Rightarrow> ''pending'' | Some e \<Rightarrow> texto_status (en_status e))"
    if "k \<in> set (wf_nodes w)" "n \<in> set (rg_nodes g)" "nf_id n = nd_id k"
  proof -
    have "acharNo (wf_nodes w) (nd_id k) = k" using acharNo_de that(1) assms(1) by (simp add: ids_ok_def)
    then show ?thesis using x [OF that(2)] that(3) by (auto simp: dados_de_def Let_def split: option.splits)
  qed
qed

text \<open>
  The drawing of a workflow whose steps are named apart and whose edges join declared steps shows
  each step exactly once, with its own action and state, at its own place, in the column of the level in
  which it runs, so that every edge goes at least one column to the right; the drawing is centred; an
  edge is animated exactly when the step it reaches is running.
\<close>

theorem grafo_desenha:
  assumes "ids_ok w" and "arestas_ok w" and "responderGrafo w est x st = Inr g"
  shows "mset (map nf_id (rg_nodes g)) = mset (map nd_id (wf_nodes w)) \<and>
    distinct (map nf_position (rg_nodes g)) \<and> sum_list (map (\<lambda>n. ps_y (nf_position n)) (rg_nodes g)) = 0 \<and>
    map (\<lambda>a. (af_source a, af_target a)) (rg_edges g) = map (\<lambda>e. (e_from e, e_to e)) (wf_edges w) \<and>
    (\<forall>a \<in> set (rg_edges g). \<forall>n \<in> set (rg_nodes g). \<forall>m \<in> set (rg_nodes g). nf_id n = af_source a \<longrightarrow> nf_id m = af_target a \<longrightarrow>
      ps_x (nf_position n) + larguraNivel \<le> ps_x (nf_position m) \<and> (af_animated a \<longleftrightarrow> dn_status (nf_data m) = ''running'')) \<and>
    (\<forall>k \<in> set (wf_nodes w). \<forall>n \<in> set (rg_nodes g). nf_id n = nd_id k \<longrightarrow>
      dn_label (nf_data n) = nd_id k \<and> dn_acao (nf_data n) = rotuloDaAcao k \<and>
      dn_status (nf_data n) = (case map_of est (nd_id k) of None \<Rightarrow> ''pending'' | Some e \<Rightarrow> texto_status (en_status e)))"
  using grafo_desenha_partes(1-3) [OF assms] grafo_desenha_partes(4,5) [OF assms]
  by (intro conjI ballI impI) (simp_all only:)

lemma grafo_desenha_witness:
  "\<exists>g. responderGrafo (workflow_de_exemplo [\<lparr>e_from = ''a'', e_to = ''c''\<rparr>, \<lparr>e_from = ''b'', e_to = ''c''\<rparr>]) [] None [] = Inr g \<and>
     mset (map nf_id (rg_nodes g)) = mset [''a'', ''b'', ''c''] \<and> distinct (map nf_position (rg_nodes g))"
proof -
  let ?w = "workflow_de_exemplo [\<lparr>e_from = ''a'', e_to = ''c''\<rparr>, \<lparr>e_from = ''b'', e_to = ''c''\<rparr>]"
  have n: "Niveis ?w = Inr [[''a'', ''b''], [''c'']]" by code_simp
  have ok: "ids_ok ?w" "arestas_ok ?w"
    by (simp_all add: ids_ok_def arestas_ok_lista workflow_de_exemplo_def passo_de_exemplo_def)
  obtain g where g: "responderGrafo ?w [] None [] = Inr g" by (simp add: responderGrafo_def n)
  have "mset (map nd_id (wf_nodes ?w)) = mset [''a'', ''b'', ''c'']" by (simp add: workflow_de_exemplo_def passo_de_exemplo_def)
  with g grafo_desenha [OF ok g] show ?thesis by auto
qed

section \<open>What the page of a run shows\<close>

lemma Publicar_mantem_runs [simp]:
  "db_runs (Publicar w p b) = db_runs b" "db_tasks (Publicar w p b) = db_tasks b"
  by (simp_all add: Publicar_def publicar_workflow_def apagar_agendas_def atualiza_agenda_def Let_def)

lemma EstadoDosNos_None:
  "map_of (EstadoDosNos x b) nid = None \<longleftrightarrow> (\<forall>t \<in> set (db_tasks b). \<not> (t_run t = x \<and> t_node t = nid))"
  unfolding EstadoDosNos_def Let_def map_of_eq_None_iff by (simp add: image_image) blast

text \<open>
  The page of a run draws the snapshot of the run, so publishing a workflow later does not
  change it; a step with no record is pending, and the others show the state, the error and the exit
  code of their last attempt.
\<close>

theorem grafoDaRun_mostra:
  assumes "Buscar x b = Inr r" and "grafoDaRun (Some x) True b = Inr g" and "n \<in> set (rg_nodes g)"
    and "ids_ok (r_definicao r)" and "arestas_ok (r_definicao r)"
  shows "grafoDaRun (Some x) True (Publicar w p b) = Inr g"
    and "rg_terminal g = Terminal (r_status r) \<or> (\<exists>s. r_status r = StatusOutro s)"
    and "(dn_status (nf_data n) = ''pending'' \<and> dn_tentativa (nf_data n) = None \<and>
          filter (\<lambda>t. t_run t = x \<and> t_node t = nf_id n) (db_tasks b) = []) \<or>
      (\<exists>t \<in> set (db_tasks b). t_run t = x \<and> t_node t = nf_id n \<and>
         dn_status (nf_data n) = texto_status (t_status t) \<and> dn_tentativa (nf_data n) = Some (t_attempt t) \<and>
         dn_exit_code (nf_data n) = t_exit t \<and> dn_erro (nf_data n) = (if t_erro t = [] then None else Some (t_erro t)) \<and>
         list_all (\<lambda>t'. t_run t' = x \<and> t_node t' = nf_id n \<longrightarrow> t_attempt t' \<le> t_attempt t) (db_tasks b))"
proof -
  let ?w = "r_definicao r" and ?e = "EstadoDosNos x b"
  have g: "responderGrafo ?w ?e (Some x) (texto_status (r_status r)) = Inr g"
    using assms(1,2) by (simp add: grafoDaRun_def)
  have "Buscar x (Publicar w p b) = Buscar x b" "EstadoDosNos x (Publicar w p b) = EstadoDosNos x b"
    by (simp_all add: Buscar_def buscar_run_def EstadoDosNos_def)
  then show "grafoDaRun (Some x) True (Publicar w p b) = Inr g" using assms(1) g by (simp add: grafoDaRun_def)
  show "rg_terminal g = Terminal (r_status r) \<or> (\<exists>s. r_status r = StatusOutro s)"
    using g by (cases "r_status r") (auto simp: responderGrafo_def Terminal_def split: sum.splits)
  obtain ls where N: "Niveis ?w = Inr ls" using g by (auto simp: responderGrafo_def split: sum.splits)
  have "distinct (concat ls)" using Niveis_InrD [OF assms(4,5) N] by (simp add: niveis_ok_def)
  moreover have "n \<in> set (concat (map (coluna (wf_nodes ?w) ?e) (enumerate 0 ls)))"
    using g N assms(3) by (auto simp: responderGrafo_def)
  ultimately have d: "nf_data n = dados_de (wf_nodes ?w) ?e (nf_id n)" using nos_x by blast
  show "(dn_status (nf_data n) = ''pending'' \<and> dn_tentativa (nf_data n) = None \<and>
          filter (\<lambda>t. t_run t = x \<and> t_node t = nf_id n) (db_tasks b) = []) \<or>
      (\<exists>t \<in> set (db_tasks b). t_run t = x \<and> t_node t = nf_id n \<and>
         dn_status (nf_data n) = texto_status (t_status t) \<and> dn_tentativa (nf_data n) = Some (t_attempt t) \<and>
         dn_exit_code (nf_data n) = t_exit t \<and> dn_erro (nf_data n) = (if t_erro t = [] then None else Some (t_erro t)) \<and>
         list_all (\<lambda>t'. t_run t' = x \<and> t_node t' = nf_id n \<longrightarrow> t_attempt t' \<le> t_attempt t) (db_tasks b))"
  proof (cases "map_of ?e (nf_id n)")
    case None
    then have "dn_status (nf_data n) = ''pending'' \<and> dn_tentativa (nf_data n) = None" using d by (simp add: dados_de_def Let_def)
    moreover have "filter (\<lambda>t. t_run t = x \<and> t_node t = nf_id n) (db_tasks b) = []"
      using None unfolding EstadoDosNos_None filter_empty_conv .
    ultimately show ?thesis by blast
  next
    case (Some e)
    obtain t where t: "t \<in> set (db_tasks b)" "t_run t = x" "t_node t = nf_id n" "e = estado_da_task t"
      "\<forall>t' \<in> set (db_tasks b). t_run t' = x \<longrightarrow> t_node t' = nf_id n \<longrightarrow> t_attempt t' \<le> t_attempt t"
      using EstadoDosNos_ultima [OF Some] by blast
    have "dn_status (nf_data n) = texto_status (t_status t) \<and> dn_tentativa (nf_data n) = Some (t_attempt t) \<and>
         dn_exit_code (nf_data n) = t_exit t \<and> dn_erro (nf_data n) = (if t_erro t = [] then None else Some (t_erro t))"
      using d Some t(4) by (simp add: dados_de_def Let_def estado_da_task_def)
    with t show ?thesis by (auto simp: list_all_iff)
  qed
qed

lemma grafoDaRun_mostra_witness:
  "\<exists>b x g n. grafoDaRun (Some x) True b = Inr g \<and> n \<in> set (rg_nodes g) \<and> dn_status (nf_data n) = ''pending''"
proof -
  define w where "w = workflow_de_exemplo [\<lparr>e_from = ''a'', e_to = ''c''\<rparr>, \<lparr>e_from = ''b'', e_to = ''c''\<rparr>]"
  define r where "r = (run_de_exemplo StatusQueued)\<lparr>r_definicao := w\<rparr>"
  define b where "b = banco_vazio\<lparr>db_runs := [r]\<rparr>"
  have n: "Niveis w = Inr [[''a'', ''b''], [''c'']]" unfolding w_def by code_simp
  have ok: "ids_ok (r_definicao r)" "arestas_ok (r_definicao r)"
    by (simp_all add: r_def ids_ok_def arestas_ok_lista w_def workflow_de_exemplo_def passo_de_exemplo_def)
  have B: "Buscar 1 b = Inr r" by (simp add: Buscar_def buscar_run_def b_def r_def run_de_exemplo_def)
  obtain g where g: "grafoDaRun (Some 1) True b = Inr g" and rg: "rg_nodes g =
      concat (map (coluna (wf_nodes w) (EstadoDosNos 1 b)) (enumerate 0 [[''a'', ''b''], [''c'']]))"
    using B n by (simp add: grafoDaRun_def responderGrafo_def r_def)
  have "map nf_id (rg_nodes g) = [''a'', ''b'', ''c'']" unfolding rg nos_ids by simp
  then obtain m where m: "m \<in> set (rg_nodes g)" by (cases "rg_nodes g") auto
  have "db_tasks b = []" by (simp add: b_def banco_vazio_def)
  with grafoDaRun_mostra(3) [OF B g m ok] have "dn_status (nf_data m) = ''pending''" by simp
  with g m show ?thesis by blast
qed

end
