(* ===== verification/Branding.thy ===== *)
theory Branding
  imports Prelude
begin

text \<open>
  \<open>internal/branding/branding.go\<close>: the visual identity of an installation, what is refused of a brand
  file, and the style sheet written in every page. The file and the YAML decoder are arguments.
\<close>

record tema =
  tm_fundo :: string
  tm_fundo_suave :: string
  tm_superficie :: string
  tm_tinta :: string
  tm_texto_suave :: string
  tm_destaque :: string
  tm_destaque_forte :: string
  tm_sucesso :: string
  tm_falha :: string
  tm_executando :: string
  tm_fila :: string
  tm_repetindo :: string
  tm_cancelado :: string
  tm_aguardando :: string

record marca =
  mc_titulo :: string
  mc_subtitulo :: string
  mc_frase :: string
  mc_logo :: string
  mc_tema :: tema

definition LogoPadrao :: string where "LogoPadrao = ''/assets/logo.svg''"

text \<open>Text outside ASCII is given by its UTF-8 bytes.\<close>

definition Padrao :: marca where
  "Padrao =
     \<lparr>mc_titulo = ''Brevis'',
      mc_subtitulo = ''Orquestra'' @ [CHR 0xC3, CHR 0xA7, CHR 0xC3, CHR 0xA3] @ ''o'',
      mc_frase = ''Clareza, estrutura e virtude'' @ [CHR 0x0A] @ ''tamb'' @ [CHR 0xC3, CHR 0xA9] @ ''m fazem parte'' @
        [CHR 0x0A] @ ''de quem constr'' @ [CHR 0xC3, CHR 0xB3] @ ''i.'',
      mc_logo = LogoPadrao,
      mc_tema = \<lparr>tm_fundo = ''#f4efe4'', tm_fundo_suave = ''#fbf8f1'', tm_superficie = ''#fffdf8'', tm_tinta = ''#21180f'',
        tm_texto_suave = ''#6e6254'', tm_destaque = ''#aa8450'', tm_destaque_forte = ''#8a693d'', tm_sucesso = ''#4c7a56'',
        tm_falha = ''#b0503c'', tm_executando = ''#3f6d8f'', tm_fila = ''#b3822f'', tm_repetindo = ''#a35f28'',
        tm_cancelado = ''#8a8175'', tm_aguardando = ''#a89b8a''\<rparr>\<rparr>"

definition digito_hex :: "char \<Rightarrow> bool" where
  "digito_hex c \<longleftrightarrow> digito c \<or> (97 \<le> byte c \<and> byte c \<le> 102) \<or> (65 \<le> byte c \<and> byte c \<le> 70)"

definition cor_hex :: "string \<Rightarrow> bool" where
  "cor_hex s \<longleftrightarrow> (case s of [] \<Rightarrow> False
     | c # ds \<Rightarrow> c = CHR ''#'' \<and> list_all digito_hex ds \<and> (length ds = 3 \<or> length ds = 6 \<or> length ds = 8))"

definition cores :: "tema \<Rightarrow> string gomap" where
  "cores t =
     [(''fundo'', tm_fundo t), (''fundo_suave'', tm_fundo_suave t), (''superficie'', tm_superficie t), (''tinta'', tm_tinta t),
      (''texto_suave'', tm_texto_suave t), (''destaque'', tm_destaque t), (''destaque_forte'', tm_destaque_forte t),
      (''sucesso'', tm_sucesso t), (''falha'', tm_falha t), (''executando'', tm_executando t), (''fila'', tm_fila t),
      (''repetindo'', tm_repetindo t), (''cancelado'', tm_cancelado t), (''aguardando'', tm_aguardando t)]"

datatype erro_marca = TituloVazio | CorRuim string string | LogoRuim string | ErroDeLeitura string | YamlInvalido string

definition validarLogo :: "string \<Rightarrow> erro_marca option" where
  "validarLogo logo =
     (if logo = [] then None
      else if prefix ''/'' logo \<and> \<not> prefix ''//'' logo then None
      else if prefix ''https://'' logo \<or> prefix ''http://'' logo then None
      else Some (LogoRuim logo))"

definition Validar_marca :: "marca \<Rightarrow> erro_marca option" where
  "Validar_marca m =
     (if trim_space (mc_titulo m) = [] then Some TituloVazio
      else entao (para_cada (\<lambda>(nome, cor). if cor_hex cor then None else Some (CorRuim nome cor)) (cores (mc_tema m)))
                 (validarLogo (mc_logo m)))"

datatype leitura = NaoExiste | ErroAoLer string | Conteudo string

text \<open>\<open>decodifica\<close> is \<open>yaml.Unmarshal\<close> over the default brand: it keeps the fields the file does not have.\<close>

definition Carregar ::
    "(string \<Rightarrow> leitura) \<Rightarrow> (string \<Rightarrow> marca \<Rightarrow> string + marca) \<Rightarrow> string \<Rightarrow> marca \<times> erro_marca option" where
  "Carregar le decodifica caminho =
     (if caminho = [] then (Padrao, None)
      else (case le caminho of
              NaoExiste \<Rightarrow> (Padrao, None)
            | ErroAoLer e \<Rightarrow> (Padrao, Some (ErroDeLeitura e))
            | Conteudo c \<Rightarrow>
                (case decodifica c Padrao of
                   Inl e \<Rightarrow> (Padrao, Some (YamlInvalido e))
                 | Inr m \<Rightarrow> (case Validar_marca m of Some e \<Rightarrow> (Padrao, Some e) | None \<Rightarrow> (m, None)))))"

section \<open>The style sheet\<close>

definition comAlfa :: "string \<Rightarrow> string \<Rightarrow> string" where
  "comAlfa cor alfa = (if length cor \<noteq> 7 then cor else cor @ alfa)"

definition declaracao :: "string \<times> string \<Rightarrow> string" where
  "declaracao = (\<lambda>(variavel, v). if v \<noteq> [] then variavel @ '':'' @ v @ '';'' else [])"

definition variaveis :: "tema \<Rightarrow> (string \<times> string) list" where
  "variaveis t =
     [(''--color-parchment'', tm_fundo t), (''--color-parchment-soft'', tm_fundo_suave t), (''--color-surface'', tm_superficie t),
      (''--color-ink'', tm_tinta t), (''--color-muted'', tm_texto_suave t), (''--color-gold'', tm_destaque t),
      (''--color-gold-strong'', tm_destaque_forte t), (''--color-line'', comAlfa (tm_tinta t) ''1a''),
      (''--color-line-soft'', comAlfa (tm_tinta t) ''0d''), (''--color-gold-wash'', comAlfa (tm_destaque t) ''14''),
      (''--color-state-success'', tm_sucesso t), (''--color-state-failed'', tm_falha t), (''--color-state-running'', tm_executando t),
      (''--color-state-queued'', tm_fila t), (''--color-state-retrying'', tm_repetindo t), (''--color-state-canceled'', tm_cancelado t),
      (''--color-state-pending'', tm_aguardando t)]"

definition CSS :: "marca \<Rightarrow> string" where
  "CSS m =
     (if mc_tema m = mc_tema Padrao then []
      else '':root{'' @ concat (map declaracao (variaveis (mc_tema m))) @ ''}body{background:linear-gradient(180deg,'' @
           tm_fundo_suave (mc_tema m) @ '' 0%,'' @ tm_fundo (mc_tema m) @ '' 44%,'' @ tm_fundo_suave (mc_tema m) @ '' 100%);}'')"

definition Linhas :: "marca \<Rightarrow> string list" where
  "Linhas m = filter (\<lambda>l. l \<noteq> []) (map trim_space (split_on (CHR 0x0A) (mc_frase m)))"

section \<open>What the page can contain\<close>

lemma comAlfa_hex: "cor_hex c \<Longrightarrow> list_all digito_hex a \<Longrightarrow> length a = 2 \<Longrightarrow> cor_hex (comAlfa c a)"
  by (cases c) (auto simp: cor_hex_def comAlfa_def)

lemma Padrao_ok: "Validar_marca Padrao = None"
  by code_simp

lemma Carregar_valida: "Validar_marca (fst (Carregar le decodifica caminho)) = None"
  by (auto simp: Carregar_def Padrao_ok split: leitura.splits sum.splits option.splits)

lemma Validar_cores: "Validar_marca m = None \<Longrightarrow> (n, c) \<in> set (cores (mc_tema m)) \<Longrightarrow> cor_hex c"
  by (fastforce simp: Validar_marca_def split: if_splits)

lemma variaveis_hex:
  assumes "Validar_marca m = None"
  shows "list_all (\<lambda>(_, v). cor_hex v) (variaveis (mc_tema m))"
proof -
  have "list_all (\<lambda>(_, v). cor_hex v) (cores (mc_tema m))" using Validar_cores [OF assms] by (auto simp: list_all_iff)
  moreover have "list_all digito_hex ''1a''" "list_all digito_hex ''0d''" "list_all digito_hex ''14''" by code_simp+
  ultimately show ?thesis by (simp add: cores_def variaveis_def comAlfa_hex)
qed

definition seguro_css :: "char \<Rightarrow> bool" where
  "seguro_css c \<longleftrightarrow> minuscula c \<or> digito_hex c \<or> c = CHR ''#'' \<or> c = CHR ''-'' \<or> c = CHR '':'' \<or> c = CHR '';''"

lemma cor_hex_seguro: "cor_hex c \<Longrightarrow> list_all seguro_css c \<and> c \<noteq> []"
  by (cases c) (auto simp: cor_hex_def seguro_css_def list_all_iff)

lemma declaracoes_seguras:
  assumes "list_all (\<lambda>(_, v). cor_hex v) vs" and "list_all (\<lambda>(n, _). list_all seguro_css n) vs"
  shows "list_all seguro_css (concat (map declaracao vs))"
  using assms
proof (induction vs)
  case (Cons p vs)
  moreover have "seguro_css (CHR '':'')" "seguro_css (CHR '';'')" by (simp_all add: seguro_css_def)
  ultimately show ?case by (cases p) (simp add: declaracao_def cor_hex_seguro)
qed simp

lemma Carregar_sem_injecao_partes:
  fixes le decodifica caminho
  defines "m \<equiv> fst (Carregar le decodifica caminho)"
  shows "(CSS m = [] \<and> mc_tema m = mc_tema Padrao) \<or>
      (\<exists>vs a b. CSS m = '':root{'' @ vs @ ''}body{background:linear-gradient(180deg,'' @ a @ '' 0%,'' @ b @ '' 44%,'' @ a @ '' 100%);}'' \<and>
         list_all seguro_css vs \<and> cor_hex a \<and> cor_hex b \<and>
         vs = concat (map (\<lambda>(n, v). n @ '':'' @ v @ '';'') (variaveis (mc_tema m))) \<and>
         list_all (\<lambda>(_, v). cor_hex v) (variaveis (mc_tema m)))"
    and "mc_logo m = [] \<or> (\<exists>c. mc_logo m = CHR ''/'' # c \<and> \<not> prefix ''/'' c) \<or>
      prefix ''https://'' (mc_logo m) \<or> prefix ''http://'' (mc_logo m)"
    and "snd (Carregar le decodifica caminho) = None \<or> m = Padrao"
proof -
  have v: "Validar_marca m = None" unfolding m_def by (rule Carregar_valida)
  have h: "list_all (\<lambda>(_, v). cor_hex v) (variaveis (mc_tema m))" using variaveis_hex [OF v] .
  show "(CSS m = [] \<and> mc_tema m = mc_tema Padrao) \<or>
      (\<exists>vs a b. CSS m = '':root{'' @ vs @ ''}body{background:linear-gradient(180deg,'' @ a @ '' 0%,'' @ b @ '' 44%,'' @ a @ '' 100%);}'' \<and>
         list_all seguro_css vs \<and> cor_hex a \<and> cor_hex b \<and>
         vs = concat (map (\<lambda>(n, v). n @ '':'' @ v @ '';'') (variaveis (mc_tema m))) \<and>
         list_all (\<lambda>(_, v). cor_hex v) (variaveis (mc_tema m)))"
  proof (cases "mc_tema m = mc_tema Padrao")
    case False
    let ?vs = "concat (map declaracao (variaveis (mc_tema m)))"
    have "list_all (\<lambda>(n, _). list_all seguro_css n) (variaveis (mc_tema m))"
      by (simp add: variaveis_def seguro_css_def minuscula_def byte_def)
    then have s: "list_all seguro_css ?vs" using declaracoes_seguras h by blast
    have ab: "cor_hex (tm_fundo_suave (mc_tema m))" "cor_hex (tm_fundo (mc_tema m))" using h by (simp_all add: variaveis_def)
    have "declaracao q = (\<lambda>(n, v). n @ '':'' @ v @ '';'') q" if "q \<in> set (variaveis (mc_tema m))" for q
    proof -
      have "snd q \<noteq> []" using h that cor_hex_seguro by (fastforce simp: list_all_iff)
      then show ?thesis by (cases q) (simp add: declaracao_def)
    qed
    then have "?vs = concat (map (\<lambda>(n, v). n @ '':'' @ v @ '';'') (variaveis (mc_tema m)))" by (metis (no_types, lifting) map_eq_conv)
    moreover have "CSS m = '':root{'' @ ?vs @ ''}body{background:linear-gradient(180deg,'' @ tm_fundo_suave (mc_tema m) @ '' 0%,'' @
        tm_fundo (mc_tema m) @ '' 44%,'' @ tm_fundo_suave (mc_tema m) @ '' 100%);}''"
      using False unfolding CSS_def by (simp only: if_False)
    ultimately show ?thesis using s ab h by blast
  qed (simp add: CSS_def)
  have "validarLogo (mc_logo m) = None" using v by (simp add: Validar_marca_def split: if_splits)
  then show "mc_logo m = [] \<or> (\<exists>c. mc_logo m = CHR ''/'' # c \<and> \<not> prefix ''/'' c) \<or>
      prefix ''https://'' (mc_logo m) \<or> prefix ''http://'' (mc_logo m)"
    by (cases "mc_logo m") (auto simp: validarLogo_def split: if_splits)
  show "snd (Carregar le decodifica caminho) = None \<or> m = Padrao"
    unfolding m_def by (auto simp: Carregar_def split: leitura.splits sum.splits option.splits)
qed

text \<open>
  Whatever the brand file contains, the brand that is loaded is a valid one, and the style sheet
  written in the pages is either empty, for the default theme, or the two fixed rules with one
  declaration per known variable, each a hexadecimal colour, and nothing in it can close a rule, a
  declaration or the \<open>style\<close> element; an invalid file is answered by the default and an error.
\<close>

theorem Carregar_sem_injecao:
  shows "((CSS (fst (Carregar le decodifica caminho)) = [] \<and> mc_tema (fst (Carregar le decodifica caminho)) = mc_tema Padrao) \<or>
      (\<exists>vs a b. CSS (fst (Carregar le decodifica caminho)) =
          '':root{'' @ vs @ ''}body{background:linear-gradient(180deg,'' @ a @ '' 0%,'' @ b @ '' 44%,'' @ a @ '' 100%);}'' \<and>
         list_all seguro_css vs \<and> cor_hex a \<and> cor_hex b \<and>
         vs = concat (map (\<lambda>(n, v). n @ '':'' @ v @ '';'') (variaveis (mc_tema (fst (Carregar le decodifica caminho))))) \<and>
         list_all (\<lambda>(_, v). cor_hex v) (variaveis (mc_tema (fst (Carregar le decodifica caminho)))))) \<and>
    (mc_logo (fst (Carregar le decodifica caminho)) = [] \<or> (\<exists>c. mc_logo (fst (Carregar le decodifica caminho)) = CHR ''/'' # c \<and> \<not> prefix ''/'' c) \<or>
      prefix ''https://'' (mc_logo (fst (Carregar le decodifica caminho))) \<or> prefix ''http://'' (mc_logo (fst (Carregar le decodifica caminho)))) \<and>
    (snd (Carregar le decodifica caminho) = None \<or> fst (Carregar le decodifica caminho) = Padrao)"
  by (intro conjI Carregar_sem_injecao_partes)

end
