(* ===== verification/Spec.thy ===== *)
theory Spec
  imports Graph
begin

text \<open>
  \<open>internal/application/workflow/spec.go\<close>: the YAML file of a workflow, as the decoder
  leaves it, translated to the domain. \<open>yaml.Unmarshal\<close> is the argument \<open>yaml\<close>; the
  pieces of \<open>path/filepath\<close> the slug is derived with are modelled. A \<open>chain\<close> is proved
  to run one step per level, in the order of the file.
\<close>

section \<open>The file\<close>

record resource_spec =
  rs_cpu :: string
  rs_memory :: string
  rs_limits_cpu :: string
  rs_limits_memory :: string

record param_spec =
  ps_name :: string
  ps_type :: string
  ps_default :: string
  ps_description :: string
  ps_enum :: "string list"
  ps_pattern :: string

record step_spec =
  st_id :: string
  st_run :: string
  st_action :: string
  st_with :: "valor gomap"
  st_depends_on :: "string list"
  st_image :: string
  st_resources :: resource_spec
  st_env :: "string gomap"
  st_secrets :: "string gomap"
  st_shell :: "bool option"

record spec =
  sp_name :: string
  sp_schedule :: string
  sp_type :: string
  sp_tags :: "string list"
  sp_image :: string
  sp_resources :: resource_spec
  sp_params :: "param_spec list"
  sp_env :: "string gomap"
  sp_secrets :: "string gomap"
  sp_concurrency :: int
  sp_steps :: "step_spec list"

datatype erro_parse =
    YamlInvalido
  | TypeDesconhecido string
  | DependsOnEmChain string
  | WorkflowInvalido erro_wf

section \<open>Translation\<close>

definition recursos_dominio :: "resource_spec \<Rightarrow> resources" where
  "recursos_dominio r =
     \<lparr>cpu = rs_cpu r, memory = rs_memory r,
      cpu_limit = rs_limits_cpu r, memory_limit = rs_limits_memory r\<rparr>"

definition param_dominio :: "param_spec \<Rightarrow> param" where
  "param_dominio p =
     (let tipo = trim_space (ps_type p);
          tipo = (if tipo = [] then ParamTexto else tipo)
      in \<lparr>pm_nome = trim_space (ps_name p), pm_tipo = tipo, pm_padrao = ps_default p,
          pm_descricao = ps_description p, pm_enum = ps_enum p, pm_pattern = ps_pattern p\<rparr>)"

text \<open>\<open>aparar\<close>: names and values trimmed, entries without a name dropped.\<close>

fun aparar_em :: "string gomap \<Rightarrow> string gomap \<Rightarrow> string gomap" where
  "aparar_em out [] = out"
| "aparar_em out ((k, v) # m) =
     (let k = trim_space k in
      if k = [] then aparar_em out m else aparar_em (poe k (trim_space v) out) m)"

definition aparar :: "string gomap \<Rightarrow> string gomap" where
  "aparar m = aparar_em [] m"

text \<open>\<open>normalizarTags\<close>: the loop with its set of tags already seen.\<close>

fun normalizar_tags :: "string list \<Rightarrow> string list \<Rightarrow> string list \<Rightarrow> string list" where
  "normalizar_tags vistas out [] = out"
| "normalizar_tags vistas out (t # ts) =
     (let t = trim_space t in
      if t = [] then normalizar_tags vistas out ts
      else if List.member vistas t then normalizar_tags vistas out ts
      else normalizar_tags (t # vistas) (out @ [t]) ts)"

definition normalizarTags :: "string list \<Rightarrow> string list" where
  "normalizarTags brutas = normalizar_tags [] [] brutas"

fun arestas_chain :: "step_spec list \<Rightarrow> edge list" where
  "arestas_chain (a # b # ss) = \<lparr>e_from = st_id a, e_to = st_id b\<rparr> # arestas_chain (b # ss)"
| "arestas_chain _ = []"

definition arestas :: "kind \<Rightarrow> step_spec list \<Rightarrow> erro_parse + edge list" where
  "arestas k steps =
     (case k of
        KindChain \<Rightarrow>
          (case find (\<lambda>st. st_depends_on st \<noteq> []) steps of
             Some st \<Rightarrow> Inl (DependsOnEmChain (st_id st))
           | None \<Rightarrow> Inr (arestas_chain steps))
      | KindDAG \<Rightarrow>
          Inr (concat (map (\<lambda>st. map (\<lambda>dep. \<lparr>e_from = dep, e_to = st_id st\<rparr>) (st_depends_on st)) steps)))"

definition parseKind :: "string \<Rightarrow> erro_parse + kind" where
  "parseKind t =
     (let s = trim_space t in
      if s = [] \<or> s = ''dag'' then Inr KindDAG
      else if s = ''chain'' then Inr KindChain
      else Inl (TypeDesconhecido t))"

text \<open>\<open>filepath.Base\<close> and \<open>filepath.Ext\<close> on a path with slashes.\<close>

definition ultimo_elemento :: "string \<Rightarrow> string" where
  "ultimo_elemento s = (case cut_last CHR ''/'' s of None \<Rightarrow> s | Some (_, b) \<Rightarrow> b)"

definition path_base :: "string \<Rightarrow> string" where
  "path_base p =
     (if p = [] then ''.''
      else let b = ultimo_elemento (trim_right_of CHR ''/'' p) in if b = [] then ''/'' else b)"

definition path_ext :: "string \<Rightarrow> string" where
  "path_ext p =
     (case cut_last CHR ''.'' (ultimo_elemento p) of None \<Rightarrow> [] | Some (_, b) \<Rightarrow> CHR ''.'' # b)"

definition trim_suffix :: "string \<Rightarrow> string \<Rightarrow> string" where
  "trim_suffix s suf = (if suffix suf s then take (length s - length suf) s else s)"

definition no_do_passo :: "step_spec \<Rightarrow> node" where
  "no_do_passo st =
     \<lparr>nd_id = st_id st, nd_run = st_run st, nd_action = st_action st, nd_with = st_with st,
      nd_image = trim_space (st_image st), nd_resources = recursos_dominio (st_resources st),
      nd_shell = st_shell st, nd_env = aparar (st_env st), nd_secrets = aparar (st_secrets st)\<rparr>"

definition Parse :: "regexp \<Rightarrow> (string \<Rightarrow> spec option) \<Rightarrow> string \<Rightarrow> string \<Rightarrow> erro_parse + workflow" where
  "Parse re yaml caminho conteudo =
     (case yaml conteudo of None \<Rightarrow> Inl YamlInvalido | Some s \<Rightarrow>
      let slug = (if sp_name s = [] then trim_suffix (path_base caminho) (path_ext caminho) else sp_name s) in
      case parseKind (sp_type s) of Inl e \<Rightarrow> Inl e | Inr k \<Rightarrow>
      let w = \<lparr>wf_slug = slug, wf_name = slug, wf_kind = k, wf_schedule = trim_space (sp_schedule s),
               wf_tags = normalizarTags (sp_tags s), wf_image = trim_space (sp_image s),
               wf_resources = recursos_dominio (sp_resources s), wf_env = aparar (sp_env s),
               wf_secrets = aparar (sp_secrets s), wf_params = map param_dominio (sp_params s),
               wf_max_ativos = sp_concurrency s, wf_nodes = map no_do_passo (sp_steps s),
               wf_edges = []\<rparr> in
      case arestas k (sp_steps s) of Inl e \<Rightarrow> Inl e | Inr es \<Rightarrow>
      let w = w\<lparr>wf_edges := es\<rparr> in
      case Validate re w of Some e \<Rightarrow> Inl (WorkflowInvalido e) | None \<Rightarrow> Inr w)"

section \<open>Lemmas\<close>

lemma normalizar_tags_set:
  "set (normalizar_tags vistas out ts) = set out \<union> (trim_space ` set ts - {[]} - set vistas)"
  by (induction vistas out ts rule: normalizar_tags.induct) (auto simp: Let_def)

lemma normalizar_tags_distinct:
  "distinct out \<Longrightarrow> set out \<subseteq> set vistas \<Longrightarrow> distinct (normalizar_tags vistas out ts)"
  by (induction vistas out ts rule: normalizar_tags.induct) (auto simp: Let_def)

lemma normalizar_tags_ordem:
  "\<exists>ns. normalizar_tags vistas out ts = out @ ns \<and> subseq ns (map trim_space ts)"
proof (induction vistas out ts rule: normalizar_tags.induct)
  case (2 vistas out t ts)
  show ?case
  proof (cases "trim_space t = [] \<or> trim_space t \<in> set vistas")
    case True
    then have "\<exists>ns. normalizar_tags vistas out ts = out @ ns \<and> subseq ns (map trim_space ts)"
      using "2.IH"(1) [OF refl] "2.IH"(2) [OF refl] by auto
    then obtain ns where ns: "normalizar_tags vistas out ts = out @ ns" "subseq ns (map trim_space ts)"
      by blast
    then have "subseq ns (map trim_space (t # ts))" by (simp add: list_emb_Cons)
    moreover have "normalizar_tags vistas out (t # ts) = out @ ns"
      using ns(1) True by (auto simp: Let_def)
    ultimately show ?thesis by blast
  next
    case False
    with "2.IH"(3) [OF refl] obtain ns where
      "normalizar_tags (trim_space t # vistas) (out @ [trim_space t]) ts = (out @ [trim_space t]) @ ns"
      "subseq ns (map trim_space ts)" by auto
    with False show ?thesis by (auto simp: Let_def)
  qed
qed simp

lemma mapa_ok_Nil [simp]: "mapa_ok []"
  by (simp add: mapa_ok_def)

lemma aparar_ok: "mapa_ok (aparar m)"
proof -
  have "mapa_ok out \<Longrightarrow> mapa_ok (aparar_em out m)" for out
    by (induction out m rule: aparar_em.induct) (auto simp: Let_def)
  then show ?thesis by (simp add: aparar_def)
qed

lemma aparar_nomes: "dom (map_of (aparar m)) = trim_space ` fst ` set m - {[]}"
proof -
  have "dom (map_of (aparar_em out m)) = dom (map_of out) \<union> (trim_space ` fst ` set m - {[]})" for out
  proof (induction out m rule: aparar_em.induct)
    case (2 out k v m)
    have "dom (map_of (poe (trim_space k) y out)) = insert (trim_space k) (dom (map_of out))" for y
      by simp
    with "2.IH" show ?case
      by (cases "trim_space k = []") (simp_all add: Let_def insert_Diff_if del: map_of_poe)
  qed simp
  then show ?thesis by (simp add: aparar_def)
qed

lemma arestas_chain_set:
  "e \<in> set (arestas_chain ss) \<longleftrightarrow>
     (\<exists>i. Suc i < length ss \<and> e = \<lparr>e_from = st_id (ss ! i), e_to = st_id (ss ! Suc i)\<rparr>)"
proof (induction ss rule: arestas_chain.induct)
  case (1 a b ss)
  have "(\<exists>i. Suc i < length (a # b # ss) \<and> P i) \<longleftrightarrow>
        P 0 \<or> (\<exists>i. Suc i < length (b # ss) \<and> P (Suc i))" for P
    by (metis length_Cons not0_implies_Suc Suc_less_eq zero_less_Suc)
  then show ?case by (simp add: "1.IH")
qed auto

lemma Parse_InrD:
  assumes "Parse re yaml arquivo conteudo = Inr w"
  shows "\<exists>s. yaml conteudo = Some s \<and> parseKind (sp_type s) = Inr (wf_kind w) \<and>
    arestas (wf_kind w) (sp_steps s) = Inr (wf_edges w) \<and>
    wf_nodes w = map no_do_passo (sp_steps s) \<and> wf_tags w = normalizarTags (sp_tags s) \<and>
    wf_env w = aparar (sp_env s) \<and> wf_secrets w = aparar (sp_secrets s) \<and> Validate re w = None"
  using assms by (auto simp: Parse_def Let_def split: option.splits sum.splits)

lemma nd_id_no_do_passo [simp]: "nd_id (no_do_passo st) = st_id st"
  by (simp add: no_do_passo_def)

text \<open>The arcs of a chain join each step to the next one of the file.\<close>

lemma arco_chain:
  "(a, b) \<in> arco (arestas_chain ss) \<longleftrightarrow>
     (\<exists>i. Suc i < length ss \<and> a = st_id (ss ! i) \<and> b = st_id (ss ! Suc i))"
proof -
  have "arco (arestas_chain ss) =
      {(st_id (ss ! i), st_id (ss ! Suc i)) | i. Suc i < length ss}"
    unfolding arco_def by (force simp: arestas_chain_set)
  then show ?thesis by blast
qed

lemma em_concat: "j < length ls \<Longrightarrow> x \<in> set (ls ! j) \<Longrightarrow> x \<in> set (concat ls)"
  by (metis UN_I nth_mem set_concat)

lemma nivel_de_nth:
  "distinct (concat ls) \<Longrightarrow> j < length ls \<Longrightarrow> x \<in> set (ls ! j) \<Longrightarrow> nivel_de ls x = j"
proof (induction ls arbitrary: j)
  case (Cons l ls)
  show ?case
  proof (cases j)
    case (Suc i)
    with Cons.prems have "x \<in> set (concat ls)" by (auto intro: em_concat simp del: set_concat)
    with Cons.prems(1) have "x \<notin> set l" by auto
    with Cons Suc show ?thesis by simp
  qed (use Cons.prems in simp)
qed simp

lemma lista_unitaria: "distinct xs \<Longrightarrow> set xs = {x} \<Longrightarrow> xs = [x]"
  by (cases xs rule: remdups_adj.cases) auto

lemma niveis_de_cadeia:
  assumes n: "niveis_ok (arestas_chain ss) (map st_id ss) {} ls"
    and todos: "set (concat ls) = set (map st_id ss)" and d: "distinct (map st_id ss)"
  shows "ls = map (\<lambda>st. [st_id st]) ss"
proof -
  have eq: "st_id (ss ! i) = st_id (ss ! j) \<longleftrightarrow> i = j" if "i < length ss" "j < length ss" for i j
    using d that by (metis distinct_conv_nth length_map nth_map)
  have pos: "nivel_de ls (st_id (ss ! i)) = i" if "i < length ss" for i
    using that
  proof (induction i)
    case 0
    show ?case
    proof (rule ccontr)
      assume "nivel_de ls (st_id (ss ! 0)) \<noteq> 0"
      then obtain k where "nivel_de ls (st_id (ss ! 0)) = Suc k" by (cases "nivel_de ls (st_id (ss ! 0))") auto
      moreover have "st_id (ss ! 0) \<in> set (concat ls)" using 0 todos by auto
      ultimately obtain a where "(a, st_id (ss ! 0)) \<in> arco (arestas_chain ss)"
        using n unfolding niveis_ok_def by blast
      then show False using eq 0 by (auto simp: arco_chain)
    qed
  next
    case (Suc i)
    have e: "(st_id (ss ! i), st_id (ss ! Suc i)) \<in> arco (arestas_chain ss)"
      using Suc.prems by (auto simp: arco_chain)
    have in2: "st_id (ss ! Suc i) \<in> set (concat ls)" using Suc.prems todos by auto
    with n e have "nivel_de ls (st_id (ss ! i)) < nivel_de ls (st_id (ss ! Suc i))"
      unfolding niveis_ok_def by blast
    then obtain k where k: "nivel_de ls (st_id (ss ! Suc i)) = Suc k" by (cases "nivel_de ls (st_id (ss ! Suc i))") auto
    with in2 n obtain a where a: "(a, st_id (ss ! Suc i)) \<in> arco (arestas_chain ss)" "nivel_de ls a = k"
      unfolding niveis_ok_def by blast
    from a(1) obtain j where j: "Suc j < length ss" "a = st_id (ss ! j)" "st_id (ss ! Suc i) = st_id (ss ! Suc j)"
      by (auto simp: arco_chain)
    then have "i = j" using eq [of "Suc i" "Suc j"] Suc.prems by simp
    with a j k Suc show ?case by simp
  qed
  have menor: "nivel_de ls x < length ls \<and> x \<in> set (ls ! nivel_de ls x)" if "x \<in> set (concat ls)" for x
    using that by (induction ls) auto
  have dist: "distinct (concat ls)" "[] \<notin> set ls" using n by (auto simp: niveis_ok_def)
  have elem: "x = st_id (ss ! j) \<and> j < length ss" if "j < length ls" "x \<in> set (ls ! j)" for x j
  proof -
    have "x \<in> set (concat ls)" by (rule em_concat [OF that])
    then have "x \<in> st_id ` set ss" unfolding todos by simp
    then obtain i where "i < length ss" "x = st_id (ss ! i)"
      by (metis imageE in_set_conv_nth)
    moreover have "nivel_de ls x = j" by (rule nivel_de_nth [OF dist(1) that])
    ultimately show ?thesis using pos by simp
  qed
  have len: "i < length ss \<longleftrightarrow> i < length ls" for i
  proof
    assume "i < length ss"
    then have "st_id (ss ! i) \<in> set (concat ls)" using todos by auto
    then show "i < length ls" using menor pos [OF \<open>i < length ss\<close>] by fastforce
  next
    assume i: "i < length ls"
    then have "ls ! i \<noteq> []" using dist(2) nth_mem by metis
    then have "hd (ls ! i) \<in> set (ls ! i)" by simp
    with elem i show "i < length ss" by blast
  qed
  show ?thesis
  proof (rule nth_equalityI)
    show "length ls = length (map (\<lambda>st. [st_id st]) ss)"
      using len by (metis length_map linorder_neqE_nat nat_less_le)
  next
    fix j assume j: "j < length ls"
    have "distinct (ls ! j)" using dist(1) j by (simp add: distinct_concat_iff)
    moreover have "ls ! j \<noteq> []" using dist(2) j nth_mem by metis
    moreover have "set (ls ! j) \<subseteq> {st_id (ss ! j)}" using elem [OF j] by blast
    ultimately have "ls ! j = [st_id (ss ! j)]"
      by (intro lista_unitaria) (auto simp: subset_singleton_iff)
    with j len show "ls ! j = map (\<lambda>st. [st_id st]) ss ! j" by simp
  qed
qed

lemma wf_id_steps: "map nd_id (map no_do_passo ss) = map st_id ss"
  by (simp add: comp_def)

section \<open>Properties\<close>

text \<open>
  A file of type \<open>chain\<close> that parses runs one step per level, in the order of the
  file: the conversion to edges loses nothing of the declared sequence.
\<close>

theorem Parse_chain:
  assumes p: "Parse re yaml arquivo conteudo = Inr w" and k: "wf_kind w = KindChain"
  shows "Niveis w = Inr (map (\<lambda>n. [nd_id n]) (wf_nodes w))"
proof -
  obtain s :: spec where es: "arestas (wf_kind w) (sp_steps s) = Inr (wf_edges w)"
    and ns: "wf_nodes w = map no_do_passo (sp_steps s)" and v: "Validate re w = None"
    using Parse_InrD [OF p] by blast
  have e: "wf_edges w = arestas_chain (sp_steps s)"
    using es k by (auto simp: arestas_def split: option.splits)
  note w = Validate_ids [OF v] Validate_arestas [OF v]
  obtain ls where ls: "Niveis w = Inr ls"
    using Niveis_Inr_iff [OF w] Validate_aciclico [OF v] by blast
  have "niveis_ok (arestas_chain (sp_steps s)) (map st_id (sp_steps s)) {} ls"
    and m: "mset (concat ls) = mset (map st_id (sp_steps s))"
    using Niveis_InrD [OF w ls] by (simp_all only: e ns wf_id_steps)
  moreover have "set (concat ls) = set (map st_id (sp_steps s))" using m by (metis set_mset_mset)
  moreover have "distinct (map st_id (sp_steps s))"
    using w(1) by (simp only: ids_ok_def ns wf_id_steps)
  ultimately have "ls = map (\<lambda>st. [st_id st]) (sp_steps s)"
    using niveis_de_cadeia by blast
  with ls ns show ?thesis by (simp add: comp_def)
qed

definition passo_spec :: "string \<Rightarrow> string list \<Rightarrow> step_spec" where
  "passo_spec x deps =
     \<lparr>st_id = x, st_run = ''echo'', st_action = [], st_with = [], st_depends_on = deps, st_image = [],
      st_resources = \<lparr>rs_cpu = [], rs_memory = [], rs_limits_cpu = [], rs_limits_memory = []\<rparr>,
      st_env = [('' NIVEL '', ''info '')], st_secrets = [], st_shell = None\<rparr>"

definition spec_de_exemplo :: "string \<Rightarrow> step_spec list \<Rightarrow> spec" where
  "spec_de_exemplo tipo steps =
     \<lparr>sp_name = [], sp_schedule = [], sp_type = tipo, sp_tags = [''dbt'', ''dbt '', []], sp_image = [],
      sp_resources = \<lparr>rs_cpu = [], rs_memory = [], rs_limits_cpu = [], rs_limits_memory = []\<rparr>,
      sp_params = [], sp_env = [], sp_secrets = [], sp_concurrency = 0, sp_steps = steps\<rparr>"

theorem Parse_chain_witness:
  "\<exists>w. Parse (\<lambda>_. None) (\<lambda>_. Some (spec_de_exemplo ''chain'' [passo_spec ''b'' [], passo_spec ''a'' []]))
         ''flows/diario.yaml'' [] = Inr w \<and>
       wf_slug w = ''diario'' \<and> wf_tags w = [''dbt''] \<and> Niveis w = Inr [[''b''], [''a'']]"
proof -
  let ?p = "Parse (\<lambda>_. None) (\<lambda>_. Some (spec_de_exemplo ''chain'' [passo_spec ''b'' [], passo_spec ''a'' []]))
         ''flows/diario.yaml'' []"
  have ok: "\<not> isl ?p" "wf_kind (projr ?p) = KindChain" "wf_slug (projr ?p) = ''diario''"
    "wf_tags (projr ?p) = [''dbt'']" "map (\<lambda>n. [nd_id n]) (wf_nodes (projr ?p)) = [[''b''], [''a'']]"
    by code_simp+
  then have "?p = Inr (projr ?p)" by (simp add: sum.collapse(2))
  from Parse_chain [OF this ok(2)] ok \<open>?p = Inr (projr ?p)\<close> show ?thesis by metis
qed

text \<open>
  The tags of a published workflow are those of the file, trimmed, without blanks and
  without repetition, in the order of the file.
\<close>

theorem normalizarTags_ok:
  "distinct (normalizarTags ts) \<and> set (normalizarTags ts) = trim_space ` set ts - {[]} \<and>
   subseq (normalizarTags ts) (map trim_space ts)"
  using normalizar_tags_distinct [of "[]" "[]" ts] normalizar_tags_set [of "[]" "[]" ts]
    normalizar_tags_ordem [of "[]" "[]" ts]
  by (auto simp: normalizarTags_def)

end
