(* ===== verification/Spec2Isabelle.thy ===== *)
theory Spec2Isabelle
  imports Credencial Muitas Arquivos Leitura Sistema Kube Local Config Grafo Branding Extracao Fachada Spec
begin

text \<open>
  Brevis runs workflows: graphs of steps, each a program, started by hand or by a cron expression. The
  repository has two halves, and so has this development: the \<^bold>\<open>engine\<close> (\<open>internal/\<close>), which stores
  workflows, queues their runs and executes their steps, and the \<^bold>\<open>kit\<close> (\<open>sdk/\<close>), the library the
  steps are written with, which reads a source over HTTP, gives every record its identity and loads the
  records into a warehouse.

  \<^bold>\<open>Conventions\<close> (\<open>Prelude\<close>). A Go string is the list of its bytes, a string builder its contents, a map
  an association list in which the order stands for the order of iteration, a pointer an option, an error a
  constructor of a data type that has one constructor per message. \<open>int64\<close> is an integer; where the code
  can overflow, the wrap around is written out. Time is a count of nanoseconds. Whatever is not in the
  repository is a parameter of the definitions that use it: regular expressions, the cron library, time
  zones, SHA-1 and HMAC, the decoders of YAML, JSON, CSV and XML, the HTTP client, the API server of
  Kubernetes, the processes of the operating system, BigQuery and its object storage. What the proofs need
  of them is a named premise (\<open>gera_ok\<close>, \<open>gravando\<close>, \<open>nuvem_ok\<close>, \<open>linhas_ok\<close> and others), and each property
  with such a premise has a witness with a concrete instance.

  \<^bold>\<open>The engine, from the definition to the execution.\<close>
  \<^item> \<open>Param\<close>, \<open>Workflow\<close>, \<open>Ciclo\<close>, \<open>Graph\<close>, \<open>Spec\<close>: \<open>internal/domain/workflow\<close>, \<open>internal/graph\<close> and
    \<open>internal/application/workflow\<close>. The YAML file becomes a workflow, \<open>Validate\<close> checks it, \<open>Niveis\<close> cuts its
    graph in levels. Shown: what a validated workflow is, that a path is reported exactly on a cycle, that
    the levels are a permutation of the steps that respects every edge, and exist exactly without a cycle.
  \<^item> \<open>RunState\<close>: \<open>internal/domain/run\<close>, the state machine of a run and of a step, as a table, as a relation
    and as the two \<open>Transition\<close> methods with their stamps.
  \<^item> \<open>Schedule\<close>, \<open>Store\<close>, \<open>Leitura\<close>, \<open>Queue\<close>: \<open>internal/domain/schedule\<close>, \<open>internal/infrastructure/postgres\<close>
    and \<open>internal/queue\<close>. The data base is a record of its tables and each method the effect of its SQL
    statements; the invariant \<open>banco_ok\<close> holds the unique keys and the references. The queue is stated as an
    interface (the locale \<open>fila_de_trabalho\<close>: tickets that are free, held or gone) and interpreted on the SQL.
  \<^item> \<open>Notify\<close>, \<open>Dispatcher\<close>, \<open>Scheduler\<close>: \<open>internal/notify\<close> and \<open>internal/scheduler\<close>, every handler whole, on
    every branch. \<open>Sistema\<close> composes them: a step relation of dispatchers, scheduler, crashes and sweeps over
    one data base, in any order, and its reachable states. Shown: no accepted run is ever without its place
    in the queue, attempts and alerts are accounted for, and a run whose worker died comes back.
  \<^item> \<open>Execucao\<close>, \<open>Janela\<close>, \<open>Runner\<close>: \<open>internal/execution\<close> and \<open>internal/application/execution\<close>. The levels of
    a run are executed one after the other, a step again until its attempts are used up, its log in a window
    of head and tail. Steps of one level run in parallel in the code; here in an order given by a parameter,
    any permutation. Executors meet the contract of the locale \<open>canal\<close> (events, then one end).
  \<^item> \<open>Pod\<close>, \<open>Kube\<close>, \<open>Local\<close>: \<open>internal/execution/kubernetes\<close> and \<open>internal/execution/local\<close>, the three
    executors, each an interpretation of \<open>canal\<close>. Loops that poll take fuel; \<open>esperarSair_desiste\<close> shows how
    much is enough for the wait that has a time limit.
  \<^item> \<open>Auth\<close>, \<open>Config\<close>, \<open>Branding\<close>, \<open>Grafo\<close>: \<open>internal/auth\<close>, \<open>internal/config\<close>, \<open>internal/branding\<close> and
    \<open>internal/api/graph.go\<close>: the credential and the gate in front of the pages, the configuration and what it
    refuses at boot, the brand with the style sheet made of it, the drawing of a workflow.

  \<^bold>\<open>The kit, from the source to the table.\<close>
  \<^item> \<open>Valores\<close>, \<open>Pycompat\<close>, \<open>Registro\<close>: the values decoders give, the two texts of a value (Go and Python), the
    canonical JSON, the chain of transformers (\<open>sdk/transform.go\<close>, \<open>mapping.go\<close>, \<open>ingestion.go\<close>) and the
    deterministic identifier (\<open>sdk/internal/core/types.go\<close>). A text of values is an interface (the locale
    \<open>renderizador\<close>) with both texts as instances.
  \<^item> \<open>Extracao\<close>, \<open>Expansao\<close>: \<open>sdk/extract/extract.go\<close> (pagination, retries, waits, the rows of each format) and
    \<open>sdk/expand.go\<close> (slicing a response, refusing one). The walk over the pages takes as fuel the page limit
    of the source, which the code has too.
  \<^item> \<open>Destino\<close>, \<open>Carga\<close>: locations, declared schemas, the checks of a declaration and the \<open>MERGE\<close> statement
    (\<open>sdk/internal/core\<close>, \<open>sdk/load\<close>), and the loader with both its strategies, over a warehouse that is a
    record of functions on a state of its own.
  \<^item> \<open>Contexto\<close>, \<open>Fachada\<close>: what the engine puts in the environment of a step as the kit reads it back, the
    BigQuery destination, and the pipeline (\<open>sdk/sdk.go\<close>, \<open>target.go\<close>, \<open>pipeline.go\<close>). Shown, through every part:
    a pipeline that ends well has appended exactly the rows that came out of its chain.

  \<^item> \<open>Cofre\<close>, \<open>Credencial\<close>: the envelope of a credential and its two stores (\<open>sdk/internal/core/credenvelope.go\<close>,
    \<open>credstore.go\<close>, \<open>sdk/store/gcs/credential.go\<close>), both interpretations of the contract of a store (the locale
    \<open>cofre_contrato\<close>), and the credential itself: cache, login, renewal and the rotation of its cookies
    (\<open>sdk/internal/core/auth.go\<close>, \<open>sdk/extract/auth.go\<close>, \<open>credjar.go\<close>). Shown: a store never gives what was not
    saved, a newer value is never replaced, what a renewal reissues reaches the pages and the next run.
  \<^item> \<open>Muitas\<close>: the fan-out over several sources (\<open>sdk/from/many.go\<close>): workers, feeder and consumer as a relation
    of exchanges over the two channels. Shown: read to its end it yields every record once, and whatever
    fails, and wherever the caller stops, the exchanges end with no worker left.
  \<^item> \<open>Arquivos\<close>: files of records (\<open>sdk/to/files.go\<close>, \<open>sdk/from/files.go\<close>), on disk and in object storage. Shown:
    what is written as CSV is read back from the path that is reported, and a failing write leaves nothing.

  \<^bold>\<open>Properties.\<close> The text before a theorem that carries a number (C1 and so on) states one property of the
  program. Theorems without a number are the same kind of statement, less central; those named for a loss, a
  collision or a refusal show on concrete inputs where the code and its documentation part.

  \<^bold>\<open>Not modelled.\<close> The pages (\<open>web/\<close>, generated by templ) and the HTTP handlers that fill them, the command
  lines (\<open>cmd/\<close>), logging, the pool of connections, the client of the Kubernetes API and the watch on it,
  the destinations and sources of the kit in SQL data bases other than BigQuery, the
  preview of a dry run, and the examples: they format, or call a library, or repeat a part that
  is modelled for another vendor. Goroutines and channels appear as orders and lists, durations and log
  lines are left out, and a byte count stands for a length.
\<close>

end
